(* ===== verification/Prelude.thy ===== *)
theory Prelude
  imports Main
begin

text \<open>
  Shared vocabulary of the development: how the C++ program can fail, fixed-width signed
  arithmetic, the parts of \<open>std::map\<close> the order book uses, and generic lemmas.

  A C++ call that returns normally is \<open>Inr v\<close>. A call that ends the process or whose
  behaviour is undefined is \<open>Inl e\<close>, where \<open>e\<close> says which check stopped it: a Boost.Contract
  precondition or postcondition, an \<open>assert\<close> (the deployed build, \<open>scripts/build.sh\<close>, sets no
  \<open>NDEBUG\<close>, so both are active), an exception no caller catches, signed overflow, an access
  outside an array, an invalid iterator, or the use of a variable that was never assigned.
\<close>

section \<open>Results\<close>

datatype cpp_error =
    Contract_Violation
  | Assertion_Failure
  | Out_Of_Range
  | Bad_Optional_Access
  | Invalid_Argument
  | Runtime_Error
  | Signed_Overflow
  | Division_By_Zero
  | Out_Of_Bounds
  | Invalid_Iterator
  | Null_Pointer
  | Indeterminate_Value
  | Terminated

type_synonym 'a result = "cpp_error + 'a"

definition rbind :: "'a result \<Rightarrow> ('a \<Rightarrow> 'b result) \<Rightarrow> 'b result" where
  "rbind m f = (case m of Inl e \<Rightarrow> Inl e | Inr x \<Rightarrow> f x)"

definition succeeds :: "'a result \<Rightarrow> bool" where
  "succeeds m \<longleftrightarrow> (case m of Inl _ \<Rightarrow> False | Inr _ \<Rightarrow> True)"

definition opt_at :: "cpp_error \<Rightarrow> 'a option \<Rightarrow> 'a result" where
  "opt_at e x = (case x of None \<Rightarrow> Inl e | Some v \<Rightarrow> Inr v)"

named_theorems result_simps "inversion and evaluation of results"

lemma rbind_Inr [simp]: "rbind (Inr x) f = f x"
  by (simp add: rbind_def)

lemma rbind_Inl [simp]: "rbind (Inl e) f = Inl e"
  by (simp add: rbind_def)

lemma rbind_eq_Inr [result_simps]:
  "rbind m f = Inr y \<longleftrightarrow> (\<exists>x. m = Inr x \<and> f x = Inr y)"
  by (cases m) auto

lemma rbind_eq_Inl [result_simps]:
  "rbind m f = Inl e \<longleftrightarrow> m = Inl e \<or> (\<exists>x. m = Inr x \<and> f x = Inl e)"
  by (cases m) auto

lemma rbind_cong [fundef_cong]:
  "m = m' \<Longrightarrow> (\<And>x. m' = Inr x \<Longrightarrow> f x = f' x) \<Longrightarrow> rbind m f = rbind m' f'"
  by (cases m') auto

lemma succeeds_iff [result_simps]: "succeeds m \<longleftrightarrow> (\<exists>x. m = Inr x)"
  by (cases m) (auto simp: succeeds_def)

lemma opt_at_eq_Inr [result_simps]: "opt_at e x = Inr v \<longleftrightarrow> x = Some v"
  by (cases x) (auto simp: opt_at_def)

lemma opt_at_Some [simp]: "opt_at e (Some v) = Inr v"
  by (simp add: opt_at_def)

lemma opt_at_None [simp]: "opt_at e None = Inl e"
  by (simp add: opt_at_def)

section \<open>Signed machine integers\<close>

text \<open>
  A value of type \<open>int\<close> or \<open>std::int32_t\<close> is a HOL integer, and every arithmetic operation
  on it passes its exact result through \<open>i32\<close>: overflow of a signed type is undefined in
  C++ and is the error \<open>Signed_Overflow\<close>. \<open>i64\<close> does the same for \<open>std::int64_t\<close>.
\<close>

definition in_i32 :: "int \<Rightarrow> bool" where
  "in_i32 x \<longleftrightarrow> - 2147483648 \<le> x \<and> x \<le> 2147483647"

definition in_i64 :: "int \<Rightarrow> bool" where
  "in_i64 x \<longleftrightarrow> - 9223372036854775808 \<le> x \<and> x \<le> 9223372036854775807"

definition i32 :: "int \<Rightarrow> int result" where
  "i32 x = (if in_i32 x then Inr x else Inl Signed_Overflow)"

definition i64 :: "int \<Rightarrow> int result" where
  "i64 x = (if in_i64 x then Inr x else Inl Signed_Overflow)"

text \<open>C++ division truncates towards zero.\<close>

definition cdiv :: "int \<Rightarrow> int \<Rightarrow> int result" where
  "cdiv a b =
     (if b = 0 then Inl Division_By_Zero else i32 (sgn a * sgn b * (\<bar>a\<bar> div \<bar>b\<bar>)))"

lemma i32_eq_Inr [result_simps]: "i32 x = Inr y \<longleftrightarrow> in_i32 x \<and> y = x"
  by (auto simp: i32_def)

lemma i64_eq_Inr [result_simps]: "i64 x = Inr y \<longleftrightarrow> in_i64 x \<and> y = x"
  by (auto simp: i64_def)

lemma i32_in_range [simp]: "in_i32 x \<Longrightarrow> i32 x = Inr x"
  by (simp add: i32_def)

lemma i64_in_range [simp]: "in_i64 x \<Longrightarrow> i64 x = Inr x"
  by (simp add: i64_def)

lemma in_i32_between: "in_i32 hi \<Longrightarrow> 0 \<le> x \<Longrightarrow> x \<le> hi \<Longrightarrow> in_i32 x"
  by (simp add: in_i32_def)

lemma in_i32_imp_in_i64: "in_i32 x \<Longrightarrow> in_i64 x"
  by (simp add: in_i32_def in_i64_def)

lemma cdiv_nonneg:
  assumes "0 \<le> a" "0 < b" "in_i32 a"
  shows "cdiv a b = Inr (a div b)"
proof -
  have q: "0 \<le> a div b" "a div b \<le> a"
    using assms zdiv_mono2 [of a 1 b] by (simp_all add: pos_imp_zdiv_nonneg_iff)
  have "sgn a * sgn b * (\<bar>a\<bar> div \<bar>b\<bar>) = a div b"
    using assms by (cases "a = 0") auto
  moreover have "in_i32 (a div b)"
    using in_i32_between [OF assms(3) q] .
  ultimately show ?thesis
    using assms(2) by (simp add: cdiv_def)
qed

section \<open>Ordered maps\<close>

text \<open>
  \<open>std::map<int, V>\<close> as the list of its entries in ascending key order: \<open>map_of\<close> is \<open>find\<close>,
  \<open>hd\<close> and \<open>last\<close> are the entries at \<open>begin()\<close> and \<open>std::prev(end())\<close>, \<open>sm_update\<close> writes the
  value of a key (inserting it where it is missing, as \<open>operator[]\<close> does), \<open>sm_set\<close> assigns
  through a reference to the value of a key that is there, and \<open>sm_erase\<close> is \<open>erase\<close>.
\<close>

fun sm_update :: "int \<Rightarrow> 'v \<Rightarrow> (int \<times> 'v) list \<Rightarrow> (int \<times> 'v) list" where
  "sm_update k v [] = [(k, v)]"
| "sm_update k v ((k', v') # m) =
     (if k < k' then (k, v) # (k', v') # m
      else if k = k' then (k, v) # m
      else (k', v') # sm_update k v m)"

definition sm_erase :: "int \<Rightarrow> (int \<times> 'v) list \<Rightarrow> (int \<times> 'v) list" where
  "sm_erase k m = filter (\<lambda>(k', _). k' \<noteq> k) m"

definition sm_set :: "int \<Rightarrow> 'v \<Rightarrow> (int \<times> 'v) list \<Rightarrow> (int \<times> 'v) list" where
  "sm_set k v m = map (\<lambda>(k', v'). (k', if k' = k then v else v')) m"

definition sm_sorted :: "(int \<times> 'v) list \<Rightarrow> bool" where
  "sm_sorted m \<longleftrightarrow> sorted_wrt (<) (map fst m)"

lemma sm_sorted_Nil [simp]: "sm_sorted []"
  by (simp add: sm_sorted_def)

lemma sm_sorted_Cons:
  "sm_sorted ((k, v) # m) \<longleftrightarrow> (\<forall>k' \<in> fst ` set m. k < k') \<and> sm_sorted m"
  by (simp add: sm_sorted_def)

lemma sm_sorted_append:
  "sm_sorted (m @ m') \<longleftrightarrow>
     sm_sorted m \<and> sm_sorted m' \<and> (\<forall>k \<in> fst ` set m. \<forall>k' \<in> fst ` set m'. k < k')"
  by (auto simp: sm_sorted_def sorted_wrt_append)

lemma sm_sorted_distinct: "sm_sorted m \<Longrightarrow> distinct (map fst m)"
  unfolding sm_sorted_def by (metis strict_sorted_iff)

lemma keys_sm_update [simp]: "fst ` set (sm_update k v m) = insert k (fst ` set m)"
  by (induction k v m rule: sm_update.induct) auto

lemma sorted_sm_update: "sm_sorted m \<Longrightarrow> sm_sorted (sm_update k v m)"
  by (induction k v m rule: sm_update.induct) (auto simp: sm_sorted_Cons)

lemma map_of_sm_update: "sm_sorted m \<Longrightarrow> map_of (sm_update k v m) = (map_of m)(k \<mapsto> v)"
  by (induction k v m rule: sm_update.induct) (auto simp: sm_sorted_Cons fun_eq_iff)

lemma set_sm_erase [simp]: "set (sm_erase k m) = {e \<in> set m. fst e \<noteq> k}"
  by (auto simp: sm_erase_def)

lemma sorted_sm_erase: "sm_sorted m \<Longrightarrow> sm_sorted (sm_erase k m)"
  by (induction m) (auto simp: sm_sorted_Cons sm_erase_def)

lemma map_of_sm_erase: "map_of (sm_erase k m) = (map_of m)(k := None)"
  by (induction m) (auto simp: sm_erase_def)

lemma length_sm_erase_less:
  assumes "(k, v) \<in> set m"
  shows "length (sm_erase k m) < length m"
proof -
  have "sm_erase k m \<noteq> m"
    using assms set_sm_erase [of k m] by force
  then show ?thesis
    by (metis filter_id_conv length_filter_less sm_erase_def)
qed

lemma sm_erase_absent [simp]: "k \<notin> fst ` set m \<Longrightarrow> sm_erase k m = m"
  by (induction m) (auto simp: sm_erase_def)

text \<open>Updating and erasing in a sorted map, at a known position.\<close>

lemma sm_update_at:
  assumes "sm_sorted (m1 @ (k, v) # m2)"
  shows "sm_update k v' (m1 @ (k, v) # m2) = m1 @ (k, v') # m2"
  using assms by (induction m1) (auto simp: sm_sorted_Cons)

lemma length_sm_set [simp]: "length (sm_set k v m) = length m"
  by (simp add: sm_set_def)

lemma keys_sm_set [simp]: "map fst (sm_set k v m) = map fst m"
  by (simp add: sm_set_def case_prod_unfold comp_def)

lemma key_set_sm_set [simp]: "fst ` set (sm_set k v m) = fst ` set m"
  by (metis keys_sm_set list.set_map)

lemma sorted_sm_set [simp]: "sm_sorted (sm_set k v m) = sm_sorted m"
  by (simp add: sm_sorted_def)

lemma sm_set_at:
  assumes "sm_sorted (m1 @ (k, v) # m2)"
  shows "sm_set k v' (m1 @ (k, v) # m2) = m1 @ (k, v') # m2"
proof -
  have "k \<notin> fst ` set m1" "k \<notin> fst ` set m2"
    using assms by (auto simp: sm_sorted_append sm_sorted_Cons)
  then show ?thesis
    by (force simp: sm_set_def intro!: map_idI)
qed

lemma sm_erase_at:
  assumes "sm_sorted (m1 @ (k, v) # m2)"
  shows "sm_erase k (m1 @ (k, v) # m2) = m1 @ m2"
proof -
  have "k \<notin> fst ` set m1" "k \<notin> fst ` set m2"
    using assms by (auto simp: sm_sorted_append sm_sorted_Cons)
  then show ?thesis
    by (simp add: sm_erase_def) (metis sm_erase_absent sm_erase_def)
qed

lemma sm_update_new:
  assumes "sm_sorted m" "k \<notin> fst ` set m"
  shows "\<exists>m1 m2. m = m1 @ m2 \<and> sm_update k v m = m1 @ (k, v) # m2"
  using assms
proof (induction m)
  case Nil
  then show ?case by simp
next
  case (Cons e m)
  obtain k' v' where e: "e = (k', v')" by force
  show ?case
  proof (cases "k < k'")
    case True
    then show ?thesis using e by (intro exI [of _ "[]"] exI [of _ "e # m"]) simp
  next
    case False
    with Cons.prems e have "k' < k" "k \<notin> fst ` set m" "sm_sorted m"
      by (auto simp: sm_sorted_Cons)
    then obtain m1 m2 where "m = m1 @ m2" "sm_update k v m = m1 @ (k, v) # m2"
      using Cons.IH by blast
    then show ?thesis
      using e \<open>k' < k\<close> by (intro exI [of _ "e # m1"] exI [of _ m2]) simp
  qed
qed

section \<open>C strings\<close>

text \<open>
  The characters a \<open>const char*\<close> obtained from a string denotes: up to the first NUL, which is
  what \<open>strlen\<close> counts and \<open>memcpy\<close> copies in the message structs.
\<close>

definition c_str :: "string \<Rightarrow> string" where
  "c_str s = takeWhile (\<lambda>c. c \<noteq> CHR 0x00) s"

definition strlen :: "string \<Rightarrow> nat" where
  "strlen s = length (c_str s)"

lemma c_str_id: "CHR 0x00 \<notin> set s \<Longrightarrow> c_str s = s"
  by (auto simp: c_str_def takeWhile_eq_all_conv)

end
