(* ===== verification/CoreTypes.thy ===== *)
theory CoreTypes
  imports Prelude
begin

text \<open>
  The data every service exchanges: the enumerations of \<open>libs/core/orders.h\<close> with their
  conversions from and to FIX values, the containers of \<open>libs/core/containers.h\<close>, the market
  data structs of \<open>libs/core/trade.h\<close> and \<open>libs/core/orderbook_snapshot.h\<close> with the checks
  of their constructors, the service names of \<open>libs/core/service.h\<close> and the constants of
  \<open>libs/core/constants.h\<close>.
\<close>

section \<open>Constants\<close>

definition MAX_TICKER_LENGTH :: nat where
  "MAX_TICKER_LENGTH = 5"

definition MAX_USERNAME_LENGTH :: nat where
  "MAX_USERNAME_LENGTH = 16"

definition UUID_LENGTH :: nat where
  "UUID_LENGTH = 37"

definition ORDER_BOOK_AGGREGATE_LEVELS :: nat where
  "ORDER_BOOK_AGGREGATE_LEVELS = 50"

definition max_user_count :: int where
  "max_user_count = 1000"

section \<open>Enumerations\<close>

datatype order_type = Limit | Market

datatype side = Bid | Ask

datatype time_in_force = Day | Gtc

datatype exec_trans_type =
    Exec_trans_new | Exec_trans_cancel | Exec_trans_correct | Exec_trans_status

datatype exec_type_or_order_status =
    Status_new | Status_partially_filled | Status_filled | Status_canceled
  | Status_pending_cancel | Status_rejected

type_synonym exec_type = exec_type_or_order_status
type_synonym order_status = exec_type_or_order_status

text \<open>
  FIX field values are one character; the constants QuickFIX names are constructors and every
  other character is \<open>Other\<close>. Each conversion asserts that the value is one it supports.
\<close>

datatype fix_side = FIX_Side_BUY | FIX_Side_SELL | FIX_Side_Other char
datatype fix_ord_type = FIX_OrdType_LIMIT | FIX_OrdType_MARKET | FIX_OrdType_Other char
datatype fix_tif = FIX_TIF_DAY | FIX_TIF_GTC | FIX_TIF_Other char

fun convert_side_to_internal :: "fix_side \<Rightarrow> side result" where
  "convert_side_to_internal FIX_Side_BUY = Inr Bid"
| "convert_side_to_internal FIX_Side_SELL = Inr Ask"
| "convert_side_to_internal (FIX_Side_Other _) = Inl Assertion_Failure"

fun convert_ord_type_to_internal :: "fix_ord_type \<Rightarrow> order_type result" where
  "convert_ord_type_to_internal FIX_OrdType_LIMIT = Inr Limit"
| "convert_ord_type_to_internal FIX_OrdType_MARKET = Inr Market"
| "convert_ord_type_to_internal (FIX_OrdType_Other _) = Inl Assertion_Failure"

fun convert_tif_to_internal :: "fix_tif \<Rightarrow> time_in_force result" where
  "convert_tif_to_internal FIX_TIF_DAY = Inr Day"
| "convert_tif_to_internal FIX_TIF_GTC = Inr Gtc"
| "convert_tif_to_internal (FIX_TIF_Other _) = Inl Assertion_Failure"

fun convert_side_to_fix :: "side \<Rightarrow> fix_side result" where
  "convert_side_to_fix Bid = Inr FIX_Side_BUY"
| "convert_side_to_fix Ask = Inr FIX_Side_SELL"

fun convert_ord_type_to_fix :: "order_type \<Rightarrow> fix_ord_type result" where
  "convert_ord_type_to_fix Limit = Inr FIX_OrdType_LIMIT"
| "convert_ord_type_to_fix Market = Inr FIX_OrdType_MARKET"

text \<open>Only \<open>day\<close> is supported on the way out: \<open>gtc\<close> fails the assertion.\<close>

fun convert_tif_to_fix :: "time_in_force \<Rightarrow> fix_tif result" where
  "convert_tif_to_fix Day = Inr FIX_TIF_DAY"
| "convert_tif_to_fix Gtc = Inl Assertion_Failure"

section \<open>Containers\<close>

record new_order_single =
  nos_sender_comp_id :: string
  nos_target_comp_id :: string
  nos_order_id :: "int option"
  nos_cl_ord_id :: int
  nos_symbol :: string
  nos_side :: side
  nos_order_qty :: int
  nos_ord_type :: order_type
  nos_price :: "int option"
  nos_time_in_force :: time_in_force

record cancel_order_request =
  cor_sender_comp_id :: string
  cor_target_comp_id :: string
  cor_order_id :: "int option"
  cor_orig_cl_ord_id :: int
  cor_cl_ord_id :: int
  cor_symbol :: string
  cor_side :: side
  cor_order_qty :: int

record execution_report =
  er_sender_comp_id :: string
  er_target_comp_id :: string
  er_order_id :: int
  er_cl_order_id :: int
  er_orig_cl_ord_id :: "int option"
  er_exec_id :: string
  er_exec_trans_type :: exec_trans_type
  er_exec_type :: exec_type
  er_ord_status :: order_status
  er_text :: "string option"
  er_symbol :: string
  er_side :: side
  er_price :: "int option"
  er_time_in_force :: time_in_force
  er_leaves_qty :: int
  er_cum_qty :: int
  er_avg_px :: int

record fill_cost_query =
  fcq_symbol :: string
  fcq_quantity :: int
  fcq_side :: side

record fill_cost_response =
  fcr_total_cost :: "int option"

record trade_container =
  tc_ticker :: string
  tc_price :: int
  tc_quantity :: int
  tc_trade_id :: string
  tc_taker_id :: string
  tc_maker_id :: string
  tc_taker_order_id :: int
  tc_maker_order_id :: int
  tc_is_taker_buyer :: bool

record cancel_order_response =
  crs_order_id :: int
  crs_cl_ord_id :: int
  crs_success :: bool

datatype container =
    New_Order_Single new_order_single
  | Cancel_Order_Request cancel_order_request
  | Execution_Report execution_report
  | Fill_Cost_Query fill_cost_query
  | Fill_Cost_Response fill_cost_response
  | Trade_Container trade_container
  | Cancel_Order_Response cancel_order_response

section \<open>Market data structs\<close>

text \<open>
  The fixed-size character fields of \<open>Trade\<close> hold the C string the constructor copied;
  \<open>copy_cstr cap s\<close> is its assertion and copy for a field of \<open>cap\<close> bytes, which leaves room
  for the terminating NUL at index \<open>strlen s\<close>.
\<close>

definition copy_cstr :: "nat \<Rightarrow> string \<Rightarrow> string result" where
  "copy_cstr cap s = (if 0 < strlen s \<and> strlen s < cap then Inr (c_str s) else Inl Assertion_Failure)"

record trade =
  tr_ticker :: string
  tr_price :: int
  tr_quantity :: int
  tr_trade_id :: string
  tr_taker_id :: string
  tr_maker_id :: string
  tr_taker_order_id :: int
  tr_maker_order_id :: int
  tr_is_taker_buyer :: bool
  tr_create_timestamp :: nat

definition make_trade ::
  "string \<Rightarrow> int \<Rightarrow> int \<Rightarrow> string \<Rightarrow> string \<Rightarrow> string \<Rightarrow> int \<Rightarrow> int \<Rightarrow> bool \<Rightarrow> nat \<Rightarrow> trade result" where
  "make_trade ticker_str price quantity trade_id taker_id maker_id taker_order_id maker_order_id
     is_taker_buyer create_timestamp =
     rbind (copy_cstr MAX_TICKER_LENGTH ticker_str) (\<lambda>tk.
     rbind (copy_cstr UUID_LENGTH trade_id) (\<lambda>ti.
     rbind (copy_cstr MAX_USERNAME_LENGTH taker_id) (\<lambda>ta.
     rbind (copy_cstr MAX_USERNAME_LENGTH maker_id) (\<lambda>ma.
       Inr \<lparr>tr_ticker = tk, tr_price = price, tr_quantity = quantity, tr_trade_id = ti,
            tr_taker_id = ta, tr_maker_id = ma, tr_taker_order_id = taker_order_id,
            tr_maker_order_id = maker_order_id, tr_is_taker_buyer = is_taker_buyer,
            tr_create_timestamp = create_timestamp\<rparr>))))"

record level_aggregate =
  la_price :: int
  la_quantity :: int

record top_order_book_level_aggregates =
  tob_ticker :: string
  tob_bid_level_aggregates :: "level_aggregate list"
  tob_ask_level_aggregates :: "level_aggregate list"
  tob_create_timestamp :: nat

text \<open>
  The constructor of the snapshot asserts \<open>0 < strlen < 5\<close> like the trade's, but terminates the
  copy at index \<open>strlen + 1\<close>: for a ticker of four characters that is one past the end of
  \<open>char ticker[5]\<close>.
\<close>

definition make_top_order_book_level_aggregates ::
  "string \<Rightarrow> nat \<Rightarrow> top_order_book_level_aggregates result" where
  "make_top_order_book_level_aggregates ticker_str create_timestamp =
     rbind (copy_cstr MAX_TICKER_LENGTH ticker_str) (\<lambda>tk.
       if strlen ticker_str + 1 < MAX_TICKER_LENGTH then
         Inr \<lparr>tob_ticker = tk,
              tob_bid_level_aggregates =
                replicate ORDER_BOOK_AGGREGATE_LEVELS \<lparr>la_price = 0, la_quantity = 0\<rparr>,
              tob_ask_level_aggregates =
                replicate ORDER_BOOK_AGGREGATE_LEVELS \<lparr>la_price = 0, la_quantity = 0\<rparr>,
              tob_create_timestamp = create_timestamp\<rparr>
       else Inl Out_Of_Bounds)"

section \<open>Services\<close>

datatype service = Gateway_Service | Oms_Service | Me_Service | Mdp_Service | Oracle_Service

fun service_enum_to_str :: "service \<Rightarrow> string" where
  "service_enum_to_str Gateway_Service = ''gateway''"
| "service_enum_to_str Oms_Service = ''oms''"
| "service_enum_to_str Me_Service = ''me''"
| "service_enum_to_str Mdp_Service = ''mdp''"
| "service_enum_to_str Oracle_Service = ''oracle''"

definition service_str_to_enum :: "string \<Rightarrow> string + service" where
  "service_str_to_enum s =
     (if s = ''gateway'' then Inr Gateway_Service
      else if s = ''oms'' then Inr Oms_Service
      else if s = ''me'' then Inr Me_Service
      else if s = ''mdp'' then Inr Mdp_Service
      else if s = ''oracle'' then Inr Oracle_Service
      else Inl (''trying to convert unknown service str to enum: '' @ s))"

section \<open>Lemmas\<close>

lemma side_neq_Bid [simp]: "s \<noteq> Bid \<longleftrightarrow> s = Ask"
  by (cases s) auto

lemma copy_cstr_eq_Inr [result_simps]:
  "copy_cstr cap s = Inr t \<longleftrightarrow> 0 < strlen s \<and> strlen s < cap \<and> t = c_str s"
  by (auto simp: copy_cstr_def)

lemma convert_side_roundtrip:
  "rbind (convert_side_to_fix s) convert_side_to_internal = Inr s"
  by (cases s) auto

lemma convert_ord_type_roundtrip:
  "rbind (convert_ord_type_to_fix t) convert_ord_type_to_internal = Inr t"
  by (cases t) auto

lemma service_roundtrip: "service_str_to_enum (service_enum_to_str v) = Inr v"
  by (cases v) (auto simp: service_str_to_enum_def)

lemma service_str_to_enum_Inr:
  "service_str_to_enum s = Inr v \<longleftrightarrow> s = service_enum_to_str v"
  by (cases v) (auto simp: service_str_to_enum_def)

end
