(* ===== verification/Uuid.thy ===== *)
theory Uuid
  imports CoreTypes "HOL-Library.Word"
begin

unbundle bit_operations_syntax

text \<open>
  \<open>core::uuid::UUIDGeneratorWrapper\<close> of \<open>libs/uuid/uuid.h\<close>. The 16 random bytes come from
  Boost's version 7 generator, which is not part of the repository: they are an argument here.
  What the repository adds is the canonical text form, written into a buffer of \<open>UUID_LENGTH\<close>
  bytes, and that is modelled and shown to fit and to be injective.
\<close>

definition HEX_DIGITS :: string where
  "HEX_DIGITS = ''0123456789abcdef''"

definition hex_pair :: "8 word \<Rightarrow> string" where
  "hex_pair b = [HEX_DIGITS ! unat (drop_bit 4 b AND 15), HEX_DIGITS ! unat (b AND 15)]"

text \<open>The loop over \<open>id.data[i]\<close>; the first argument is the loop index.\<close>

fun format_uuid_from :: "nat \<Rightarrow> 8 word list \<Rightarrow> string" where
  "format_uuid_from i [] = []"
| "format_uuid_from i (b # bs) =
     (if i = 4 \<or> i = 6 \<or> i = 8 \<or> i = 10 then ''-'' else []) @ hex_pair b @
     format_uuid_from (Suc i) bs"

definition format_uuid_canonical :: "8 word list \<Rightarrow> string" where
  "format_uuid_canonical bytes = format_uuid_from 0 bytes"

lemma nibble_bound: "unat ((b :: 8 word) AND 15) < 16"
proof -
  have "unat (b AND 15) \<le> unat (15 :: 8 word)"
    by (rule word_and_le1 [THEN word_le_nat_alt [THEN iffD1]])
  then show ?thesis by simp
qed

lemma HEX_DIGITS_distinct: "distinct HEX_DIGITS" and length_HEX_DIGITS: "length HEX_DIGITS = 16"
  by (simp_all add: HEX_DIGITS_def)

lemma HEX_DIGITS_no_nul: "i < 16 \<Longrightarrow> HEX_DIGITS ! i \<noteq> CHR 0x00"
proof -
  assume "i < 16"
  then have "HEX_DIGITS ! i \<in> set HEX_DIGITS"
    by (simp add: length_HEX_DIGITS)
  then show ?thesis by (auto simp: HEX_DIGITS_def)
qed

lemma low_nibble: "unat ((b :: 8 word) AND 15) = unat b mod 16"
proof -
  have "b AND 15 = take_bit 4 b"
    by (simp add: take_bit_eq_mask mask_eq_exp_minus_1)
  then show ?thesis
    by (simp add: take_bit_eq_mod unat_mod)
qed

lemma high_nibble: "unat (drop_bit 4 (b :: 8 word) AND 15) = unat b div 16"
proof -
  have "unat b < 256"
    using unsigned_less [of b, where ?'a = nat] by simp
  then show ?thesis
    by (simp add: low_nibble drop_bit_eq_div unat_div less_mult_imp_div_less)
qed

lemma hex_pair_inj: "hex_pair b = hex_pair c \<Longrightarrow> b = c"
proof -
  assume "hex_pair b = hex_pair c"
  then have "unat b div 16 = unat c div 16" "unat b mod 16 = unat c mod 16"
    using nibble_bound [of b] nibble_bound [of c] nibble_bound [of "drop_bit 4 b"]
      nibble_bound [of "drop_bit 4 c"]
    by (auto simp: hex_pair_def nth_eq_iff_index_eq [OF HEX_DIGITS_distinct] length_HEX_DIGITS
        low_nibble [of b] low_nibble [of c] high_nibble)
  then have "unat b = unat c"
    by (metis div_mult_mod_eq)
  then show "b = c" by (simp add: unsigned_word_eqI)
qed

lemma format_uuid_from_inj:
  "length bs = length cs \<Longrightarrow> format_uuid_from i bs = format_uuid_from i cs \<Longrightarrow> bs = cs"
proof (induction bs arbitrary: i cs)
  case Nil
  then show ?case by simp
next
  case (Cons b bs)
  then obtain c cs' where cs: "cs = c # cs'" by (cases cs) auto
  with Cons.prems have "hex_pair b = hex_pair c" "format_uuid_from (Suc i) bs = format_uuid_from (Suc i) cs'"
    by (auto simp: hex_pair_def split: if_splits)
  then show ?case
    using Cons cs by (auto dest: hex_pair_inj)
qed

lemma format_uuid_from_no_nul: "CHR 0x00 \<notin> set (format_uuid_from i bs)"
  using HEX_DIGITS_no_nul nibble_bound
  by (induction i bs rule: format_uuid_from.induct) (force simp: hex_pair_def)+

lemma length_format_uuid_from:
  "length (format_uuid_from i bs) = 2 * length bs + card ({4, 6, 8, 10} \<inter> {i..<i + length bs})"
proof (induction bs arbitrary: i)
  case Nil
  then show ?case by simp
next
  case (Cons b bs)
  have "{i..<i + length (b # bs)} = insert i {Suc i..<Suc i + length bs}"
    by auto
  then have "card ({4, 6, 8, 10} \<inter> {i..<i + length (b # bs)}) =
      (if i \<in> {4, 6, 8, 10} then 1 else 0) + card ({4, 6, 8, 10} \<inter> {Suc i..<Suc i + length bs})"
    by (simp add: Int_insert_right)
  then show ?case
    using Cons.IH [of "Suc i"] by (simp add: hex_pair_def)
qed

lemma length_format_uuid:
  assumes "length bytes = 16"
  shows "length (format_uuid_canonical bytes) = 36"
proof -
  have "{4, 6, 8, 10} \<inter> {0..<16} = {4, 6, 8, 10 :: nat}" by auto
  then show ?thesis
    using assms length_format_uuid_from [of 0 bytes] by (simp add: format_uuid_canonical_def)
qed

lemma strlen_format_uuid: "length bytes = 16 \<Longrightarrow> strlen (format_uuid_canonical bytes) = 36"
  using format_uuid_from_no_nul [of 0 bytes]
  by (simp add: strlen_def c_str_id length_format_uuid format_uuid_canonical_def [symmetric])

end
