(* ===== verification/LimitOrderBook.thy ===== *)
theory LimitOrderBook
  imports Uuid
begin

text \<open>
  The limit order book of the matching engine: \<open>engine::Order\<close>
  (\<open>services/matching_engine/src/order.cpp\<close>) and \<open>engine::LimitOrderBook\<close>
  (\<open>limit_order_book.h\<close>, \<open>limit_order_book.cpp\<close>).

  A \<open>std::list<Order>\<close> is a list of nodes, each an order with the address of its list node, so
  that the iterators kept in \<open>order_id_map\<close> are addresses and a dangling one is visible as an
  address no level holds. The trade publisher is the dependency the constructor receives: its
  state is the type variable of the book record and its \<open>try_publish\<close> an argument. The queue
  \<open>trade_events\<close> belongs to the matching engine and is passed through; \<open>tick\<close> counts the calls
  of \<open>create_trade\<close>, which read the clock and the UUID generator of the environment.
\<close>

section \<open>Orders\<close>

record order =
  ord_id :: int
  ord_price :: int
  ord_quantity :: int
  ord_side :: side
  ord_trader_id :: string

definition order_fill :: "order \<Rightarrow> int \<Rightarrow> order result" where
  "order_fill ord fill_quantity =
     (if fill_quantity \<le> ord_quantity ord then
        rbind (i32 (ord_quantity ord - fill_quantity)) (\<lambda>q. Inr (ord\<lparr>ord_quantity := q\<rparr>))
      else Inl Contract_Violation)"

section \<open>The book and its environment\<close>

definition MARKET_BID_ORDER_PRICE :: int where
  "MARKET_BID_ORDER_PRICE = 2147483647"

definition MARKET_ASK_ORDER_PRICE :: int where
  "MARKET_ASK_ORDER_PRICE = - 2147483648"

type_synonym node = "nat \<times> order"
type_synonym side_container = "(int \<times> node list) list"
type_synonym 'p try_publish = "'p \<Rightarrow> trade \<Rightarrow> bool \<times> 'p"

record env =
  env_uuid :: "nat \<Rightarrow> 8 word list"
  env_now_ms :: "nat \<Rightarrow> nat"

record 'p limit_order_book =
  lob_trade_publisher :: 'p
  lob_ticker :: string
  lob_bids :: side_container
  lob_asks :: side_container
  lob_order_id_map :: "int \<rightharpoonup> nat"
  lob_next_node :: nat

definition make_limit_order_book :: "string \<Rightarrow> 'p \<Rightarrow> 'p limit_order_book" where
  "make_limit_order_book ticker publisher =
     \<lparr>lob_trade_publisher = publisher, lob_ticker = ticker, lob_bids = [], lob_asks = [],
      lob_order_id_map = Map.empty, lob_next_node = 0\<rparr>"

fun opposite :: "side \<Rightarrow> side" where
  "opposite Bid = Ask"
| "opposite Ask = Bid"

definition get_side :: "'p limit_order_book \<Rightarrow> side \<Rightarrow> side_container" where
  "get_side lob s = (if s = Bid then lob_bids lob else lob_asks lob)"

definition set_side :: "side \<Rightarrow> side_container \<Rightarrow> 'p limit_order_book \<Rightarrow> 'p limit_order_book" where
  "set_side s c lob = (if s = Bid then lob\<lparr>lob_bids := c\<rparr> else lob\<lparr>lob_asks := c\<rparr>)"

definition side_nodes :: "side_container \<Rightarrow> node list" where
  "side_nodes c = concat (map snd c)"

definition all_nodes :: "'p limit_order_book \<Rightarrow> node list" where
  "all_nodes lob = side_nodes (lob_bids lob) @ side_nodes (lob_asks lob)"

section \<open>Trades\<close>

definition create_trade ::
  "env \<Rightarrow> nat \<Rightarrow> int \<Rightarrow> int \<Rightarrow> string \<Rightarrow> string \<Rightarrow> string \<Rightarrow> int \<Rightarrow> int \<Rightarrow> side \<Rightarrow> trade result" where
  "create_trade env tick taker_order_id maker_order_id taker_id maker_id ticker price quantity
     taker_side =
     (if taker_order_id \<ge> 0 \<and> maker_order_id \<ge> 0 \<and> taker_order_id \<noteq> maker_order_id \<and>
         taker_id \<noteq> [] \<and> maker_id \<noteq> [] \<and> ticker \<noteq> [] \<and> price > 0 \<and> quantity > 0
      then make_trade ticker price quantity (format_uuid_canonical (env_uuid env tick)) taker_id
             maker_id taker_order_id maker_order_id (taker_side = Bid) (env_now_ms env tick)
      else Inl Contract_Violation)"

section \<open>Matching\<close>

text \<open>
  The arguments of \<open>match_order\<close> that its loops only read, and the variables they change. The
  inner loop walks one price level from its front; the outer loop takes the best level of the
  far side until the order is filled, the far side is empty or the best price does not cross.
\<close>

record 'p match_args =
  ma_env :: env
  ma_try_publish :: "'p try_publish"
  ma_ticker :: string
  ma_price :: int
  ma_order_id :: int
  ma_side :: side
  ma_broker_id :: string

record 'p match_state =
  ms_remaining :: int
  ms_order_id_map :: "int \<rightharpoonup> nat"
  ms_publisher :: 'p
  ms_trade_events :: "trade list"
  ms_tick :: nat

definition emit_trade :: "'p match_args \<Rightarrow> trade \<Rightarrow> 'p match_state \<Rightarrow> 'p match_state" where
  "emit_trade a t ms =
     ms\<lparr>ms_publisher := snd (ma_try_publish a (ms_publisher ms) t),
        ms_trade_events := ms_trade_events ms @ [t],
        ms_tick := Suc (ms_tick ms)\<rparr>"

definition trade_with ::
  "'p match_args \<Rightarrow> 'p match_state \<Rightarrow> order \<Rightarrow> int \<Rightarrow> trade result" where
  "trade_with a ms front qty =
     create_trade (ma_env a) (ms_tick ms) (ma_order_id a) (ord_id front) (ma_broker_id a)
       (ord_trader_id front) (ma_ticker a) (ord_price front) qty (ma_side a)"

fun match_level ::
  "'p match_args \<Rightarrow> node list \<Rightarrow> 'p match_state \<Rightarrow> (node list \<times> 'p match_state) result" where
  "match_level a [] ms = Inr ([], ms)"
| "match_level a ((addr, front) # rest) ms =
     (if ms_remaining ms > 0 then
        if ms_remaining ms \<ge> ord_quantity front then
          rbind (i32 (ms_remaining ms - ord_quantity front)) (\<lambda>rem.
          rbind (trade_with a ms front (ord_quantity front)) (\<lambda>t.
            match_level a rest
              ((emit_trade a t (ms\<lparr>ms_remaining := rem\<rparr>))
                 \<lparr>ms_order_id_map := (ms_order_id_map ms)(ord_id front := None)\<rparr>)))
        else
          rbind (order_fill front (ms_remaining ms)) (\<lambda>front'.
          rbind (trade_with a ms front' (ms_remaining ms)) (\<lambda>t.
            Inr ((addr, front') # rest, (emit_trade a t ms)\<lparr>ms_remaining := 0\<rparr>)))
      else Inr ((addr, front) # rest, ms))"

definition best_level :: "side \<Rightarrow> side_container \<Rightarrow> int \<times> node list" where
  "best_level taker_side far = (if taker_side = Bid then hd far else last far)"

definition no_cross :: "side \<Rightarrow> int \<Rightarrow> int \<Rightarrow> bool" where
  "no_cross s price best_level_price \<longleftrightarrow>
     (s = Bid \<and> price < best_level_price) \<or> (s = Ask \<and> price > best_level_price)"

lemma match_level_leftover:
  assumes "match_level a nodes ms = Inr (nodes', ms')" "nodes' \<noteq> []"
  shows "ms_remaining ms' \<le> 0"
  using assms
  by (induction a nodes ms rule: match_level.induct)
    (auto simp: result_simps emit_trade_def split: if_splits)

lemma best_level_in: "far \<noteq> [] \<Longrightarrow> best_level s far \<in> set far"
  by (simp add: best_level_def)

function match_levels ::
  "'p match_args \<Rightarrow> side_container \<Rightarrow> 'p match_state \<Rightarrow> (side_container \<times> 'p match_state) result" where
  "match_levels a far ms =
     (if far \<noteq> [] \<and> ms_remaining ms > 0 then
        (case best_level (ma_side a) far of (best_level_price, best_level_orders) \<Rightarrow>
           if no_cross (ma_side a) (ma_price a) best_level_price then Inr (far, ms)
           else
             (case match_level a best_level_orders ms of
                Inl e \<Rightarrow> Inl e
              | Inr (orders', ms') \<Rightarrow>
                  match_levels a
                    (if orders' = [] then sm_erase best_level_price far
                     else sm_set best_level_price orders' far) ms'))
      else Inr (far, ms))"
  by pat_completeness auto
termination
proof (relation "measure (\<lambda>(a, far, ms). length far + (if ms_remaining ms > 0 then 1 else 0))",
    goal_cases)
  case 1
  then show ?case by simp
next
  case (2 a far ms p os r os' ms')
  then have "(p, os) \<in> set far"
    using best_level_in by fastforce
  then have "length (sm_erase p far) < length far"
    by (rule length_sm_erase_less)
  then show ?case
    using 2 match_level_leftover [of a os ms os' ms'] by auto
qed

declare match_levels.simps [simp del]

definition rest_order ::
  "int \<Rightarrow> int \<Rightarrow> int \<Rightarrow> side \<Rightarrow> string \<Rightarrow> 'p limit_order_book \<Rightarrow> 'p limit_order_book" where
  "rest_order order_id price quantity s broker_id lob =
     (let near = get_side lob s;
          level = (case map_of near price of None \<Rightarrow> [] | Some os \<Rightarrow> os);
          ord = \<lparr>ord_id = order_id, ord_price = price, ord_quantity = quantity, ord_side = s,
                 ord_trader_id = broker_id\<rparr>;
          addr = lob_next_node lob
      in set_side s (sm_update price (level @ [(addr, ord)]) near)
           (lob\<lparr>lob_order_id_map := (lob_order_id_map lob)(order_id \<mapsto> addr),
                lob_next_node := Suc addr\<rparr>))"

definition match_order ::
  "env \<Rightarrow> 'p try_publish \<Rightarrow> 'p limit_order_book \<Rightarrow> trade list \<Rightarrow> nat \<Rightarrow>
   int \<Rightarrow> int \<Rightarrow> int \<Rightarrow> side \<Rightarrow> string \<Rightarrow> ('p limit_order_book \<times> trade list \<times> nat) result" where
  "match_order env try_publish lob events tick price remaining_quantity order_id s broker_id =
     rbind
       (match_levels
          \<lparr>ma_env = env, ma_try_publish = try_publish, ma_ticker = lob_ticker lob, ma_price = price,
           ma_order_id = order_id, ma_side = s, ma_broker_id = broker_id\<rparr>
          (get_side lob (opposite s))
          \<lparr>ms_remaining = remaining_quantity, ms_order_id_map = lob_order_id_map lob,
           ms_publisher = lob_trade_publisher lob, ms_trade_events = events, ms_tick = tick\<rparr>)
       (\<lambda>(far', ms).
          let lob' = set_side (opposite s) far'
                (lob\<lparr>lob_order_id_map := ms_order_id_map ms, lob_trade_publisher := ms_publisher ms\<rparr>)
          in Inr
            (if ms_remaining ms > 0 \<and> price \<noteq> MARKET_BID_ORDER_PRICE \<and> price \<noteq> MARKET_ASK_ORDER_PRICE
             then rest_order order_id price (ms_remaining ms) s broker_id lob'
             else lob', ms_trade_events ms, ms_tick ms))"

definition add_order ::
  "env \<Rightarrow> 'p try_publish \<Rightarrow> 'p limit_order_book \<Rightarrow> trade list \<Rightarrow> nat \<Rightarrow>
   int \<Rightarrow> int \<Rightarrow> int \<Rightarrow> side \<Rightarrow> string \<Rightarrow> ('p limit_order_book \<times> trade list \<times> nat) result" where
  "add_order env try_publish lob events tick order_id price quantity s broker_id =
     (if order_id \<ge> 0 \<and> lob_order_id_map lob order_id = None \<and>
         (price = MARKET_ASK_ORDER_PRICE \<or> price > 0) \<and> quantity > 0 \<and> broker_id \<noteq> []
      then match_order env try_publish lob events tick price quantity order_id s broker_id
      else Inl Contract_Violation)"

section \<open>Cancelling and reading\<close>

definition order_id_exists :: "'p limit_order_book \<Rightarrow> int \<Rightarrow> bool" where
  "order_id_exists lob order_id \<longleftrightarrow> lob_order_id_map lob order_id \<noteq> None"

text \<open>Dereferencing an iterator: it must point to a node that is still in some list.\<close>

definition deref :: "'p limit_order_book \<Rightarrow> nat \<Rightarrow> order result" where
  "deref lob addr = opt_at Invalid_Iterator (map_of (all_nodes lob) addr)"

definition erase_node :: "nat \<Rightarrow> node list \<Rightarrow> node list" where
  "erase_node addr os = filter (\<lambda>(a, _). a \<noteq> addr) os"

definition cancel_order :: "'p limit_order_book \<Rightarrow> int \<Rightarrow> 'p limit_order_book result" where
  "cancel_order lob order_id =
     (case lob_order_id_map lob order_id of
        None \<Rightarrow> Inl Contract_Violation
      | Some order_it \<Rightarrow>
          rbind (deref lob order_it) (\<lambda>ord.
          let price = ord_price ord; s = ord_side ord; side_map = get_side lob s in
          rbind (opt_at Out_Of_Range (map_of side_map price)) (\<lambda>orders_at_price.
          if order_it \<in> fst ` set orders_at_price then
            let orders' = erase_node order_it orders_at_price;
                side_map' = (if orders' = [] then sm_erase price side_map
                             else sm_set price orders' side_map)
            in Inr ((set_side s side_map' lob)
                      \<lparr>lob_order_id_map := (lob_order_id_map lob)(order_id := None)\<rparr>)
          else Inl Invalid_Iterator)))"

definition get_best_order :: "'p limit_order_book \<Rightarrow> side \<Rightarrow> order option result" where
  "get_best_order lob s =
     (let side_map = get_side lob s in
      if side_map = [] then Inr None
      else (case snd (if s = Bid then last side_map else hd side_map) of
              [] \<Rightarrow> Inl Invalid_Iterator
            | (_, ord) # _ \<Rightarrow> Inr (Some ord)))"

definition get_order_by_id :: "'p limit_order_book \<Rightarrow> int \<Rightarrow> order result" where
  "get_order_by_id lob order_id =
     (case lob_order_id_map lob order_id of
        None \<Rightarrow> Inl Contract_Violation
      | Some order_it \<Rightarrow> deref lob order_it)"

fun sum_quantities :: "int \<Rightarrow> node list \<Rightarrow> int result" where
  "sum_quantities acc [] = Inr acc"
| "sum_quantities acc ((_, ord) # os) =
     rbind (i32 (acc + ord_quantity ord)) (\<lambda>acc'. sum_quantities acc' os)"

definition get_level_aggregate :: "'p limit_order_book \<Rightarrow> side \<Rightarrow> nat \<Rightarrow> level_aggregate result" where
  "get_level_aggregate lob s level =
     (let side_map = get_side lob s in
      if side_map \<noteq> [] \<and> level < length side_map then
        (case side_map ! (if s = Bid then length side_map - (level + 1) else level) of
           (level_price, orders) \<Rightarrow>
             rbind (sum_quantities 0 orders) (\<lambda>level_quantity.
               if level_price > 0 \<and> level_quantity > 0
               then Inr \<lparr>la_price = level_price, la_quantity = level_quantity\<rparr>
               else Inl Contract_Violation))
      else Inl Contract_Violation)"

fun fill_aggregates ::
  "'p limit_order_book \<Rightarrow> side \<Rightarrow> nat list \<Rightarrow> level_aggregate list \<Rightarrow> level_aggregate list result" where
  "fill_aggregates lob s [] arr = Inr arr"
| "fill_aggregates lob s (i # is) arr =
     rbind (get_level_aggregate lob s i) (\<lambda>la.
       if i < length arr then fill_aggregates lob s is (arr[i := la]) else Inl Out_Of_Range)"

definition get_top_order_book_level_aggregate ::
  "nat \<Rightarrow> 'p limit_order_book \<Rightarrow> top_order_book_level_aggregates result" where
  "get_top_order_book_level_aggregate now_ts_ms lob =
     rbind (make_top_order_book_level_aggregates (lob_ticker lob) now_ts_ms) (\<lambda>top.
     rbind (fill_aggregates lob Bid
              [0..<min ORDER_BOOK_AGGREGATE_LEVELS (length (lob_bids lob))]
              (tob_bid_level_aggregates top)) (\<lambda>bids.
     rbind (fill_aggregates lob Ask
              [0..<min ORDER_BOOK_AGGREGATE_LEVELS (length (lob_asks lob))]
              (tob_ask_level_aggregates top)) (\<lambda>asks.
       Inr (top\<lparr>tob_bid_level_aggregates := bids, tob_ask_level_aggregates := asks\<rparr>))))"

text \<open>The loop of \<open>get_fill_cost\<close>, over the level indices it still has to visit.\<close>

fun fill_cost_loop ::
  "'p limit_order_book \<Rightarrow> side \<Rightarrow> nat list \<Rightarrow> int \<Rightarrow> int \<Rightarrow> int result" where
  "fill_cost_loop lob s [] quantity total_cost = Inr total_cost"
| "fill_cost_loop lob s (i # is) quantity total_cost =
     (if quantity = 0 then Inr total_cost
      else
        rbind (get_level_aggregate lob s i) (\<lambda>la.
          if la_quantity la \<le> quantity then
            rbind (i32 (la_price la * la_quantity la)) (\<lambda>cost.
            rbind (i32 (total_cost + cost)) (\<lambda>total'.
            rbind (i32 (quantity - la_quantity la)) (\<lambda>quantity'.
              fill_cost_loop lob s is quantity' total')))
          else
            rbind (i32 (la_price la * quantity)) (\<lambda>cost.
            rbind (i32 (total_cost + cost)) (\<lambda>total'.
              fill_cost_loop lob s is 0 total'))))"

definition get_fill_cost :: "'p limit_order_book \<Rightarrow> int \<Rightarrow> side \<Rightarrow> int option result" where
  "get_fill_cost lob quantity s =
     (if quantity > 0 then
        if get_side lob s = [] then Inr None
        else rbind (fill_cost_loop lob s [0..<length (get_side lob s)] quantity 0) (\<lambda>total.
               if total > 0 then Inr (Some total) else Inl Contract_Violation)
      else Inl Contract_Violation)"

end
