(* ===== verification/LobMatching.thy ===== *)
theory LobMatching
  imports LimitOrderBook
begin

text \<open>
  What matching computes. \<open>greedy\<close> is the reference: it walks the resting orders of the far side
  in price-time priority, as one flat list, and fills each in turn while the price crosses. The
  two nested loops of \<open>match_order\<close>, which work on a sorted map of queues and keep an index of
  iterators, are shown to compute the same fills, the same leftover and the trades that belong
  to the fills (\<open>match_levels_greedy\<close>), and never to fail on a well-formed book
  (\<open>match_levels_progress\<close>).
\<close>

section \<open>Priority order and the reference\<close>

definition levels :: "side \<Rightarrow> side_container \<Rightarrow> side_container" where
  "levels taker_side far = (if taker_side = Bid then far else rev far)"

definition priority :: "side \<Rightarrow> side_container \<Rightarrow> node list" where
  "priority taker_side far = side_nodes (levels taker_side far)"

fun greedy :: "side \<Rightarrow> int \<Rightarrow> int \<Rightarrow> node list \<Rightarrow> (order \<times> int) list \<times> node list \<times> int" where
  "greedy s price rem [] = ([], [], rem)"
| "greedy s price rem ((addr, ord) # ns) =
     (if rem > 0 \<and> \<not> no_cross s price (ord_price ord) then
        if rem \<ge> ord_quantity ord then
          (case greedy s price (rem - ord_quantity ord) ns of
             (fills, ns', rem') \<Rightarrow> ((ord, ord_quantity ord) # fills, ns', rem'))
        else ([(ord, rem)], (addr, ord\<lparr>ord_quantity := ord_quantity ord - rem\<rparr>) # ns, 0)
      else ([], (addr, ord) # ns, rem))"

definition fills_of :: "side \<Rightarrow> int \<Rightarrow> int \<Rightarrow> node list \<Rightarrow> (order \<times> int) list" where
  "fills_of s price rem ns = fst (greedy s price rem ns)"

definition trade_of :: "'p match_args \<Rightarrow> nat \<Rightarrow> order \<times> int \<Rightarrow> trade" where
  "trade_of a tick f =
     \<lparr>tr_ticker = c_str (ma_ticker a), tr_price = ord_price (fst f), tr_quantity = snd f,
      tr_trade_id = c_str (format_uuid_canonical (env_uuid (ma_env a) tick)),
      tr_taker_id = c_str (ma_broker_id a), tr_maker_id = c_str (ord_trader_id (fst f)),
      tr_taker_order_id = ma_order_id a, tr_maker_order_id = ord_id (fst f),
      tr_is_taker_buyer = (ma_side a = Bid), tr_create_timestamp = env_now_ms (ma_env a) tick\<rparr>"

fun trades_of :: "'p match_args \<Rightarrow> nat \<Rightarrow> (order \<times> int) list \<Rightarrow> trade list" where
  "trades_of a tick [] = []"
| "trades_of a tick (f # fs) = trade_of a tick f # trades_of a (Suc tick) fs"

fun publish_all :: "'p try_publish \<Rightarrow> 'p \<Rightarrow> trade list \<Rightarrow> 'p" where
  "publish_all pub p [] = p"
| "publish_all pub p (t # ts) = publish_all pub (snd (pub p t)) ts"

definition filled_ids :: "(order \<times> int) list \<Rightarrow> int set" where
  "filled_ids fs = (\<lambda>(ord, q). ord_id ord) ` {f \<in> set fs. snd f = ord_quantity (fst f)}"

definition map_remove :: "'a set \<Rightarrow> ('a \<rightharpoonup> 'b) \<Rightarrow> ('a \<rightharpoonup> 'b)" where
  "map_remove A m = (\<lambda>x. if x \<in> A then None else m x)"

definition total_fill :: "(order \<times> int) list \<Rightarrow> int" where
  "total_fill fs = sum_list (map snd fs)"

definition total_cost :: "(order \<times> int) list \<Rightarrow> int" where
  "total_cost fs = sum_list (map (\<lambda>(ord, q). ord_price ord * q) fs)"

text \<open>What the loops make of a state, given the fills of the reference.\<close>

definition apply_fills ::
  "'p match_args \<Rightarrow> (order \<times> int) list \<Rightarrow> int \<Rightarrow> 'p match_state \<Rightarrow> 'p match_state" where
  "apply_fills a fs rem ms =
     \<lparr>ms_remaining = rem,
      ms_order_id_map = map_remove (filled_ids fs) (ms_order_id_map ms),
      ms_publisher = publish_all (ma_try_publish a) (ms_publisher ms) (trades_of a (ms_tick ms) fs),
      ms_trade_events = ms_trade_events ms @ trades_of a (ms_tick ms) fs,
      ms_tick = ms_tick ms + length fs\<rparr>"

section \<open>Well-formed orders\<close>

definition wf_order :: "order \<Rightarrow> bool" where
  "wf_order ord \<longleftrightarrow> 0 \<le> ord_id ord \<and> 0 < ord_price ord \<and> 0 < ord_quantity ord \<and>
     in_i32 (ord_quantity ord) \<and> ord_trader_id ord \<noteq> []"

definition valid_name :: "nat \<Rightarrow> string \<Rightarrow> bool" where
  "valid_name cap s \<longleftrightarrow> 0 < strlen s \<and> strlen s < cap"

definition args_ok :: "'p match_args \<Rightarrow> bool" where
  "args_ok a \<longleftrightarrow> 0 \<le> ma_order_id a \<and> valid_name MAX_TICKER_LENGTH (ma_ticker a) \<and>
     valid_name MAX_USERNAME_LENGTH (ma_broker_id a) \<and> (\<forall>t. length (env_uuid (ma_env a) t) = 16)"

definition maker_ok :: "'p match_args \<Rightarrow> order \<Rightarrow> bool" where
  "maker_ok a ord \<longleftrightarrow> wf_order ord \<and> ord_id ord \<noteq> ma_order_id a \<and>
     valid_name MAX_USERNAME_LENGTH (ord_trader_id ord)"

lemma valid_name_nonempty: "valid_name cap s \<Longrightarrow> s \<noteq> []"
  by (auto simp: valid_name_def strlen_def c_str_def)

lemma map_remove_empty [simp]: "map_remove {} m = m"
  by (simp add: map_remove_def)

lemma map_remove_map_remove [simp]: "map_remove A (map_remove B m) = map_remove (A \<union> B) m"
  by (auto simp: map_remove_def)

lemma map_remove_single: "m(k := None) = map_remove {k} m"
  by (auto simp: map_remove_def)

lemma filled_ids_simps [simp]:
  "filled_ids [] = {}"
  "filled_ids ((ord, q) # fs) = (if q = ord_quantity ord then {ord_id ord} else {}) \<union> filled_ids fs"
  by (auto simp: filled_ids_def)

lemma total_simps [simp]:
  "total_fill [] = 0" "total_fill ((ord, q) # fs) = q + total_fill fs"
  "total_cost [] = 0" "total_cost ((ord, q) # fs) = ord_price ord * q + total_cost fs"
  "total_fill (fs @ gs) = total_fill fs + total_fill gs"
  "total_cost (fs @ gs) = total_cost fs + total_cost gs"
  by (simp_all add: total_fill_def total_cost_def)

lemma length_trades_of [simp]: "length (trades_of a t fs) = length fs"
  by (induction fs arbitrary: t) auto

lemma trades_of_append: "trades_of a t (fs @ gs) = trades_of a t fs @ trades_of a (t + length fs) gs"
  by (induction fs arbitrary: t) auto

lemma set_trades_of:
  "t \<in> set (trades_of a k fs) \<Longrightarrow> \<exists>i f. f \<in> set fs \<and> t = trade_of a i f"
  by (induction fs arbitrary: k) (simp, metis list.set_intros set_ConsD trades_of.simps(2))

lemma publish_all_append: "publish_all pub p (ts @ us) = publish_all pub (publish_all pub p ts) us"
  by (induction ts arbitrary: p) auto

lemma apply_fills_Nil [simp]: "ms_remaining ms = rem \<Longrightarrow> apply_fills a [] rem ms = ms"
  by (simp add: apply_fills_def)

lemma apply_fills_append:
  "apply_fills a gs rem' (apply_fills a fs rem ms) = apply_fills a (fs @ gs) rem' ms"
  by (simp add: apply_fills_def trades_of_append publish_all_append filled_ids_def Un_commute
      image_Un [symmetric] Collect_disj_eq [symmetric] conj_disj_distribR [symmetric])

lemma apply_fills_remaining [simp]: "ms_remaining (apply_fills a fs rem ms) = rem"
  by (simp add: apply_fills_def)

section \<open>One level\<close>

lemma trade_with_Inr:
  "trade_with a ms ord q = Inr t \<Longrightarrow> t = trade_of a (ms_tick ms) (ord, q)"
  by (auto simp: trade_with_def create_trade_def make_trade_def trade_of_def result_simps split: if_splits)

lemma trade_with_progress:
  assumes "args_ok a" "maker_ok a ord" "q > 0"
  shows "trade_with a ms ord q = Inr (trade_of a (ms_tick ms) (ord, q))"
proof -
  have "strlen (format_uuid_canonical (env_uuid (ma_env a) (ms_tick ms))) = 36"
    using assms by (simp add: args_ok_def strlen_format_uuid)
  then show ?thesis
    using assms valid_name_nonempty
    by (auto simp: trade_with_def create_trade_def make_trade_def trade_of_def copy_cstr_def
        args_ok_def maker_ok_def wf_order_def valid_name_def UUID_LENGTH_def)
qed

lemma order_fill_Inr:
  "order_fill ord q = Inr ord' \<Longrightarrow> ord' = ord\<lparr>ord_quantity := ord_quantity ord - q\<rparr>"
  by (auto simp: order_fill_def result_simps split: if_splits)

lemma order_fill_progress:
  "wf_order ord \<Longrightarrow> 0 < q \<Longrightarrow> q < ord_quantity ord \<Longrightarrow>
   order_fill ord q = Inr (ord\<lparr>ord_quantity := ord_quantity ord - q\<rparr>)"
  by (simp add: order_fill_def wf_order_def in_i32_def)

lemma trade_of_quantity_update [simp]:
  "trade_of a t (ord\<lparr>ord_quantity := n\<rparr>, q) = trade_of a t (ord, q)"
  by (simp add: trade_of_def)

lemma maker_ok_quantity_update:
  "maker_ok a ord \<Longrightarrow> 0 < n \<Longrightarrow> n \<le> ord_quantity ord \<Longrightarrow> maker_ok a (ord\<lparr>ord_quantity := n\<rparr>)"
  by (auto simp: maker_ok_def wf_order_def in_i32_def)

text \<open>One iteration of the loop is one fill.\<close>

lemma apply_fills_full:
  "(emit_trade a (trade_of a (ms_tick ms) (ord, q)) (ms\<lparr>ms_remaining := rem\<rparr>))
     \<lparr>ms_order_id_map := (ms_order_id_map ms)(ord_id ord := None)\<rparr> =
   apply_fills a [(ord, q)] rem ms" if "q = ord_quantity ord"
  using that by (simp add: apply_fills_def emit_trade_def map_remove_single)

lemma apply_fills_partial:
  "(emit_trade a (trade_of a (ms_tick ms) (ord, q)) ms)\<lparr>ms_remaining := 0\<rparr> =
   apply_fills a [(ord, q)] 0 ms" if "q \<noteq> ord_quantity ord"
  using that by (simp add: apply_fills_def emit_trade_def)

lemma match_level_greedy:
  assumes "match_level a ns ms = Inr (ns', ms')"
    and "\<forall>n \<in> set ns. \<not> no_cross (ma_side a) (ma_price a) (ord_price (snd n))"
  shows "\<exists>fs rem'. greedy (ma_side a) (ma_price a) (ms_remaining ms) ns = (fs, ns', rem') \<and>
           ms' = apply_fills a fs rem' ms"
  using assms
proof (induction a ns ms arbitrary: ns' ms' rule: match_level.induct)
  case (1 a ms)
  then show ?case by simp
next
  case (2 a addr front rest ms)
  let ?q = "ord_quantity front"
  consider "ms_remaining ms \<le> 0" | "0 < ms_remaining ms" "?q \<le> ms_remaining ms"
    | "0 < ms_remaining ms" "ms_remaining ms < ?q"
    by linarith
  then show ?case
  proof cases
    case 1
    then show ?thesis using 2 by auto
  next
    case 2
    let ?ms = "apply_fills a [(front, ?q)] (ms_remaining ms - ?q) ms"
    from "2.prems"(1) 2 obtain t where rem: "in_i32 (ms_remaining ms - ?q)"
      and t: "trade_with a ms front ?q = Inr t"
      and rec: "match_level a rest ?ms = Inr (ns', ms')"
      using trade_with_Inr by (fastforce simp: result_simps apply_fills_full)
    have "t = trade_of a (ms_tick ms) (front, ?q)"
      using t by (rule trade_with_Inr)
    with "2.IH" [of "ms_remaining ms - ?q" t ns' ms'] 2 rem t rec "2.prems"(2)
    obtain fs rem' where "greedy (ma_side a) (ma_price a) (ms_remaining ms - ?q) rest = (fs, ns', rem')"
      "ms' = apply_fills a fs rem' ?ms"
      by (auto simp: result_simps apply_fills_full)
    then show ?thesis
      using 2 "2.prems"(2) by (simp add: apply_fills_append)
  next
    case 3
    with "2.prems" show ?thesis
      by (auto simp: result_simps apply_fills_partial dest!: order_fill_Inr trade_with_Inr)
  qed
qed

lemma match_level_remaining:
  assumes "match_level a ns ms = Inr (ns', ms')" "in_i32 (ms_remaining ms)"
  shows "in_i32 (ms_remaining ms')"
  using assms
  by (induction a ns ms rule: match_level.induct)
    (auto simp: result_simps emit_trade_def in_i32_def [of 0] split: if_splits)

lemma match_level_progress:
  assumes "args_ok a" "\<forall>n \<in> set ns. maker_ok a (snd n)" "in_i32 (ms_remaining ms)"
  shows "succeeds (match_level a ns ms)"
  using assms
proof (induction a ns ms rule: match_level.induct)
  case (1 a ms)
  then show ?case by (simp add: succeeds_def)
next
  case (2 a addr front rest ms)
  let ?q = "ord_quantity front"
  have q: "0 < ?q" "in_i32 ?q" and mk: "maker_ok a front"
    using "2.prems" by (auto simp: maker_ok_def wf_order_def)
  consider "ms_remaining ms \<le> 0" | "0 < ms_remaining ms" "?q \<le> ms_remaining ms"
    | "0 < ms_remaining ms" "ms_remaining ms < ?q"
    by linarith
  then show ?case
  proof cases
    case 1
    then show ?thesis by (simp add: succeeds_def)
  next
    case 2
    then have "in_i32 (ms_remaining ms - ?q)"
      using q "2.prems"(3) by (auto simp: in_i32_def)
    then show ?thesis
      using 2 "2.IH" "2.prems" q trade_with_progress [OF "2.prems"(1) mk q(1)]
      by (simp add: emit_trade_def)
  next
    case 3
    then show ?thesis
      using "2.prems" q mk order_fill_progress [of front "ms_remaining ms"]
        trade_with_progress [OF "2.prems"(1) maker_ok_quantity_update [OF mk], of "?q - ms_remaining ms"]
      by (simp add: succeeds_def maker_ok_def)
  qed
qed

section \<open>All levels\<close>

lemma greedy_append:
  "greedy s price rem (ns @ ns2) =
     (case greedy s price rem ns of (fs, ns', rem') \<Rightarrow>
        if ns' = [] then (case greedy s price rem' ns2 of (gs, ns2', rem2) \<Rightarrow> (fs @ gs, ns2', rem2))
        else (fs, ns' @ ns2, rem'))"
  by (induction s price rem ns rule: greedy.induct) (auto split: prod.splits)

lemma side_nodes_simps [simp]:
  "side_nodes [] = []" "side_nodes ((p, os) # c) = os @ side_nodes c"
  "side_nodes (c @ c') = side_nodes c @ side_nodes c'"
  by (simp_all add: side_nodes_def)

lemma set_side_nodes: "set (side_nodes c) = (\<Union>(p, os) \<in> set c. set os)"
  by (auto simp: side_nodes_def)

lemma levels_Nil [simp]: "levels s [] = []" "levels s c = [] \<longleftrightarrow> c = []"
  by (auto simp: levels_def)

lemma set_levels [simp]: "set (levels s c) = set c"
  by (simp add: levels_def)

lemma levels_levels [simp]: "levels s (levels s c) = c"
  by (simp add: levels_def)

lemma best_level_hd: "far \<noteq> [] \<Longrightarrow> best_level s far = hd (levels s far)"
  by (simp add: best_level_def levels_def hd_rev)

lemma levels_sm_set:
  assumes "sm_sorted far" "levels s far = (p, os) # lv"
  shows "levels s (sm_set p os' far) = (p, os') # lv"
proof (cases "s = Bid")
  case True
  then show ?thesis using assms sm_set_at [of "[]" p os lv os'] by (simp add: levels_def)
next
  case False
  then have "far = rev lv @ (p, os) # []"
    using assms(2) by (simp add: levels_def)
  then show ?thesis using assms(1) False sm_set_at [of "rev lv" p os "[]" os'] by (simp add: levels_def)
qed

lemma levels_sm_erase:
  assumes "sm_sorted far" "levels s far = (p, os) # lv"
  shows "levels s (sm_erase p far) = lv"
proof (cases "s = Bid")
  case True
  then show ?thesis using assms sm_erase_at [of "[]" p os lv] by (simp add: levels_def)
next
  case False
  then have "far = rev lv @ (p, os) # []"
    using assms(2) by (simp add: levels_def)
  then show ?thesis using assms(1) False sm_erase_at [of "rev lv" p os "[]"] by (simp add: levels_def)
qed

definition wf_level :: "side \<Rightarrow> int \<times> node list \<Rightarrow> bool" where
  "wf_level s l \<longleftrightarrow> snd l \<noteq> [] \<and> 0 < fst l \<and> fst l < MARKET_BID_ORDER_PRICE \<and>
     (\<forall>n \<in> set (snd l). wf_order (snd n) \<and> ord_price (snd n) = fst l \<and> ord_side (snd n) = s)"

definition wf_side :: "side \<Rightarrow> side_container \<Rightarrow> bool" where
  "wf_side s c \<longleftrightarrow> sm_sorted c \<and> (\<forall>l \<in> set c. wf_level s l)"

lemma match_levels_unfold:
  assumes "sm_sorted far" "levels (ma_side a) far = (p, os) # lv" "ms_remaining ms > 0"
    and "\<not> no_cross (ma_side a) (ma_price a) p" "match_level a os ms = Inr (os', ms')"
  shows "match_levels a far ms =
    match_levels a (if os' = [] then levels (ma_side a) lv else levels (ma_side a) ((p, os') # lv)) ms'"
proof -
  have ne: "far \<noteq> []" using assms(2) by auto
  then have "best_level (ma_side a) far = (p, os)"
    using assms(2) by (simp add: best_level_hd)
  moreover have "sm_erase p far = levels (ma_side a) lv"
    using levels_sm_erase [OF assms(1,2)] by (metis levels_levels)
  moreover have "sm_set p os' far = levels (ma_side a) ((p, os') # lv)"
    using levels_sm_set [OF assms(1,2)] by (metis levels_levels)
  ultimately show ?thesis
    using ne assms(3-5) by (subst match_levels.simps) simp
qed

lemma match_levels_stop:
  "far = [] \<or> ms_remaining ms \<le> 0 \<or> no_cross (ma_side a) (ma_price a) (fst (hd (levels (ma_side a) far))) \<Longrightarrow>
   match_levels a far ms = Inr (far, ms)"
  by (subst match_levels.simps) (auto simp: best_level_hd split: prod.splits)

lemma greedy_nodes:
  assumes "greedy s price rem ns = (fs, ns', rem')" "(addr, ord') \<in> set ns'"
  shows "\<exists>ord q. (addr, ord) \<in> set ns \<and> ord' = ord\<lparr>ord_quantity := q\<rparr> \<and>
           (q = ord_quantity ord \<or> 0 < q \<and> q < ord_quantity ord)"
  using assms
proof (induction s price rem ns arbitrary: fs ns' rem' rule: greedy.induct)
  case (1 s price rem)
  then show ?case by simp
next
  case (2 s price rem a ord ns)
  have keep: "\<exists>ord q. (addr, ord) \<in> set xs \<and> x = ord\<lparr>ord_quantity := q\<rparr> \<and>
      (q = ord_quantity ord \<or> 0 < q \<and> q < ord_quantity ord)" if "(addr, x) \<in> set xs" for x xs
    using that by (intro exI [of _ x] exI [of _ "ord_quantity x"]) simp
  show ?case
  proof (cases "rem > 0 \<and> \<not> no_cross s price (ord_price ord) \<and> rem \<ge> ord_quantity ord")
    case True
    then obtain fs2 where "greedy s price (rem - ord_quantity ord) ns = (fs2, ns', rem')"
      using "2.prems"(1) by (auto split: prod.splits)
    then show ?thesis
      using "2.IH" [OF _ _ _ "2.prems"(2)] True by auto
  next
    case False
    then consider "ns' = (a, ord) # ns"
      | "0 < rem" "rem < ord_quantity ord" "ns' = (a, ord\<lparr>ord_quantity := ord_quantity ord - rem\<rparr>) # ns"
      using "2.prems"(1) by (auto split: if_splits)
    then show ?thesis
    proof cases
      case 1
      then show ?thesis using "2.prems"(2) keep [of ord' "(a, ord) # ns"] by simp
    next
      case 2
      show ?thesis
      proof (cases "(addr, ord') \<in> set ns")
        case True
        then show ?thesis using keep [of ord' ns] by auto
      next
        case False
        then show ?thesis
          using 2 "2.prems"(2)
          by (intro exI [of _ ord] exI [of _ "ord_quantity ord - rem"]) auto
      qed
    qed
  qed
qed

lemma wf_order_reduce:
  "wf_order ord \<Longrightarrow> q = ord_quantity ord \<or> 0 < q \<and> q < ord_quantity ord \<Longrightarrow>
   wf_order (ord\<lparr>ord_quantity := q\<rparr>)"
  by (auto simp: wf_order_def in_i32_def)

lemma wf_level_greedy:
  assumes "wf_level s (p, os)" "greedy ts price rem os = (fs, os', rem')" "os' \<noteq> []"
  shows "wf_level s (p, os')"
proof -
  have "wf_order (snd n) \<and> ord_price (snd n) = p \<and> ord_side (snd n) = s" if "n \<in> set os'" for n
  proof -
    obtain addr ord' where n: "n = (addr, ord')" by force
    with that obtain ord q where "(addr, ord) \<in> set os" "ord' = ord\<lparr>ord_quantity := q\<rparr>"
      "q = ord_quantity ord \<or> 0 < q \<and> q < ord_quantity ord"
      using greedy_nodes [OF assms(2)] by blast
    then show ?thesis
      using assms(1) n wf_order_reduce by (force simp: wf_level_def)
  qed
  then show ?thesis
    using assms(1,3) by (simp add: wf_level_def)
qed

lemma wf_side_levels: "wf_side s (levels ts lv) \<longleftrightarrow>
    sm_sorted (levels ts lv) \<and> (\<forall>l \<in> set lv. wf_level s l)"
  by (simp add: wf_side_def)

lemma sm_sorted_levels_Cons:
  "sm_sorted (levels ts ((p, os) # lv)) \<longleftrightarrow> sm_sorted (levels ts lv) \<and>
     (\<forall>k \<in> fst ` set lv. if ts = Bid then p < k else k < p)"
  by (auto simp: levels_def sm_sorted_Cons sm_sorted_append)

lemma wf_side_tail:
  "wf_side s (levels ts ((p, os) # lv)) \<Longrightarrow> wf_level s (p, os) \<and> wf_side s (levels ts lv)"
  by (auto simp: wf_side_levels sm_sorted_levels_Cons)

lemma wf_side_head:
  "wf_side s (levels ts ((p, os) # lv)) \<Longrightarrow> wf_level s (p, os') \<Longrightarrow> wf_side s (levels ts ((p, os') # lv))"
  by (auto simp: wf_side_levels sm_sorted_levels_Cons)

lemma greedy_stop:
  "rem \<le> 0 \<or> no_cross s price (ord_price (snd (hd ns))) \<Longrightarrow> greedy s price rem ns = ([], ns, rem)"
  by (cases ns) auto

text \<open>Matching against the levels in priority order, on the whole far side.\<close>

definition stops :: "'p match_args \<Rightarrow> side_container \<Rightarrow> int \<Rightarrow> bool" where
  "stops a far rem \<longleftrightarrow> far = [] \<or> rem \<le> 0 \<or>
     no_cross (ma_side a) (ma_price a) (fst (hd (levels (ma_side a) far)))"

definition matched :: "side \<Rightarrow> 'p match_args \<Rightarrow> side_container \<Rightarrow> 'p match_state \<Rightarrow>
    side_container \<Rightarrow> 'p match_state \<Rightarrow> bool" where
  "matched s a far ms far' ms' \<longleftrightarrow>
     (\<exists>fs rem'. greedy (ma_side a) (ma_price a) (ms_remaining ms) (priority (ma_side a) far) =
          (fs, priority (ma_side a) far', rem') \<and> ms' = apply_fills a fs rem' ms \<and>
          wf_side s far' \<and> fst ` set far' \<subseteq> fst ` set far \<and> stops a far' rem')"

lemma matched_refl:
  assumes "wf_side s far" "stops a far (ms_remaining ms)"
  shows "matched s a far ms far ms"
proof (cases far)
  case Nil
  then show ?thesis
    using assms by (auto simp: matched_def priority_def)
next
  case Cons
  then obtain p os lv where lv: "levels (ma_side a) far = (p, os) # lv"
    by (metis levels_Nil(2) list.distinct(1) list.exhaust old.prod.exhaust)
  then have "wf_level s (p, os)"
    using assms(1) wf_side_tail by (metis levels_levels)
  then obtain n ns where "os = n # ns" "ord_price (snd n) = p"
    by (cases os) (auto simp: wf_level_def)
  then have "ms_remaining ms \<le> 0 \<or>
      no_cross (ma_side a) (ma_price a) (ord_price (snd (hd (priority (ma_side a) far))))"
    using assms(2) lv Cons by (auto simp: stops_def priority_def)
  then have "greedy (ma_side a) (ma_price a) (ms_remaining ms) (priority (ma_side a) far) =
      ([], priority (ma_side a) far, ms_remaining ms)"
    by (rule greedy_stop)
  then show ?thesis
    using assms by (auto simp: matched_def)
qed

lemma match_levels_matched:
  assumes "match_levels a far ms = Inr (far', ms')" "wf_side s far"
  shows "matched s a far ms far' ms'"
  using assms
proof (induction "levels (ma_side a) far" arbitrary: far ms)
  case Nil
  then have "far = []" by (metis levels_Nil(2))
  with Nil show ?case
    using match_levels_stop [of far ms a] matched_refl [of s far a ms] by (simp add: stops_def)
next
  case (Cons l lv)
  obtain p os where l: "l = (p, os)" by force
  let ?s = "ma_side a" and ?rem = "ms_remaining ms"
  have far: "levels ?s far = (p, os) # lv" and far_eq: "far = levels ?s ((p, os) # lv)"
    using Cons.hyps(2) l by (metis levels_levels)+
  have wf: "wf_level s (p, os)" "wf_side s (levels ?s lv)" "sm_sorted far"
    using Cons.prems(2) far_eq wf_side_tail by (auto simp: wf_side_def)
  have keys: "fst ` set far = insert p (fst ` set lv)"
    using arg_cong [OF far, of set] by simp
  show ?case
  proof (cases "?rem \<le> 0 \<or> no_cross ?s (ma_price a) p")
    case True
    then show ?thesis
      using Cons.prems match_levels_stop [of far ms a] matched_refl [of s far a ms] far
      by (auto simp: stops_def)
  next
    case False
    then obtain os' ms1 where lvl: "match_level a os ms = Inr (os', ms1)"
      using Cons.prems(1) far
      by (subst (asm) match_levels.simps)
        (auto simp: best_level_hd split: if_splits sum.splits)
    have "\<forall>n \<in> set os. \<not> no_cross ?s (ma_price a) (ord_price (snd n))"
      using wf(1) False by (auto simp: wf_level_def)
    then obtain fs1 rem1 where g1: "greedy ?s (ma_price a) ?rem os = (fs1, os', rem1)"
      and ms1: "ms1 = apply_fills a fs1 rem1 ms"
      using match_level_greedy [OF lvl] by blast
    note step = match_levels_unfold [OF wf(3) far _ _ lvl]
    show ?thesis
    proof (cases "os' = []")
      case True
      with step False Cons.prems(1) have rec: "match_levels a (levels ?s lv) ms1 = Inr (far', ms')"
        by simp
      have "matched s a (levels ?s lv) ms1 far' ms'"
        by (rule Cons.hyps(1) [OF _ rec wf(2)]) simp
      then obtain fs rem' where g2: "greedy ?s (ma_price a) rem1 (side_nodes lv) =
            (fs, side_nodes (levels ?s far'), rem')"
        and r: "ms' = apply_fills a fs rem' ms1" "wf_side s far'" "stops a far' rem'"
          "fst ` set far' \<subseteq> fst ` set lv"
        using ms1 by (auto simp: matched_def priority_def)
      have "greedy ?s (ma_price a) ?rem (priority ?s far) = (fs1 @ fs, priority ?s far', rem')"
        using g1 g2 True far by (simp add: priority_def greedy_append)
      then show ?thesis
        using r ms1 keys by (auto simp: matched_def apply_fills_append)
    next
      case os': False
      have rem1: "rem1 \<le> 0"
        using match_level_leftover [OF lvl os'] ms1 by simp
      then have "far' = levels ?s ((p, os') # lv)" "ms' = ms1"
        using step False os' Cons.prems(1) match_levels_stop [of _ ms1 a] ms1 by auto
      then show ?thesis
        using g1 ms1 os' far rem1 far_eq Cons.prems(2) wf_level_greedy [OF wf(1) g1 os'] wf_side_head
        by (auto simp: matched_def priority_def greedy_append stops_def)
    qed
  qed
qed

lemma match_levels_progress:
  assumes "args_ok a" "wf_side s far" "\<forall>n \<in> set (side_nodes far). maker_ok a (snd n)"
    and "in_i32 (ms_remaining ms)"
  shows "succeeds (match_levels a far ms)"
  using assms
proof (induction "levels (ma_side a) far" arbitrary: far ms)
  case Nil
  then have "far = []" by (metis levels_Nil(2))
  then show ?case using match_levels_stop [of far ms a] by (simp add: succeeds_def)
next
  case (Cons l lv)
  obtain p os where l: "l = (p, os)" by force
  let ?s = "ma_side a" and ?rem = "ms_remaining ms"
  have far: "levels ?s far = (p, os) # lv" and far_eq: "far = levels ?s ((p, os) # lv)"
    using Cons.hyps(2) l by (metis levels_levels)+
  have nodes: "set (side_nodes far) = set os \<union> set (side_nodes lv)"
    using far_eq by (auto simp: set_side_nodes)
  have wf: "wf_level s (p, os)" "wf_side s (levels ?s lv)" "sm_sorted far"
    using Cons.prems(2) far_eq wf_side_tail by (auto simp: wf_side_def)
  show ?case
  proof (cases "?rem \<le> 0 \<or> no_cross ?s (ma_price a) p")
    case True
    then show ?thesis
      using match_levels_stop [of far ms a] far by (auto simp: succeeds_def)
  next
    case False
    have "succeeds (match_level a os ms)"
      using Cons.prems nodes by (intro match_level_progress) auto
    then obtain os' ms1 where lvl: "match_level a os ms = Inr (os', ms1)"
      by (auto simp: succeeds_iff)
    note step = match_levels_unfold [OF wf(3) far _ _ lvl]
    show ?thesis
    proof (cases "os' = []")
      case True
      have "in_i32 (ms_remaining ms1)"
        using match_level_remaining [OF lvl] Cons.prems by simp
      then have "succeeds (match_levels a (levels ?s lv) ms1)"
        using Cons.prems(1,3) wf(2) nodes set_side_nodes [of lv] set_side_nodes [of "levels ?s lv"]
        by (intro Cons.hyps(1)) auto
      then show ?thesis using step False True by simp
    next
      case os': False
      then show ?thesis
        using match_level_leftover [OF lvl os'] step False match_levels_stop [of _ ms1 a]
        by (simp add: succeeds_def)
    qed
  qed
qed

end
