(* ===== verification/LobInvariant.thy ===== *)
theory LobInvariant
  imports LobMatching "HOL-Library.Multiset"
begin

text \<open>
  The representation invariant of the order book and its preservation. Both sides are sorted
  maps of non-empty queues of well-formed orders at their level's price; the best bid is below
  the best ask; node addresses and order ids are unique over the whole book; and the index
  \<open>order_id_map\<close> maps exactly the ids of the resting orders, each to the node that holds the
  order, so no iterator in it dangles.
\<close>

section \<open>The index of iterators\<close>

definition node_keys :: "node list \<Rightarrow> (int \<times> nat) list" where
  "node_keys ns = map (\<lambda>n. (ord_id (snd n), fst n)) ns"

definition index_ok :: "(int \<rightharpoonup> nat) \<Rightarrow> nat \<Rightarrow> (int \<times> nat) list \<Rightarrow> bool" where
  "index_ok m next ks \<longleftrightarrow> distinct (map fst ks) \<and> distinct (map snd ks) \<and>
     (\<forall>k \<in> set ks. snd k < next) \<and> (\<forall>i a. m i = Some a \<longleftrightarrow> (i, a) \<in> set ks)"

lemma node_keys_simps [simp]:
  "node_keys [] = []" "node_keys (n # ns) = (ord_id (snd n), fst n) # node_keys ns"
  "node_keys (ns @ ns') = node_keys ns @ node_keys ns'"
  by (simp_all add: node_keys_def)

lemma set_node_keys: "set (node_keys ns) = (\<lambda>n. (ord_id (snd n), fst n)) ` set ns"
  by (simp add: node_keys_def)

lemma mset_node_keys: "mset ns = mset ns' \<Longrightarrow> mset (node_keys ns) = mset (node_keys ns')"
  by (simp add: node_keys_def)

lemma index_ok_mset:
  assumes "mset ks = mset ks'"
  shows "index_ok m next ks \<longleftrightarrow> index_ok m next ks'"
proof -
  have "mset (map fst ks) = mset (map fst ks')" "mset (map snd ks) = mset (map snd ks')"
    using assms by (metis mset_map)+
  then have "distinct (map fst ks) = distinct (map fst ks')" "distinct (map snd ks) = distinct (map snd ks')"
    by (metis mset_eq_imp_distinct_iff)+
  moreover have "set ks = set ks'"
    using assms by (metis set_mset_mset)
  ultimately show ?thesis
    by (simp add: index_ok_def)
qed

lemma index_ok_insert:
  "index_ok m next ks \<Longrightarrow> m i = None \<Longrightarrow> index_ok (m(i \<mapsto> next)) (Suc next) ((i, next) # ks)"
  by (force simp: index_ok_def image_iff)

lemma index_ok_remove:
  assumes "index_ok m next (xs @ ys)"
  shows "index_ok (map_remove (fst ` set xs) m) next ys"
  using assms by (force simp: index_ok_def map_remove_def image_iff)

lemma greedy_keys:
  "greedy s price rem ns = (fs, ns', rem') \<Longrightarrow>
   \<exists>ks. node_keys ns = ks @ node_keys ns' \<and> fst ` set ks = filled_ids fs"
proof (induction s price rem ns arbitrary: fs ns' rem' rule: greedy.induct)
  case (1 s price rem)
  then show ?case by simp
next
  case (2 s price rem a ord ns)
  show ?case
  proof (cases "rem > 0 \<and> \<not> no_cross s price (ord_price ord) \<and> rem \<ge> ord_quantity ord")
    case True
    then obtain fs2 where g: "greedy s price (rem - ord_quantity ord) ns = (fs2, ns', rem')"
      and fs: "fs = (ord, ord_quantity ord) # fs2"
      using "2.prems" by (auto split: prod.splits)
    then obtain ks where "node_keys ns = ks @ node_keys ns'" "fst ` set ks = filled_ids fs2"
      using "2.IH" True by blast
    then show ?thesis
      using fs by (intro exI [of _ "(ord_id ord, a) # ks"]) simp
  next
    case False
    then show ?thesis
      using "2.prems" by (intro exI [of _ "[]"]) (auto split: if_splits)
  qed
qed

lemma mset_priority: "mset (priority s c) = mset (side_nodes c)"
  by (simp add: priority_def levels_def side_nodes_def mset_concat rev_map [symmetric])

section \<open>The invariant\<close>

definition uncrossed :: "side_container \<Rightarrow> side_container \<Rightarrow> bool" where
  "uncrossed bids asks \<longleftrightarrow> (\<forall>b \<in> fst ` set bids. \<forall>k \<in> fst ` set asks. b < k)"

definition lob_inv :: "'p limit_order_book \<Rightarrow> bool" where
  "lob_inv lob \<longleftrightarrow> wf_side Bid (lob_bids lob) \<and> wf_side Ask (lob_asks lob) \<and>
     uncrossed (lob_bids lob) (lob_asks lob) \<and>
     index_ok (lob_order_id_map lob) (lob_next_node lob) (node_keys (all_nodes lob))"

text \<open>The invariant seen from one side, as \<open>match_order\<close> and \<open>cancel_order\<close> work.\<close>

definition crossing_order :: "side \<Rightarrow> int \<Rightarrow> int \<Rightarrow> bool" where
  "crossing_order s p q \<longleftrightarrow> (if s = Bid then p < q else q < p)"

definition sides_inv :: "side \<Rightarrow> side_container \<Rightarrow> side_container \<Rightarrow> (int \<rightharpoonup> nat) \<Rightarrow> nat \<Rightarrow> bool" where
  "sides_inv s near far m next \<longleftrightarrow> wf_side s near \<and> wf_side (opposite s) far \<and>
     (\<forall>p \<in> fst ` set near. \<forall>q \<in> fst ` set far. crossing_order s p q) \<and>
     index_ok m next (node_keys (side_nodes near @ side_nodes far))"

lemma get_side_simps [simp]:
  "get_side (set_side s c lob) s = c" "get_side (set_side (opposite s) c lob) s = get_side lob s"
  "get_side (set_side s c lob) (opposite s) = get_side lob (opposite s)"
  "get_side (lob\<lparr>lob_order_id_map := m\<rparr>) s = get_side lob s"
  "get_side (lob\<lparr>lob_trade_publisher := p\<rparr>) s = get_side lob s"
  "get_side (lob\<lparr>lob_next_node := n\<rparr>) s = get_side lob s"
  by (cases s; simp add: get_side_def set_side_def)+

lemma set_side_fields [simp]:
  "lob_order_id_map (set_side s c lob) = lob_order_id_map lob"
  "lob_next_node (set_side s c lob) = lob_next_node lob"
  "lob_ticker (set_side s c lob) = lob_ticker lob"
  "lob_trade_publisher (set_side s c lob) = lob_trade_publisher lob"
  by (simp_all add: set_side_def)

lemma opposite_opposite [simp]: "opposite (opposite s) = s"
  by (cases s) auto

lemma lob_inv_sides:
  "lob_inv lob \<longleftrightarrow> sides_inv s (get_side lob s) (get_side lob (opposite s)) (lob_order_id_map lob)
     (lob_next_node lob)"
proof (cases s)
  case Bid
  then show ?thesis
    by (auto simp: lob_inv_def sides_inv_def get_side_def all_nodes_def uncrossed_def crossing_order_def)
next
  case Ask
  have "mset (node_keys (all_nodes lob)) =
      mset (node_keys (side_nodes (lob_asks lob) @ side_nodes (lob_bids lob)))"
    by (intro mset_node_keys) (simp add: all_nodes_def)
  note index_ok_mset [OF this]
  then show ?thesis
    using Ask by (auto simp: lob_inv_def sides_inv_def get_side_def uncrossed_def crossing_order_def)
qed

lemma lob_inv_empty: "lob_inv (make_limit_order_book ticker p)"
  by (auto simp: lob_inv_def make_limit_order_book_def wf_side_def uncrossed_def index_ok_def all_nodes_def)

section \<open>Matching keeps the invariant\<close>

lemma matched_sides_inv:
  assumes "matched (opposite (ma_side a)) a far ms far' ms'"
    and "sides_inv (ma_side a) near far (ms_order_id_map ms) next"
  shows "sides_inv (ma_side a) near far' (ms_order_id_map ms') next"
proof -
  let ?s = "ma_side a"
  from assms(1) obtain fs rem' where
    g: "greedy ?s (ma_price a) (ms_remaining ms) (priority ?s far) = (fs, priority ?s far', rem')"
    and ms': "ms' = apply_fills a fs rem' ms" and far': "wf_side (opposite ?s) far'"
    "fst ` set far' \<subseteq> fst ` set far"
    by (auto simp: matched_def)
  obtain ks where ks: "node_keys (priority ?s far) = ks @ node_keys (priority ?s far')"
    "fst ` set ks = filled_ids fs"
    using greedy_keys [OF g] by blast
  have "mset (node_keys (side_nodes near @ side_nodes far)) =
      mset (ks @ node_keys (side_nodes near) @ node_keys (side_nodes far'))"
    using ks(1) mset_node_keys [OF mset_priority, of ?s far] mset_node_keys [OF mset_priority, of ?s far']
    by simp
  note index_ok_mset [OF this]
  then have "index_ok (map_remove (fst ` set ks) (ms_order_id_map ms)) next
      (node_keys (side_nodes near) @ node_keys (side_nodes far'))"
    using assms(2) by (intro index_ok_remove) (simp add: sides_inv_def)
  moreover have "\<forall>p \<in> fst ` set near. \<forall>q \<in> fst ` set far'. crossing_order ?s p q"
    using assms(2) far'(2) unfolding sides_inv_def by blast
  ultimately show ?thesis
    using assms(2) far'(1) ks(2) ms' by (simp add: sides_inv_def apply_fills_def)
qed

lemma stops_crossing:
  assumes "stops a far rem" "rem > 0" "wf_side s far" "q \<in> fst ` set far"
  shows "crossing_order (ma_side a) (ma_price a) q"
proof -
  obtain p os lv where lv: "levels (ma_side a) far = (p, os) # lv"
    using assms(4) by (metis empty_iff image_empty levels_Nil(2) list.exhaust list.set(1) old.prod.exhaust)
  then have far: "far = levels (ma_side a) ((p, os) # lv)"
    by (metis levels_levels)
  have "q = p \<or> q \<in> fst ` set lv"
    using assms(4) far by auto
  moreover have "\<forall>k \<in> fst ` set lv. if ma_side a = Bid then p < k else k < p"
    using assms(3) far sm_sorted_levels_Cons by (auto simp: wf_side_def)
  moreover have "no_cross (ma_side a) (ma_price a) p"
    using assms(1,2,4) lv by (auto simp: stops_def)
  ultimately show ?thesis
    by (cases "ma_side a") (fastforce simp: no_cross_def crossing_order_def)+
qed

lemma sorted_lookup_split:
  assumes "sm_sorted m" "map_of m k = Some v"
  obtains m1 m2 where "m = m1 @ (k, v) # m2"
  using assms by (metis map_of_SomeD split_list)

lemma mset_side_nodes_append:
  assumes "sm_sorted near"
  shows "mset (side_nodes (sm_update price
           ((case map_of near price of None \<Rightarrow> [] | Some os \<Rightarrow> os) @ [n]) near)) =
         add_mset n (mset (side_nodes near))"
proof (cases "map_of near price")
  case None
  then have "price \<notin> fst ` set near" by (simp add: map_of_eq_None_iff)
  then obtain m1 m2 where near: "near = m1 @ m2"
    and upd: "sm_update price [n] near = m1 @ (price, [n]) # m2"
    using sm_update_new [OF assms] by blast
  have "mset (side_nodes (sm_update price [n] near)) = add_mset n (mset (side_nodes near))"
    unfolding upd by (simp add: near)
  then show ?thesis using None by simp
next
  case (Some os)
  then obtain m1 m2 where "near = m1 @ (price, os) # m2"
    using sorted_lookup_split [OF assms] by blast
  then show ?thesis using Some assms by (simp add: sm_update_at)
qed

lemma wf_side_update:
  assumes "wf_side s c" "wf_level s (p, os)"
  shows "wf_side s (sm_update p os c)"
proof -
  have "set (sm_update p os c) \<subseteq> insert (p, os) (set c)"
    by (induction p os c rule: sm_update.induct) auto
  then show ?thesis
    using assms sorted_sm_update by (auto simp: wf_side_def)
qed

lemma wf_side_lookup: "wf_side s c \<Longrightarrow> map_of c p = Some os \<Longrightarrow> wf_level s (p, os)"
  by (auto simp: wf_side_def dest: map_of_SomeD)

lemma rest_order_inv:
  assumes "sides_inv s (get_side lob s) (get_side lob (opposite s)) (lob_order_id_map lob) (lob_next_node lob)"
    and "lob_order_id_map lob order_id = None" "0 \<le> order_id" "0 < price" "price < MARKET_BID_ORDER_PRICE"
    and "0 < quantity" "in_i32 quantity" "broker_id \<noteq> []"
    and "\<forall>q \<in> fst ` set (get_side lob (opposite s)). crossing_order s price q"
  shows "lob_inv (rest_order order_id price quantity s broker_id lob)"
proof -
  let ?near = "get_side lob s" and ?far = "get_side lob (opposite s)" and ?next = "lob_next_node lob"
  let ?level = "case map_of ?near price of None \<Rightarrow> [] | Some os \<Rightarrow> os"
  let ?ord = "\<lparr>ord_id = order_id, ord_price = price, ord_quantity = quantity, ord_side = s,
                ord_trader_id = broker_id\<rparr>"
  let ?near' = "sm_update price (?level @ [(?next, ?ord)]) ?near"
  have near: "wf_side s ?near" using assms(1) by (simp add: sides_inv_def)
  have "\<forall>n \<in> set ?level. wf_order (snd n) \<and> ord_price (snd n) = price \<and> ord_side (snd n) = s"
    using wf_side_lookup [OF near] by (cases "map_of ?near price") (auto simp: wf_level_def)
  then have "wf_level s (price, ?level @ [(?next, ?ord)])"
    using assms(3-8) by (auto simp: wf_level_def wf_order_def)
  then have "wf_side s ?near'"
    using near by (rule wf_side_update [rotated])
  moreover have "mset (node_keys (side_nodes ?near' @ side_nodes ?far)) =
      mset ((order_id, ?next) # node_keys (side_nodes ?near @ side_nodes ?far))"
    using mset_side_nodes_append [of ?near price "(?next, ?ord)"] near
      mset_node_keys [of "side_nodes ?near'" "(?next, ?ord) # side_nodes ?near"]
    by (simp add: wf_side_def)
  note idx = index_ok_mset [OF this]
  have "index_ok ((lob_order_id_map lob)(order_id \<mapsto> ?next)) (Suc ?next)
      (node_keys (side_nodes ?near' @ side_nodes ?far))"
    unfolding idx using assms(1,2) by (intro index_ok_insert) (auto simp: sides_inv_def)
  ultimately show ?thesis
    using assms(1,9)
    by (subst lob_inv_sides [of _ s]) (auto simp: rest_order_def Let_def sides_inv_def)
qed

text \<open>
  The result of \<open>add_order\<close> on a well-formed book, in terms of the reference: the far side is what
  \<open>greedy\<close> leaves, the trades of its fills are appended to the queue and published, and what is
  left of a limit order rests at the back of its level.
\<close>

definition mk_args ::
  "env \<Rightarrow> 'p try_publish \<Rightarrow> 'p limit_order_book \<Rightarrow> int \<Rightarrow> int \<Rightarrow> side \<Rightarrow> string \<Rightarrow> 'p match_args" where
  "mk_args env pub lob price order_id s broker_id =
     \<lparr>ma_env = env, ma_try_publish = pub, ma_ticker = lob_ticker lob, ma_price = price,
      ma_order_id = order_id, ma_side = s, ma_broker_id = broker_id\<rparr>"

definition is_market_price :: "int \<Rightarrow> bool" where
  "is_market_price price \<longleftrightarrow> price = MARKET_BID_ORDER_PRICE \<or> price = MARKET_ASK_ORDER_PRICE"

definition add_order_result ::
  "env \<Rightarrow> 'p try_publish \<Rightarrow> 'p limit_order_book \<Rightarrow> int \<Rightarrow> int \<Rightarrow> int \<Rightarrow> side \<Rightarrow> string \<Rightarrow>
   trade list \<Rightarrow> nat \<Rightarrow> 'p limit_order_book \<Rightarrow> trade list \<Rightarrow> nat \<Rightarrow> bool" where
  "add_order_result env pub lob order_id price quantity s broker_id events tick lob' events' tick' \<longleftrightarrow>
     (\<exists>fs rem far'.
        greedy s price quantity (priority s (get_side lob (opposite s))) = (fs, priority s far', rem) \<and>
        events' = events @ trades_of (mk_args env pub lob price order_id s broker_id) tick fs \<and>
        tick' = tick + length fs \<and>
        (let lob1 = set_side (opposite s) far'
               (lob\<lparr>lob_order_id_map := map_remove (filled_ids fs) (lob_order_id_map lob),
                    lob_trade_publisher := publish_all pub (lob_trade_publisher lob)
                      (trades_of (mk_args env pub lob price order_id s broker_id) tick fs)\<rparr>)
         in lob' = (if rem > 0 \<and> \<not> is_market_price price
                    then rest_order order_id price rem s broker_id lob1 else lob1)))"

lemma greedy_remaining:
  assumes "greedy s price rem ns = (fs, ns', rem')" "0 \<le> rem" "\<forall>n \<in> set ns. 0 < ord_quantity (snd n)"
  shows "0 \<le> rem' \<and> rem' \<le> rem \<and> rem = rem' + total_fill fs"
  using assms
proof (induction s price rem ns arbitrary: fs ns' rem' rule: greedy.induct)
  case (2 s price rem addr ord ns)
  then show ?case
    by (fastforce split: if_splits prod.splits)
qed auto

lemma wf_side_quantities: "wf_side s c \<Longrightarrow> \<forall>n \<in> set (priority ts c). 0 < ord_quantity (snd n)"
  by (fastforce simp: wf_side_def wf_level_def wf_order_def priority_def set_side_nodes)

lemma lob_inv_far: "lob_inv lob \<Longrightarrow> wf_side s (get_side lob s)"
  by (cases s) (auto simp: lob_inv_def get_side_def)

lemma add_order_Inr:
  assumes "add_order env pub lob events tick order_id price quantity s broker_id = Inr (lob', events', tick')"
    and "lob_inv lob" "in_i32 quantity" "in_i32 price"
  shows "add_order_result env pub lob order_id price quantity s broker_id events tick lob' events' tick'"
    and "lob_inv lob'"
proof -
  let ?a = "mk_args env pub lob price order_id s broker_id" and ?far = "get_side lob (opposite s)"
  let ?ms = "\<lparr>ms_remaining = quantity, ms_order_id_map = lob_order_id_map lob,
      ms_publisher = lob_trade_publisher lob, ms_trade_events = events, ms_tick = tick\<rparr>"
  have [simp]: "ma_side ?a = s" "ma_price ?a = price" "ma_try_publish ?a = pub"
    by (simp_all add: mk_args_def)
  have pre: "0 \<le> order_id" "lob_order_id_map lob order_id = None" "price = MARKET_ASK_ORDER_PRICE \<or> 0 < price"
      "0 < quantity" "broker_id \<noteq> []"
    using assms(1) by (auto simp: add_order_def split: if_splits)
  obtain far' ms' where ml: "match_levels ?a ?far ?ms = Inr (far', ms')"
    and res: "events' = ms_trade_events ms'" "tick' = ms_tick ms'"
      "lob' = (let lob1 = set_side (opposite s) far'
                (lob\<lparr>lob_order_id_map := ms_order_id_map ms', lob_trade_publisher := ms_publisher ms'\<rparr>)
         in if ms_remaining ms' > 0 \<and> \<not> is_market_price price
            then rest_order order_id price (ms_remaining ms') s broker_id lob1 else lob1)"
    using assms(1)
    by (auto simp: add_order_def match_order_def mk_args_def result_simps Let_def is_market_price_def
        split: if_splits)
  have m: "matched (opposite s) ?a ?far ?ms far' ms'"
    using match_levels_matched [OF ml] assms(2) by (simp add: lob_inv_far)
  then obtain fs rem' where g: "greedy s price quantity (priority s ?far) = (fs, priority s far', rem')"
    and ms': "ms' = apply_fills ?a fs rem' ?ms" and far': "stops ?a far' rem'" "wf_side (opposite s) far'"
    by (auto simp: matched_def)
  show "add_order_result env pub lob order_id price quantity s broker_id events tick lob' events' tick'"
    unfolding add_order_result_def using g res ms'
    by (intro exI [of _ fs] exI [of _ rem'] exI [of _ far']) (simp add: apply_fills_def)
  have rem': "ms_remaining ms' = rem'" using ms' by simp
  have rem: "0 \<le> rem'" "rem' \<le> quantity"
    using greedy_remaining [OF g] pre(4) wf_side_quantities [OF lob_inv_far [OF assms(2)]] by auto
  let ?lob1 = "set_side (opposite s) far'
      (lob\<lparr>lob_order_id_map := ms_order_id_map ms', lob_trade_publisher := ms_publisher ms'\<rparr>)"
  have inv1: "sides_inv s (get_side ?lob1 s) (get_side ?lob1 (opposite s)) (lob_order_id_map ?lob1)
      (lob_next_node ?lob1)"
    using matched_sides_inv [of ?a ?far ?ms far' ms'] m assms(2) lob_inv_sides [of lob s] by simp
  show "lob_inv lob'"
  proof (cases "rem' > 0 \<and> \<not> is_market_price price")
    case True
    have "lob_inv (rest_order order_id price rem' s broker_id ?lob1)"
    proof (rule rest_order_inv [OF inv1])
      show "lob_order_id_map ?lob1 order_id = None"
        using pre(2) ms' by (simp add: apply_fills_def map_remove_def)
      show "\<forall>q \<in> fst ` set (get_side ?lob1 (opposite s)). crossing_order s price q"
        using stops_crossing [OF far'(1) _ far'(2)] True by simp
      show "in_i32 rem'" using rem assms(3) in_i32_between by blast
      show "price < MARKET_BID_ORDER_PRICE" "0 < price"
        using True assms(4) pre(3) by (auto simp: is_market_price_def MARKET_BID_ORDER_PRICE_def in_i32_def)
    qed (use pre True in auto)
    then show ?thesis using True res(3) rem' by (simp add: Let_def)
  next
    case False
    have "lob_inv ?lob1" using inv1 lob_inv_sides [of ?lob1 s] by simp
    then show ?thesis using False res(3) rem' by (simp only: Let_def if_False)
  qed
qed

end
