(* ===== verification/LobCancel.thy ===== *)
theory LobCancel
  imports LobInvariant
begin

text \<open>
  Cancelling and reading by id: on a book that satisfies the invariant the iterator found in
  \<open>order_id_map\<close> is valid, it leads to the order with that id, and erasing it removes that node
  and nothing else, keeping the order of all other nodes.
\<close>

lemma index_lookup:
  assumes "lob_inv lob" "lob_order_id_map lob order_id = Some addr"
  obtains ord where "(addr, ord) \<in> set (all_nodes lob)" "ord_id ord = order_id"
proof -
  have "(order_id, addr) \<in> set (node_keys (all_nodes lob))"
    using assms by (simp add: lob_inv_def index_ok_def)
  then show ?thesis using that by (auto simp: set_node_keys)
qed

lemma distinct_addrs: "lob_inv lob \<Longrightarrow> distinct (map fst (all_nodes lob))"
  by (simp add: lob_inv_def index_ok_def node_keys_def comp_def)

lemma deref_node: "lob_inv lob \<Longrightarrow> (addr, ord) \<in> set (all_nodes lob) \<Longrightarrow> deref lob addr = Inr ord"
  by (simp add: deref_def map_of_is_SomeI [OF distinct_addrs])

lemma filter_absent: "addr \<notin> fst ` set ns \<Longrightarrow> filter (\<lambda>n. fst n \<noteq> addr) ns = ns"
  by (auto simp: filter_id_conv image_iff)

lemma all_nodes_index_update [simp]: "all_nodes (lob\<lparr>lob_order_id_map := m\<rparr>) = all_nodes lob"
  by (simp add: all_nodes_def)

lemma erase_node_side_nodes:
  assumes "sm_sorted c" "map_of c p = Some os" "addr \<in> fst ` set os" "distinct (map fst (side_nodes c))"
  shows "side_nodes (if erase_node addr os = [] then sm_erase p c else sm_set p (erase_node addr os) c) =
         filter (\<lambda>n. fst n \<noteq> addr) (side_nodes c)"
proof -
  obtain m1 m2 where c: "c = m1 @ (p, os) # m2"
    using sorted_lookup_split [OF assms(1,2)] .
  have "addr \<notin> fst ` set (side_nodes m1)" "addr \<notin> fst ` set (side_nodes m2)"
    using assms(3,4) c by (auto dest: image_eqI)
  note filter_absent [OF this(1)] filter_absent [OF this(2)]
  moreover have "erase_node addr os = filter (\<lambda>n. fst n \<noteq> addr) os"
    by (simp add: erase_node_def case_prod_unfold)
  ultimately show ?thesis
    using assms(1) c by (simp add: sm_erase_at sm_set_at)
qed

lemma erase_node_priority:
  assumes "sm_sorted c" "map_of c p = Some os" "addr \<in> fst ` set os" "distinct (map fst (side_nodes c))"
  shows "priority ts (if erase_node addr os = [] then sm_erase p c else sm_set p (erase_node addr os) c) =
         filter (\<lambda>n. fst n \<noteq> addr) (priority ts c)"
proof (cases ts)
  case Bid
  then show ?thesis
    using erase_node_side_nodes [OF assms] by (simp add: priority_def levels_def)
next
  case Ask
  obtain m1 m2 where c: "c = m1 @ (p, os) # m2"
    using sorted_lookup_split [OF assms(1,2)] .
  have "addr \<notin> fst ` set (side_nodes m1)" "addr \<notin> fst ` set (side_nodes m2)"
    using assms(3,4) c by (auto dest: image_eqI)
  then have "addr \<notin> fst ` set (side_nodes (rev m1))" "addr \<notin> fst ` set (side_nodes (rev m2))"
    by (simp_all add: set_side_nodes)
  note filter_absent [OF this(1)] filter_absent [OF this(2)]
  moreover have "erase_node addr os = filter (\<lambda>n. fst n \<noteq> addr) os"
    by (simp add: erase_node_def case_prod_unfold)
  ultimately show ?thesis
    using assms(1) c Ask by (simp add: sm_erase_at sm_set_at priority_def levels_def)
qed

lemma wf_side_erase_node:
  assumes "wf_side s c" "map_of c p = Some os"
  shows "wf_side s (if erase_node addr os = [] then sm_erase p c else sm_set p (erase_node addr os) c)"
proof -
  obtain m1 m2 where c: "c = m1 @ (p, os) # m2"
    using sorted_lookup_split assms by (metis wf_side_def)
  have "wf_level s (p, erase_node addr os)" if "erase_node addr os \<noteq> []"
    using wf_side_lookup [OF assms] that by (auto simp: wf_level_def erase_node_def)
  then show ?thesis
    using assms(1) c by (auto simp: wf_side_def sm_erase_at sm_set_at sm_sorted_append sm_sorted_Cons)
qed

lemma keys_erase_node:
  "fst ` set (if b then sm_erase p c else sm_set p v c) \<subseteq> fst ` set c"
  by (auto split: if_splits)

lemma uncrossed_mono:
  "uncrossed b k \<Longrightarrow> fst ` set b' \<subseteq> fst ` set b \<Longrightarrow> fst ` set k' \<subseteq> fst ` set k \<Longrightarrow> uncrossed b' k'"
  unfolding uncrossed_def by blast

lemma index_ok_delete:
  assumes "index_ok m next (node_keys ns)" "(addr, ord) \<in> set ns"
  shows "index_ok (m(ord_id ord := None)) next (node_keys (filter (\<lambda>n. fst n \<noteq> addr) ns))"
proof -
  obtain ns1 ns2 where ns: "ns = ns1 @ (addr, ord) # ns2"
    using assms(2) by (meson split_list)
  have "addr \<notin> fst ` set ns1" "addr \<notin> fst ` set ns2"
    using assms(1) by (auto simp: ns index_ok_def node_keys_def image_iff)
  then have "filter (\<lambda>n. fst n \<noteq> addr) ns = ns1 @ ns2"
    by (simp add: ns filter_absent)
  moreover have "index_ok m next ([(ord_id ord, addr)] @ node_keys (ns1 @ ns2))"
    using assms(1) index_ok_mset [of "node_keys ns" "[(ord_id ord, addr)] @ node_keys (ns1 @ ns2)"]
    by (simp add: ns)
  ultimately show ?thesis
    using index_ok_remove by (fastforce simp: map_remove_single)
qed

lemma node_on_side:
  assumes "lob_inv lob" "(addr, ord) \<in> set (all_nodes lob)"
  obtains os where "map_of (get_side lob (ord_side ord)) (ord_price ord) = Some os" "(addr, ord) \<in> set os"
proof -
  have "\<exists>s. (addr, ord) \<in> set (side_nodes (get_side lob s))"
    using assms(2) by (auto simp: all_nodes_def get_side_def intro: exI [of _ Bid] exI [of _ Ask])
  then obtain s p os where "(p, os) \<in> set (get_side lob s)" "(addr, ord) \<in> set os"
    by (auto simp: set_side_nodes)
  moreover have "wf_side s (get_side lob s)"
    using assms(1) by (rule lob_inv_far)
  ultimately have "map_of (get_side lob s) p = Some os" "ord_side ord = s" "ord_price ord = p"
    by (force simp: wf_side_def wf_level_def sm_sorted_distinct intro!: map_of_is_SomeI)+
  then show ?thesis using that \<open>(addr, ord) \<in> set os\<close> by blast
qed

lemma all_nodes_set_side:
  assumes "addr \<notin> fst ` set (side_nodes (get_side lob (opposite s)))"
    and "side_nodes c = filter (\<lambda>n. fst n \<noteq> addr) (side_nodes (get_side lob s))"
  shows "all_nodes (set_side s c lob) = filter (\<lambda>n. fst n \<noteq> addr) (all_nodes lob)"
proof -
  note filter_absent [OF assms(1)]
  then show ?thesis
    using assms(2) by (cases s) (auto simp: all_nodes_def get_side_def set_side_def)
qed

lemma cancel_order_correct:
  assumes inv: "lob_inv lob" and idx: "lob_order_id_map lob order_id = Some addr"
  obtains ord lob' where "(addr, ord) \<in> set (all_nodes lob)" "ord_id ord = order_id"
    "cancel_order lob order_id = Inr lob'" "lob_inv lob'"
    "all_nodes lob' = filter (\<lambda>n. fst n \<noteq> addr) (all_nodes lob)"
    "lob_order_id_map lob' = (lob_order_id_map lob)(order_id := None)"
    "\<forall>t ts. priority ts (get_side lob' t) = filter (\<lambda>n. fst n \<noteq> addr) (priority ts (get_side lob t))"
proof -
  obtain ord where node: "(addr, ord) \<in> set (all_nodes lob)" and oid: "ord_id ord = order_id"
    using index_lookup [OF assms] .
  let ?s = "ord_side ord" and ?p = "ord_price ord"
  obtain os where os: "map_of (get_side lob ?s) ?p = Some os" and mem: "(addr, ord) \<in> set os"
    using node_on_side [OF inv node] .
  let ?c = "if erase_node addr os = [] then sm_erase ?p (get_side lob ?s)
            else sm_set ?p (erase_node addr os) (get_side lob ?s)"
  let ?lob' = "(set_side ?s ?c lob)\<lparr>lob_order_id_map := (lob_order_id_map lob)(order_id := None)\<rparr>"
  have sd: "sides_inv ?s (get_side lob ?s) (get_side lob (opposite ?s)) (lob_order_id_map lob) (lob_next_node lob)"
    using inv lob_inv_sides by blast
  have dist: "distinct (map fst (side_nodes (get_side lob ?s)) @ map fst (side_nodes (get_side lob (opposite ?s))))"
    using sd by (simp add: sides_inv_def index_ok_def node_keys_def comp_def)
  have mem': "addr \<in> fst ` set os" using mem by (auto intro: rev_image_eqI)
  have in_side: "addr \<in> fst ` set (side_nodes (get_side lob ?s))"
    using os mem by (force simp: set_side_nodes dest: map_of_SomeD)
  have nodes: "side_nodes ?c = filter (\<lambda>n. fst n \<noteq> addr) (side_nodes (get_side lob ?s))"
    using erase_node_side_nodes [OF _ os mem'] sd dist by (simp add: sides_inv_def wf_side_def)
  have "addr \<notin> fst ` set (side_nodes (get_side lob (opposite ?s)))"
    using dist in_side unfolding distinct_append set_map by blast
  note absent = this
  then have all: "all_nodes ?lob' = filter (\<lambda>n. fst n \<noteq> addr) (all_nodes lob)"
    using all_nodes_set_side [OF _ nodes] by simp
  have step: "cancel_order lob order_id = Inr ?lob'"
    using idx deref_node [OF inv node] os mem' by (simp add: cancel_order_def Let_def)
  have "wf_side ?s ?c"
    using wf_side_erase_node [OF _ os] sd by (simp add: sides_inv_def)
  moreover have "index_ok ((lob_order_id_map lob)(order_id := None)) (lob_next_node lob) (node_keys (all_nodes ?lob'))"
    unfolding all using inv index_ok_delete [OF _ node] oid by (auto simp: lob_inv_def)
  moreover have "uncrossed (lob_bids ?lob') (lob_asks ?lob')"
  proof (rule uncrossed_mono)
    show "uncrossed (lob_bids lob) (lob_asks lob)" using inv by (simp add: lob_inv_def)
    show "fst ` set (lob_bids ?lob') \<subseteq> fst ` set (lob_bids lob)"
      "fst ` set (lob_asks ?lob') \<subseteq> fst ` set (lob_asks lob)"
      using keys_erase_node [of "erase_node addr os = []" ?p "get_side lob ?s" "erase_node addr os"]
      by (cases ?s; simp add: set_side_def get_side_def)+
  qed
  ultimately have "lob_inv ?lob'"
    using inv by (cases ?s) (auto simp: lob_inv_def set_side_def all_nodes_def)
  moreover have "priority ts (get_side ?lob' t) = filter (\<lambda>n. fst n \<noteq> addr) (priority ts (get_side lob t))"
    for t ts
  proof (cases "t = ?s")
    case True
    then show ?thesis
      using erase_node_priority [OF _ os mem'] sd dist by (simp add: sides_inv_def wf_side_def)
  next
    case False
    then have "t = opposite ?s" by (cases t; cases ?s) auto
    then show ?thesis
      using absent filter_absent [of addr "priority ts (get_side lob (opposite ?s))"]
      by (simp add: priority_def set_side_nodes)
  qed
  ultimately show ?thesis using that node oid step all by simp
qed

lemma get_order_by_id_correct:
  assumes "lob_inv lob" "lob_order_id_map lob order_id = Some addr"
  shows "\<exists>ord. get_order_by_id lob order_id = Inr ord \<and> (addr, ord) \<in> set (all_nodes lob) \<and> ord_id ord = order_id"
  using index_lookup [OF assms] deref_node [OF assms(1)] assms(2)
  by (metis (no_types, lifting) get_order_by_id_def option.simps(5))

end
