(* ===== verification/LobQueries.thy ===== *)
theory LobQueries
  imports LobCancel
begin

text \<open>
  The read operations of the book: level aggregates, the market data snapshot, the best order and
  the fill cost. The fill cost that the order manager reserves for a market order is shown to be
  exactly what the trades of that order cost when the book does not change in between.
\<close>

section \<open>Level aggregates\<close>

definition level_quantity :: "node list \<Rightarrow> int" where
  "level_quantity os = sum_list (map (\<lambda>n. ord_quantity (snd n)) os)"

lemma level_quantity_simps [simp]:
  "level_quantity [] = 0" "level_quantity (n # os) = ord_quantity (snd n) + level_quantity os"
  by (simp_all add: level_quantity_def)

lemma level_quantity_nonneg: "\<forall>n \<in> set os. 0 < ord_quantity (snd n) \<Longrightarrow> 0 \<le> level_quantity os"
  by (induction os) auto

lemma sum_quantities_Inr: "sum_quantities acc os = Inr q \<Longrightarrow> q = acc + level_quantity os"
  by (induction acc os rule: sum_quantities.induct) (auto simp: result_simps)

lemma sum_quantities_progress:
  "\<forall>n \<in> set os. 0 < ord_quantity (snd n) \<Longrightarrow> 0 \<le> acc \<Longrightarrow> in_i32 (acc + level_quantity os) \<Longrightarrow>
   sum_quantities acc os = Inr (acc + level_quantity os)"
proof (induction acc os rule: sum_quantities.induct)
  case (2 acc a ord os)
  have "0 \<le> level_quantity os"
    using "2.prems"(1) by (simp add: level_quantity_nonneg)
  then have "in_i32 (acc + ord_quantity ord)"
    using "2.prems" by (intro in_i32_between [OF "2.prems"(3)]) auto
  then show ?case using 2 by (simp add: add.assoc)
qed simp

definition best_first :: "'p limit_order_book \<Rightarrow> side \<Rightarrow> side_container" where
  "best_first lob s = levels (opposite s) (get_side lob s)"

lemma length_best_first [simp]: "length (best_first lob s) = length (get_side lob s)"
  by (simp add: best_first_def levels_def)

lemma nth_best_first:
  "i < length (get_side lob s) \<Longrightarrow>
   get_side lob s ! (if s = Bid then length (get_side lob s) - (i + 1) else i) = best_first lob s ! i"
  by (cases s) (auto simp: best_first_def levels_def rev_nth)

lemma get_level_aggregate_Inr:
  assumes "get_level_aggregate lob s i = Inr la"
  shows "i < length (best_first lob s) \<and> la_price la = fst (best_first lob s ! i) \<and>
         la_quantity la = level_quantity (snd (best_first lob s ! i)) \<and> 0 < la_price la \<and> 0 < la_quantity la"
  using assms nth_best_first [of i lob s]
  by (auto simp: get_level_aggregate_def Let_def result_simps split: if_splits prod.splits
      dest!: sum_quantities_Inr)

lemma wf_level_quantity:
  assumes "wf_level s (p, os)"
  shows "0 < level_quantity os"
proof -
  obtain n os' where os: "os = n # os'" using assms by (cases os) (auto simp: wf_level_def)
  have "0 \<le> level_quantity os'"
    using assms os by (intro level_quantity_nonneg) (auto simp: wf_level_def wf_order_def)
  then show ?thesis using assms os by (auto simp: wf_level_def wf_order_def)
qed

lemma get_level_aggregate_progress:
  assumes "lob_inv lob" "i < length (best_first lob s)"
    and "in_i32 (level_quantity (snd (best_first lob s ! i)))"
  shows "get_level_aggregate lob s i =
    Inr \<lparr>la_price = fst (best_first lob s ! i), la_quantity = level_quantity (snd (best_first lob s ! i))\<rparr>"
proof -
  obtain p os where l: "best_first lob s ! i = (p, os)" by force
  then have "(p, os) \<in> set (get_side lob s)"
    using assms(2) nth_mem by (fastforce simp: best_first_def)
  then have wf: "wf_level s (p, os)"
    using lob_inv_far [OF assms(1)] by (auto simp: wf_side_def)
  then have "sum_quantities 0 os = Inr (level_quantity os)"
    using sum_quantities_progress [of os 0] assms(3) l by (auto simp: wf_level_def wf_order_def)
  moreover have "get_side lob s \<noteq> []" "0 < p" "i < length (get_side lob s)"
    using assms(2) wf by (auto simp: wf_level_def)
  ultimately show ?thesis
    using l nth_best_first [of i lob s] wf_level_quantity [OF wf]
    by (simp add: get_level_aggregate_def Let_def)
qed

section \<open>The market data snapshot\<close>

lemma fill_aggregates_Inr:
  assumes "fill_aggregates lob s is arr = Inr arr'" "distinct is"
  shows "length arr' = length arr \<and>
    (\<forall>j. arr' ! j = (if j \<in> set is
       then \<lparr>la_price = fst (best_first lob s ! j), la_quantity = level_quantity (snd (best_first lob s ! j))\<rparr>
       else arr ! j))"
  using assms
proof (induction lob s "is" arr rule: fill_aggregates.induct)
  case (1 lob s arr)
  then show ?case by simp
next
  case (2 lob s i "is" arr)
  from "2.prems" obtain la where la: "get_level_aggregate lob s i = Inr la" and i: "i < length arr"
    and rec: "fill_aggregates lob s is (arr[i := la]) = Inr arr'"
    by (auto simp: result_simps split: if_splits)
  have "la = \<lparr>la_price = fst (best_first lob s ! i), la_quantity = level_quantity (snd (best_first lob s ! i))\<rparr>"
    using get_level_aggregate_Inr [OF la] by simp
  with "2.IH" [OF la i rec] "2.prems"(2) i show ?case
    by (auto simp: nth_list_update)
qed

lemma fill_aggregates_progress:
  assumes "\<forall>i \<in> set is. i < length arr \<and> succeeds (get_level_aggregate lob s i)"
  shows "succeeds (fill_aggregates lob s is arr)"
  using assms
  by (induction lob s "is" arr rule: fill_aggregates.induct) (auto simp: result_simps)

definition aggregate :: "int \<times> node list \<Rightarrow> level_aggregate" where
  "aggregate l = \<lparr>la_price = fst l, la_quantity = level_quantity (snd l)\<rparr>"

definition no_level :: level_aggregate where
  "no_level = \<lparr>la_price = 0, la_quantity = 0\<rparr>"

definition snapshot_side :: "'p limit_order_book \<Rightarrow> side \<Rightarrow> level_aggregate list" where
  "snapshot_side lob s =
     take ORDER_BOOK_AGGREGATE_LEVELS
       (map aggregate (best_first lob s) @ replicate ORDER_BOOK_AGGREGATE_LEVELS no_level)"

lemma fill_aggregates_snapshot:
  assumes "lob_inv lob" "\<forall>l \<in> set (get_side lob s). in_i32 (level_quantity (snd l))"
  shows "fill_aggregates lob s [0..<min ORDER_BOOK_AGGREGATE_LEVELS (length (get_side lob s))]
           (replicate ORDER_BOOK_AGGREGATE_LEVELS no_level) = Inr (snapshot_side lob s)"
    (is "fill_aggregates lob s ?is ?arr = _")
proof -
  have fits: "in_i32 (level_quantity (snd (best_first lob s ! i)))" if "i < length (get_side lob s)" for i
    using assms(2) that by (simp add: best_first_def levels_def rev_nth)
  then have "\<forall>i \<in> set ?is. succeeds (get_level_aggregate lob s i)"
    using get_level_aggregate_progress [OF assms(1)] by (simp add: succeeds_def)
  then obtain arr' where f: "fill_aggregates lob s ?is ?arr = Inr arr'"
    using fill_aggregates_progress [of ?is ?arr lob s] by (auto simp: succeeds_iff)
  have "arr' = snapshot_side lob s"
    using fill_aggregates_Inr [OF f]
    by (intro nth_equalityI) (auto simp: snapshot_side_def aggregate_def no_level_def nth_append)
  then show ?thesis using f by simp
qed

lemma get_top_progress:
  assumes "lob_inv lob" "0 < strlen (lob_ticker lob)" "strlen (lob_ticker lob) < 4"
    and "\<forall>s. \<forall>l \<in> set (get_side lob s). in_i32 (level_quantity (snd l))"
  shows "get_top_order_book_level_aggregate now lob =
    Inr \<lparr>tob_ticker = c_str (lob_ticker lob), tob_bid_level_aggregates = snapshot_side lob Bid,
         tob_ask_level_aggregates = snapshot_side lob Ask, tob_create_timestamp = now\<rparr>"
  using fill_aggregates_snapshot [OF assms(1) spec [OF assms(4)], of Bid]
    fill_aggregates_snapshot [OF assms(1) spec [OF assms(4)], of Ask] assms(2,3)
  by (simp add: get_top_order_book_level_aggregate_def make_top_order_book_level_aggregates_def copy_cstr_def
      MAX_TICKER_LENGTH_def no_level_def get_side_def)

lemma get_best_order_first:
  assumes "lob_inv lob"
  shows "get_best_order lob s =
    Inr (case priority (opposite s) (get_side lob s) of [] \<Rightarrow> None | n # _ \<Rightarrow> Some (snd n))"
proof (cases "get_side lob s = []")
  case True
  then show ?thesis by (simp add: get_best_order_def priority_def)
next
  case False
  then obtain p os lv where lv: "levels (opposite s) (get_side lob s) = (p, os) # lv"
    by (metis levels_Nil(2) neq_Nil_conv surj_pair)
  then have "(p, os) \<in> set (get_side lob s)"
    by (metis list.set_intros(1) set_levels)
  then have "os \<noteq> []"
    using lob_inv_far [OF assms, of s] by (auto simp: wf_side_def wf_level_def)
  moreover have "(if s = Bid then last (get_side lob s) else hd (get_side lob s)) = (p, os)"
    using lv False best_level_hd [of "get_side lob s" "opposite s"]
    by (cases s) (simp_all add: best_level_def)
  ultimately show ?thesis
    using False lv by (cases os) (auto simp: get_best_order_def priority_def Let_def)
qed

section \<open>Fill cost\<close>

definition unlimited :: "side \<Rightarrow> int \<Rightarrow> side_container \<Rightarrow> bool" where
  "unlimited taker_side price c \<longleftrightarrow> (\<forall>p \<in> fst ` set c. \<not> no_cross taker_side price p)"

lemma greedy_level_all:
  assumes "\<forall>n \<in> set os. ord_price (snd n) = p \<and> 0 < ord_quantity (snd n)" "\<not> no_cross s price p"
    and "0 \<le> rem" "level_quantity os \<le> rem"
  shows "\<exists>fs. greedy s price rem os = (fs, [], rem - level_quantity os) \<and>
           total_cost fs = p * level_quantity os"
  using assms
proof (induction os arbitrary: rem)
  case Nil
  then show ?case by simp
next
  case (Cons n os)
  obtain a ord where n: "n = (a, ord)" by force
  have "0 \<le> level_quantity os"
    using Cons.prems(1) by (simp add: level_quantity_nonneg)
  with Cons.prems n have "0 < ord_quantity ord" "ord_quantity ord \<le> rem" "ord_price ord = p"
    by auto
  moreover obtain fs where "greedy s price (rem - ord_quantity ord) os =
      (fs, [], rem - ord_quantity ord - level_quantity os)" "total_cost fs = p * level_quantity os"
    using Cons.IH [of "rem - ord_quantity ord"] Cons.prems n \<open>ord_quantity ord \<le> rem\<close> by auto
  ultimately show ?case
    using n Cons.prems(2) by (auto simp: algebra_simps)
qed

lemma greedy_level_part:
  assumes "\<forall>n \<in> set os. ord_price (snd n) = p \<and> 0 < ord_quantity (snd n)" "\<not> no_cross s price p"
    and "0 < rem" "rem < level_quantity os"
  shows "\<exists>fs os'. greedy s price rem os = (fs, os', 0) \<and> os' \<noteq> [] \<and> total_cost fs = p * rem"
  using assms
proof (induction os arbitrary: rem)
  case Nil
  then show ?case by simp
next
  case (Cons n os)
  obtain a ord where n: "n = (a, ord)" by force
  consider "rem < ord_quantity ord" | "rem = ord_quantity ord" | "ord_quantity ord < rem" by linarith
  then show ?case
  proof cases
    case 1
    then show ?thesis using Cons.prems n by auto
  next
    case 2
    then have "greedy s price 0 os = ([], os, 0)" "os \<noteq> []"
      using Cons.prems n by (auto simp: greedy_stop)
    then show ?thesis using Cons.prems n 2 by auto
  next
    case 3
    then obtain fs os' where "greedy s price (rem - ord_quantity ord) os = (fs, os', 0)" "os' \<noteq> []"
      "total_cost fs = p * (rem - ord_quantity ord)"
      using Cons.IH [of "rem - ord_quantity ord"] Cons.prems n by auto
    then show ?thesis using Cons.prems n 3 by (auto simp: algebra_simps)
  qed
qed

lemma fill_cost_loop_Inr:
  assumes "fill_cost_loop lob s [i..<length (best_first lob s)] q t = Inr t'"
    and "lob_inv lob" "0 \<le> q" "unlimited (opposite s) price (get_side lob s)"
  shows "t' = t + total_cost (fills_of (opposite s) price q (side_nodes (drop i (best_first lob s))))"
  using assms
proof (induction "length (best_first lob s) - i" arbitrary: i q t)
  case 0
  then show ?case by (simp add: fills_of_def)
next
  case (Suc k)
  let ?lv = "best_first lob s"
  have i: "i < length ?lv" using Suc.hyps(2) by simp
  obtain p os where l: "?lv ! i = (p, os)" by force
  have drop: "drop i ?lv = (p, os) # drop (Suc i) ?lv"
    using i l by (metis Cons_nth_drop_Suc)
  have mem: "(p, os) \<in> set (get_side lob s)"
    using i l nth_mem by (fastforce simp: best_first_def)
  then have nc: "\<not> no_cross (opposite s) price p"
    using Suc.prems(4) by (force simp: unlimited_def)
  have os: "\<forall>n \<in> set os. ord_price (snd n) = p \<and> 0 < ord_quantity (snd n)"
    using lob_inv_far [OF Suc.prems(2)] mem by (force simp: wf_side_def wf_level_def wf_order_def)
  have upt: "[i..<length ?lv] = i # [Suc i..<length ?lv]"
    using i by (rule upt_conv_Cons)
  show ?case
  proof (cases "q = 0")
    case True
    then show ?thesis
      using Suc.prems(1) upt by (simp add: fills_of_def greedy_stop)
  next
    case False
    then obtain la where la: "get_level_aggregate lob s i = Inr la"
      using Suc.prems(1) upt by (auto simp: result_simps)
    have la': "la_price la = p" "la_quantity la = level_quantity os"
      using get_level_aggregate_Inr [OF la] l by auto
    show ?thesis
    proof (cases "level_quantity os \<le> q")
      case True
      obtain fs where g: "greedy (opposite s) price q os = (fs, [], q - level_quantity os)"
        "total_cost fs = p * level_quantity os"
        using greedy_level_all [OF os nc Suc.prems(3) True] by blast
      have "fill_cost_loop lob s [Suc i..<length ?lv] (q - level_quantity os) (t + p * level_quantity os) = Inr t'"
        using Suc.prems(1) upt False la la' True by (auto simp: result_simps)
      then have "t' = t + p * level_quantity os +
          total_cost (fills_of (opposite s) price (q - level_quantity os) (side_nodes (drop (Suc i) ?lv)))"
        using Suc.hyps(1) [of "Suc i"] Suc.hyps(2) Suc.prems(2,4) True by simp
      then show ?thesis
        using g drop by (simp add: fills_of_def greedy_append split: prod.splits)
    next
      case more: False
      obtain fs os' where g: "greedy (opposite s) price q os = (fs, os', 0)" "os' \<noteq> []"
        "total_cost fs = p * q"
        using greedy_level_part [OF os nc, of q] Suc.prems(3) False more by force
      have "fill_cost_loop lob s [Suc i..<length ?lv] 0 (t + p * q) = Inr t'"
        using Suc.prems(1) upt False la la' more by (auto simp: result_simps)
      then have "t' = t + p * q"
        using Suc.hyps(1) [of "Suc i" 0] Suc.hyps(2) Suc.prems(2,4) by (simp add: fills_of_def greedy_stop)
      then show ?thesis
        using g drop by (simp add: fills_of_def greedy_append)
    qed
  qed
qed

lemma get_fill_cost_Inr:
  assumes "get_fill_cost lob q s = Inr c" "lob_inv lob" "unlimited (opposite s) price (get_side lob s)"
  shows "(case c of None \<Rightarrow> 0 | Some x \<Rightarrow> x) =
    total_cost (fills_of (opposite s) price q (priority (opposite s) (get_side lob s)))"
proof (cases "get_side lob s = []")
  case True
  then show ?thesis
    using assms(1) by (auto simp: get_fill_cost_def fills_of_def priority_def split: if_splits)
next
  case False
  then obtain t where "fill_cost_loop lob s [0..<length (best_first lob s)] q 0 = Inr t" "c = Some t" "0 < q"
    using assms(1) by (auto simp: get_fill_cost_def result_simps split: if_splits)
  then show ?thesis
    using fill_cost_loop_Inr [of lob s 0 q 0 t price] assms by (simp add: best_first_def priority_def)
qed

definition market_price :: "side \<Rightarrow> int" where
  "market_price s = (if s = Bid then MARKET_BID_ORDER_PRICE else MARKET_ASK_ORDER_PRICE)"

lemma market_price_unlimited: "lob_inv lob \<Longrightarrow> unlimited s (market_price s) (get_side lob (opposite s))"
  using lob_inv_far [of lob "opposite s"]
  by (force simp: unlimited_def no_cross_def market_price_def wf_side_def wf_level_def
      MARKET_ASK_ORDER_PRICE_def)

lemma market_price_range [simp]: "in_i32 (market_price s)"
  by (simp add: market_price_def in_i32_def MARKET_ASK_ORDER_PRICE_def MARKET_BID_ORDER_PRICE_def)

end
