(* ===== verification/LobSpec.thy ===== *)
theory LobSpec
  imports LobQueries
begin

text \<open>
  The abstract order book: for each side the resting orders as one list in price-time priority.
  Adding an order consumes the front of the far list and puts what is left behind every resting
  order with at least as good a price; cancelling removes one order. \<open>book_of\<close> reads the abstract
  book off the sorted maps of queues, and the operations of \<open>limit_order_book.cpp\<close> are shown to
  refine the abstract ones. The interface is the locale \<open>price_time_book\<close>, whose laws are the
  refinement statements and in which the guarantees a market participant relies on are proved.
\<close>

section \<open>The abstract book\<close>

type_synonym book = "side \<Rightarrow> order list"

definition better :: "side \<Rightarrow> int \<Rightarrow> int \<Rightarrow> bool" where
  "better s p q \<longleftrightarrow> (if s = Bid then p > q else p < q)"

fun insert_order :: "side \<Rightarrow> order \<Rightarrow> order list \<Rightarrow> order list" where
  "insert_order s ord [] = [ord]"
| "insert_order s ord (x # xs) =
     (if better s (ord_price ord) (ord_price x) then ord # x # xs else x # insert_order s ord xs)"

fun spec_match :: "side \<Rightarrow> int \<Rightarrow> int \<Rightarrow> order list \<Rightarrow> (order \<times> int) list \<times> order list \<times> int" where
  "spec_match s price rem [] = ([], [], rem)"
| "spec_match s price rem (ord # os) =
     (if rem > 0 \<and> \<not> no_cross s price (ord_price ord) then
        if rem \<ge> ord_quantity ord then
          (case spec_match s price (rem - ord_quantity ord) os of
             (fills, os', rem') \<Rightarrow> ((ord, ord_quantity ord) # fills, os', rem'))
        else ([(ord, rem)], ord\<lparr>ord_quantity := ord_quantity ord - rem\<rparr> # os, 0)
      else ([], ord # os, rem))"

definition spec_add ::
  "book \<Rightarrow> int \<Rightarrow> int \<Rightarrow> int \<Rightarrow> side \<Rightarrow> string \<Rightarrow> book \<times> (order \<times> int) list \<times> int" where
  "spec_add b order_id price quantity s broker_id =
     (case spec_match s price quantity (b (opposite s)) of
        (fs, far', rem) \<Rightarrow>
          let b' = b(opposite s := far') in
          (if rem > 0 \<and> \<not> is_market_price price
           then b'(s := insert_order s
                  \<lparr>ord_id = order_id, ord_price = price, ord_quantity = rem, ord_side = s,
                   ord_trader_id = broker_id\<rparr> (b s))
           else b', fs, rem))"

definition spec_cancel :: "book \<Rightarrow> int \<Rightarrow> book" where
  "spec_cancel b order_id = (\<lambda>s. filter (\<lambda>ord. ord_id ord \<noteq> order_id) (b s))"

definition book_of :: "'p limit_order_book \<Rightarrow> book" where
  "book_of lob s = map snd (priority (opposite s) (get_side lob s))"

lemma greedy_spec_match:
  "greedy s price rem ns = (fs, ns', rem') \<Longrightarrow>
   spec_match s price rem (map snd ns) = (fs, map snd ns', rem')"
  by (induction s price rem ns arbitrary: fs ns' rem' rule: greedy.induct)
    (auto split: if_splits prod.splits)

lemma insert_order_middle:
  "\<forall>x \<in> set xs. \<not> better s (ord_price ord) (ord_price x) \<Longrightarrow>
   \<forall>y \<in> set ys. better s (ord_price ord) (ord_price y) \<Longrightarrow>
   insert_order s ord (xs @ ys) = xs @ ord # ys"
  by (induction xs) (auto, cases ys, auto)

lemma sm_update_split:
  assumes "sm_sorted m" "map_of m k = vo"
  obtains m1 m2 where "sm_update k v m = m1 @ (k, v) # m2"
    "m = m1 @ (case vo of None \<Rightarrow> [] | Some v0 \<Rightarrow> [(k, v0)]) @ m2"
    "\<forall>x \<in> fst ` set m1. x < k" "\<forall>x \<in> fst ` set m2. k < x"
proof (cases vo)
  case None
  then have "k \<notin> fst ` set m" using assms(2) by (simp add: map_of_eq_None_iff)
  then obtain m1 m2 where m: "m = m1 @ m2" and u: "sm_update k v m = m1 @ (k, v) # m2"
    using sm_update_new [OF assms(1)] by blast
  have "sm_sorted (m1 @ (k, v) # m2)"
    using sorted_sm_update [OF assms(1), of k v] u by simp
  then have "\<forall>x \<in> fst ` set m1. x < k" "\<forall>x \<in> fst ` set m2. k < x"
    by (auto simp: sm_sorted_append sm_sorted_Cons)
  then show ?thesis using m u None by (intro that [of m1 m2]) simp_all
next
  case (Some v0)
  then obtain m1 m2 where m: "m = m1 @ (k, v0) # m2"
    using sorted_lookup_split [OF assms(1)] assms(2) by blast
  have "\<forall>x \<in> fst ` set m1. x < k" "\<forall>x \<in> fst ` set m2. k < x"
    using assms(1) m by (auto simp: sm_sorted_append sm_sorted_Cons)
  then show ?thesis using m Some assms(1) sm_update_at [of m1 k v0 m2 v] by (intro that [of m1 m2]) simp_all
qed

lemma wf_side_node_price:
  "wf_side s c \<Longrightarrow> (p, os) \<in> set c \<Longrightarrow> n \<in> set os \<Longrightarrow> ord_price (snd n) = p"
  by (fastforce simp: wf_side_def wf_level_def)

lemma side_nodes_rev [simp]:
  "side_nodes (rev (m1 @ m2)) = side_nodes (rev m2) @ side_nodes (rev m1)"
  by simp

lemma book_of_rest:
  assumes "wf_side s c"
  shows "map snd (priority (opposite s) (sm_update (ord_price ord)
           ((case map_of c (ord_price ord) of None \<Rightarrow> [] | Some os \<Rightarrow> os) @ [(a, ord)]) c)) =
         insert_order s ord (map snd (priority (opposite s) c))"
proof -
  define p where "p = ord_price ord"
  define vo where "vo = map_of c p"
  define old where "old = (case vo of None \<Rightarrow> [] | Some os \<Rightarrow> os)"
  define mid where "mid = (case vo of None \<Rightarrow> [] | Some os \<Rightarrow> [(p, os)])"
  obtain m1 m2 where u: "sm_update p (old @ [(a, ord)]) c = m1 @ (p, old @ [(a, ord)]) # m2"
    and c: "c = m1 @ mid @ m2" and keys: "\<forall>x \<in> fst ` set m1. x < p" "\<forall>x \<in> fst ` set m2. p < x"
    using sm_update_split [of c p vo "old @ [(a, ord)]"] assms
    unfolding wf_side_def vo_def mid_def by blast
  have nodes: "side_nodes mid = old" "rev mid = mid"
    by (auto simp: mid_def old_def split: option.splits)
  have old_p: "\<forall>n \<in> set old. ord_price (snd n) = p"
    unfolding old_def vo_def using wf_side_lookup [OF assms, of p]
    by (cases "map_of c p") (auto simp: wf_level_def)
  have sub: "set m1 \<subseteq> set c" "set m2 \<subseteq> set c"
    using c by auto
  have m1: "\<forall>n \<in> set (side_nodes m1). ord_price (snd n) < p"
    using keys(1) sub(1) wf_side_node_price [OF assms] by (force simp: set_side_nodes)
  have m2: "\<forall>n \<in> set (side_nodes m2). p < ord_price (snd n)"
    using keys(2) sub(2) wf_side_node_price [OF assms] by (force simp: set_side_nodes)
  have r: "set (side_nodes (rev m1)) = set (side_nodes m1)" "set (side_nodes (rev m2)) = set (side_nodes m2)"
    by (simp_all add: set_side_nodes)
  show ?thesis
  proof (cases s)
    case Bid
    have pr: "priority (opposite s) c = side_nodes (rev m2) @ old @ side_nodes (rev m1)"
      using Bid nodes c by (simp add: priority_def levels_def)
    have "insert_order s ord (map snd ((side_nodes (rev m2) @ old) @ side_nodes (rev m1))) =
        map snd (side_nodes (rev m2) @ old) @ ord # map snd (side_nodes (rev m1))"
      unfolding map_append [of _ "side_nodes (rev m2) @ old"]
      by (rule insert_order_middle) (use m1 m2 old_p Bid r in \<open>force simp: better_def p_def [symmetric]\<close>)+
    then show ?thesis
      using pr u Bid unfolding p_def [symmetric] vo_def [symmetric] old_def [symmetric] by (simp add: priority_def levels_def)
  next
    case Ask
    have pr: "priority (opposite s) c = side_nodes m1 @ old @ side_nodes m2"
      using Ask nodes c by (simp add: priority_def levels_def)
    have "insert_order s ord (map snd ((side_nodes m1 @ old) @ side_nodes m2)) =
        map snd (side_nodes m1 @ old) @ ord # map snd (side_nodes m2)"
      unfolding map_append [of _ "side_nodes m1 @ old"]
      by (rule insert_order_middle) (use m1 m2 old_p Ask in \<open>force simp: better_def p_def [symmetric]\<close>)+
    then show ?thesis
      using pr u Ask unfolding p_def [symmetric] vo_def [symmetric] old_def [symmetric] by (simp add: priority_def levels_def)
  qed
qed

section \<open>Refinement\<close>

lemma book_of_other_fields [simp]:
  "book_of (lob\<lparr>lob_order_id_map := m\<rparr>) = book_of lob"
  "book_of (lob\<lparr>lob_trade_publisher := p\<rparr>) = book_of lob"
  "book_of (lob\<lparr>lob_next_node := n\<rparr>) = book_of lob"
  by (simp_all add: book_of_def fun_eq_iff)

lemma book_of_set_side:
  "book_of (set_side s c lob) = (book_of lob)(s := map snd (priority (opposite s) c))"
proof
  fix t
  have "t = s \<or> t = opposite s" by (cases s; cases t) auto
  then show "book_of (set_side s c lob) t = ((book_of lob)(s := map snd (priority (opposite s) c))) t"
    by (cases s) (auto simp: book_of_def get_side_def set_side_def)
qed

lemma opposite_neq [simp]: "opposite s \<noteq> s" "s \<noteq> opposite s"
  by (cases s; simp)+

lemma book_of_rest_order:
  assumes "wf_side s (get_side lob s)"
  shows "book_of (rest_order order_id price quantity s broker_id lob) =
    (book_of lob)(s := insert_order s \<lparr>ord_id = order_id, ord_price = price, ord_quantity = quantity,
       ord_side = s, ord_trader_id = broker_id\<rparr> (book_of lob s))"
  using book_of_rest [OF assms, of "\<lparr>ord_id = order_id, ord_price = price, ord_quantity = quantity,
       ord_side = s, ord_trader_id = broker_id\<rparr>"]
  by (simp add: rest_order_def Let_def book_of_set_side) (simp add: book_of_def)

lemma add_order_refines:
  assumes "add_order env pub lob events tick order_id price quantity s broker_id = Inr (lob', events', tick')"
    and "lob_inv lob" "in_i32 quantity" "in_i32 price"
  shows "\<exists>fs rem. spec_add (book_of lob) order_id price quantity s broker_id = (book_of lob', fs, rem) \<and>
    events' = events @ trades_of (mk_args env pub lob price order_id s broker_id) tick fs"
proof -
  let ?ts = "trades_of (mk_args env pub lob price order_id s broker_id) tick"
  define lob1 where "lob1 far' fs = set_side (opposite s) far'
      (lob\<lparr>lob_order_id_map := map_remove (filled_ids fs) (lob_order_id_map lob),
           lob_trade_publisher := publish_all pub (lob_trade_publisher lob) (?ts fs)\<rparr>)" for far' fs
  from add_order_Inr(1) [OF assms] obtain fs rem far' where
    g: "greedy s price quantity (priority s (get_side lob (opposite s))) = (fs, priority s far', rem)"
    and ev: "events' = events @ ?ts fs"
    and lob': "lob' = (if rem > 0 \<and> \<not> is_market_price price
                  then rest_order order_id price rem s broker_id (lob1 far' fs) else lob1 far' fs)"
    unfolding add_order_result_def Let_def lob1_def [symmetric] by blast
  have b1: "book_of (lob1 far' fs) = (book_of lob)(opposite s := map snd (priority s far'))"
    by (simp add: lob1_def book_of_set_side)
  have "spec_match s price quantity (book_of lob (opposite s)) = (fs, map snd (priority s far'), rem)"
    using greedy_spec_match [OF g] by (simp add: book_of_def)
  moreover have "wf_side s (get_side (lob1 far' fs) s)"
    using lob_inv_far [OF assms(2)] by (simp add: lob1_def)
  ultimately show ?thesis
    using ev b1 lob' by (auto simp: spec_add_def book_of_rest_order)
qed

lemma ids_addrs:
  assumes "index_ok m next (node_keys ns)" "(addr, ord) \<in> set ns" "n \<in> set ns"
  shows "fst n = addr \<longleftrightarrow> ord_id (snd n) = ord_id ord"
proof -
  have "inj_on fst (set (node_keys ns))" "inj_on snd (set (node_keys ns))"
    using assms(1) by (simp_all add: index_ok_def distinct_map)
  moreover have "(ord_id ord, addr) \<in> set (node_keys ns)" "(ord_id (snd n), fst n) \<in> set (node_keys ns)"
    using assms(2,3) by (force simp: set_node_keys)+
  ultimately show ?thesis
    by (metis fst_conv inj_onD snd_conv)
qed

lemma cancel_order_refines:
  assumes "cancel_order lob order_id = Inr lob'" "lob_inv lob"
  shows "book_of lob' = spec_cancel (book_of lob) order_id \<and> lob_inv lob'"
proof -
  obtain addr where "lob_order_id_map lob order_id = Some addr"
    using assms(1) by (auto simp: cancel_order_def split: option.splits)
  then obtain ord where node: "(addr, ord) \<in> set (all_nodes lob)" "ord_id ord = order_id"
    and inv: "lob_inv lob'"
    and pr: "\<And>t ts. priority ts (get_side lob' t) = filter (\<lambda>n. fst n \<noteq> addr) (priority ts (get_side lob t))"
    using cancel_order_correct [OF assms(2)] assms(1) by (metis Inr_inject)
  have sub: "n \<in> set (all_nodes lob)" if "n \<in> set (priority (opposite t) (get_side lob t))" for n t
    using that by (cases t) (auto simp: priority_def all_nodes_def get_side_def set_side_nodes)
  have idx: "index_ok (lob_order_id_map lob) (lob_next_node lob) (node_keys (all_nodes lob))"
    using assms(2) by (simp add: lob_inv_def)
  have "map snd (filter (\<lambda>n. fst n \<noteq> addr) (priority (opposite t) (get_side lob t))) =
      filter (\<lambda>ord. ord_id ord \<noteq> order_id) (map snd (priority (opposite t) (get_side lob t)))" for t
    unfolding filter_map comp_def
    by (rule arg_cong [of _ _ "map snd"], rule filter_cong [OF refl])
      (use ids_addrs [OF idx node(1) sub] node(2) in simp)
  then show ?thesis
    using inv by (auto simp: book_of_def spec_cancel_def pr)
qed

section \<open>What the reference guarantees\<close>

definition full_fills :: "order list \<Rightarrow> (order \<times> int) list" where
  "full_fills os = map (\<lambda>ord. (ord, ord_quantity ord)) os"

text \<open>The fills are a prefix of the priority list, complete but for the last one.\<close>

lemma spec_match_prefix:
  assumes "spec_match s price rem os = (fs, os', rem')" "0 \<le> rem" "\<forall>ord \<in> set os. 0 < ord_quantity ord"
  shows "\<exists>ds rest. os = ds @ rest \<and>
    (fs = full_fills ds \<and> os' = rest \<or>
     (\<exists>ord rest' k. rest = ord # rest' \<and> 0 < k \<and> k < ord_quantity ord \<and> fs = full_fills ds @ [(ord, k)] \<and>
        os' = ord\<lparr>ord_quantity := ord_quantity ord - k\<rparr> # rest' \<and> rem' = 0))"
  using assms
proof (induction s price rem os arbitrary: fs os' rem' rule: spec_match.induct)
  case (1 s price rem)
  then show ?case by (simp add: full_fills_def)
next
  case (2 s price rem ord os)
  consider (stop) "fs = []" "os' = ord # os"
    | (part) "0 < rem" "rem < ord_quantity ord" "fs = [(ord, rem)]"
        "os' = ord\<lparr>ord_quantity := ord_quantity ord - rem\<rparr> # os" "rem' = 0"
    | (full) fs2 where "0 < rem" "\<not> no_cross s price (ord_price ord)" "ord_quantity ord \<le> rem"
        "spec_match s price (rem - ord_quantity ord) os = (fs2, os', rem')" "fs = (ord, ord_quantity ord) # fs2"
    using "2.prems"(1) by (auto split: if_splits prod.splits)
  then show ?case
  proof cases
    case stop
    then show ?thesis by (intro exI [of _ "[]"] exI [of _ "ord # os"]) (simp add: full_fills_def)
  next
    case part
    then show ?thesis by (intro exI [of _ "[]"] exI [of _ "ord # os"]) (simp add: full_fills_def)
  next
    case full
    then obtain ds rest where "os = ds @ rest"
      "fs2 = full_fills ds \<and> os' = rest \<or>
       (\<exists>x rest' k. rest = x # rest' \<and> 0 < k \<and> k < ord_quantity x \<and> fs2 = full_fills ds @ [(x, k)] \<and>
          os' = x\<lparr>ord_quantity := ord_quantity x - k\<rparr> # rest' \<and> rem' = 0)"
      using "2.IH" [OF _ _ full(4)] "2.prems"(3) by auto
    then show ?thesis
      using full(5) by (intro exI [of _ "ord # ds"] exI [of _ rest]) (auto simp: full_fills_def)
  qed
qed

lemma spec_match_amounts:
  assumes "spec_match s price rem os = (fs, os', rem')" "0 \<le> rem" "\<forall>ord \<in> set os. 0 < ord_quantity ord"
  shows "0 \<le> rem' \<and> rem = rem' + total_fill fs \<and>
    (\<forall>(ord, q) \<in> set fs. 0 < q \<and> q \<le> ord_quantity ord \<and> \<not> no_cross s price (ord_price ord)) \<and>
    (0 < rem' \<longrightarrow> os' = [] \<or> no_cross s price (ord_price (hd os')))"
  using assms
proof (induction s price rem os arbitrary: fs os' rem' rule: spec_match.induct)
  case (2 s price rem ord os)
  then show ?case
    by (fastforce split: if_splits prod.splits)
qed auto

definition priority_sorted :: "side \<Rightarrow> order list \<Rightarrow> bool" where
  "priority_sorted s os \<longleftrightarrow> sorted_wrt (\<lambda>x y. \<not> better s (ord_price y) (ord_price x)) os"

definition wf_book :: "book \<Rightarrow> bool" where
  "wf_book b \<longleftrightarrow> (\<forall>s. priority_sorted s (b s) \<and> (\<forall>ord \<in> set (b s). wf_order ord \<and> ord_side ord = s)) \<and>
     (\<forall>x \<in> set (b Bid). \<forall>y \<in> set (b Ask). ord_price x < ord_price y) \<and>
     distinct (map ord_id (b Bid @ b Ask))"

lemma fills_sorted:
  assumes "spec_match s price rem os = (fs, os', rem')" "0 \<le> rem" "\<forall>ord \<in> set os. 0 < ord_quantity ord"
    and "priority_sorted t os"
  shows "priority_sorted t (map fst fs) \<and>
    map fst fs = take (length fs) os"
proof -
  obtain ds rest where "os = ds @ rest" "map fst fs = ds \<or>
      (\<exists>ord rest'. rest = ord # rest' \<and> map fst fs = ds @ [ord])"
    using spec_match_prefix [OF assms(1-3)] by (force simp: full_fills_def comp_def)
  then have pre: "map fst fs = take (length fs) os"
    by (metis append_eq_conv_conj append_Cons append_Nil append_assoc length_map)
  then show ?thesis
    using assms(4) sorted_wrt_take unfolding priority_sorted_def by metis
qed

section \<open>The book satisfies its abstract form\<close>

lemma side_nodes_sorted_wrt:
  assumes "sorted_wrt R (map fst lv)" "\<forall>(p, os) \<in> set lv. \<forall>n \<in> set os. ord_price (snd n) = p" "\<And>p. R p p"
  shows "sorted_wrt (\<lambda>m n. R (ord_price (snd m)) (ord_price (snd n))) (side_nodes lv)"
  using assms(1,2)
proof (induction lv)
  case Nil
  then show ?case by (simp add: side_nodes_def)
next
  case (Cons l lv)
  obtain p os where l: "l = (p, os)" by force
  have os: "\<forall>n \<in> set os. ord_price (snd n) = p"
    using Cons.prems l by simp
  then have "sorted_wrt (\<lambda>m n. R (ord_price (snd m)) (ord_price (snd n))) os"
    using assms(3) by (auto simp: sorted_wrt_iff_nth_less)
  then show ?case
    using Cons os l by (fastforce simp: sorted_wrt_append set_side_nodes)
qed

lemma priority_sorted_side:
  assumes "wf_side s c"
  shows "priority_sorted s (map snd (priority (opposite s) c))"
proof -
  have lv: "\<forall>(p, os) \<in> set (levels (opposite s) c). \<forall>n \<in> set os. ord_price (snd n) = p"
    using assms by (fastforce simp: wf_side_def wf_level_def)
  have less: "sorted_wrt (<) (map fst c)"
    using assms by (simp add: wf_side_def sm_sorted_def)
  have "sorted_wrt (\<lambda>p q. \<not> better s q p) (map fst (levels (opposite s) c))"
  proof (cases s)
    case Bid
    have "sorted_wrt (\<lambda>p q. q < p) (rev (map fst c))"
      using less by (simp add: sorted_wrt_rev)
    then show ?thesis
      using Bid by (auto simp: better_def levels_def rev_map elim: sorted_wrt_mono_rel [rotated])
  next
    case Ask
    then show ?thesis
      using less by (auto simp: better_def levels_def elim: sorted_wrt_mono_rel [rotated])
  qed
  from side_nodes_sorted_wrt [OF this lv] show ?thesis
    by (simp add: priority_sorted_def priority_def sorted_wrt_map better_def)
qed

lemma set_book_of: "set (book_of lob s) = snd ` set (side_nodes (get_side lob s))"
  by (simp add: book_of_def priority_def set_side_nodes)

lemma lob_inv_wf_book:
  assumes "lob_inv lob"
  shows "wf_book (book_of lob)"
proof -
  have wf: "wf_side s (get_side lob s)" for s
    using assms by (rule lob_inv_far)
  have mem: "wf_order ord \<and> ord_side ord = s \<and> ord_price ord \<in> fst ` set (get_side lob s)"
    if "ord \<in> set (book_of lob s)" for ord s
    using that wf [of s] by (force simp: set_book_of set_side_nodes wf_side_def wf_level_def)
  have "mset (map ord_id (book_of lob Bid @ book_of lob Ask)) = mset (map fst (node_keys (all_nodes lob)))"
    using arg_cong [OF mset_priority [of Ask "lob_bids lob"], of "image_mset (ord_id \<circ> snd)"]
      arg_cong [OF mset_priority [of Bid "lob_asks lob"], of "image_mset (ord_id \<circ> snd)"]
    by (simp add: book_of_def get_side_def node_keys_def all_nodes_def comp_def
        multiset.map_comp)
  then have "distinct (map ord_id (book_of lob Bid @ book_of lob Ask))"
    using assms unfolding lob_inv_def index_ok_def by (metis mset_eq_imp_distinct_iff)
  moreover have "ord_price x < ord_price y" if "x \<in> set (book_of lob Bid)" "y \<in> set (book_of lob Ask)" for x y
    using mem [OF that(1)] mem [OF that(2)] assms
    by (force simp: lob_inv_def uncrossed_def get_side_def)
  moreover have "priority_sorted s (book_of lob s)" for s
    unfolding book_of_def by (rule priority_sorted_side [OF wf])
  ultimately show ?thesis
    using mem by (auto simp: wf_book_def)
qed

section \<open>The interface\<close>

text \<open>
  What a trade reports of a fill, and the contract of a price-time order book: \<open>adds\<close> and
  \<open>cancels\<close> are the calls that return, with the trades they report.
\<close>

definition reports_fill :: "int \<Rightarrow> side \<Rightarrow> order \<times> int \<Rightarrow> trade \<Rightarrow> bool" where
  "reports_fill taker_order_id s f t \<longleftrightarrow>
     tr_maker_order_id t = ord_id (fst f) \<and> tr_price t = ord_price (fst f) \<and> tr_quantity t = snd f \<and>
     tr_maker_id t = c_str (ord_trader_id (fst f)) \<and>
     tr_taker_order_id t = taker_order_id \<and> (tr_is_taker_buyer t \<longleftrightarrow> s = Bid)"

lemma trades_report_fills:
  "list_all2 (reports_fill order_id s) fs (trades_of (mk_args env pub lob price order_id s broker_id) tick fs)"
  by (induction fs arbitrary: tick)
    (auto simp: reports_fill_def trade_of_def mk_args_def)

lemma reports_quantity:
  "list_all2 (reports_fill order_id s) fs ts \<Longrightarrow> sum_list (map tr_quantity ts) = total_fill fs"
  by (induction rule: list_all2_induct) (auto simp: reports_fill_def total_fill_def)

lemma reports_cost:
  "list_all2 (reports_fill order_id s) fs ts \<Longrightarrow>
   sum_list (map (\<lambda>t. tr_price t * tr_quantity t) ts) = total_cost fs"
  by (induction rule: list_all2_induct) (auto simp: reports_fill_def total_cost_def)

lemma reports_makers:
  "list_all2 (reports_fill order_id s) fs ts \<Longrightarrow> map tr_maker_order_id ts = map (ord_id \<circ> fst) fs"
  by (induction rule: list_all2_induct) (auto simp: reports_fill_def)

lemma reports_trade:
  "list_all2 (reports_fill order_id s) fs ts \<Longrightarrow> t \<in> set ts \<Longrightarrow> \<exists>f \<in> set fs. reports_fill order_id s f t"
  by (induction rule: list_all2_induct) auto

lemma spec_add_sides:
  assumes "spec_add b i p q s br = (b', fs, rem)"
  shows "spec_match s p q (b (opposite s)) = (fs, b' (opposite s), rem)"
    and "b' s = (if rem > 0 \<and> \<not> is_market_price p
       then insert_order s \<lparr>ord_id = i, ord_price = p, ord_quantity = rem, ord_side = s, ord_trader_id = br\<rparr> (b s)
       else b s)"
  using assms by (auto simp: spec_add_def Let_def split: prod.splits if_splits)

locale price_time_book =
  fixes inv :: "'b \<Rightarrow> bool"
    and book :: "'b \<Rightarrow> book"
    and adds :: "'b \<Rightarrow> int \<Rightarrow> int \<Rightarrow> int \<Rightarrow> side \<Rightarrow> string \<Rightarrow> trade list \<Rightarrow> 'b \<Rightarrow> bool"
    and cancels :: "'b \<Rightarrow> int \<Rightarrow> 'b \<Rightarrow> bool"
  assumes inv_book: "inv b \<Longrightarrow> wf_book (book b)"
    and adds_inv: "inv b \<Longrightarrow> in_i32 p \<Longrightarrow> in_i32 q \<Longrightarrow> adds b i p q s br ts b' \<Longrightarrow> inv b'"
    and adds_pos: "adds b i p q s br ts b' \<Longrightarrow> 0 < q"
    and adds_spec: "inv b \<Longrightarrow> in_i32 p \<Longrightarrow> in_i32 q \<Longrightarrow> adds b i p q s br ts b' \<Longrightarrow>
      \<exists>fs rem. spec_add (book b) i p q s br = (book b', fs, rem) \<and> list_all2 (reports_fill i s) fs ts"
    and cancels_inv: "inv b \<Longrightarrow> cancels b i b' \<Longrightarrow> inv b'"
    and cancels_spec: "inv b \<Longrightarrow> cancels b i b' \<Longrightarrow> book b' = spec_cancel (book b) i"
begin

lemma match_of_add:
  assumes "inv b" "in_i32 p" "in_i32 q" "adds b i p q s br ts b'"
  obtains fs rem where
    "spec_match s p q (book b (opposite s)) = (fs, book b' (opposite s), rem)"
    "list_all2 (reports_fill i s) fs ts"
    "book b' s = (if rem > 0 \<and> \<not> is_market_price p
       then insert_order s \<lparr>ord_id = i, ord_price = p, ord_quantity = rem, ord_side = s, ord_trader_id = br\<rparr> (book b s)
       else book b s)"
proof -
  obtain fs rem where spec: "spec_add (book b) i p q s br = (book b', fs, rem)"
    and rep: "list_all2 (reports_fill i s) fs ts"
    using adds_spec [OF assms] by blast
  then show ?thesis
    using spec_add_sides [OF spec] by (intro that [of fs rem]) simp_all
qed

lemma quantities_positive: "inv b \<Longrightarrow> \<forall>ord \<in> set (book b s). 0 < ord_quantity ord"
  using inv_book by (fastforce simp: wf_book_def wf_order_def)

text \<open>Every unit of an order is traded, rests under its id or is dropped as an unfilled market order.\<close>

lemma add_conserves:
  assumes "inv b" "in_i32 p" "in_i32 q" "adds b i p q s br ts b'"
  shows "\<exists>rem. 0 \<le> rem \<and> q = sum_list (map tr_quantity ts) + rem \<and>
    book b' s = (if rem > 0 \<and> \<not> is_market_price p
       then insert_order s \<lparr>ord_id = i, ord_price = p, ord_quantity = rem, ord_side = s, ord_trader_id = br\<rparr> (book b s)
       else book b s)"
proof -
  obtain fs rem where m: "spec_match s p q (book b (opposite s)) = (fs, book b' (opposite s), rem)"
    and rep: "list_all2 (reports_fill i s) fs ts"
    and near: "book b' s = (if rem > 0 \<and> \<not> is_market_price p
       then insert_order s \<lparr>ord_id = i, ord_price = p, ord_quantity = rem, ord_side = s, ord_trader_id = br\<rparr> (book b s)
       else book b s)"
    using match_of_add [OF assms] .
  have "0 \<le> rem" "q = rem + total_fill fs"
    using spec_match_amounts [OF m _ quantities_positive [OF assms(1)]] adds_pos [OF assms(4)] by auto
  then show ?thesis
    using near reports_quantity [OF rep] by (intro exI [of _ rem]) simp
qed

text \<open>Trades happen at the maker's price, never beyond the taker's limit.\<close>

lemma add_respects_limit:
  assumes "inv b" "in_i32 p" "in_i32 q" "adds b i p q s br ts b'" "t \<in> set ts"
  shows "(if s = Bid then tr_price t \<le> p else p \<le> tr_price t) \<and> 0 < tr_quantity t \<and>
    (\<exists>ord \<in> set (book b (opposite s)). ord_id ord = tr_maker_order_id t \<and> ord_price ord = tr_price t \<and>
       tr_quantity t \<le> ord_quantity ord)"
proof -
  obtain fs rem where m: "spec_match s p q (book b (opposite s)) = (fs, book b' (opposite s), rem)"
    and rep: "list_all2 (reports_fill i s) fs ts"
    using match_of_add [OF assms(1-4)] .
  obtain ord k where f: "(ord, k) \<in> set fs" and t: "reports_fill i s (ord, k) t"
    using reports_trade [OF rep assms(5)] by force
  have sorted: "priority_sorted (opposite s) (book b (opposite s))"
    using inv_book [OF assms(1)] by (simp add: wf_book_def)
  have q: "0 \<le> q" using adds_pos [OF assms(4)] by simp
  have "ord \<in> set (book b (opposite s))"
    using fills_sorted [OF m q quantities_positive [OF assms(1)] sorted] f
    by (metis fst_conv image_eqI in_set_takeD list.set_map)
  moreover have "0 < k" "k \<le> ord_quantity ord" "\<not> no_cross s p (ord_price ord)"
    using spec_match_amounts [OF m q quantities_positive [OF assms(1)]] f by auto
  ultimately show ?thesis
    using t by (cases s) (auto simp: reports_fill_def no_cross_def)
qed

text \<open>Price-time priority: the makers are a prefix of the far side, and only the last is left over.\<close>

lemma add_price_time:
  assumes "inv b" "in_i32 p" "in_i32 q" "adds b i p q s br ts b'"
  shows "priority_sorted (opposite s) (book b (opposite s)) \<and>
    map tr_maker_order_id ts = map ord_id (take (length ts) (book b (opposite s))) \<and>
    (book b' (opposite s) = drop (length ts) (book b (opposite s)) \<and>
       map tr_quantity ts = map ord_quantity (take (length ts) (book b (opposite s))) \<or>
     (\<exists>ds ord rs k. book b (opposite s) = ds @ ord # rs \<and> length ts = Suc (length ds) \<and>
        0 < k \<and> k < ord_quantity ord \<and> map tr_quantity ts = map ord_quantity ds @ [k] \<and>
        book b' (opposite s) = ord\<lparr>ord_quantity := ord_quantity ord - k\<rparr> # rs))"
proof -
  obtain fs rem where m: "spec_match s p q (book b (opposite s)) = (fs, book b' (opposite s), rem)"
    and rep: "list_all2 (reports_fill i s) fs ts"
    using match_of_add [OF assms] .
  have q: "0 \<le> q" using adds_pos [OF assms(4)] by simp
  have len: "length ts = length fs" using rep by (simp add: list_all2_lengthD)
  have qty: "map tr_quantity ts = map snd fs"
    using rep by (induction rule: list_all2_induct) (auto simp: reports_fill_def)
  have sorted: "priority_sorted (opposite s) (book b (opposite s))"
    using inv_book [OF assms(1)] by (simp add: wf_book_def)
  have "map tr_maker_order_id ts = map ord_id (take (length ts) (book b (opposite s)))"
    using fills_sorted [OF m q quantities_positive [OF assms(1)] sorted] reports_makers [OF rep] len
    by (metis map_map)
  then show ?thesis
    using sorted spec_match_prefix [OF m q quantities_positive [OF assms(1)]] qty len
    by (auto simp: full_fills_def comp_def)
qed

end

definition lob_adds ::
  "env \<Rightarrow> 'p try_publish \<Rightarrow> 'p limit_order_book \<Rightarrow> int \<Rightarrow> int \<Rightarrow> int \<Rightarrow> side \<Rightarrow> string \<Rightarrow> trade list \<Rightarrow>
   'p limit_order_book \<Rightarrow> bool" where
  "lob_adds env pub lob order_id price quantity s broker_id ts lob' \<longleftrightarrow>
     (\<exists>events tick tick'. add_order env pub lob events tick order_id price quantity s broker_id =
        Inr (lob', events @ ts, tick'))"

definition lob_cancels :: "'p limit_order_book \<Rightarrow> int \<Rightarrow> 'p limit_order_book \<Rightarrow> bool" where
  "lob_cancels lob order_id lob' \<longleftrightarrow> cancel_order lob order_id = Inr lob'"

interpretation lob: price_time_book lob_inv book_of "lob_adds env pub" lob_cancels for env pub
proof unfold_locales
  fix b b' :: "'a limit_order_book" and p q i s br ts
  assume inv: "lob_inv b"
  show "wf_book (book_of b)" using inv by (rule lob_inv_wf_book)
  show "lob_inv b'" "book_of b' = spec_cancel (book_of b) i" if "lob_cancels b i b'"
    using cancel_order_refines that inv by (auto simp: lob_cancels_def)
  assume r: "in_i32 p" "in_i32 q" and a: "lob_adds env pub b i p q s br ts b'"
  then obtain events tick tick' where a': "add_order env pub b events tick i p q s br = Inr (b', events @ ts, tick')"
    by (auto simp: lob_adds_def)
  show "lob_inv b'" using add_order_Inr(2) [OF a' inv r(2) r(1)] .
  show "\<exists>fs rem. spec_add (book_of b) i p q s br = (book_of b', fs, rem) \<and> list_all2 (reports_fill i s) fs ts"
    using add_order_refines [OF a' inv r(2) r(1)] trades_report_fills by fastforce
next
  fix b b' :: "'a limit_order_book" and p q i s br ts
  assume "lob_adds env pub b i p q s br ts b'"
  then show "0 < q" by (auto simp: lob_adds_def add_order_def split: if_splits)
qed

end
