(* ===== verification/LobProperties.thy ===== *)
theory LobProperties
  imports LobSpec
begin

text \<open>
  The properties of the limit order book: reachable books satisfy the invariant, adding and
  cancelling return normally where the contracts allow it, matching follows price-time priority
  and conserves quantity, and the read operations report what the book holds.
\<close>

section \<open>Runs of a book\<close>

text \<open>
  A book starts empty and changes by \<open>add_order\<close> and \<open>cancel_order\<close> calls that return. The queue
  of trade events and the tick are whatever the engine passes at each call; the integer arguments
  are 32-bit values.
\<close>

inductive lob_reachable :: "env \<Rightarrow> 'p try_publish \<Rightarrow> 'p limit_order_book \<Rightarrow> bool"
  for env :: env and pub :: "'p try_publish" where
  start: "lob_reachable env pub (make_limit_order_book ticker p)"
| add: "lob_reachable env pub lob \<Longrightarrow> in_i32 price \<Longrightarrow> in_i32 quantity \<Longrightarrow>
    add_order env pub lob events tick order_id price quantity s broker_id = Inr (lob', events', tick') \<Longrightarrow>
    lob_reachable env pub lob'"
| cancel: "lob_reachable env pub lob \<Longrightarrow> cancel_order lob order_id = Inr lob' \<Longrightarrow>
    lob_reachable env pub lob'"

section \<open>A small market, for the witnesses\<close>

definition demo_env :: env where
  "demo_env = \<lparr>env_uuid = (\<lambda>_. replicate 16 0), env_now_ms = (\<lambda>n. n)\<rparr>"

definition demo_publish :: "trade list try_publish" where
  "demo_publish p t = (True, p @ [t])"

definition demo_empty :: "trade list limit_order_book" where
  "demo_empty = make_limit_order_book ''GME'' []"

definition demo_book :: "trade list limit_order_book" where
  "demo_book = rest_order 0 100 10 Ask ''ALICE'' demo_empty"

lemma demo_book_add:
  "add_order demo_env demo_publish demo_empty [] 0 0 100 10 Ask ''ALICE'' = Inr (demo_book, [], 0)"
  by (simp add: add_order_def match_order_def match_levels_stop demo_empty_def demo_book_def
      make_limit_order_book_def get_side_def set_side_def MARKET_ASK_ORDER_PRICE_def
      MARKET_BID_ORDER_PRICE_def)

lemma demo_book_reachable: "lob_reachable demo_env demo_publish demo_book"
  by (rule lob_reachable.add [OF _ _ _ demo_book_add])
    (simp_all add: demo_empty_def lob_reachable.start in_i32_def)

lemma demo_book_inv: "lob_inv demo_book"
  by (rule add_order_Inr(2) [OF demo_book_add]) (simp_all add: demo_empty_def lob_inv_empty in_i32_def)

lemma demo_trade:
  "\<exists>lob' events' tick'.
     add_order demo_env demo_publish demo_book [] 0 1 105 4 Bid ''BOB'' = Inr (lob', events', tick')"
proof -
  have "succeeds (add_order demo_env demo_publish demo_book [] 0 1 105 4 Bid ''BOB'')"
    by code_simp
  then show ?thesis by (auto simp: succeeds_iff)
qed

section \<open>Invariant and progress\<close>

text \<open>C1 (invariant). Every book reached by adding and cancelling orders satisfies the
  representation invariant: sorted levels of well-formed orders, no crossed prices, unique ids
  and addresses, and an index whose iterators point exactly at the resting orders.\<close>

theorem reachable_books_satisfy_invariant: "lob_reachable env pub lob \<Longrightarrow> lob_inv lob"
proof (induction rule: lob_reachable.induct)
  case start
  show ?case by (rule lob_inv_empty)
next
  case add
  then show ?case using add_order_Inr(2) by blast
next
  case cancel
  then show ?case using cancel_order_refines by blast
qed

theorem reachable_books_satisfy_invariant_witness:
  "lob_reachable demo_env demo_publish demo_book \<and> lob_inv demo_book"
  using demo_book_reachable reachable_books_satisfy_invariant [OF demo_book_reachable] by blast

definition traders_ok :: "'p limit_order_book \<Rightarrow> bool" where
  "traders_ok lob \<longleftrightarrow>
     (\<forall>n \<in> set (all_nodes lob). valid_name MAX_USERNAME_LENGTH (ord_trader_id (snd n)))"

text \<open>C8 (safety). On a book that satisfies the invariant, \<open>add_order\<close> returns normally for every
  call its contract allows, when the ticker, the broker id and the resting trader ids fit their
  fields and the UUID generator yields 16 bytes: matching never overflows, never fills more than
  an order holds, never breaks the contract of \<open>create_trade\<close>, and its loops end.\<close>

theorem add_order_returns:
  assumes "lob_inv lob" "traders_ok lob"
    and "0 \<le> order_id" "lob_order_id_map lob order_id = None"
    and "price = MARKET_ASK_ORDER_PRICE \<or> 0 < price" "0 < quantity" "in_i32 quantity"
    and "valid_name MAX_USERNAME_LENGTH broker_id" "valid_name MAX_TICKER_LENGTH (lob_ticker lob)"
    and "\<forall>t. length (env_uuid env t) = 16"
  shows "succeeds (add_order env pub lob events tick order_id price quantity s broker_id)"
proof -
  let ?a = "mk_args env pub lob price order_id s broker_id" and ?far = "get_side lob (opposite s)"
  have "maker_ok ?a (snd n)" if n: "n \<in> set (side_nodes ?far)" for n
  proof -
    have "wf_order (snd n)"
      using n lob_inv_far [OF assms(1), of "opposite s"]
      by (fastforce simp: wf_side_def wf_level_def set_side_nodes)
    moreover have all: "n \<in> set (all_nodes lob)"
      using n by (cases s) (auto simp: get_side_def all_nodes_def)
    moreover have "ord_id (snd n) \<noteq> order_id"
      using all assms(1,4) by (force simp: lob_inv_def index_ok_def set_node_keys)
    ultimately show ?thesis
      using assms(2) by (simp add: maker_ok_def traders_ok_def mk_args_def)
  qed
  moreover have "args_ok ?a"
    using assms by (simp add: args_ok_def mk_args_def)
  moreover define ms where "ms = \<lparr>ms_remaining = quantity, ms_order_id_map = lob_order_id_map lob,
      ms_publisher = lob_trade_publisher lob, ms_trade_events = events, ms_tick = tick\<rparr>"
  ultimately obtain far' ms' where "match_levels ?a ?far ms = Inr (far', ms')"
    using match_levels_progress [of ?a "opposite s" ?far ms] lob_inv_far [OF assms(1)] assms(7)
    by (auto simp: succeeds_iff)
  then show ?thesis
    using assms(3-6) valid_name_nonempty [OF assms(8)]
    by (simp add: add_order_def match_order_def mk_args_def ms_def succeeds_def Let_def)
qed

theorem add_order_returns_witness:
  "succeeds (add_order demo_env demo_publish demo_book [] 0 1 105 4 Bid ''BOB'')"
  by (rule add_order_returns [OF demo_book_inv])
    (simp_all add: in_i32_def demo_env_def, code_simp+)

section \<open>Matching\<close>

lemma lob_addsI:
  "add_order env pub lob events tick i p q s br = Inr (lob', events @ ts, tick') \<Longrightarrow>
   lob_adds env pub lob i p q s br ts lob'"
  by (auto simp: lob_adds_def)

text \<open>C2 (refinement). Adding an order refines the abstract book of price-time priority lists:
  the lists of the new book are those of \<open>spec_add\<close>, and the trades appended to the queue are the
  trades of its fills, in order. The sorted maps of queues and the index of iterators are
  invisible in the result.\<close>

theorem add_order_refines_priority_lists:
  assumes "lob_inv lob" "in_i32 price" "in_i32 quantity"
    and "add_order env pub lob events tick order_id price quantity s broker_id = Inr (lob', events', tick')"
  shows "\<exists>fs rem. spec_add (book_of lob) order_id price quantity s broker_id = (book_of lob', fs, rem) \<and>
    events' = events @ trades_of (mk_args env pub lob price order_id s broker_id) tick fs"
  using add_order_refines [OF assms(4,1,3,2)] .

text \<open>The concrete call the witnesses use: BOB buys 4 at a limit of 105 from ALICE's offer at 100.\<close>

definition demo_after :: "trade list limit_order_book" where
  "demo_after = (case add_order demo_env demo_publish demo_book [] 0 1 105 4 Bid ''BOB'' of
     Inr (lob, _) \<Rightarrow> lob | Inl _ \<Rightarrow> demo_book)"

definition demo_trades :: "trade list" where
  "demo_trades = (case add_order demo_env demo_publish demo_book [] 0 1 105 4 Bid ''BOB'' of
     Inr (_, ts, _) \<Rightarrow> ts | Inl _ \<Rightarrow> [])"

definition demo_tick :: nat where
  "demo_tick = (case add_order demo_env demo_publish demo_book [] 0 1 105 4 Bid ''BOB'' of
     Inr (_, _, tick) \<Rightarrow> tick | Inl _ \<Rightarrow> 0)"

lemma demo_bid:
  "add_order demo_env demo_publish demo_book [] 0 1 105 4 Bid ''BOB'' = Inr (demo_after, [] @ demo_trades, demo_tick)"
  using demo_trade by (auto simp: demo_after_def demo_trades_def demo_tick_def)

lemma demo_range: "in_i32 105" "in_i32 4"
  by (simp_all add: in_i32_def)

theorem add_order_refines_priority_lists_witness:
  "\<exists>fs rem. spec_add (book_of demo_book) 1 105 4 Bid ''BOB'' = (book_of demo_after, fs, rem) \<and>
     [] @ demo_trades = [] @ trades_of (mk_args demo_env demo_publish demo_book 105 1 Bid ''BOB'') 0 fs"
  by (rule add_order_refines_priority_lists [OF demo_book_inv demo_range demo_bid])

text \<open>Quantity is conserved: what an order asks for is the sum of its trades plus a
  remainder, and the remainder is exactly what rests in the book under the order's id, price and
  broker, behind every order with at least as good a price. Only the remainder of a market order
  is dropped.\<close>

theorem add_order_conserves_quantity:
  assumes "lob_inv lob" "in_i32 price" "in_i32 quantity"
    and "add_order env pub lob events tick order_id price quantity s broker_id =
      Inr (lob', events @ ts, tick')"
  shows "\<exists>rem. 0 \<le> rem \<and> quantity = sum_list (map tr_quantity ts) + rem \<and>
    book_of lob' s = (if rem > 0 \<and> \<not> is_market_price price
       then insert_order s \<lparr>ord_id = order_id, ord_price = price, ord_quantity = rem, ord_side = s,
              ord_trader_id = broker_id\<rparr> (book_of lob s)
       else book_of lob s)"
  by (rule lob.add_conserves [OF assms(1-3) lob_addsI [OF assms(4)]])

theorem add_order_conserves_quantity_witness:
  "\<exists>rem. 0 \<le> rem \<and> 4 = sum_list (map tr_quantity demo_trades) + rem \<and>
    book_of demo_after Bid = (if rem > 0 \<and> \<not> is_market_price 105
       then insert_order Bid \<lparr>ord_id = 1, ord_price = 105, ord_quantity = rem, ord_side = Bid,
              ord_trader_id = ''BOB''\<rparr> (book_of demo_book Bid)
       else book_of demo_book Bid)"
  by (rule add_order_conserves_quantity [OF demo_book_inv demo_range demo_bid])

text \<open>Price-time priority: the makers of an order's trades are the first orders
  of the far side's priority list, taken in that order; every one of them is filled completely
  except possibly the last, which keeps its place at the front with the rest of its quantity; no
  other order of the far side changes.\<close>

theorem add_order_price_time_priority:
  assumes "lob_inv lob" "in_i32 price" "in_i32 quantity"
    and "add_order env pub lob events tick order_id price quantity s broker_id =
      Inr (lob', events @ ts, tick')"
  shows "priority_sorted (opposite s) (book_of lob (opposite s)) \<and>
    map tr_maker_order_id ts = map ord_id (take (length ts) (book_of lob (opposite s))) \<and>
    (book_of lob' (opposite s) = drop (length ts) (book_of lob (opposite s)) \<and>
       map tr_quantity ts = map ord_quantity (take (length ts) (book_of lob (opposite s))) \<or>
     (\<exists>ds ord rs k. book_of lob (opposite s) = ds @ ord # rs \<and> length ts = Suc (length ds) \<and>
        0 < k \<and> k < ord_quantity ord \<and> map tr_quantity ts = map ord_quantity ds @ [k] \<and>
        book_of lob' (opposite s) = ord\<lparr>ord_quantity := ord_quantity ord - k\<rparr> # rs))"
  by (rule lob.add_price_time [OF assms(1-3) lob_addsI [OF assms(4)]])

theorem add_order_price_time_priority_witness:
  "map tr_maker_order_id demo_trades = map ord_id (take (length demo_trades) (book_of demo_book Ask))"
  using add_order_price_time_priority [OF demo_book_inv demo_range demo_bid] by simp

text \<open>No trade is worse than the taker's limit: every trade happens at the price of a
  resting order of the far side, for at most that order's quantity, and that price is at most the
  limit of a buyer and at least the limit of a seller.\<close>

theorem add_order_respects_limit:
  assumes "lob_inv lob" "in_i32 price" "in_i32 quantity"
    and "add_order env pub lob events tick order_id price quantity s broker_id =
      Inr (lob', events @ ts, tick')"
    and "t \<in> set ts"
  shows "(if s = Bid then tr_price t \<le> price else price \<le> tr_price t) \<and> 0 < tr_quantity t \<and>
    (\<exists>ord \<in> set (book_of lob (opposite s)). ord_id ord = tr_maker_order_id t \<and>
       ord_price ord = tr_price t \<and> tr_quantity t \<le> ord_quantity ord)"
  by (rule lob.add_respects_limit [OF assms(1-3) lob_addsI [OF assms(4)] assms(5)])

lemma demo_trades_nonempty: "demo_trades \<noteq> []"
  by code_simp

theorem add_order_respects_limit_witness: "tr_price (hd demo_trades) \<le> 105"
  using add_order_respects_limit [OF demo_book_inv demo_range demo_bid, of "hd demo_trades"]
    demo_trades_nonempty by simp

section \<open>Cancelling\<close>

text \<open>Cancelling an id the book knows always succeeds: the iterator stored for it is
  valid, exactly the order with that id disappears, all other orders keep their place in the
  priority lists, the id is unknown afterwards and the invariant holds.\<close>

theorem cancel_order_removes_exactly_that_order:
  assumes "lob_inv lob" "order_id_exists lob order_id"
  shows "\<exists>lob'. cancel_order lob order_id = Inr lob' \<and> lob_inv lob' \<and>
    book_of lob' = spec_cancel (book_of lob) order_id \<and> \<not> order_id_exists lob' order_id \<and>
    (\<forall>i. i \<noteq> order_id \<longrightarrow> order_id_exists lob' i = order_id_exists lob i)"
proof -
  obtain addr where "lob_order_id_map lob order_id = Some addr"
    using assms(2) by (auto simp: order_id_exists_def)
  then obtain lob' where c: "cancel_order lob order_id = Inr lob'"
      "lob_order_id_map lob' = (lob_order_id_map lob)(order_id := None)"
    using cancel_order_correct [OF assms(1)] by metis
  then show ?thesis
    using cancel_order_refines [OF c(1) assms(1)] by (auto simp: order_id_exists_def)
qed

theorem cancel_order_removes_exactly_that_order_witness:
  "\<exists>lob'. cancel_order demo_book 0 = Inr lob' \<and> book_of lob' = spec_cancel (book_of demo_book) 0"
  using cancel_order_removes_exactly_that_order [OF demo_book_inv, of 0]
  by (auto simp: order_id_exists_def demo_book_def rest_order_def Let_def)

section \<open>Reading the book\<close>

lemma market_cost:
  assumes "lob_inv lob" "in_i32 quantity"
    and "get_fill_cost lob quantity (opposite s) = Inr cost"
    and "add_order env pub lob events tick order_id (market_price s) quantity s broker_id =
      Inr (lob', events @ ts, tick')"
  shows "sum_list (map (\<lambda>t. tr_price t * tr_quantity t) ts) = (case cost of None \<Rightarrow> 0 | Some c \<Rightarrow> c)"
proof -
  obtain fs rem where m: "spec_match s (market_price s) quantity (book_of lob (opposite s)) =
      (fs, book_of lob' (opposite s), rem)" and rep: "list_all2 (reports_fill order_id s) fs ts"
    using lob.match_of_add [OF assms(1) market_price_range assms(2) lob_addsI [OF assms(4)]] .
  obtain fs' ns' rem' where
    g: "greedy s (market_price s) quantity (priority s (get_side lob (opposite s))) = (fs', ns', rem')"
    by (metis prod_cases3)
  have "fs' = fs"
    using greedy_spec_match [OF g] m by (simp add: book_of_def)
  then show ?thesis
    using get_fill_cost_Inr [OF assms(3,1), of "market_price s"] market_price_unlimited [OF assms(1)]
      g reports_cost [OF rep] by (simp add: fills_of_def)
qed

text \<open>The cost quoted for a fill is exact: when \<open>get_fill_cost\<close> answers for a
  quantity on the far side, a market order for that quantity sent to the same book produces trades
  whose prices times quantities add up to the quoted cost (zero when no cost is quoted).\<close>

theorem fill_cost_is_cost_of_market_order:
  assumes "lob_inv lob" "in_i32 quantity"
    and "get_fill_cost lob quantity (opposite s) = Inr cost"
    and "add_order env pub lob events tick order_id (market_price s) quantity s broker_id =
      Inr (lob', events @ ts, tick')"
  shows "sum_list (map (\<lambda>t. tr_price t * tr_quantity t) ts) = (case cost of None \<Rightarrow> 0 | Some c \<Rightarrow> c)"
  using assms by (rule market_cost)

definition demo_market :: "(trade list limit_order_book \<times> trade list \<times> nat) result" where
  "demo_market = add_order demo_env demo_publish demo_book [] 0 1 (market_price Bid) 4 Bid ''BOB''"

theorem fill_cost_is_cost_of_market_order_witness:
  "\<exists>lob' ts tick'. demo_market = Inr (lob', [] @ ts, tick') \<and>
     sum_list (map (\<lambda>t. tr_price t * tr_quantity t) ts) = 400"
proof -
  have "succeeds demo_market" by code_simp
  then obtain lob' ts tick' where
    m: "add_order demo_env demo_publish demo_book [] 0 1 (market_price Bid) 4 Bid ''BOB'' = Inr (lob', [] @ ts, tick')"
    by (auto simp: succeeds_iff demo_market_def)
  have c: "get_fill_cost demo_book 4 (opposite Bid) = Inr (Some 400)" by code_simp
  show ?thesis
    using fill_cost_is_cost_of_market_order [OF demo_book_inv _ c m] m
    by (auto simp: in_i32_def demo_market_def)
qed

text \<open>The best order of a side is the first of its priority list, and a side without
  orders has none; on a book that satisfies the invariant the call never meets an empty level.\<close>

theorem get_best_order_is_first_in_priority:
  assumes "lob_inv lob"
  shows "get_best_order lob s = Inr (case book_of lob s of [] \<Rightarrow> None | ord # _ \<Rightarrow> Some ord)"
  unfolding get_best_order_first [OF assms] book_of_def
  by (cases "priority (opposite s) (get_side lob s)") auto

theorem get_best_order_is_first_in_priority_witness:
  "get_best_order demo_book Ask = Inr (case book_of demo_book Ask of [] \<Rightarrow> None | ord # _ \<Rightarrow> Some ord)"
  by (rule get_best_order_is_first_in_priority [OF demo_book_inv])

text \<open>The market data snapshot of a book with a ticker of one to three characters
  always exists when each level's total fits 32 bits: per side it lists the price and total
  quantity of the fifty best levels, best first, and zeros past the last level.\<close>

theorem snapshot_lists_best_levels:
  assumes "lob_inv lob" "0 < strlen (lob_ticker lob)" "strlen (lob_ticker lob) < 4"
    and "\<forall>s. \<forall>l \<in> set (get_side lob s). in_i32 (level_quantity (snd l))"
  shows "get_top_order_book_level_aggregate now lob =
    Inr \<lparr>tob_ticker = c_str (lob_ticker lob), tob_bid_level_aggregates = snapshot_side lob Bid,
         tob_ask_level_aggregates = snapshot_side lob Ask, tob_create_timestamp = now\<rparr>"
  by (rule get_top_progress [OF assms])

theorem snapshot_lists_best_levels_witness:
  "get_top_order_book_level_aggregate 7 demo_book =
    Inr \<lparr>tob_ticker = ''GME'', tob_bid_level_aggregates = replicate 50 no_level,
         tob_ask_level_aggregates = \<lparr>la_price = 100, la_quantity = 10\<rparr> # replicate 49 no_level,
         tob_create_timestamp = 7\<rparr>"
proof -
  have "\<forall>l \<in> set (get_side demo_book s). in_i32 (level_quantity (snd l))" for s
    by (simp add: demo_book_def demo_empty_def make_limit_order_book_def rest_order_def get_side_def
        set_side_def in_i32_def)
  moreover have "strlen (lob_ticker demo_book) = 3" "c_str (lob_ticker demo_book) = ''GME''"
    "snapshot_side demo_book Bid = replicate 50 no_level"
    "snapshot_side demo_book Ask = \<lparr>la_price = 100, la_quantity = 10\<rparr> # replicate 49 no_level"
    by code_simp+
  ultimately show ?thesis
    using snapshot_lists_best_levels [OF demo_book_inv, of 7] by simp
qed

text \<open>For a ticker of four characters, which the length check of the snapshot's
  constructor allows, every snapshot writes one byte past the end of its ticker field.\<close>

theorem snapshot_of_four_char_ticker_out_of_bounds:
  assumes "strlen (lob_ticker lob) = 4"
  shows "get_top_order_book_level_aggregate now lob = Inl Out_Of_Bounds"
  using assms
  by (simp add: get_top_order_book_level_aggregate_def make_top_order_book_level_aggregates_def copy_cstr_def
      MAX_TICKER_LENGTH_def)

theorem snapshot_of_four_char_ticker_out_of_bounds_witness:
  "get_top_order_book_level_aggregate 0 (make_limit_order_book ''AAPL'' ()) = Inl Out_Of_Bounds"
  by (rule snapshot_of_four_char_ticker_out_of_bounds) code_simp

end
