(* ===== verification/RingBuffer.thy ===== *)
theory RingBuffer
  imports Prelude "HOL-Library.Word"
begin

text \<open>
  The lock-free multi-producer single-consumer ring buffer of
  \<open>libs/inter_process/mpsc_shared_memory_ring_buffer.h\<close> that carries trades and order book
  snapshots from the matching engine to the market data processor.

  Positions and sequence numbers are 64-bit words, the capacity is the number of slots. Each
  atomic access is one action: the functions below that take and return a program counter are the
  code between two accesses to shared memory, so that any interleaving of producers and the
  consumer is a sequence of such steps (\<open>RingConcurrent\<close>). The member functions run alone are the
  loops over these steps.
\<close>

unbundle bit_operations_syntax

section \<open>The buffer\<close>

type_synonym pos = "64 word"

record 'a slot =
  slot_sequence :: pos
  slot_data :: 'a

record 'a ring_buffer =
  rb_initialized :: "64 word"
  rb_head :: pos
  rb_tail :: pos
  rb_slots :: "'a slot list"

definition magic_number :: "64 word" where
  "magic_number = 0xDEADBEEF12345678"

definition capacity :: "'a ring_buffer \<Rightarrow> nat" where
  "capacity rb = length (rb_slots rb)"

definition mask :: "'a ring_buffer \<Rightarrow> pos" where
  "mask rb = of_nat (capacity rb) - 1"

definition slot_index :: "'a ring_buffer \<Rightarrow> pos \<Rightarrow> nat" where
  "slot_index rb position = unat (position AND mask rb)"

definition rb_init :: "'a ring_buffer \<Rightarrow> 'a ring_buffer" where
  "rb_init rb =
     \<lparr>rb_initialized = magic_number, rb_head = 0, rb_tail = 0,
      rb_slots = map (\<lambda>i. (rb_slots rb ! i)\<lparr>slot_sequence := of_nat i\<rparr>) [0..<capacity rb]\<rparr>"

definition rb_destroy :: "'a ring_buffer \<Rightarrow> 'a ring_buffer" where
  "rb_destroy rb = rb\<lparr>rb_initialized := 0\<rparr>"

definition is_initialized :: "'a ring_buffer \<Rightarrow> bool" where
  "is_initialized rb \<longleftrightarrow> rb_initialized rb = magic_number"

definition set_sequence :: "pos \<Rightarrow> pos \<Rightarrow> 'a ring_buffer \<Rightarrow> 'a ring_buffer" where
  "set_sequence position s rb =
     (let i = slot_index rb position in
      rb\<lparr>rb_slots := (rb_slots rb)[i := (rb_slots rb ! i)\<lparr>slot_sequence := s\<rparr>]\<rparr>)"

definition set_data :: "pos \<Rightarrow> 'a \<Rightarrow> 'a ring_buffer \<Rightarrow> 'a ring_buffer" where
  "set_data position v rb =
     (let i = slot_index rb position in
      rb\<lparr>rb_slots := (rb_slots rb)[i := (rb_slots rb ! i)\<lparr>slot_data := v\<rparr>]\<rparr>)"

text \<open>
  The signed difference of two positions: both are cast to \<open>std::intptr_t\<close> and subtracted, which
  overflows only when they are \<open>2 ^ 63\<close> or more apart as signed numbers.
\<close>

definition difference :: "pos \<Rightarrow> pos \<Rightarrow> int result" where
  "difference s position = i64 (sint s - sint position)"

section \<open>Producer and consumer actions\<close>

text \<open>
  The points of \<open>try_push\<close> at which a producer can be interrupted: before it loads the head,
  before it loads the sequence of a slot, before the compare-and-exchange, before it stores the
  value, before it publishes the sequence, and after the return. \<open>weak\<close> says whether the weak
  compare-and-exchange fails although the head is unchanged.
\<close>

datatype push_pc =
    Push_Load_Head
  | Push_Load_Seq pos
  | Push_Cas pos
  | Push_Write pos
  | Push_Publish pos
  | Push_Done bool

fun push_step :: "bool \<Rightarrow> 'a \<Rightarrow> push_pc \<Rightarrow> 'a ring_buffer \<Rightarrow> (push_pc \<times> 'a ring_buffer) result" where
  "push_step weak v Push_Load_Head rb = Inr (Push_Load_Seq (rb_head rb), rb)"
| "push_step weak v (Push_Load_Seq position) rb =
     rbind (difference (slot_sequence (rb_slots rb ! slot_index rb position)) position) (\<lambda>d.
       Inr (if d = 0 then Push_Cas position
            else if d < 0 then Push_Done False
            else Push_Load_Head, rb))"
| "push_step weak v (Push_Cas position) rb =
     Inr (if rb_head rb = position \<and> \<not> weak
          then (Push_Write position, rb\<lparr>rb_head := position + 1\<rparr>)
          else (Push_Load_Seq (rb_head rb), rb))"
| "push_step weak v (Push_Write position) rb = Inr (Push_Publish position, set_data position v rb)"
| "push_step weak v (Push_Publish position) rb =
     Inr (Push_Done True, set_sequence position (position + 1) rb)"
| "push_step weak v (Push_Done b) rb = Inr (Push_Done b, rb)"

datatype 'a pop_pc =
    Pop_Load_Tail
  | Pop_Load_Seq pos
  | Pop_Read pos
  | Pop_Release pos 'a
  | Pop_Advance pos 'a
  | Pop_Done "'a option"

fun pop_step :: "'a pop_pc \<Rightarrow> 'a ring_buffer \<Rightarrow> ('a pop_pc \<times> 'a ring_buffer) result" where
  "pop_step Pop_Load_Tail rb = Inr (Pop_Load_Seq (rb_tail rb), rb)"
| "pop_step (Pop_Load_Seq position) rb =
     rbind (difference (slot_sequence (rb_slots rb ! slot_index rb position)) (position + 1)) (\<lambda>d.
       Inr (if d < 0 then Pop_Done None else Pop_Read position, rb))"
| "pop_step (Pop_Read position) rb =
     Inr (Pop_Release position (slot_data (rb_slots rb ! slot_index rb position)), rb)"
| "pop_step (Pop_Release position v) rb =
     Inr (Pop_Advance position v, set_sequence position (position + of_nat (capacity rb)) rb)"
| "pop_step (Pop_Advance position v) rb =
     Inr (Pop_Done (Some v), rb\<lparr>rb_tail := position + 1\<rparr>)"
| "pop_step (Pop_Done r) rb = Inr (Pop_Done r, rb)"

section \<open>The member functions run alone\<close>

text \<open>The loop of \<open>try_push\<close>; \<open>weak n\<close> says whether its n-th compare-and-exchange fails spuriously.\<close>

partial_function (option) try_push_loop ::
  "(nat \<Rightarrow> bool) \<Rightarrow> nat \<Rightarrow> 'a \<Rightarrow> push_pc \<Rightarrow> 'a ring_buffer \<Rightarrow> (bool \<times> 'a ring_buffer) result option" where
  "try_push_loop weak n v pc rb =
     (case pc of
        Push_Done b \<Rightarrow> Some (Inr (b, rb))
      | _ \<Rightarrow> (case push_step (weak n) v pc rb of
                Inl e \<Rightarrow> Some (Inl e)
              | Inr (pc', rb') \<Rightarrow>
                  try_push_loop weak (case pc of Push_Cas _ \<Rightarrow> Suc n | _ \<Rightarrow> n) v pc' rb'))"

definition try_push :: "(nat \<Rightarrow> bool) \<Rightarrow> 'a \<Rightarrow> 'a ring_buffer \<Rightarrow> (bool \<times> 'a ring_buffer) result option" where
  "try_push weak v rb = try_push_loop weak 0 v Push_Load_Head rb"

definition try_pop :: "'a ring_buffer \<Rightarrow> ('a option \<times> 'a ring_buffer) result" where
  "try_pop rb =
     (let position = rb_tail rb; slot = rb_slots rb ! slot_index rb position in
      rbind (difference (slot_sequence slot) (position + 1)) (\<lambda>d.
        if d < 0 then Inr (None, rb)
        else Inr (Some (slot_data slot),
                  (set_sequence position (position + of_nat (capacity rb)) rb)\<lparr>rb_tail := position + 1\<rparr>)))"

definition rb_empty :: "'a ring_buffer \<Rightarrow> bool" where
  "rb_empty rb \<longleftrightarrow> rb_head rb = rb_tail rb"

definition rb_size :: "'a ring_buffer \<Rightarrow> pos" where
  "rb_size rb = rb_head rb - rb_tail rb"

section \<open>Positions as natural numbers\<close>

definition max_pos :: nat where
  "max_pos = 2 ^ 63"

definition geometry :: "'a ring_buffer \<Rightarrow> bool" where
  "geometry rb \<longleftrightarrow> (\<exists>k. capacity rb = 2 ^ k \<and> 1 \<le> k \<and> k < 63)"

lemma sint_of_nat: "x < max_pos \<Longrightarrow> sint (of_nat x :: pos) = int x"
  by (simp add: max_pos_def signed_of_nat signed_take_bit_int_eq_self)

lemma of_nat_eq: "x < max_pos \<Longrightarrow> y < max_pos \<Longrightarrow> (of_nat x :: pos) = of_nat y \<longleftrightarrow> x = y"
  by (metis of_nat_eq_iff sint_of_nat)

lemma difference_of_nat:
  assumes "x < max_pos" "y < max_pos"
  shows "difference (of_nat x) (of_nat y) = Inr (int x - int y)"
  using assms by (simp add: difference_def sint_of_nat i64_def in_i64_def max_pos_def)

lemma slot_index_of_nat:
  assumes "geometry rb" "x < max_pos"
  shows "slot_index rb (of_nat x) = x mod capacity rb"
proof -
  obtain k where k: "capacity rb = 2 ^ k" "k < 63"
    using assms(1) by (auto simp: geometry_def)
  have "mask rb = Bit_Operations.mask k"
    using k by (simp add: RingBuffer.mask_def mask_eq_exp_minus_1)
  then have "slot_index rb (of_nat x) = unat (take_bit k (of_nat x :: pos))"
    by (simp add: slot_index_def take_bit_eq_mask)
  also have "\<dots> = take_bit k (unat (of_nat x :: pos))"
    by (simp only: unsigned_take_bit_eq)
  also have "\<dots> = x mod 2 ^ k"
    using assms(2) by (simp add: unat_of_nat max_pos_def take_bit_eq_mod)
  finally show ?thesis using k by simp
qed

lemma capacity_ge_2:
  assumes "geometry rb"
  shows "2 \<le> capacity rb"
proof -
  obtain k where "capacity rb = 2 ^ k" "1 \<le> k" using assms by (auto simp: geometry_def)
  then show ?thesis using power_increasing [of 1 k "2::nat"] by simp
qed

lemma mod_window:
  assumes "t \<le> x" "x < t + N" "t \<le> y" "y < t + N" "x mod N = y mod (N::nat)"
  shows "x = y"
proof (rule ccontr)
  assume "x \<noteq> y"
  then have "N dvd (max x y - min x y)"
    using assms(5) by (metis max_def min_def mod_eq_dvd_iff_nat nle_le)
  moreover have "0 < max x y - min x y" "max x y - min x y < N"
    using \<open>x \<noteq> y\<close> assms by auto
  ultimately show False
    by (simp add: nat_dvd_not_less)
qed

section \<open>The representation relation\<close>

text \<open>
  \<open>ring_rel rb h t f C\<close>: the buffer has handed out the positions below \<open>h\<close> and released those
  below \<open>t\<close>; \<open>f x\<close> is the value pushed at position \<open>x\<close>, and \<open>C\<close> holds the positions that a
  producer has claimed and not yet published. The tail is not part of it, since the consumer
  advances it after it has released the slot.
\<close>

definition slot_of :: "'a ring_buffer \<Rightarrow> nat \<Rightarrow> 'a slot" where
  "slot_of rb x = rb_slots rb ! (x mod capacity rb)"

definition ring_rel :: "'a ring_buffer \<Rightarrow> nat \<Rightarrow> nat \<Rightarrow> (nat \<Rightarrow> 'a) \<Rightarrow> nat set \<Rightarrow> bool" where
  "ring_rel rb h t f C \<longleftrightarrow> geometry rb \<and> rb_head rb = of_nat h \<and>
     t \<le> h \<and> h \<le> t + capacity rb \<and> h + capacity rb < max_pos \<and> C \<subseteq> {t..<h} \<and>
     (\<forall>x. t \<le> x \<and> x < h \<longrightarrow>
        (if x \<in> C then slot_sequence (slot_of rb x) = of_nat x
         else slot_sequence (slot_of rb x) = of_nat (Suc x) \<and> slot_data (slot_of rb x) = f x)) \<and>
     (\<forall>x. h \<le> x \<and> x < t + capacity rb \<longrightarrow> slot_sequence (slot_of rb x) = of_nat x)"

lemma capacity_simps [simp]:
  "capacity (rb\<lparr>rb_head := w\<rparr>) = capacity rb" "capacity (rb\<lparr>rb_tail := w\<rparr>) = capacity rb"
  "capacity (set_sequence p s rb) = capacity rb" "capacity (set_data p v rb) = capacity rb"
  "geometry (rb\<lparr>rb_head := w\<rparr>) = geometry rb" "geometry (rb\<lparr>rb_tail := w\<rparr>) = geometry rb"
  "geometry (set_sequence p s rb) = geometry rb" "geometry (set_data p v rb) = geometry rb"
  "rb_head (set_sequence p s rb) = rb_head rb" "rb_head (set_data p v rb) = rb_head rb"
  "rb_tail (set_sequence p s rb) = rb_tail rb" "rb_tail (set_data p v rb) = rb_tail rb"
  by (simp_all add: capacity_def set_sequence_def set_data_def geometry_def Let_def)

lemma slot_of_simps [simp]:
  "slot_of (rb\<lparr>rb_head := w\<rparr>) x = slot_of rb x" "slot_of (rb\<lparr>rb_tail := w\<rparr>) x = slot_of rb x"
  by (simp_all add: slot_of_def capacity_def)

lemma slot_in_range: "geometry rb \<Longrightarrow> x mod capacity rb < length (rb_slots rb)"
  using capacity_ge_2 [of rb] by (auto simp: capacity_def intro!: mod_less_divisor)

lemma slot_of_set_sequence:
  assumes "geometry rb" "y < max_pos"
  shows "slot_of (set_sequence (of_nat y) s rb) x =
    (if x mod capacity rb = y mod capacity rb then (slot_of rb x)\<lparr>slot_sequence := s\<rparr> else slot_of rb x)"
proof -
  have "x mod capacity rb < length (rb_slots rb)"
    using assms(1) by (rule slot_in_range)
  then show ?thesis
    using assms by (auto simp: slot_of_def set_sequence_def slot_index_of_nat Let_def capacity_def)
qed

lemma slot_of_set_data:
  assumes "geometry rb" "y < max_pos"
  shows "slot_of (set_data (of_nat y) v rb) x =
    (if x mod capacity rb = y mod capacity rb then (slot_of rb x)\<lparr>slot_data := v\<rparr> else slot_of rb x)"
proof -
  have "x mod capacity rb < length (rb_slots rb)"
    using assms(1) by (rule slot_in_range)
  then show ?thesis
    using assms by (auto simp: slot_of_def set_data_def slot_index_of_nat Let_def capacity_def)
qed

lemma slot_at_position:
  "geometry rb \<Longrightarrow> x < max_pos \<Longrightarrow> rb_slots rb ! slot_index rb (of_nat x) = slot_of rb x"
  by (simp add: slot_of_def slot_index_of_nat)

text \<open>The four atomic changes.\<close>

lemma ring_rel_claim:
  assumes "ring_rel rb h t f C" "h < t + capacity rb" "Suc h + capacity rb < max_pos"
  shows "ring_rel (rb\<lparr>rb_head := of_nat h + 1\<rparr>) (Suc h) t (f(h := v)) (insert h C)"
  using assms by (auto simp: ring_rel_def less_Suc_eq)

lemma ring_rel_write:
  assumes "ring_rel rb h t f C" "x \<in> C"
  shows "ring_rel (set_data (of_nat x) v rb) h t f C"
    and "slot_data (slot_of (set_data (of_nat x) v rb) x) = v"
proof -
  have x: "geometry rb" "t \<le> x" "x < h" "x < max_pos" "h \<le> t + capacity rb"
    using assms by (auto simp: ring_rel_def)
  have "slot_of (set_data (of_nat x) v rb) y = (if y = x then (slot_of rb x)\<lparr>slot_data := v\<rparr> else slot_of rb y)"
    if "t \<le> y" "y < t + capacity rb" for y
    using mod_window [of t y "capacity rb" x] that x by (auto simp: slot_of_set_data)
  then show "ring_rel (set_data (of_nat x) v rb) h t f C"
    using assms x by (auto simp: ring_rel_def)
  show "slot_data (slot_of (set_data (of_nat x) v rb) x) = v"
    using x by (simp add: slot_of_set_data)
qed

lemma ring_rel_publish:
  assumes "ring_rel rb h t f C" "x \<in> C" "slot_data (slot_of rb x) = f x"
  shows "ring_rel (set_sequence (of_nat x) (of_nat x + 1) rb) h t f (C - {x})"
proof -
  have x: "geometry rb" "t \<le> x" "x < h" "x < max_pos" "h \<le> t + capacity rb"
    using assms by (auto simp: ring_rel_def)
  have "slot_of (set_sequence (of_nat x) (of_nat x + 1) rb) y =
      (if y = x then (slot_of rb x)\<lparr>slot_sequence := of_nat x + 1\<rparr> else slot_of rb y)"
    if "t \<le> y" "y < t + capacity rb" for y
    using mod_window [of t y "capacity rb" x] that x by (auto simp: slot_of_set_sequence)
  then show ?thesis
    using assms x by (auto simp: ring_rel_def)
qed

lemma ring_rel_release:
  assumes "ring_rel rb h t f C" "t < h" "t \<notin> C"
  shows "ring_rel (set_sequence (of_nat t) (of_nat t + of_nat (capacity rb)) rb) h (Suc t) f C"
proof -
  let ?N = "capacity rb"
  have t: "geometry rb" "t < max_pos" "h \<le> t + ?N"
    using assms by (auto simp: ring_rel_def)
  have keep: "y mod ?N \<noteq> t mod ?N" if "Suc t \<le> y" "y < t + ?N" for y
    using mod_window [of t y ?N t] that by auto
  have "slot_sequence (slot_of (set_sequence (of_nat t) (of_nat t + of_nat ?N) rb) x) = of_nat x"
    if "h \<le> x" "x < Suc t + ?N" for x
  proof (cases "x = t + ?N")
    case True
    then show ?thesis using t by (simp add: slot_of_set_sequence)
  next
    case False
    then show ?thesis
      using that keep [of x] assms t by (auto simp: slot_of_set_sequence ring_rel_def)
  qed
  moreover have "slot_of (set_sequence (of_nat t) (of_nat t + of_nat ?N) rb) x = slot_of rb x"
    if "Suc t \<le> x" "x < h" for x
    using that keep [of x] t by (simp add: slot_of_set_sequence)
  moreover have "C \<subseteq> {Suc t..<h}"
  proof
    fix x assume "x \<in> C"
    moreover have "x \<noteq> t" "x \<in> {t..<h}" using \<open>x \<in> C\<close> assms by (auto simp: ring_rel_def)
    ultimately show "x \<in> {Suc t..<h}" by simp
  qed
  ultimately show ?thesis
    using assms unfolding ring_rel_def by simp
qed

section \<open>Running alone\<close>

definition contents :: "'a ring_buffer \<Rightarrow> 'a list" where
  "contents rb = map (\<lambda>x. slot_data (slot_of rb x)) [unat (rb_tail rb)..<unat (rb_head rb)]"

definition ring_ok :: "'a ring_buffer \<Rightarrow> bool" where
  "ring_ok rb \<longleftrightarrow> ring_rel rb (unat (rb_head rb)) (unat (rb_tail rb)) (\<lambda>x. slot_data (slot_of rb x)) {}"

text \<open>How many more pushes the 63 bits of signed positions allow.\<close>

definition budget :: "'a ring_buffer \<Rightarrow> nat" where
  "budget rb = max_pos - 1 - capacity rb - unat (rb_head rb)"

lemma unat_of_nat_pos [simp]: "x < max_pos \<Longrightarrow> unat (of_nat x :: pos) = x"
  by (simp add: unat_of_nat max_pos_def)

lemma ring_okI:
  assumes "ring_rel rb h t f {}" "rb_tail rb = of_nat t"
  shows "ring_ok rb" and "contents rb = map f [t..<h]" and "unat (rb_head rb) = h"
proof -
  have h: "h < max_pos" "t < max_pos" "rb_head rb = of_nat h"
    using assms(1) by (auto simp: ring_rel_def)
  have val: "slot_data (slot_of rb x) = f x" if "t \<le> x" "x < h" for x
    using assms(1) that by (auto simp: ring_rel_def)
  show "contents rb = map f [t..<h]"
    using h assms(2) val by (simp add: contents_def)
  show "ring_ok rb"
    using assms h by (simp add: ring_ok_def ring_rel_def)
  show "unat (rb_head rb) = h" using h by simp
qed

lemma ring_okE:
  assumes "ring_ok rb"
  obtains h t f where "ring_rel rb h t f {}" "rb_head rb = of_nat h" "rb_tail rb = of_nat t"
    "contents rb = map f [t..<h]" "budget rb = max_pos - 1 - capacity rb - h"
  using assms that [of "unat (rb_head rb)" "unat (rb_tail rb)"]
  by (simp add: ring_ok_def contents_def budget_def)

lemma rb_init_ok:
  assumes "geometry rb"
  shows "ring_ok (rb_init rb)" "contents (rb_init rb) = []" "capacity (rb_init rb) = capacity rb"
proof -
  have c: "capacity (rb_init rb) = capacity rb"
    by (simp add: rb_init_def capacity_def)
  have "capacity rb \<le> 2 ^ 62"
    using assms power_increasing [of _ 62 "2::nat"] by (fastforce simp: geometry_def)
  moreover have "slot_sequence (slot_of (rb_init rb) x) = of_nat x" if "x < capacity rb" for x
    using that by (simp add: slot_of_def c) (simp add: rb_init_def)
  moreover have "geometry (rb_init rb)"
    using assms c by (simp add: geometry_def)
  ultimately have r: "ring_rel (rb_init rb) 0 0 f {}" for f
    using c by (simp add: ring_rel_def rb_init_def [of rb] max_pos_def)
  have t: "rb_tail (rb_init rb) = of_nat 0" by (simp add: rb_init_def)
  show "ring_ok (rb_init rb)" "contents (rb_init rb) = []"
    using ring_okI [OF r t] by simp_all
  show "capacity (rb_init rb) = capacity rb" by (rule c)
qed

text \<open>A slot that is free for the head position has the head as its sequence, and only then.\<close>

lemma head_slot:
  assumes "ring_rel rb h t f C"
  shows "h < t + capacity rb \<Longrightarrow> slot_sequence (slot_of rb h) = of_nat h"
    and "h = t + capacity rb \<Longrightarrow> \<exists>x < h. slot_sequence (slot_of rb h) = of_nat x \<and> x < max_pos"
proof -
  show "slot_sequence (slot_of rb h) = of_nat h" if "h < t + capacity rb"
    using assms that by (simp add: ring_rel_def)
  assume h: "h = t + capacity rb"
  have "2 \<le> capacity rb" "h < max_pos"
    using assms capacity_ge_2 by (auto simp: ring_rel_def)
  moreover have "slot_of rb h = slot_of rb t"
    using h by (simp add: slot_of_def)
  moreover have "slot_sequence (slot_of rb t) = of_nat t \<or> slot_sequence (slot_of rb t) = of_nat (Suc t)"
    using assms h \<open>2 \<le> capacity rb\<close> unfolding ring_rel_def by (metis add_gr_0 less_add_same_cancel1 order_refl zero_less_numeral order_less_le_trans)
  ultimately show "\<exists>x < h. slot_sequence (slot_of rb h) = of_nat x \<and> x < max_pos"
    using h by (elim disjE) (rule exI [of _ t], simp, rule exI [of _ "Suc t"], simp)
qed

definition pushed :: "'a ring_buffer \<Rightarrow> 'a \<Rightarrow> 'a ring_buffer" where
  "pushed rb v = set_sequence (rb_head rb) (rb_head rb + 1)
     (set_data (rb_head rb) v (rb\<lparr>rb_head := rb_head rb + 1\<rparr>))"

lemma loop_step:
  assumes "push_step (weak n) v pc rb = Inr (pc', rb')" "\<forall>b. pc \<noteq> Push_Done b"
  shows "try_push_loop weak n v pc rb =
    try_push_loop weak (case pc of Push_Cas _ \<Rightarrow> Suc n | _ \<Rightarrow> n) v pc' rb'"
  using assms by (subst try_push_loop.simps) (cases pc; auto)

lemma loop_done [simp]: "try_push_loop weak n v (Push_Done b) rb = Some (Inr (b, rb))"
  by (simp add: try_push_loop.simps)

lemma try_push_loop_free:
  assumes "ring_rel rb h t f C" "h < t + capacity rb" "\<not> weak m" "n \<le> m"
  shows "try_push_loop weak n v (Push_Load_Seq (of_nat h)) rb = Some (Inr (True, pushed rb v))"
  using assms(4)
proof (induction "m - n" arbitrary: n)
  case 0
  have g: "geometry rb" "h < max_pos" "rb_head rb = of_nat h" using assms(1) by (auto simp: ring_rel_def)
  have "weak n = False" using 0 assms(3) by simp
  then show ?case
    using g head_slot(1) [OF assms(1,2)]
    by (simp add: loop_step slot_at_position difference_of_nat pushed_def)
next
  case (Suc k)
  have g: "geometry rb" "h < max_pos" "rb_head rb = of_nat h" using assms(1) by (auto simp: ring_rel_def)
  have rec: "try_push_loop weak (Suc n) v (Push_Load_Seq (of_nat h)) rb = Some (Inr (True, pushed rb v))"
    using Suc.hyps(1) [of "Suc n"] Suc.hyps(2) by simp
  show ?case
  proof (cases "weak n")
    case True
    then show ?thesis
      using g head_slot(1) [OF assms(1,2)] rec
      by (simp add: loop_step slot_at_position difference_of_nat)
  next
    case False
    then show ?thesis
      using g head_slot(1) [OF assms(1,2)]
      by (simp add: loop_step slot_at_position difference_of_nat pushed_def)
  qed
qed

lemma try_push_full:
  assumes "ring_rel rb h t f C" "h = t + capacity rb"
  shows "try_push weak v rb = Some (Inr (False, rb))"
proof -
  have g: "geometry rb" "h < max_pos" "rb_head rb = of_nat h" using assms(1) by (auto simp: ring_rel_def)
  obtain x where "x < h" "slot_sequence (slot_of rb h) = of_nat x" "x < max_pos"
    using head_slot(2) [OF assms] by blast
  then show ?thesis
    using g by (simp add: try_push_def loop_step slot_at_position difference_of_nat)
qed

lemma try_push_correct:
  assumes "ring_ok rb" "0 < budget rb" "\<not> weak m"
  shows "\<exists>b rb'. try_push weak v rb = Some (Inr (b, rb')) \<and> ring_ok rb' \<and> capacity rb' = capacity rb \<and>
    budget rb \<le> Suc (budget rb') \<and> length (contents rb) \<le> capacity rb \<and> (b \<longleftrightarrow> length (contents rb) < capacity rb) \<and>
    contents rb' = (if b then contents rb @ [v] else contents rb)"
proof -
  obtain h t f where r: "ring_rel rb h t f {}" and hd: "rb_head rb = of_nat h" and tl: "rb_tail rb = of_nat t"
    and c: "contents rb = map f [t..<h]" and bud: "budget rb = max_pos - 1 - capacity rb - h"
    using ring_okE [OF assms(1)] .
  have th: "t \<le> h" "h \<le> t + capacity rb" using r by (auto simp: ring_rel_def)
  show ?thesis
  proof (cases "h < t + capacity rb")
    case True
    let ?rb1 = "rb\<lparr>rb_head := of_nat h + 1\<rparr>"
    have "ring_rel ?rb1 (Suc h) t (f(h := v)) {h}"
      using ring_rel_claim [OF r True] assms(2) bud by simp
    note w = ring_rel_write [OF this, of h v]
    have p: "ring_rel (pushed rb v) (Suc h) t (f(h := v)) {}"
      using ring_rel_publish [OF w(1)] w(2) hd by (simp add: pushed_def)
    have t': "rb_tail (pushed rb v) = of_nat t" using tl by (simp add: pushed_def)
    have "contents (pushed rb v) = map f [t..<h] @ [v]"
      using ring_okI(2) [OF p t'] th by simp
    moreover have "try_push weak v rb = Some (Inr (True, pushed rb v))"
      using try_push_loop_free [of rb h t f "{}" weak m 0 v] r True assms(3) hd
      by (simp add: try_push_def loop_step)
    moreover have "capacity (pushed rb v) = capacity rb" by (simp add: pushed_def)
    ultimately show ?thesis
      using ring_okI(1,3) [OF p t'] c th True bud by (auto simp: budget_def [of "pushed rb v"])
  next
    case False
    then show ?thesis
      using try_push_full [OF r] assms(1) th c by auto
  qed
qed

lemma try_pop_correct:
  assumes "ring_ok rb"
  shows "\<exists>r rb'. try_pop rb = Inr (r, rb') \<and> ring_ok rb' \<and> capacity rb' = capacity rb \<and> budget rb' = budget rb \<and>
    (case contents rb of [] \<Rightarrow> r = None \<and> rb' = rb | x # xs \<Rightarrow> r = Some x \<and> contents rb' = xs)"
proof -
  obtain h t f where r: "ring_rel rb h t f {}" and hd: "rb_head rb = of_nat h" and tl: "rb_tail rb = of_nat t"
    and c: "contents rb = map f [t..<h]"
    using ring_okE [OF assms] .
  have g: "geometry rb" "t \<le> h" "h < max_pos" "t < max_pos" "Suc t < max_pos" "0 < capacity rb"
    using r capacity_ge_2 [of rb] by (auto simp: ring_rel_def)
  have one: "(of_nat t :: pos) + 1 = of_nat (Suc t)" by simp
  note pop = try_pop_def [of rb, unfolded Let_def tl one slot_at_position [OF g(1,4)]]
  show ?thesis
  proof (cases "t < h")
    case True
    let ?rb1 = "set_sequence (of_nat t) (of_nat t + of_nat (capacity rb)) rb"
    have s: "slot_sequence (slot_of rb t) = of_nat (Suc t)" "slot_data (slot_of rb t) = f t"
      using r True by (auto simp: ring_rel_def)
    have "ring_rel (?rb1\<lparr>rb_tail := of_nat (Suc t)\<rparr>) h (Suc t) f {}"
      using ring_rel_release [OF r True] unfolding ring_rel_def by simp
    note ok = ring_okI [OF this]
    have "try_pop rb = Inr (Some (f t), ?rb1\<lparr>rb_tail := of_nat (Suc t)\<rparr>)"
      unfolding pop s by (simp add: difference_of_nat [OF g(5,5)] del: of_nat_Suc)
    then show ?thesis
      using ok c True by (simp add: budget_def upt_conv_Cons del: of_nat_Suc)
  next
    case False
    then have s: "slot_sequence (slot_of rb t) = of_nat t"
      using r g by (simp add: ring_rel_def)
    have "try_pop rb = Inr (None, rb)"
      unfolding pop s by (simp add: difference_of_nat [OF g(4,5)] del: of_nat_Suc)
    then show ?thesis using assms c False by simp
  qed
qed

end
