(* ===== verification/RingConcurrent.thy ===== *)
theory RingConcurrent
  imports RingBuffer
begin

text \<open>
  The ring buffer under concurrency. Any number of producers run \<open>try_push\<close> and one consumer runs
  \<open>try_pop\<close>; every step is one access to shared memory by one of them, in any order, including
  spurious failures of the weak compare-and-exchange. Accesses are sequentially consistent.
  History variables record the values in the order in which producers claimed positions, and the
  values the consumer has taken out.
\<close>

section \<open>The concurrent system\<close>

record 'a mpsc =
  sys_buf :: "'a ring_buffer"
  sys_push :: "nat \<Rightarrow> ('a \<times> push_pc) option"
  sys_pop :: "'a pop_pc option"
  sys_claimed :: "'a list"
  sys_popped :: "'a list"

definition mpsc_init :: "'a ring_buffer \<Rightarrow> 'a mpsc" where
  "mpsc_init rb = \<lparr>sys_buf = rb_init rb, sys_push = Map.empty, sys_pop = None, sys_claimed = [],
     sys_popped = []\<rparr>"

definition log_claim :: "'a \<Rightarrow> push_pc \<Rightarrow> 'a list \<Rightarrow> 'a list" where
  "log_claim v pc' xs = (case pc' of Push_Write _ \<Rightarrow> xs @ [v] | _ \<Rightarrow> xs)"

definition log_pop :: "'a pop_pc \<Rightarrow> 'a list \<Rightarrow> 'a list" where
  "log_pop pc' xs = (case pc' of Pop_Advance _ v \<Rightarrow> xs @ [v] | _ \<Rightarrow> xs)"

inductive mpsc_step :: "'a mpsc \<Rightarrow> 'a mpsc \<Rightarrow> bool" where
  call_push: "sys_push s i = None \<Longrightarrow>
    mpsc_step s (s\<lparr>sys_push := (sys_push s)(i \<mapsto> (v, Push_Load_Head))\<rparr>)"
| push: "sys_push s i = Some (v, pc) \<Longrightarrow> \<forall>b. pc \<noteq> Push_Done b \<Longrightarrow>
    push_step weak v pc (sys_buf s) = Inr (pc', buf') \<Longrightarrow>
    mpsc_step s (s\<lparr>sys_buf := buf', sys_push := (sys_push s)(i \<mapsto> (v, pc')),
      sys_claimed := log_claim v pc' (sys_claimed s)\<rparr>)"
| return_push: "sys_push s i = Some (v, Push_Done b) \<Longrightarrow>
    mpsc_step s (s\<lparr>sys_push := (sys_push s)(i := None)\<rparr>)"
| call_pop: "sys_pop s = None \<Longrightarrow> mpsc_step s (s\<lparr>sys_pop := Some Pop_Load_Tail\<rparr>)"
| pop: "sys_pop s = Some pc \<Longrightarrow> \<forall>r. pc \<noteq> Pop_Done r \<Longrightarrow>
    pop_step pc (sys_buf s) = Inr (pc', buf') \<Longrightarrow>
    mpsc_step s (s\<lparr>sys_buf := buf', sys_pop := Some pc', sys_popped := log_pop pc' (sys_popped s)\<rparr>)"
| return_pop: "sys_pop s = Some (Pop_Done r) \<Longrightarrow> mpsc_step s (s\<lparr>sys_pop := None\<rparr>)"

inductive mpsc_reachable :: "'a ring_buffer \<Rightarrow> 'a mpsc \<Rightarrow> bool" for rb :: "'a ring_buffer" where
  init: "mpsc_reachable rb (mpsc_init rb)"
| step: "mpsc_reachable rb s \<Longrightarrow> mpsc_step s s' \<Longrightarrow> mpsc_reachable rb s'"

section \<open>The invariant\<close>

fun push_pos :: "push_pc \<Rightarrow> nat option" where
  "push_pos (Push_Write p) = Some (unat p)"
| "push_pos (Push_Publish p) = Some (unat p)"
| "push_pos _ = None"

definition in_flight :: "'a mpsc \<Rightarrow> nat set" where
  "in_flight s = {x. \<exists>i v pc. sys_push s i = Some (v, pc) \<and> push_pos pc = Some x}"

fun push_ok :: "'a mpsc \<Rightarrow> 'a \<Rightarrow> push_pc \<Rightarrow> bool" where
  "push_ok s v Push_Load_Head = True"
| "push_ok s v (Push_Load_Seq p) \<longleftrightarrow> unat p \<le> length (sys_claimed s)"
| "push_ok s v (Push_Cas p) \<longleftrightarrow> unat p < length (sys_claimed s) \<or>
     unat p = length (sys_claimed s) \<and>
     length (sys_claimed s) < length (sys_popped s) + capacity (sys_buf s)"
| "push_ok s v (Push_Write p) \<longleftrightarrow> unat p < length (sys_claimed s) \<and> sys_claimed s ! unat p = v"
| "push_ok s v (Push_Publish p) \<longleftrightarrow> unat p < length (sys_claimed s) \<and> sys_claimed s ! unat p = v \<and>
     slot_data (slot_of (sys_buf s) (unat p)) = v"
| "push_ok s v (Push_Done b) = True"

definition oldest_published :: "'a mpsc \<Rightarrow> bool" where
  "oldest_published s \<longleftrightarrow> length (sys_popped s) < length (sys_claimed s) \<and>
     length (sys_popped s) \<notin> in_flight s"

fun pop_ok :: "'a mpsc \<Rightarrow> 'a pop_pc \<Rightarrow> bool" where
  "pop_ok s Pop_Load_Tail = True"
| "pop_ok s (Pop_Load_Seq p) \<longleftrightarrow> p = of_nat (length (sys_popped s))"
| "pop_ok s (Pop_Read p) \<longleftrightarrow> p = of_nat (length (sys_popped s)) \<and> oldest_published s"
| "pop_ok s (Pop_Release p v) \<longleftrightarrow> p = of_nat (length (sys_popped s)) \<and> oldest_published s \<and>
     v = sys_claimed s ! length (sys_popped s)"
| "pop_ok s (Pop_Advance p v) \<longleftrightarrow> sys_popped s \<noteq> [] \<and> p = of_nat (length (sys_popped s) - 1) \<and>
     v = last (sys_popped s)"
| "pop_ok s (Pop_Done r) \<longleftrightarrow> (\<forall>v. r = Some v \<longrightarrow> sys_popped s \<noteq> [] \<and> v = last (sys_popped s))"

fun pending_tail :: "'a pop_pc option \<Rightarrow> nat" where
  "pending_tail (Some (Pop_Advance p v)) = 1"
| "pending_tail _ = 0"

definition mpsc_inv :: "'a mpsc \<Rightarrow> bool" where
  "mpsc_inv s \<longleftrightarrow>
     (let h = length (sys_claimed s); t = length (sys_popped s) in
      ring_rel (sys_buf s) h t (\<lambda>x. sys_claimed s ! x) (in_flight s) \<and>
      take t (sys_claimed s) = sys_popped s \<and>
      rb_tail (sys_buf s) = of_nat (t - pending_tail (sys_pop s)) \<and>
      (\<forall>i v pc. sys_push s i = Some (v, pc) \<longrightarrow> push_ok s v pc) \<and>
      (\<forall>i j v w pc pc' x. sys_push s i = Some (v, pc) \<longrightarrow> sys_push s j = Some (w, pc') \<longrightarrow>
         push_pos pc = Some x \<longrightarrow> push_pos pc' = Some x \<longrightarrow> i = j) \<and>
      (\<forall>pc. sys_pop s = Some pc \<longrightarrow> pop_ok s pc))"

lemma window_rep: "0 < N \<Longrightarrow> \<exists>y. t \<le> y \<and> y < t + N \<and> y mod N = x mod (N::nat)"
proof (induction t)
  case 0
  then show ?case by (intro exI [of _ "x mod N"]) simp
next
  case (Suc t)
  then obtain y where y: "t \<le> y" "y < t + N" "y mod N = x mod N" by blast
  show ?case
  proof (cases "y = t")
    case True
    then show ?thesis using y Suc.prems by (intro exI [of _ "t + N"]) simp
  next
    case False
    then show ?thesis using y by (intro exI [of _ y]) simp
  qed
qed

text \<open>What a producer can see in the slot of a position it has read from the head.\<close>

lemma observed_sequence:
  assumes "ring_rel rb h t f C" "x \<le> h"
  obtains s where "slot_sequence (slot_of rb x) = of_nat s" "s < max_pos"
    "s = x \<Longrightarrow> x \<in> C \<or> x = h \<and> h < t + capacity rb" "s < x \<Longrightarrow> x = h \<and> h = t + capacity rb"
proof -
  let ?N = "capacity rb"
  have N: "2 \<le> ?N" "t \<le> h" "h \<le> t + ?N" "h + ?N < max_pos"
    using assms(1) capacity_ge_2 [of rb] by (auto simp: ring_rel_def)
  obtain y where y: "t \<le> y" "y < t + ?N" "y mod ?N = x mod ?N"
    using window_rep [of ?N t x] N(1) by auto
  have slot: "slot_of rb x = slot_of rb y" using y(3) by (simp add: slot_of_def)
  define s where "s = (if y < h \<and> y \<notin> C then Suc y else y)"
  have seq: "slot_sequence (slot_of rb x) = of_nat s"
    using assms(1) y slot by (auto simp: ring_rel_def s_def)
  have same: "y = x" if "t \<le> x" "x < t + ?N"
    using mod_window [of t y ?N x] y that by simp
  have gap: "x + ?N \<le> y" if "x < t"
  proof -
    have "?N dvd (y - x)" using that y by (simp add: mod_eq_dvd_iff_nat)
    then have "?N \<le> y - x" using that y(1) by (intro dvd_imp_le) auto
    then show ?thesis using that y(1) by simp
  qed
  have full: "y = t" if "x = t + ?N"
    using mod_window [of t y ?N t] y that N by simp
  show ?thesis
  proof (rule that [OF seq])
    show "s < max_pos" using y N by (simp add: s_def)
    show "x \<in> C \<or> x = h \<and> h < t + ?N" if "s = x"
    proof -
      consider "x < t" | "t \<le> x" "x < t + ?N" | "x = t + ?N" using assms(2) N by linarith
      then show ?thesis
      proof cases
        case 1
        then show ?thesis using gap that N by (auto simp: s_def split: if_splits)
      next
        case 2
        then show ?thesis using same that assms(2) by (auto simp: s_def split: if_splits)
      next
        case 3
        then show ?thesis using full that N by (auto simp: s_def split: if_splits)
      qed
    qed
    show "x = h \<and> h = t + ?N" if "s < x"
    proof -
      consider "x < t" | "t \<le> x" "x < t + ?N" | "x = t + ?N" using assms(2) N by linarith
      then show ?thesis
      proof cases
        case 1
        then show ?thesis using gap that by (auto simp: s_def split: if_splits)
      next
        case 2
        then show ?thesis using same that by (auto simp: s_def split: if_splits)
      next
        case 3
        then show ?thesis using assms(2) N by simp
      qed
    qed
  qed
qed

section \<open>Every step keeps the invariant\<close>

lemma of_nat_unat_pos [simp]: "of_nat (unat p) = (p :: pos)"
  by simp

lemma ring_rel_cong:
  assumes "ring_rel rb h t f C" "\<And>x. t \<le> x \<Longrightarrow> x < h \<Longrightarrow> f x = g x"
  shows "ring_rel rb h t g C"
  using assms by (auto simp: ring_rel_def)

lemmas mpsc_defs = mpsc_inv_def Let_def

lemma mpsc_invD:
  assumes "mpsc_inv s"
  shows "ring_rel (sys_buf s) (length (sys_claimed s)) (length (sys_popped s)) (\<lambda>x. sys_claimed s ! x) (in_flight s)"
    and "take (length (sys_popped s)) (sys_claimed s) = sys_popped s"
    and "rb_tail (sys_buf s) = of_nat (length (sys_popped s) - pending_tail (sys_pop s))"
    and "sys_push s i = Some (v, pc) \<Longrightarrow> push_ok s v pc"
    and "sys_push s i = Some (v, pc) \<Longrightarrow> sys_push s j = Some (w, pc') \<Longrightarrow>
      push_pos pc = Some x \<Longrightarrow> push_pos pc' = Some x \<Longrightarrow> i = j"
    and "sys_pop s = Some q \<Longrightarrow> pop_ok s q"
  using assms unfolding mpsc_defs by blast+

lemma mpsc_inv_bounds:
  assumes "mpsc_inv s"
  shows "geometry (sys_buf s)" "rb_head (sys_buf s) = of_nat (length (sys_claimed s))"
    "length (sys_popped s) \<le> length (sys_claimed s)"
    "length (sys_claimed s) \<le> length (sys_popped s) + capacity (sys_buf s)"
    "length (sys_claimed s) + capacity (sys_buf s) < max_pos"
    "x \<in> in_flight s \<Longrightarrow> length (sys_popped s) \<le> x \<and> x < length (sys_claimed s)"
  using mpsc_invD(1) [OF assms] by (auto simp: ring_rel_def)

text \<open>The positions the other producers own.\<close>

definition others :: "'a mpsc \<Rightarrow> nat \<Rightarrow> nat set" where
  "others s i = {x. \<exists>j v pc. j \<noteq> i \<and> sys_push s j = Some (v, pc) \<and> push_pos pc = Some x}"

lemma in_flight_others:
  "in_flight s = others s i \<union> {x. \<exists>v pc. sys_push s i = Some (v, pc) \<and> push_pos pc = Some x}"
proof (rule set_eqI, rule iffI)
  fix x assume "x \<in> in_flight s"
  then obtain j v pc where j: "sys_push s j = Some (v, pc)" "push_pos pc = Some x"
    by (auto simp: in_flight_def)
  then show "x \<in> others s i \<union> {x. \<exists>v pc. sys_push s i = Some (v, pc) \<and> push_pos pc = Some x}"
    by (cases "j = i") (auto simp: others_def)
qed (auto simp: others_def in_flight_def)

lemma others_update [simp]: "others (s\<lparr>sys_push := (sys_push s)(i := e)\<rparr>) i = others s i"
  by (simp add: others_def cong: conj_cong)

lemma others_fields [simp]:
  "others (s\<lparr>sys_buf := b\<rparr>) i = others s i" "others (s\<lparr>sys_claimed := c\<rparr>) i = others s i"
  by (simp_all add: others_def)

lemma in_flight_set:
  assumes "sys_push s' = (sys_push s)(i \<mapsto> (v, pc))"
  shows "in_flight s' = others s i \<union> {x. push_pos pc = Some x}"
  using in_flight_others [of s' i] others_update [of s i "Some (v, pc)"] assms by (simp add: others_def)

lemma in_flight_fields [simp]:
  "in_flight (s\<lparr>sys_buf := b\<rparr>) = in_flight s" "in_flight (s\<lparr>sys_claimed := c\<rparr>) = in_flight s"
  "in_flight (s\<lparr>sys_pop := q\<rparr>) = in_flight s" "in_flight (s\<lparr>sys_popped := p\<rparr>) = in_flight s"
  by (simp_all add: in_flight_def)

lemma push_ok_fields [simp]:
  "push_ok (s\<lparr>sys_push := m\<rparr>) v pc = push_ok s v pc" "push_ok (s\<lparr>sys_pop := q\<rparr>) v pc = push_ok s v pc"
  by (cases pc; simp)+

lemma pop_ok_fields [simp]: "pop_ok (s\<lparr>sys_pop := q\<rparr>) pc = pop_ok s pc"
  by (cases pc; simp add: oldest_published_def)

lemma unique_update:
  assumes "mpsc_inv s" "\<And>x w pc. e = Some (w, pc) \<Longrightarrow> push_pos pc = Some x \<Longrightarrow> x \<notin> others s i"
    and "((sys_push s)(i := e)) j = Some (w, pc)" "((sys_push s)(i := e)) k = Some (w', pc')"
    and "push_pos pc = Some x" "push_pos pc' = Some x"
  shows "j = k"
proof (rule ccontr)
  assume ne: "j \<noteq> k"
  show False
  proof (cases "j = i")
    case True
    then have "e = Some (w, pc)" "x \<in> others s i"
      using ne assms(3-6) by (auto simp: others_def)
    then show False using assms(2,5) by blast
  next
    case j: False
    show False
    proof (cases "k = i")
      case True
      then have "e = Some (w', pc')" "x \<in> others s i"
        using j assms(3-6) by (auto simp: others_def)
      then show False using assms(2,6) by blast
    next
      case False
      then show False using j ne assms(3-6) mpsc_invD(5) [OF assms(1)] by auto
    qed
  qed
qed

lemma mpsc_invI:
  assumes "ring_rel (sys_buf s) (length (sys_claimed s)) (length (sys_popped s)) (\<lambda>x. sys_claimed s ! x) (in_flight s)"
    and "take (length (sys_popped s)) (sys_claimed s) = sys_popped s"
    and "rb_tail (sys_buf s) = of_nat (length (sys_popped s) - pending_tail (sys_pop s))"
    and "\<And>i v pc. sys_push s i = Some (v, pc) \<Longrightarrow> push_ok s v pc"
    and "\<And>i j v w pc pc' x. sys_push s i = Some (v, pc) \<Longrightarrow> sys_push s j = Some (w, pc') \<Longrightarrow>
      push_pos pc = Some x \<Longrightarrow> push_pos pc' = Some x \<Longrightarrow> i = j"
    and "\<And>pc. sys_pop s = Some pc \<Longrightarrow> pop_ok s pc"
  shows "mpsc_inv s"
  unfolding mpsc_defs using assms by blast

text \<open>A step of a producer that owns no position, or stops running.\<close>

lemma inv_producer_local:
  assumes "mpsc_inv s" "\<And>w pc. sys_push s i = Some (w, pc) \<Longrightarrow> push_pos pc = None"
    and "\<And>w pc. e = Some (w, pc) \<Longrightarrow> push_pos pc = None \<and> push_ok s w pc"
  shows "mpsc_inv (s\<lparr>sys_push := (sys_push s)(i := e)\<rparr>)"
proof -
  let ?s' = "s\<lparr>sys_push := (sys_push s)(i := e)\<rparr>"
  have none: "{x. \<exists>w pc. sys_push s i = Some (w, pc) \<and> push_pos pc = Some x} = {}"
    "{x. \<exists>w pc. e = Some (w, pc) \<and> push_pos pc = Some x} = {}"
    using assms(2,3) by fastforce+
  have fl: "in_flight ?s' = in_flight s"
    using in_flight_others [of ?s' i] in_flight_others [of s i] none by simp
  then have pop: "pop_ok ?s' q = pop_ok s q" for q
    by (cases q) (simp_all add: oldest_published_def)
  have ok: "push_ok s w pc" if "((sys_push s)(i := e)) j = Some (w, pc)" for j w pc
    using that assms(3) mpsc_invD(4) [OF assms(1)] by (cases "j = i") simp_all
  have un: "j = k" if "((sys_push s)(i := e)) j = Some (w, pc)" "((sys_push s)(i := e)) k = Some (w', pc')"
      "push_pos pc = Some x" "push_pos pc' = Some x" for j k w w' pc pc' x
    by (rule unique_update [OF assms(1) _ that]) (use assms(3) in fastforce)
  show ?thesis
  proof (rule mpsc_invI)
    fix j k w w' pc pc' x
    assume "sys_push ?s' j = Some (w, pc)" "sys_push ?s' k = Some (w', pc')" "push_pos pc = Some x" "push_pos pc' = Some x"
    then show "j = k" using un [of j w pc k w' pc' x] by (simp del: fun_upd_apply)
  next
    show "push_ok ?s' w pc" if "sys_push ?s' j = Some (w, pc)" for j w pc
      using ok that by simp
    show "pop_ok ?s' q" if "sys_pop ?s' = Some q" for q
      using mpsc_invD(6) [OF assms(1)] that pop by simp
  qed (simp_all add: fl mpsc_invD(1-3) [OF assms(1)])
qed

lemma seen_by_producer:
  assumes inv: "mpsc_inv s" and pc: "sys_push s i = Some (v, Push_Load_Seq p)"
  obtains x y where "p = of_nat x" "unat p = x" "x < max_pos"
    "difference (slot_sequence (rb_slots (sys_buf s) ! slot_index (sys_buf s) p)) p = Inr (int y - int x)"
    "y = x \<Longrightarrow> push_ok s v (Push_Cas p)"
    "y < x \<Longrightarrow> length (sys_claimed s) = length (sys_popped s) + capacity (sys_buf s)"
proof -
  note r = mpsc_invD(1) [OF inv] and b = mpsc_inv_bounds [OF inv]
  obtain x where x: "p = of_nat x" "unat p = x" "x \<le> length (sys_claimed s)" "x < max_pos"
    using mpsc_invD(4) [OF inv pc] b(5) that by (metis add_lessD1 of_nat_unat_pos order_le_less_trans push_ok.simps(2))
  obtain y where y: "slot_sequence (slot_of (sys_buf s) x) = of_nat y" "y < max_pos"
    "y = x \<Longrightarrow> x \<in> in_flight s \<or> x = length (sys_claimed s) \<and>
        length (sys_claimed s) < length (sys_popped s) + capacity (sys_buf s)"
    "y < x \<Longrightarrow> x = length (sys_claimed s) \<and>
        length (sys_claimed s) = length (sys_popped s) + capacity (sys_buf s)"
    using observed_sequence [OF r x(3)] by blast
  show ?thesis
  proof (rule that [OF x(1,2,4)])
    show "difference (slot_sequence (rb_slots (sys_buf s) ! slot_index (sys_buf s) p)) p = Inr (int y - int x)"
      using difference_of_nat [OF y(2) x(4)] slot_at_position [OF b(1) x(4)] y(1) x(1) by simp
    show "push_ok s v (Push_Cas p)" if "y = x" using y(3) [OF that] b(6) x(2) by auto
    show "length (sys_claimed s) = length (sys_popped s) + capacity (sys_buf s)" if "y < x"
      using y(4) [OF that] by simp
  qed
qed

lemma inv_load_seq:
  assumes inv: "mpsc_inv s" and pc: "sys_push s i = Some (v, Push_Load_Seq p)"
    and st: "push_step weak v (Push_Load_Seq p) (sys_buf s) = Inr (pc', buf')"
  shows "buf' = sys_buf s \<and> push_pos pc' = None \<and> push_ok s v pc' \<and> (\<forall>q. pc' \<noteq> Push_Write q) \<and>
    (pc' = Push_Done False \<longrightarrow> length (sys_claimed s) = length (sys_popped s) + capacity (sys_buf s))"
proof -
  obtain x y where d: "difference (slot_sequence (rb_slots (sys_buf s) ! slot_index (sys_buf s) p)) p =
      Inr (int y - int x)" "y = x \<Longrightarrow> push_ok s v (Push_Cas p)"
    "y < x \<Longrightarrow> length (sys_claimed s) = length (sys_popped s) + capacity (sys_buf s)"
    using seen_by_producer [OF inv pc] by metis
  have "pc' = (if y = x then Push_Cas p else if y < x then Push_Done False else Push_Load_Head)"
    "buf' = sys_buf s"
    using st d(1) by (auto split: if_splits)
  then show ?thesis using d(2,3) by auto
qed

text \<open>The three steps of a producer that change the buffer.\<close>

lemma inv_claim:
  assumes inv: "mpsc_inv s" and pc: "sys_push s i = Some (v, Push_Cas p)" and hd: "rb_head (sys_buf s) = p"
    and room: "Suc (length (sys_claimed s)) + capacity (sys_buf s) < max_pos"
  shows "mpsc_inv (s\<lparr>sys_buf := (sys_buf s)\<lparr>rb_head := p + 1\<rparr>, sys_push := (sys_push s)(i \<mapsto> (v, Push_Write p)),
      sys_claimed := sys_claimed s @ [v]\<rparr>)" (is "mpsc_inv ?s'")
proof -
  let ?h = "length (sys_claimed s)" and ?t = "length (sys_popped s)"
  note r = mpsc_invD(1) [OF inv] and b = mpsc_inv_bounds [OF inv]
  have p: "p = of_nat ?h" "unat p = ?h" "?h < max_pos" using hd b(2,5) by auto
  then have lt: "?h < ?t + capacity (sys_buf s)"
    using mpsc_invD(4) [OF inv pc] by simp
  have fl: "in_flight ?s' = insert ?h (in_flight s)"
    using in_flight_set [of ?s' s i] in_flight_others [of s i] pc p(2) by auto
  show ?thesis
  proof (rule mpsc_invI)
    show "ring_rel (sys_buf ?s') (length (sys_claimed ?s')) (length (sys_popped ?s')) (\<lambda>x. sys_claimed ?s' ! x) (in_flight ?s')"
      using ring_rel_cong [OF ring_rel_claim [OF r lt room, of v], of "\<lambda>x. (sys_claimed s @ [v]) ! x"] fl p(1)
      by (simp add: nth_append)
    show "take (length (sys_popped ?s')) (sys_claimed ?s') = sys_popped ?s'"
      using mpsc_invD(2) [OF inv] b(3) by simp
    show "rb_tail (sys_buf ?s') = of_nat (length (sys_popped ?s') - pending_tail (sys_pop ?s'))"
      using mpsc_invD(3) [OF inv] by simp
    show "push_ok ?s' w q" if "sys_push ?s' j = Some (w, q)" for j w q
    proof (cases "j = i")
      case True
      then show ?thesis using that p by auto
    next
      case False
      then have "push_ok s w q" using that mpsc_invD(4) [OF inv] by simp
      then show ?thesis by (cases q) (auto simp: nth_append)
    qed
    show "j = k" if "sys_push ?s' j = Some (w, q)" "sys_push ?s' k = Some (w', q')"
      "push_pos q = Some x" "push_pos q' = Some x" for j k w w' q q' x
    proof (rule unique_update [OF inv, of "Some (v, Push_Write p)" i j w q k w' q' x])
      show "y \<notin> others s i" if "Some (v, Push_Write p) = Some (u, qq)" "push_pos qq = Some y" for y u qq
        using that p(2) b(6) [of ?h] in_flight_others [of s i] by fastforce
    qed (use that in simp_all)
    show "pop_ok ?s' q" if "sys_pop ?s' = Some q" for q
      using mpsc_invD(6) [OF inv, of q] that b(3) fl
      by (cases q) (auto simp: oldest_published_def nth_append)
  qed
qed

text \<open>Storing the value and publishing it only touch the slot of a position the producer owns.\<close>

lemma owned_slot:
  assumes inv: "mpsc_inv s" and pc: "sys_push s i = Some (v, pc)" "push_pos pc = Some x"
  shows "x \<in> in_flight s" "x \<notin> others s i" "x < max_pos" "x < length (sys_claimed s)"
    and "y \<in> others s i \<Longrightarrow> slot_of (set_data (of_nat x) u (sys_buf s)) y = slot_of (sys_buf s) y"
    and "y \<in> others s i \<Longrightarrow> slot_of (set_sequence (of_nat x) q (sys_buf s)) y = slot_of (sys_buf s) y"
proof -
  note b = mpsc_inv_bounds [OF inv]
  show x: "x \<in> in_flight s" using pc by (auto simp: in_flight_def)
  show o: "x \<notin> others s i" using mpsc_invD(5) [OF inv pc(1)] pc(2) by (auto simp: others_def)
  show "x < length (sys_claimed s)" "x < max_pos" using b(5) b(6) [OF x] by auto
  then show "slot_of (set_data (of_nat x) u (sys_buf s)) y = slot_of (sys_buf s) y"
    "slot_of (set_sequence (of_nat x) q (sys_buf s)) y = slot_of (sys_buf s) y" if "y \<in> others s i"
  proof -
    have "y \<in> in_flight s" "y \<noteq> x" using that o in_flight_others [of s i] by auto
    then have "y mod capacity (sys_buf s) \<noteq> x mod capacity (sys_buf s)"
      using mod_window [of "length (sys_popped s)" y "capacity (sys_buf s)" x] b(4) b(6) [OF x] b(6) [of y]
      by fastforce
    then show "slot_of (set_data (of_nat x) u (sys_buf s)) y = slot_of (sys_buf s) y"
      "slot_of (set_sequence (of_nat x) q (sys_buf s)) y = slot_of (sys_buf s) y"
      using \<open>x < max_pos\<close> b(1) by (simp_all add: slot_of_set_data slot_of_set_sequence)
  qed
qed

lemma push_ok_others:
  assumes "push_ok s w q" "capacity b = capacity (sys_buf s)"
    and "\<And>x. push_pos q = Some x \<Longrightarrow> slot_of b x = slot_of (sys_buf s) x"
  shows "push_ok (s\<lparr>sys_buf := b\<rparr>) w q"
  using assms by (cases q) auto

lemma inv_write:
  assumes inv: "mpsc_inv s" and pc: "sys_push s i = Some (v, Push_Write p)"
  shows "mpsc_inv (s\<lparr>sys_buf := set_data p v (sys_buf s), sys_push := (sys_push s)(i \<mapsto> (v, Push_Publish p))\<rparr>)"
    (is "mpsc_inv ?s'")
proof -
  note r = mpsc_invD(1) [OF inv] and b = mpsc_inv_bounds [OF inv]
  obtain x where x: "unat p = x" and
    p: "p = of_nat x" "push_pos (Push_Write p) = Some x" "push_pos (Push_Publish p) = Some x"
    by (metis of_nat_unat_pos push_pos.simps(1,2))
  note own = owned_slot [OF inv pc p(2)]
  have fl: "in_flight ?s' = in_flight s"
    using in_flight_set [of ?s' s i] in_flight_others [of s i] pc p by auto
  note w = ring_rel_write [OF r own(1), of v]
  show ?thesis
  proof (rule mpsc_invI)
    show "push_ok ?s' w q" if "sys_push ?s' j = Some (w, q)" for j w q
    proof (cases "j = i")
      case True
      then show ?thesis
        using that mpsc_invD(4) [OF inv pc] w(2) x p(1) by auto
    next
      case False
      then have "push_ok s w q" "\<And>y. push_pos q = Some y \<Longrightarrow> y \<in> others s i"
        using that mpsc_invD(4) [OF inv] by (auto simp: others_def)
      then have "push_ok (s\<lparr>sys_buf := set_data p v (sys_buf s)\<rparr>) w q"
        using own(5) p(1) by (intro push_ok_others) simp_all
      then show ?thesis by (cases q) simp_all
    qed
    show "j = k" if "sys_push ?s' j = Some (w, q)" "sys_push ?s' k = Some (w', q')"
      "push_pos q = Some y" "push_pos q' = Some y" for j k w w' q q' y
    proof (rule unique_update [OF inv, of "Some (v, Push_Publish p)" i j w q k w' q' y])
      show "z \<notin> others s i" if "Some (v, Push_Publish p) = Some (u, qq)" "push_pos qq = Some z" for z u qq
        using that own(2) x by auto
    qed (use that in simp_all)
    show "pop_ok ?s' q" if "sys_pop ?s' = Some q" for q
      using mpsc_invD(6) [OF inv, of q] that fl by (cases q) (auto simp: oldest_published_def)
    show "ring_rel (sys_buf ?s') (length (sys_claimed ?s')) (length (sys_popped ?s')) (\<lambda>x. sys_claimed ?s' ! x) (in_flight ?s')"
      using w(1) fl p(1) by simp
  qed (use mpsc_invD(2,3) [OF inv] in simp_all)
qed

lemma inv_publish:
  assumes inv: "mpsc_inv s" and pc: "sys_push s i = Some (v, Push_Publish p)"
  shows "mpsc_inv (s\<lparr>sys_buf := set_sequence p (p + 1) (sys_buf s), sys_push := (sys_push s)(i \<mapsto> (v, Push_Done True))\<rparr>)"
    (is "mpsc_inv ?s'")
proof -
  note r = mpsc_invD(1) [OF inv] and b = mpsc_inv_bounds [OF inv]
  obtain x where x: "unat p = x" and p: "p = of_nat x" "push_pos (Push_Publish p) = Some x"
    by (metis of_nat_unat_pos push_pos.simps(2))
  note own = owned_slot [OF inv pc p(2)]
  have fl: "in_flight ?s' = in_flight s - {x}"
    using in_flight_set [of ?s' s i] in_flight_others [of s i] pc p own(2) by auto
  have "slot_data (slot_of (sys_buf s) x) = sys_claimed s ! x"
    using mpsc_invD(4) [OF inv pc] x by simp
  note w = ring_rel_publish [OF r own(1) this]
  show ?thesis
  proof (rule mpsc_invI)
    show "push_ok ?s' w q" if "sys_push ?s' j = Some (w, q)" for j w q
    proof (cases "j = i")
      case True
      then show ?thesis using that by auto
    next
      case False
      then have "push_ok s w q" "\<And>y. push_pos q = Some y \<Longrightarrow> y \<in> others s i"
        using that mpsc_invD(4) [OF inv] by (auto simp: others_def)
      then have "push_ok (s\<lparr>sys_buf := set_sequence p (p + 1) (sys_buf s)\<rparr>) w q"
        using own(6) p(1) by (intro push_ok_others) simp_all
      then show ?thesis by (cases q) simp_all
    qed
    show "j = k" if "sys_push ?s' j = Some (w, q)" "sys_push ?s' k = Some (w', q')"
      "push_pos q = Some y" "push_pos q' = Some y" for j k w w' q q' y
      by (rule unique_update [OF inv, of "Some (v, Push_Done True)" i j w q k w' q' y]) (use that in auto)
    show "pop_ok ?s' q" if "sys_pop ?s' = Some q" for q
      using mpsc_invD(6) [OF inv, of q] that fl by (cases q) (auto simp: oldest_published_def)
    show "ring_rel (sys_buf ?s') (length (sys_claimed ?s')) (length (sys_popped ?s')) (\<lambda>x. sys_claimed ?s' ! x) (in_flight ?s')"
      using w fl p(1) by simp
  qed (use mpsc_invD(2,3) [OF inv] in simp_all)
qed

section \<open>Steps of the consumer\<close>

lemma inv_consumer_local:
  assumes inv: "mpsc_inv s" and "pending_tail (sys_pop s) = 0"
    and q: "\<And>pc. e = Some pc \<Longrightarrow> pop_ok s pc" and "pending_tail e = 0"
  shows "mpsc_inv (s\<lparr>sys_pop := e\<rparr>)"
proof (rule mpsc_invI)
  show "push_ok (s\<lparr>sys_pop := e\<rparr>) w pc" if "sys_push (s\<lparr>sys_pop := e\<rparr>) j = Some (w, pc)" for j w pc
    using that mpsc_invD(4) [OF inv] by simp
  show "j = k" if "sys_push (s\<lparr>sys_pop := e\<rparr>) j = Some (w, pc)" "sys_push (s\<lparr>sys_pop := e\<rparr>) k = Some (w', pc')"
    "push_pos pc = Some x" "push_pos pc' = Some x" for j k w w' pc pc' x
    using that mpsc_invD(5) [OF inv, of j w pc k w' pc' x] by simp
qed (use assms mpsc_invD(1-3) [OF inv] in simp_all)

lemma pop_load_seq:
  assumes inv: "mpsc_inv s" and pc: "sys_pop s = Some (Pop_Load_Seq p)"
  shows "pop_step (Pop_Load_Seq p) (sys_buf s) =
    Inr (if oldest_published s then Pop_Read p else Pop_Done None, sys_buf s)"
proof -
  let ?t = "length (sys_popped s)" and ?h = "length (sys_claimed s)"
  note r = mpsc_invD(1) [OF inv] and b = mpsc_inv_bounds [OF inv]
  have p: "p = of_nat ?t" using mpsc_invD(6) [OF inv pc] by simp
  have lt: "?t < max_pos" "Suc ?t < max_pos" using b(3,5) capacity_ge_2 [OF b(1)] by auto
  have one: "(of_nat ?t :: pos) + 1 = of_nat (Suc ?t)" by simp
  have sq: "slot_sequence (slot_of (sys_buf s) ?t) = of_nat (if oldest_published s then Suc ?t else ?t)"
  proof (cases "?t < ?h")
    case True
    then show ?thesis using r by (auto simp: ring_rel_def oldest_published_def)
  next
    case False
    then show ?thesis
      using r capacity_ge_2 [OF b(1)] by (auto simp: ring_rel_def oldest_published_def)
  qed
  show ?thesis
  proof (cases "oldest_published s")
    case True
    then show ?thesis
      using difference_of_nat [OF lt(2) lt(2)] sq
      unfolding p pop_step.simps one slot_at_position [OF b(1) lt(1)] by (simp del: of_nat_Suc)
  next
    case False
    then show ?thesis
      using difference_of_nat [OF lt(1) lt(2)] sq
      unfolding p pop_step.simps one slot_at_position [OF b(1) lt(1)] by (simp del: of_nat_Suc)
  qed
qed

lemma pop_read:
  assumes inv: "mpsc_inv s" and pc: "sys_pop s = Some (Pop_Read p)"
  shows "pop_ok s (Pop_Release p (slot_data (rb_slots (sys_buf s) ! slot_index (sys_buf s) p)))"
proof -
  let ?t = "length (sys_popped s)"
  note r = mpsc_invD(1) [OF inv] and b = mpsc_inv_bounds [OF inv]
  have p: "p = of_nat ?t" "oldest_published s" using mpsc_invD(6) [OF inv pc] by simp_all
  have lt: "?t < max_pos" using b(3,5) by simp
  have "slot_data (slot_of (sys_buf s) ?t) = sys_claimed s ! ?t"
    using r p(2) by (auto simp: ring_rel_def oldest_published_def)
  then show ?thesis
    using p slot_at_position [OF b(1) lt] by simp
qed

lemma inv_release:
  assumes inv: "mpsc_inv s" and pc: "sys_pop s = Some (Pop_Release p v)"
  shows "mpsc_inv (s\<lparr>sys_buf := set_sequence p (p + of_nat (capacity (sys_buf s))) (sys_buf s),
      sys_pop := Some (Pop_Advance p v), sys_popped := sys_popped s @ [v]\<rparr>)" (is "mpsc_inv ?s'")
proof -
  let ?t = "length (sys_popped s)" and ?h = "length (sys_claimed s)"
  note r = mpsc_invD(1) [OF inv] and b = mpsc_inv_bounds [OF inv]
  have p: "p = of_nat ?t" "?t < ?h" "?t \<notin> in_flight s" "v = sys_claimed s ! ?t"
    using mpsc_invD(6) [OF inv pc] by (simp_all add: oldest_published_def)
  have lt: "?t < max_pos" using b(3,5) by simp
  have fl: "in_flight ?s' = in_flight s" by (simp add: in_flight_def)
  have data: "slot_data (slot_of (set_sequence p q (sys_buf s)) x) = slot_data (slot_of (sys_buf s) x)" for q x
    using slot_of_set_sequence [OF b(1) lt] p(1) by simp
  show ?thesis
  proof (rule mpsc_invI)
    show "ring_rel (sys_buf ?s') (length (sys_claimed ?s')) (length (sys_popped ?s')) (\<lambda>x. sys_claimed ?s' ! x) (in_flight ?s')"
      using ring_rel_release [OF r p(2,3)] fl p(1) by simp
    show "take (length (sys_popped ?s')) (sys_claimed ?s') = sys_popped ?s'"
      using mpsc_invD(2) [OF inv] p(2,4) by (simp add: take_Suc_conv_app_nth)
    show "rb_tail (sys_buf ?s') = of_nat (length (sys_popped ?s') - pending_tail (sys_pop ?s'))"
      using mpsc_invD(3) [OF inv] pc by simp
    show "push_ok ?s' w q" if "sys_push ?s' j = Some (w, q)" for j w q
    proof -
      have "push_ok s w q" using that mpsc_invD(4) [OF inv] by simp
      then show ?thesis using data by (cases q) auto
    qed
    show "j = k" if "sys_push ?s' j = Some (w, q)" "sys_push ?s' k = Some (w', q')"
      "push_pos q = Some x" "push_pos q' = Some x" for j k w w' q q' x
      using that mpsc_invD(5) [OF inv, of j w q k w' q' x] by simp
    show "pop_ok ?s' q" if "sys_pop ?s' = Some q" for q
      using that p(1) by auto
  qed
qed

lemma inv_advance:
  assumes inv: "mpsc_inv s" and pc: "sys_pop s = Some (Pop_Advance p v)"
  shows "mpsc_inv (s\<lparr>sys_buf := (sys_buf s)\<lparr>rb_tail := p + 1\<rparr>, sys_pop := Some (Pop_Done (Some v))\<rparr>)"
    (is "mpsc_inv ?s'")
proof -
  note r = mpsc_invD(1) [OF inv] and b = mpsc_inv_bounds [OF inv]
  have p: "p = of_nat (length (sys_popped s) - 1)" "sys_popped s \<noteq> []" "v = last (sys_popped s)"
    using mpsc_invD(6) [OF inv pc] by simp_all
  have one: "p + 1 = of_nat (length (sys_popped s))"
    using p(1,2) by (cases "sys_popped s") simp_all
  have fl: "in_flight ?s' = in_flight s" by (simp add: in_flight_def)
  show ?thesis
  proof (rule mpsc_invI)
    show "ring_rel (sys_buf ?s') (length (sys_claimed ?s')) (length (sys_popped ?s')) (\<lambda>x. sys_claimed ?s' ! x) (in_flight ?s')"
      using r fl by (simp add: ring_rel_def)
    show "push_ok ?s' w q" if "sys_push ?s' j = Some (w, q)" for j w q
    proof -
      have "push_ok s w q" using that mpsc_invD(4) [OF inv] by simp
      then show ?thesis by (cases q) auto
    qed
    show "j = k" if "sys_push ?s' j = Some (w, q)" "sys_push ?s' k = Some (w', q')"
      "push_pos q = Some x" "push_pos q' = Some x" for j k w w' q q' x
      using that mpsc_invD(5) [OF inv, of j w q k w' q' x] by simp
    show "pop_ok ?s' q" if "sys_pop ?s' = Some q" for q
      using that p by auto
  qed (use one mpsc_invD(2) [OF inv] in simp_all)
qed

section \<open>Reachable states\<close>

lemma mpsc_step_mono:
  assumes "mpsc_step s s'"
  shows "length (sys_claimed s) \<le> length (sys_claimed s') \<and> capacity (sys_buf s') = capacity (sys_buf s)"
  using assms
proof cases
  case (push i v pc weak pc' buf')
  then show ?thesis
    by (cases pc) (auto simp: log_claim_def result_simps split: push_pc.splits if_splits)
next
  case (pop pc pc' buf')
  then show ?thesis by (cases pc) (auto simp: result_simps)
qed auto

lemma push_step_inv:
  assumes inv: "mpsc_inv s" and pc: "sys_push s i = Some (v, pc)" and nd: "\<forall>b. pc \<noteq> Push_Done b"
    and st: "push_step weak v pc (sys_buf s) = Inr (pc', buf')"
    and room: "length (log_claim v pc' (sys_claimed s)) + capacity (sys_buf s) < max_pos"
  shows "mpsc_inv (s\<lparr>sys_buf := buf', sys_push := (sys_push s)(i \<mapsto> (v, pc')),
      sys_claimed := log_claim v pc' (sys_claimed s)\<rparr>)"
proof (cases pc)
  case Push_Load_Head
  then have *: "pc' = Push_Load_Seq (rb_head (sys_buf s))" "buf' = sys_buf s" using st by auto
  have "unat (rb_head (sys_buf s)) \<le> length (sys_claimed s)"
    using mpsc_inv_bounds [OF inv] by simp
  then have "mpsc_inv (s\<lparr>sys_push := (sys_push s)(i := Some (v, pc'))\<rparr>)"
    using pc Push_Load_Head * by (intro inv_producer_local [OF inv]) auto
  then show ?thesis using * by (simp add: log_claim_def)
next
  case (Push_Load_Seq p)
  have l: "buf' = sys_buf s" "push_pos pc' = None" "push_ok s v pc'" "\<forall>q. pc' \<noteq> Push_Write q"
    using inv_load_seq [OF inv] pc st Push_Load_Seq by blast+
  have "mpsc_inv (s\<lparr>sys_push := (sys_push s)(i := Some (v, pc'))\<rparr>)"
    using pc Push_Load_Seq l by (intro inv_producer_local [OF inv]) auto
  then show ?thesis using l(1,4) by (cases pc') (simp_all add: log_claim_def)
next
  case (Push_Cas p)
  show ?thesis
  proof (cases "rb_head (sys_buf s) = p \<and> \<not> weak")
    case True
    then have *: "pc' = Push_Write p" "buf' = (sys_buf s)\<lparr>rb_head := p + 1\<rparr>" using st Push_Cas by auto
    then show ?thesis
      using inv_claim [OF inv, of i v p] pc Push_Cas True room by (simp add: log_claim_def)
  next
    case False
    then have *: "pc' = Push_Load_Seq (rb_head (sys_buf s))" "buf' = sys_buf s"
      using st Push_Cas by (auto split: if_splits)
    have "unat (rb_head (sys_buf s)) \<le> length (sys_claimed s)"
      using mpsc_inv_bounds [OF inv] by simp
    then have "mpsc_inv (s\<lparr>sys_push := (sys_push s)(i := Some (v, pc'))\<rparr>)"
      using pc Push_Cas * by (intro inv_producer_local [OF inv]) auto
    then show ?thesis using * by (simp add: log_claim_def)
  qed
next
  case (Push_Write p)
  then show ?thesis using inv_write [OF inv, of i v p] pc st by (auto simp: log_claim_def)
next
  case (Push_Publish p)
  then show ?thesis using inv_publish [OF inv, of i v p] pc st by (auto simp: log_claim_def)
next
  case (Push_Done b)
  then show ?thesis using nd by simp
qed

lemma pop_step_inv:
  assumes inv: "mpsc_inv s" and pc: "sys_pop s = Some pc" and nd: "\<forall>r. pc \<noteq> Pop_Done r"
    and st: "pop_step pc (sys_buf s) = Inr (pc', buf')"
  shows "mpsc_inv (s\<lparr>sys_buf := buf', sys_pop := Some pc', sys_popped := log_pop pc' (sys_popped s)\<rparr>)"
proof (cases pc)
  case Pop_Load_Tail
  then have *: "pc' = Pop_Load_Seq (rb_tail (sys_buf s))" "buf' = sys_buf s" using st by auto
  have "mpsc_inv (s\<lparr>sys_pop := Some pc'\<rparr>)"
    using pc Pop_Load_Tail * mpsc_invD(3) [OF inv] by (intro inv_consumer_local [OF inv]) auto
  then show ?thesis using * by (simp add: log_pop_def)
next
  case (Pop_Load_Seq p)
  then have *: "pc' = (if oldest_published s then Pop_Read p else Pop_Done None)" "buf' = sys_buf s"
    using pop_load_seq [OF inv] pc st by auto
  have "mpsc_inv (s\<lparr>sys_pop := Some pc'\<rparr>)"
    using pc Pop_Load_Seq * mpsc_invD(6) [OF inv pc] by (intro inv_consumer_local [OF inv]) auto
  then show ?thesis using * by (auto simp: log_pop_def split: if_splits)
next
  case (Pop_Read p)
  then have *: "pc' = Pop_Release p (slot_data (rb_slots (sys_buf s) ! slot_index (sys_buf s) p))"
    "buf' = sys_buf s"
    using st by auto
  have "mpsc_inv (s\<lparr>sys_pop := Some pc'\<rparr>)"
    using pc Pop_Read * pop_read [OF inv] by (intro inv_consumer_local [OF inv]) auto
  then show ?thesis using * by (simp add: log_pop_def)
next
  case (Pop_Release p v)
  then show ?thesis using inv_release [OF inv, of p v] pc st by (auto simp: log_pop_def)
next
  case (Pop_Advance p v)
  then show ?thesis using inv_advance [OF inv, of p v] pc st by (auto simp: log_pop_def)
next
  case (Pop_Done r)
  then show ?thesis using nd by simp
qed

lemma mpsc_step_inv:
  assumes "mpsc_step s s'" "mpsc_inv s" "length (sys_claimed s') + capacity (sys_buf s') < max_pos"
  shows "mpsc_inv s'"
  using assms(1)
proof cases
  case (call_push i v)
  then show ?thesis
    using inv_producer_local [OF assms(2), of i "Some (v, Push_Load_Head)"] by simp
next
  case (push i v pc weak pc' buf')
  then show ?thesis
    using push_step_inv [OF assms(2) push(2-4)] assms(3) mpsc_step_mono [OF assms(1)] by simp
next
  case (return_push i v b)
  then show ?thesis
    using inv_producer_local [OF assms(2), of i None] by simp
next
  case call_pop
  then show ?thesis using inv_consumer_local [OF assms(2), of "Some Pop_Load_Tail"] by simp
next
  case (pop pc pc' buf')
  then show ?thesis using pop_step_inv [OF assms(2) pop(2-4)] by simp
next
  case (return_pop r)
  then show ?thesis using inv_consumer_local [OF assms(2), of None] by simp
qed

lemma mpsc_init_inv:
  assumes "geometry rb"
  shows "mpsc_inv (mpsc_init rb)"
proof -
  have h: "rb_head (rb_init rb) = 0" "rb_tail (rb_init rb) = 0" by (simp_all add: rb_init_def)
  have r: "ring_rel (rb_init rb) 0 0 (\<lambda>x. slot_data (slot_of (rb_init rb) x)) {}"
    using rb_init_ok(1) [OF assms] h by (simp add: ring_ok_def)
  have "ring_rel (rb_init rb) 0 0 (\<lambda>x. [] ! x) {}"
    by (rule ring_rel_cong [OF r]) simp
  moreover have "in_flight (mpsc_init rb) = {}" by (simp add: in_flight_def mpsc_init_def)
  ultimately show ?thesis
    using h by (intro mpsc_invI) (simp_all add: mpsc_init_def)
qed

lemma mpsc_reachable_inv:
  assumes "mpsc_reachable rb s" "geometry rb" "length (sys_claimed s) + capacity rb < max_pos"
  shows "mpsc_inv s \<and> capacity (sys_buf s) = capacity rb"
  using assms(1,3)
proof (induction rule: mpsc_reachable.induct)
  case init
  then show ?case
    using mpsc_init_inv [OF assms(2)] rb_init_ok(3) [OF assms(2)] by (simp add: mpsc_init_def)
next
  case (step s s')
  then show ?case using mpsc_step_inv [of s s'] mpsc_step_mono [of s s'] by auto
qed

end
