(* ===== verification/Fifo.thy ===== *)
theory Fifo
  imports RingConcurrent
begin

text \<open>
  The queue interfaces of the system and the components that provide them: the lock-based
  \<open>core::ThreadSafeQueue\<close> (\<open>libs/core/thread_safe_queue.h\<close>), in which the sockets' threads leave
  messages, and the ring buffer behind \<open>SharedMemoryPublisher\<close>
  (\<open>services/matching_engine/src/shared_memory_publisher.h\<close>), in which the matching engine leaves
  market data. \<open>fifo\<close> is what a reader relies on, \<open>unbounded_fifo\<close> and \<open>bounded_fifo\<close> what the
  two kinds of writers rely on.
\<close>

section \<open>Interfaces\<close>

locale fifo =
  fixes inv :: "'q \<Rightarrow> bool"
    and items :: "'q \<Rightarrow> 'a list"
    and remove :: "'q \<Rightarrow> 'a option \<times> 'q"
  assumes inv_remove: "inv q \<Longrightarrow> inv (snd (remove q))"
    and remove_none: "inv q \<Longrightarrow> items q = [] \<Longrightarrow> remove q = (None, q)"
    and remove_some: "inv q \<Longrightarrow> items q = x # xs \<Longrightarrow> fst (remove q) = Some x \<and> items (snd (remove q)) = xs"
begin

text \<open>A reader that polls \<open>n\<close> times and keeps what it gets.\<close>

fun poll :: "nat \<Rightarrow> 'q \<Rightarrow> 'a list \<times> 'q" where
  "poll 0 q = ([], q)"
| "poll (Suc n) q =
     (case remove q of
        (None, q') \<Rightarrow> poll n q'
      | (Some x, q') \<Rightarrow> (case poll n q' of (xs, q'') \<Rightarrow> (x # xs, q'')))"

lemma poll_takes:
  "inv q \<Longrightarrow> fst (poll n q) = take n (items q) \<and> items (snd (poll n q)) = drop n (items q) \<and> inv (snd (poll n q))"
proof (induction n arbitrary: q)
  case 0
  then show ?case by simp
next
  case (Suc n)
  obtain r q' where rm: "remove q = (r, q')" by force
  have inv': "inv q'" using inv_remove [OF Suc.prems] rm by simp
  show ?case
  proof (cases "items q")
    case Nil
    then have "r = None" "q' = q" using remove_none [OF Suc.prems] rm by auto
    then show ?thesis using Suc.IH [OF inv'] rm Nil by simp
  next
    case (Cons x xs)
    then have "r = Some x" "items q' = xs" using remove_some [OF Suc.prems] rm by auto
    then show ?thesis using Suc.IH [OF inv'] rm Cons by (cases "poll n q'") simp
  qed
qed

end

locale unbounded_fifo = fifo inv items remove
  for inv :: "'q \<Rightarrow> bool" and items :: "'q \<Rightarrow> 'a list" and remove +
  fixes insert :: "'q \<Rightarrow> 'a \<Rightarrow> 'q"
  assumes inv_insert: "inv q \<Longrightarrow> inv (insert q v)"
    and items_insert: "inv q \<Longrightarrow> items (insert q v) = items q @ [v]"
begin

lemma insert_all: "inv q \<Longrightarrow> inv (foldl insert q vs) \<and> items (foldl insert q vs) = items q @ vs"
  by (induction vs arbitrary: q) (auto simp: inv_insert items_insert)

text \<open>What is written is read, in order and exactly once.\<close>

lemma transfer:
  "inv q \<Longrightarrow> items q = [] \<Longrightarrow> fst (poll (length vs) (foldl insert q vs)) = vs"
  using insert_all [of q vs] poll_takes by simp

end

locale bounded_fifo = fifo inv items remove
  for inv :: "'q \<Rightarrow> bool" and items :: "'q \<Rightarrow> 'a list" and remove +
  fixes cap :: "'q \<Rightarrow> nat"
    and budget :: "'q \<Rightarrow> nat"
    and insert :: "'q \<Rightarrow> 'a \<Rightarrow> bool \<times> 'q"
  assumes inv_cap: "inv q \<Longrightarrow> length (items q) \<le> cap q"
    and inv_insert: "inv q \<Longrightarrow> 0 < budget q \<Longrightarrow> inv (snd (insert q v))"
    and cap_insert: "inv q \<Longrightarrow> 0 < budget q \<Longrightarrow> cap (snd (insert q v)) = cap q"
    and budget_insert: "inv q \<Longrightarrow> 0 < budget q \<Longrightarrow> budget q \<le> Suc (budget (snd (insert q v)))"
    and accept: "inv q \<Longrightarrow> 0 < budget q \<Longrightarrow> fst (insert q v) \<longleftrightarrow> length (items q) < cap q"
    and items_insert: "inv q \<Longrightarrow> 0 < budget q \<Longrightarrow>
      items (snd (insert q v)) = (if length (items q) < cap q then items q @ [v] else items q)"
begin

definition insert_all :: "'q \<Rightarrow> 'a list \<Rightarrow> 'q" where
  "insert_all = foldl (\<lambda>q v. snd (insert q v))"

text \<open>A writer that ignores refusals keeps the oldest items that fit and drops the rest.\<close>

lemma insert_all_keeps_oldest:
  assumes "inv q" "length vs \<le> budget q"
  shows "inv (insert_all q vs) \<and> cap (insert_all q vs) = cap q \<and>
    items (insert_all q vs) = items q @ take (cap q - length (items q)) vs"
  using assms
proof (induction vs arbitrary: q)
  case Nil
  then show ?case by (simp add: insert_all_def)
next
  case (Cons v vs)
  let ?q' = "snd (insert q v)"
  have b: "0 < budget q" using Cons.prems by simp
  have rec: "inv (insert_all ?q' vs) \<and> cap (insert_all ?q' vs) = cap ?q' \<and>
      items (insert_all ?q' vs) = items ?q' @ take (cap ?q' - length (items ?q')) vs"
    using Cons.IH [of ?q'] inv_insert [OF Cons.prems(1) b] budget_insert [OF Cons.prems(1) b, of v] Cons.prems(2)
    by simp
  have unfold: "insert_all q (v # vs) = insert_all ?q' vs" by (simp add: insert_all_def)
  show ?case
  proof (cases "length (items q) < cap q")
    case True
    then have "take (cap q - length (items q)) (v # vs) = v # take (cap q - Suc (length (items q))) vs"
      by (simp add: take_Cons')
    then show ?thesis
      using rec True unfold items_insert [OF Cons.prems(1) b, of v] cap_insert [OF Cons.prems(1) b, of v] by simp
  next
    case False
    then show ?thesis
      using rec unfold items_insert [OF Cons.prems(1) b, of v] cap_insert [OF Cons.prems(1) b, of v] by simp
  qed
qed

end

section \<open>The lock-based queue\<close>

text \<open>
  Every method holds the mutex for its whole body, so a queue is the list of its values and each
  method one atomic operation on it. The waiting methods block while the queue is empty: \<open>None\<close>.
\<close>

type_synonym 'a ts_queue = "'a list"

definition enqueue :: "'a ts_queue \<Rightarrow> 'a \<Rightarrow> 'a ts_queue" where
  "enqueue q v = q @ [v]"

fun dequeue :: "'a ts_queue \<Rightarrow> 'a option \<times> 'a ts_queue" where
  "dequeue [] = (None, [])"
| "dequeue (v # q) = (Some v, q)"

fun wait_and_dequeue :: "'a ts_queue \<Rightarrow> ('a \<times> 'a ts_queue) option" where
  "wait_and_dequeue [] = None"
| "wait_and_dequeue (v # q) = Some (v, q)"

fun drain_loop :: "'a list \<Rightarrow> 'a ts_queue \<Rightarrow> 'a list \<times> 'a ts_queue" where
  "drain_loop vs [] = (vs, [])"
| "drain_loop vs (v # q) = drain_loop (vs @ [v]) q"

definition wait_and_dequeue_all :: "'a ts_queue \<Rightarrow> ('a list \<times> 'a ts_queue) option" where
  "wait_and_dequeue_all q = (if q = [] then None else Some (drain_loop [] q))"

lemma drain_loop_all: "drain_loop vs q = (vs @ q, [])"
  by (induction vs q rule: drain_loop.induct) auto

interpretation ts: unbounded_fifo "\<lambda>_. True" "\<lambda>q. q" dequeue enqueue
  by unfold_locales (auto simp: enqueue_def)

section \<open>The shared memory publisher\<close>

text \<open>
  \<open>SharedMemoryPublisher::try_publish\<close> is \<open>try_push\<close> on its ring buffer, and the market data
  processor reads with \<open>try_pop\<close>. Run without interference, both return on every buffer whose
  positions have not used up their 63 bits (\<open>ring_ok\<close>, \<open>budget\<close>); the last case of each
  definition stands for the states in which they do not.
\<close>

definition shm_try_publish :: "'a ring_buffer \<Rightarrow> 'a \<Rightarrow> bool \<times> 'a ring_buffer" where
  "shm_try_publish rb msg =
     (case try_push (\<lambda>_. False) msg rb of
        Some (Inr r) \<Rightarrow> r
      | _ \<Rightarrow> (False, rb))"

definition shm_try_pop :: "'a ring_buffer \<Rightarrow> 'a option \<times> 'a ring_buffer" where
  "shm_try_pop rb = (case try_pop rb of Inr r \<Rightarrow> r | Inl _ \<Rightarrow> (None, rb))"

interpretation ring: bounded_fifo ring_ok contents shm_try_pop capacity budget shm_try_publish
proof unfold_locales
  fix q :: "'a ring_buffer" and v x :: 'a and xs
  assume ok: "ring_ok q"
  obtain r q' where pop: "shm_try_pop q = (r, q')" "ring_ok q'"
    "case contents q of [] \<Rightarrow> r = None \<and> q' = q | x # xs \<Rightarrow> r = Some x \<and> contents q' = xs"
    using try_pop_correct [OF ok] by (auto simp: shm_try_pop_def)
  show "ring_ok (snd (shm_try_pop q))" using pop by simp
  show "shm_try_pop q = (None, q)" if "contents q = []" using pop that by simp
  show "fst (shm_try_pop q) = Some x \<and> contents (snd (shm_try_pop q)) = xs" if "contents q = x # xs"
    using pop that by simp
  obtain h t f where "ring_rel q h t f {}" "contents q = map f [t..<h]"
    using ring_okE [OF ok] by metis
  then show "length (contents q) \<le> capacity q" by (auto simp: ring_rel_def)
  assume b: "0 < budget q"
  obtain a q'' where push: "shm_try_publish q v = (a, q'')" "ring_ok q''" "capacity q'' = capacity q"
    "budget q \<le> Suc (budget q'')" "a \<longleftrightarrow> length (contents q) < capacity q"
    "contents q'' = (if a then contents q @ [v] else contents q)"
    using try_push_correct [OF ok b, of "\<lambda>_. False" 0 v] by (auto simp: shm_try_publish_def)
  show "ring_ok (snd (shm_try_publish q v))" "capacity (snd (shm_try_publish q v)) = capacity q"
    "budget q \<le> Suc (budget (snd (shm_try_publish q v)))"
    "fst (shm_try_publish q v) \<longleftrightarrow> length (contents q) < capacity q"
    "contents (snd (shm_try_publish q v)) = (if length (contents q) < capacity q then contents q @ [v] else contents q)"
    using push by simp_all
qed

end
