(* ===== verification/RingProperties.thy ===== *)
theory RingProperties
  imports Fifo
begin

text \<open>
  The properties of the ring buffer: under any interleaving it is a bounded queue that loses,
  duplicates and reorders nothing; refusals and empty reads are justified by the state; and the
  smallest capacity its static checks admit does not work.
\<close>

section \<open>A buffer for the witnesses\<close>

definition fresh_memory :: "nat \<Rightarrow> 'a \<Rightarrow> 'a ring_buffer" where
  "fresh_memory n d = \<lparr>rb_initialized = 0, rb_head = 0, rb_tail = 0,
     rb_slots = replicate n \<lparr>slot_sequence = 0, slot_data = d\<rparr>\<rparr>"

lemma fresh_memory_capacity [simp]: "capacity (fresh_memory n d) = n"
  by (simp add: fresh_memory_def capacity_def)

lemma fresh_memory_geometry: "1 \<le> k \<Longrightarrow> k < 63 \<Longrightarrow> geometry (fresh_memory (2 ^ k) d)"
  by (auto simp: geometry_def)

definition demo_ring :: "nat ring_buffer" where
  "demo_ring = fresh_memory 4 0"

lemma demo_ring_geometry: "geometry demo_ring"
  using fresh_memory_geometry [of 2 0] by (simp add: demo_ring_def)

lemma demo_ring_capacity: "capacity demo_ring = 4"
  by (simp add: demo_ring_def)

section \<open>Running a schedule\<close>

text \<open>An executable scheduler: it performs the steps of a given interleaving.\<close>

datatype 'a action =
    Call_Push nat 'a | Step_Push nat bool | Return_Push nat | Call_Pop | Step_Pop | Return_Pop

fun perform :: "'a action \<Rightarrow> 'a mpsc \<Rightarrow> 'a mpsc option" where
  "perform (Call_Push i v) s =
     (if sys_push s i = None then Some (s\<lparr>sys_push := (sys_push s)(i \<mapsto> (v, Push_Load_Head))\<rparr>) else None)"
| "perform (Step_Push i weak) s =
     (case sys_push s i of
        None \<Rightarrow> None
      | Some (v, pc) \<Rightarrow>
          (case pc of
             Push_Done _ \<Rightarrow> None
           | _ \<Rightarrow> (case push_step weak v pc (sys_buf s) of
                     Inl _ \<Rightarrow> None
                   | Inr (pc', buf') \<Rightarrow> Some (s\<lparr>sys_buf := buf', sys_push := (sys_push s)(i \<mapsto> (v, pc')),
                       sys_claimed := log_claim v pc' (sys_claimed s)\<rparr>))))"
| "perform (Return_Push i) s =
     (case sys_push s i of
        Some (v, Push_Done b) \<Rightarrow> Some (s\<lparr>sys_push := (sys_push s)(i := None)\<rparr>)
      | _ \<Rightarrow> None)"
| "perform Call_Pop s = (if sys_pop s = None then Some (s\<lparr>sys_pop := Some Pop_Load_Tail\<rparr>) else None)"
| "perform Step_Pop s =
     (case sys_pop s of
        None \<Rightarrow> None
      | Some pc \<Rightarrow>
          (case pc of
             Pop_Done _ \<Rightarrow> None
           | _ \<Rightarrow> (case pop_step pc (sys_buf s) of
                     Inl _ \<Rightarrow> None
                   | Inr (pc', buf') \<Rightarrow> Some (s\<lparr>sys_buf := buf', sys_pop := Some pc',
                       sys_popped := log_pop pc' (sys_popped s)\<rparr>))))"
| "perform Return_Pop s =
     (case sys_pop s of Some (Pop_Done r) \<Rightarrow> Some (s\<lparr>sys_pop := None\<rparr>) | _ \<Rightarrow> None)"

fun perform_all :: "'a action list \<Rightarrow> 'a mpsc \<Rightarrow> 'a mpsc option" where
  "perform_all [] s = Some s"
| "perform_all (a # as) s = (case perform a s of None \<Rightarrow> None | Some s' \<Rightarrow> perform_all as s')"

lemma perform_step: "perform a s = Some s' \<Longrightarrow> mpsc_step s s'"
proof (induction a s rule: perform.induct)
  case (2 i weak s)
  then obtain v pc pc' buf' where "sys_push s i = Some (v, pc)" "\<forall>b. pc \<noteq> Push_Done b"
    "push_step weak v pc (sys_buf s) = Inr (pc', buf')"
    "s' = s\<lparr>sys_buf := buf', sys_push := (sys_push s)(i \<mapsto> (v, pc')), sys_claimed := log_claim v pc' (sys_claimed s)\<rparr>"
    by (auto split: option.splits sum.splits push_pc.splits)
  then show ?case using mpsc_step.push [of s i v pc weak pc' buf'] by simp
next
  case (5 s)
  then obtain pc pc' buf' where "sys_pop s = Some pc" "\<forall>r. pc \<noteq> Pop_Done r"
    "pop_step pc (sys_buf s) = Inr (pc', buf')"
    "s' = s\<lparr>sys_buf := buf', sys_pop := Some pc', sys_popped := log_pop pc' (sys_popped s)\<rparr>"
    by (auto split: option.splits sum.splits pop_pc.splits)
  then show ?case using mpsc_step.pop [of s pc pc' buf'] by simp
qed (auto split: option.splits if_splits push_pc.splits pop_pc.splits intro: mpsc_step.intros)

lemma perform_all_reachable:
  "perform_all as s = Some s' \<Longrightarrow> mpsc_reachable rb s \<Longrightarrow> mpsc_reachable rb s'"
  by (induction as s rule: perform_all.induct)
    (auto split: option.splits dest: perform_step intro: mpsc_reachable.step)

definition pair_ring :: "nat ring_buffer" where
  "pair_ring = fresh_memory 2 0"

definition push_call :: "nat \<Rightarrow> nat \<Rightarrow> nat action list" where
  "push_call i v = Call_Push i v # replicate 5 (Step_Push i False) @ [Return_Push i]"

definition full_run :: "nat action list" where
  "full_run = push_call 0 10 @ push_call 1 20 @ [Call_Push 2 30, Step_Push 2 False]"

definition full_state :: "nat mpsc" where
  "full_state = (case perform_all full_run (mpsc_init pair_ring) of Some s \<Rightarrow> s | None \<Rightarrow> mpsc_init pair_ring)"

lemma pair_ring_geometry: "geometry pair_ring"
  using fresh_memory_geometry [of 1 0] by (simp add: pair_ring_def)

lemma full_state_facts:
  "perform_all full_run (mpsc_init pair_ring) \<noteq> None" "length (sys_claimed full_state) = 2"
  "sys_push full_state 2 = Some (30, Push_Load_Seq 2)"
  "(case push_step False 30 (Push_Load_Seq 2) (sys_buf full_state) of Inr (Push_Done b, _) \<Rightarrow> \<not> b | _ \<Rightarrow> False)"
  "capacity pair_ring = 2"
  by code_simp+

lemma full_state_reachable: "mpsc_reachable pair_ring full_state"
proof -
  obtain s where "perform_all full_run (mpsc_init pair_ring) = Some s"
    using full_state_facts(1) by auto
  then show ?thesis
    using perform_all_reachable [OF _ mpsc_reachable.init] by (simp add: full_state_def)
qed

section \<open>Concurrency\<close>

text \<open>C4 (safety). Under every interleaving of any number of producers and the consumer, as long as
  fewer than \<open>2 ^ 63\<close> positions have been handed out, the values the consumer has taken are a
  prefix of the values in the order in which producers claimed their positions, and at most
  \<open>capacity\<close> values are in the buffer: nothing is lost, duplicated, reordered or overwritten.\<close>

theorem ring_buffer_is_concurrent_fifo:
  assumes "geometry rb" "mpsc_reachable rb s" "length (sys_claimed s) + capacity rb < max_pos"
  shows "\<exists>rest. sys_claimed s = sys_popped s @ rest \<and> length rest \<le> capacity rb"
proof -
  have inv: "mpsc_inv s" "capacity (sys_buf s) = capacity rb"
    using mpsc_reachable_inv [OF assms(2,1,3)] by auto
  have "sys_claimed s = sys_popped s @ drop (length (sys_popped s)) (sys_claimed s)"
    using mpsc_invD(2) [OF inv(1)] by (metis append_take_drop_id)
  moreover have "length (drop (length (sys_popped s)) (sys_claimed s)) \<le> capacity rb"
    using mpsc_inv_bounds(4) [OF inv(1)] inv(2) by simp
  ultimately show ?thesis by blast
qed

theorem ring_buffer_is_concurrent_fifo_witness:
  "\<exists>rest. sys_claimed full_state = sys_popped full_state @ rest \<and> length rest \<le> capacity pair_ring"
  by (rule ring_buffer_is_concurrent_fifo [OF pair_ring_geometry full_state_reachable])
    (simp add: full_state_facts max_pos_def)

text \<open>A producer is refused only when the buffer is full: at the moment its load of
  the slot's sequence makes \<open>try_push\<close> return false, exactly \<open>capacity\<close> positions are claimed and
  not released. A stale head never causes a refusal.\<close>

theorem push_refused_only_when_full:
  assumes "geometry rb" "mpsc_reachable rb s" "length (sys_claimed s) + capacity rb < max_pos"
    and "sys_push s i = Some (v, pc)" "\<forall>b. pc \<noteq> Push_Done b"
    and "push_step weak v pc (sys_buf s) = Inr (Push_Done False, buf')"
  shows "length (sys_claimed s) = length (sys_popped s) + capacity rb"
proof -
  have inv: "mpsc_inv s" "capacity (sys_buf s) = capacity rb"
    using mpsc_reachable_inv [OF assms(2,1,3)] by auto
  obtain p where "pc = Push_Load_Seq p"
    using assms(5,6) by (cases pc) (auto split: if_splits)
  then show ?thesis
    using inv_load_seq [OF inv(1)] assms(4,6) inv(2) by auto
qed

theorem push_refused_only_when_full_witness:
  "length (sys_claimed full_state) = length (sys_popped full_state) + capacity pair_ring"
proof -
  obtain buf' where "push_step False 30 (Push_Load_Seq 2) (sys_buf full_state) = Inr (Push_Done False, buf')"
    using full_state_facts(4) by (auto split: sum.splits push_pc.splits)
  then show ?thesis
    using push_refused_only_when_full [OF pair_ring_geometry full_state_reachable _ full_state_facts(3)]
      full_state_facts(2,5) by (simp add: max_pos_def)
qed

text \<open>The consumer is told that the buffer is empty only when the oldest value is
  missing: every position is released, or the producer that claimed the oldest one has not yet
  published it. Otherwise the value it takes is the oldest one.\<close>

theorem pop_empty_only_when_oldest_unpublished:
  assumes "geometry rb" "mpsc_reachable rb s" "length (sys_claimed s) + capacity rb < max_pos"
    and "sys_pop s = Some (Pop_Load_Seq p)"
  shows "pop_step (Pop_Load_Seq p) (sys_buf s) =
    Inr (if length (sys_popped s) < length (sys_claimed s) \<and> length (sys_popped s) \<notin> in_flight s
         then Pop_Read p else Pop_Done None, sys_buf s)"
  using pop_load_seq [OF conjunct1 [OF mpsc_reachable_inv [OF assms(2,1,3)]] assms(4)]
  unfolding oldest_published_def .

definition demo_popping :: "nat mpsc" where
  "demo_popping = (mpsc_init demo_ring)\<lparr>sys_pop := Some (Pop_Load_Seq 0)\<rparr>"

lemma demo_popping_reachable: "mpsc_reachable demo_ring demo_popping"
proof -
  have "mpsc_step (mpsc_init demo_ring) ((mpsc_init demo_ring)\<lparr>sys_pop := Some Pop_Load_Tail\<rparr>)"
    by (rule call_pop) (simp add: mpsc_init_def)
  then have "mpsc_reachable demo_ring ((mpsc_init demo_ring)\<lparr>sys_pop := Some Pop_Load_Tail\<rparr>)"
    by (rule mpsc_reachable.step [OF mpsc_reachable.init])
  moreover have "mpsc_step ((mpsc_init demo_ring)\<lparr>sys_pop := Some Pop_Load_Tail\<rparr>)
      ((mpsc_init demo_ring)\<lparr>sys_pop := Some Pop_Load_Tail\<rparr>
        \<lparr>sys_buf := sys_buf (mpsc_init demo_ring), sys_pop := Some (Pop_Load_Seq 0),
         sys_popped := log_pop (Pop_Load_Seq 0) []\<rparr>)"
    using mpsc_step.pop [of "(mpsc_init demo_ring)\<lparr>sys_pop := Some Pop_Load_Tail\<rparr>" Pop_Load_Tail
        "Pop_Load_Seq 0" "sys_buf (mpsc_init demo_ring)"]
    by (simp add: mpsc_init_def rb_init_def)
  ultimately show ?thesis
    using mpsc_reachable.step by (fastforce simp: demo_popping_def mpsc_init_def log_pop_def)
qed

theorem pop_empty_only_when_oldest_unpublished_witness:
  "pop_step (Pop_Load_Seq 0) (sys_buf demo_popping) = Inr (Pop_Done None, sys_buf demo_popping)"
  using pop_empty_only_when_oldest_unpublished [OF demo_ring_geometry demo_popping_reachable, of 0]
  by (simp add: demo_popping_def mpsc_init_def demo_ring_capacity max_pos_def)

text \<open>No interleaving reaches undefined behaviour: while fewer than \<open>2 ^ 63\<close> positions
  have been handed out, no signed difference of positions overflows, so every running call can
  take its next step.\<close>

theorem ring_buffer_steps_are_defined:
  assumes "geometry rb" "mpsc_reachable rb s" "length (sys_claimed s) + capacity rb < max_pos"
  shows "(\<forall>i v pc weak. sys_push s i = Some (v, pc) \<longrightarrow> succeeds (push_step weak v pc (sys_buf s))) \<and>
    (\<forall>pc. sys_pop s = Some pc \<longrightarrow> succeeds (pop_step pc (sys_buf s)))"
proof -
  have inv: "mpsc_inv s" using mpsc_reachable_inv [OF assms(2,1,3)] by auto
  have "succeeds (push_step weak v pc (sys_buf s))" if "sys_push s i = Some (v, pc)" for i v pc weak
  proof (cases pc)
    case (Push_Load_Seq p)
    then have run: "sys_push s i = Some (v, Push_Load_Seq p)" using that by simp
    obtain d where "difference (slot_sequence (rb_slots (sys_buf s) ! slot_index (sys_buf s) p)) p = Inr d"
      by (rule seen_by_producer [OF inv run])
    then show ?thesis using Push_Load_Seq by (simp add: succeeds_def)
  qed (auto simp: succeeds_def)
  moreover have "succeeds (pop_step pc (sys_buf s))" if "sys_pop s = Some pc" for pc
  proof (cases pc)
    case (Pop_Load_Seq p)
    then show ?thesis using pop_load_seq [OF inv, of p] that by (simp add: succeeds_def)
  qed (auto simp: succeeds_def)
  ultimately show ?thesis by blast
qed

theorem ring_buffer_steps_are_defined_witness:
  "succeeds (pop_step (Pop_Load_Seq 0) (sys_buf demo_popping))"
  using ring_buffer_steps_are_defined [OF demo_ring_geometry demo_popping_reachable]
  by (simp add: demo_popping_def mpsc_init_def demo_ring_capacity max_pos_def)

section \<open>Run alone\<close>

text \<open>C15 (termination). Run without interference, \<open>try_push\<close> returns however often its weak
  compare-and-exchange fails spuriously before it succeeds once; it stores the value behind the
  others exactly when there is room, and \<open>try_pop\<close> then returns the oldest value.\<close>

theorem try_push_returns_and_appends:
  assumes "ring_ok rb" "0 < budget rb" "\<not> weak m"
  shows "\<exists>b rb'. try_push weak v rb = Some (Inr (b, rb')) \<and> ring_ok rb' \<and>
    (b \<longleftrightarrow> length (contents rb) < capacity rb) \<and>
    contents rb' = (if b then contents rb @ [v] else contents rb) \<and>
    (\<exists>rb''. try_pop rb' = Inr (Some (hd (contents rb')), rb'') \<and> contents rb'' = tl (contents rb'))"
proof -
  obtain b rb' where p: "try_push weak v rb = Some (Inr (b, rb'))" "ring_ok rb'" "capacity rb' = capacity rb"
    "b \<longleftrightarrow> length (contents rb) < capacity rb" "contents rb' = (if b then contents rb @ [v] else contents rb)"
    "length (contents rb) \<le> capacity rb"
    using try_push_correct [OF assms(1,2), of weak m v] assms(3) by blast
  have "geometry rb" using assms(1) by (simp add: ring_ok_def ring_rel_def)
  then have "contents rb' \<noteq> []"
    using p capacity_ge_2 [of rb] by (cases b) auto
  then have "\<exists>rb''. try_pop rb' = Inr (Some (hd (contents rb')), rb'') \<and> contents rb'' = tl (contents rb')"
    using try_pop_correct [OF p(2)] by (cases "contents rb'") auto
  then show ?thesis using p by blast
qed

theorem try_push_returns_and_appends_witness:
  "\<exists>b rb'. try_push (\<lambda>n. n < 3) 7 (rb_init demo_ring) = Some (Inr (b, rb')) \<and> contents rb' = [7]"
  using try_push_returns_and_appends [OF rb_init_ok(1) [OF demo_ring_geometry], of "\<lambda>n. n < 3" 3 7]
    rb_init_ok(2,3) [OF demo_ring_geometry]
  by (auto simp: budget_def demo_ring_capacity max_pos_def rb_init_def [of demo_ring])

definition unit_ring :: "nat ring_buffer" where
  "unit_ring = rb_init (fresh_memory 1 0)"

text \<open>A buffer of capacity 1, which the static checks of the template admit as a power of
  two, overwrites: after one push it is full, yet the next push succeeds as well, and the first
  value a pop delivers is the second one pushed.\<close>

theorem capacity_one_overwrites:
  "case shm_try_publish unit_ring 10 of (a, rb1) \<Rightarrow>
     (case shm_try_publish rb1 20 of (b, rb2) \<Rightarrow> a \<and> b \<and> fst (shm_try_pop rb2) = Some 20)"
proof -
  note steps = shm_try_publish_def shm_try_pop_def try_push_def try_pop_def unit_ring_def fresh_memory_def rb_init_def loop_step
    slot_index_def RingBuffer.mask_def capacity_def difference_def set_data_def set_sequence_def i64_def in_i64_def
  show ?thesis by (simp add: steps)
qed

end
