(* ===== verification/TradeFeed.thy ===== *)
theory TradeFeed
  imports LobProperties RingProperties
begin

text \<open>
  The order book and the ring buffer together: in the deployed matching engine the trade publisher
  of a book is the shared memory ring buffer the market data processor reads.
\<close>

lemma publish_all_insert_all: "publish_all shm_try_publish rb ts = ring.insert_all rb ts"
  by (induction ts arbitrary: rb) (simp_all add: ring.insert_all_def)

lemma add_order_publishes:
  assumes "lob_inv lob" "in_i32 price" "in_i32 quantity"
    and "add_order env pub lob events tick order_id price quantity s broker_id = Inr (lob', events @ ts, tick')"
  shows "lob_trade_publisher lob' = publish_all pub (lob_trade_publisher lob) ts"
  using add_order_Inr(1) [OF assms(4,1,3,2)]
  by (auto simp: add_order_result_def Let_def rest_order_def)

text \<open>With the shared memory publisher, the market data feed receives the trades of an
  order in execution order, after everything already in the feed; when the feed's ring buffer is
  full the remaining trades are dropped from the feed, and from the feed only: the order manager's
  queue of trade events still gets all of them.\<close>

theorem trade_feed_keeps_oldest_trades:
  assumes "lob_inv lob" "in_i32 price" "in_i32 quantity"
    and "add_order env shm_try_publish lob events tick order_id price quantity s broker_id =
      Inr (lob', events @ ts, tick')"
    and "ring_ok (lob_trade_publisher lob)" "length ts \<le> budget (lob_trade_publisher lob)"
  shows "ring_ok (lob_trade_publisher lob') \<and>
    contents (lob_trade_publisher lob') = contents (lob_trade_publisher lob) @
      take (capacity (lob_trade_publisher lob) - length (contents (lob_trade_publisher lob))) ts"
  using add_order_publishes [OF assms(1-4)] ring.insert_all_keeps_oldest [OF assms(5,6)]
    publish_all_insert_all by metis

definition no_trade :: trade where
  "no_trade = \<lparr>tr_ticker = [], tr_price = 0, tr_quantity = 0, tr_trade_id = [], tr_taker_id = [],
     tr_maker_id = [], tr_taker_order_id = 0, tr_maker_order_id = 0, tr_is_taker_buyer = False,
     tr_create_timestamp = 0\<rparr>"

definition feed_book :: "trade ring_buffer limit_order_book" where
  "feed_book = rest_order 0 100 10 Ask ''ALICE'' (make_limit_order_book ''GME'' (rb_init (fresh_memory 2 no_trade)))"

lemma feed_ring_ok:
  "ring_ok (lob_trade_publisher feed_book)" "contents (lob_trade_publisher feed_book) = []"
  "capacity (lob_trade_publisher feed_book) = 2"
  using rb_init_ok [OF fresh_memory_geometry [of 1 no_trade]]
  by (simp_all add: feed_book_def rest_order_def make_limit_order_book_def Let_def)

lemma feed_book_inv: "lob_inv feed_book"
proof -
  have "add_order demo_env shm_try_publish (make_limit_order_book ''GME'' (rb_init (fresh_memory 2 no_trade)))
      [] 0 0 100 10 Ask ''ALICE'' = Inr (feed_book, [], 0)"
    by (simp add: add_order_def match_order_def match_levels_stop feed_book_def
      make_limit_order_book_def get_side_def set_side_def MARKET_ASK_ORDER_PRICE_def
      MARKET_BID_ORDER_PRICE_def)
  then show ?thesis by (rule add_order_Inr(2)) (simp_all add: lob_inv_empty in_i32_def)
qed

definition feed_bid :: "(trade ring_buffer limit_order_book \<times> trade list \<times> nat) result" where
  "feed_bid = add_order demo_env shm_try_publish feed_book [] 0 1 105 4 Bid ''BOB''"

theorem trade_feed_keeps_oldest_trades_witness:
  "\<exists>lob' ts tick'. feed_bid = Inr (lob', [] @ ts, tick') \<and> contents (lob_trade_publisher lob') = ts"
proof -
  have "case feed_bid of Inl _ \<Rightarrow> False | Inr (lob', ts, tick') \<Rightarrow> length ts = 1"
    by code_simp
  then obtain lob' ts tick' where b: "feed_bid = Inr (lob', [] @ ts, tick')" "length ts = 1"
    by (auto split: sum.splits)
  have "0 < budget (lob_trade_publisher feed_book)"
    using feed_ring_ok(3)
    by (simp add: budget_def max_pos_def feed_book_def rest_order_def make_limit_order_book_def Let_def rb_init_def)
  then show ?thesis
    using trade_feed_keeps_oldest_trades [OF feed_book_inv demo_range b(1) [unfolded feed_bid_def] feed_ring_ok(1)]
      feed_ring_ok(2,3) b by auto
qed

end
