(* ===== verification/Messaging.thy ===== *)
theory Messaging
  imports CoreTypes
begin

text \<open>
  The wire format between the services: \<open>libs/transport/messaging.h\<close> over the message schema
  \<open>libs/transport/protobufs/containers.proto\<close>.

  The schema is of edition 2023, so every scalar field has presence: a message is a record of
  optional fields, a getter returns the default of an absent field, and an enumeration field may
  carry a number the schema does not name. \<open>SerializeAsString\<close> and \<open>ParseFromString\<close> belong to the
  protobuf library; they are the arguments \<open>ser\<close> and \<open>par\<close>, and the type \<open>'w\<close> of the text they
  exchange is opaque to the program. What is relied on is that parsing what was serialised gives
  the message back.
\<close>

section \<open>Enumerations of the schema\<close>

datatype proto_side =
    SIDE_UNSPECIFIED
  | SIDE_BID
  | SIDE_ASK
  | SIDE_UNKNOWN int

datatype proto_order_type =
    ORDER_TYPE_UNSPECIFIED
  | ORDER_TYPE_LIMIT
  | ORDER_TYPE_MARKET
  | ORDER_TYPE_UNKNOWN int

datatype proto_tif =
    TIF_UNSPECIFIED
  | TIF_DAY
  | TIF_GTC
  | TIF_UNKNOWN int

datatype proto_exec_trans =
    EXEC_TRANS_UNSPECIFIED
  | EXEC_TRANS_NEW
  | EXEC_TRANS_CANCEL
  | EXEC_TRANS_CORRECT
  | EXEC_TRANS_STATUS
  | EXEC_TRANS_UNKNOWN int

datatype proto_status =
    STATUS_UNSPECIFIED
  | STATUS_NEW
  | STATUS_PARTIALLY_FILLED
  | STATUS_FILLED
  | STATUS_CANCELED
  | STATUS_PENDING_CANCEL
  | STATUS_REJECTED
  | STATUS_UNKNOWN int

text \<open>From and to the core enumerations; an unspecified or unknown value throws.\<close>

fun side_to_proto :: "side \<Rightarrow> proto_side" where
  "side_to_proto Bid = SIDE_BID"
| "side_to_proto Ask = SIDE_ASK"

fun ord_type_to_proto :: "order_type \<Rightarrow> proto_order_type" where
  "ord_type_to_proto Limit = ORDER_TYPE_LIMIT"
| "ord_type_to_proto Market = ORDER_TYPE_MARKET"

fun tif_to_proto :: "time_in_force \<Rightarrow> proto_tif" where
  "tif_to_proto Day = TIF_DAY"
| "tif_to_proto Gtc = TIF_GTC"

fun exec_trans_to_proto :: "exec_trans_type \<Rightarrow> proto_exec_trans" where
  "exec_trans_to_proto Exec_trans_new = EXEC_TRANS_NEW"
| "exec_trans_to_proto Exec_trans_cancel = EXEC_TRANS_CANCEL"
| "exec_trans_to_proto Exec_trans_correct = EXEC_TRANS_CORRECT"
| "exec_trans_to_proto Exec_trans_status = EXEC_TRANS_STATUS"

fun status_to_proto :: "exec_type_or_order_status \<Rightarrow> proto_status" where
  "status_to_proto Status_new = STATUS_NEW"
| "status_to_proto Status_partially_filled = STATUS_PARTIALLY_FILLED"
| "status_to_proto Status_filled = STATUS_FILLED"
| "status_to_proto Status_canceled = STATUS_CANCELED"
| "status_to_proto Status_pending_cancel = STATUS_PENDING_CANCEL"
| "status_to_proto Status_rejected = STATUS_REJECTED"

fun side_of_proto :: "proto_side \<Rightarrow> side result" where
  "side_of_proto SIDE_BID = Inr Bid"
| "side_of_proto SIDE_ASK = Inr Ask"
| "side_of_proto SIDE_UNSPECIFIED = Inl Invalid_Argument"
| "side_of_proto (SIDE_UNKNOWN _) = Inl Invalid_Argument"

fun ord_type_of_proto :: "proto_order_type \<Rightarrow> order_type result" where
  "ord_type_of_proto ORDER_TYPE_LIMIT = Inr Limit"
| "ord_type_of_proto ORDER_TYPE_MARKET = Inr Market"
| "ord_type_of_proto ORDER_TYPE_UNSPECIFIED = Inl Invalid_Argument"
| "ord_type_of_proto (ORDER_TYPE_UNKNOWN _) = Inl Invalid_Argument"

fun tif_of_proto :: "proto_tif \<Rightarrow> time_in_force result" where
  "tif_of_proto TIF_DAY = Inr Day"
| "tif_of_proto TIF_GTC = Inr Gtc"
| "tif_of_proto TIF_UNSPECIFIED = Inl Invalid_Argument"
| "tif_of_proto (TIF_UNKNOWN _) = Inl Invalid_Argument"

fun exec_trans_of_proto :: "proto_exec_trans \<Rightarrow> exec_trans_type result" where
  "exec_trans_of_proto EXEC_TRANS_NEW = Inr Exec_trans_new"
| "exec_trans_of_proto EXEC_TRANS_CANCEL = Inr Exec_trans_cancel"
| "exec_trans_of_proto EXEC_TRANS_CORRECT = Inr Exec_trans_correct"
| "exec_trans_of_proto EXEC_TRANS_STATUS = Inr Exec_trans_status"
| "exec_trans_of_proto EXEC_TRANS_UNSPECIFIED = Inl Invalid_Argument"
| "exec_trans_of_proto (EXEC_TRANS_UNKNOWN _) = Inl Invalid_Argument"

fun status_of_proto :: "proto_status \<Rightarrow> exec_type_or_order_status result" where
  "status_of_proto STATUS_NEW = Inr Status_new"
| "status_of_proto STATUS_PARTIALLY_FILLED = Inr Status_partially_filled"
| "status_of_proto STATUS_FILLED = Inr Status_filled"
| "status_of_proto STATUS_CANCELED = Inr Status_canceled"
| "status_of_proto STATUS_PENDING_CANCEL = Inr Status_pending_cancel"
| "status_of_proto STATUS_REJECTED = Inr Status_rejected"
| "status_of_proto STATUS_UNSPECIFIED = Inl Invalid_Argument"
| "status_of_proto (STATUS_UNKNOWN _) = Inl Invalid_Argument"

section \<open>Messages of the schema\<close>

record new_order_single_proto =
  pnos_sender_comp_id :: "string option"
  pnos_target_comp_id :: "string option"
  pnos_cl_ord_id :: "int option"
  pnos_symbol :: "string option"
  pnos_side :: "proto_side option"
  pnos_order_qty :: "int option"
  pnos_ord_type :: "proto_order_type option"
  pnos_price :: "int option"
  pnos_time_in_force :: "proto_tif option"
  pnos_order_id :: "int option"

record cancel_order_request_proto =
  pcor_sender_comp_id :: "string option"
  pcor_target_comp_id :: "string option"
  pcor_order_id :: "int option"
  pcor_orig_cl_ord_id :: "int option"
  pcor_cl_ord_id :: "int option"
  pcor_symbol :: "string option"
  pcor_side :: "proto_side option"
  pcor_order_qty :: "int option"

record execution_report_proto =
  per_sender_comp_id :: "string option"
  per_target_comp_id :: "string option"
  per_order_id :: "int option"
  per_cl_order_id :: "int option"
  per_orig_cl_ord_id :: "int option"
  per_exec_id :: "string option"
  per_exec_trans_type :: "proto_exec_trans option"
  per_exec_type :: "proto_status option"
  per_ord_status :: "proto_status option"
  per_text :: "string option"
  per_symbol :: "string option"
  per_side :: "proto_side option"
  per_price :: "int option"
  per_time_in_force :: "proto_tif option"
  per_leaves_qty :: "int option"
  per_cum_qty :: "int option"
  per_avg_px :: "int option"

record fill_cost_query_proto =
  pfcq_symbol :: "string option"
  pfcq_quantity :: "int option"
  pfcq_side :: "proto_side option"

record fill_cost_response_proto =
  pfcr_total_cost :: "int option"

record trade_container_proto =
  ptc_ticker :: "string option"
  ptc_price :: "int option"
  ptc_quantity :: "int option"
  ptc_trade_id :: "string option"
  ptc_taker_id :: "string option"
  ptc_maker_id :: "string option"
  ptc_taker_order_id :: "int option"
  ptc_maker_order_id :: "int option"
  ptc_is_taker_buyer :: "bool option"

record cancel_order_response_proto =
  pcrs_order_id :: "int option"
  pcrs_cl_ord_id :: "int option"
  pcrs_success :: "bool option"

text \<open>\<open>ContainerWrapper\<close>: the one-of field, or none set.\<close>

datatype container_wrapper =
    No_Container
  | KNewOrderSingle new_order_single_proto
  | KCancelOrderRequest cancel_order_request_proto
  | KExecutionReport execution_report_proto
  | KFillCostQuery fill_cost_query_proto
  | KFillCostResponse fill_cost_response_proto
  | KTradeContainer trade_container_proto
  | KCancelOrderResponse cancel_order_response_proto

definition proto_get :: "'a \<Rightarrow> 'a option \<Rightarrow> 'a" where
  "proto_get d f = (case f of None \<Rightarrow> d | Some v \<Rightarrow> v)"

section \<open>Serialising\<close>

definition serialize_new_order_single :: "(container_wrapper \<Rightarrow> 'w) \<Rightarrow> new_order_single \<Rightarrow> 'w" where
  "serialize_new_order_single ser c =
     ser (KNewOrderSingle
       \<lparr>pnos_sender_comp_id = Some (nos_sender_comp_id c),
        pnos_target_comp_id = Some (nos_target_comp_id c),
        pnos_cl_ord_id = Some (nos_cl_ord_id c),
        pnos_symbol = Some (nos_symbol c),
        pnos_side = Some (side_to_proto (nos_side c)),
        pnos_order_qty = Some (nos_order_qty c),
        pnos_ord_type = Some (ord_type_to_proto (nos_ord_type c)),
        pnos_price = nos_price c,
        pnos_time_in_force = Some (tif_to_proto (nos_time_in_force c)),
        pnos_order_id = nos_order_id c\<rparr>)"

definition serialize_cancel_order_request :: "(container_wrapper \<Rightarrow> 'w) \<Rightarrow> cancel_order_request \<Rightarrow> 'w" where
  "serialize_cancel_order_request ser c =
     ser (KCancelOrderRequest
       \<lparr>pcor_sender_comp_id = Some (cor_sender_comp_id c),
        pcor_target_comp_id = Some (cor_target_comp_id c),
        pcor_order_id = cor_order_id c,
        pcor_orig_cl_ord_id = Some (cor_orig_cl_ord_id c),
        pcor_cl_ord_id = Some (cor_cl_ord_id c),
        pcor_symbol = Some (cor_symbol c),
        pcor_side = Some (side_to_proto (cor_side c)),
        pcor_order_qty = Some (cor_order_qty c)\<rparr>)"

definition serialize_execution_report :: "(container_wrapper \<Rightarrow> 'w) \<Rightarrow> execution_report \<Rightarrow> 'w" where
  "serialize_execution_report ser c =
     ser (KExecutionReport
       \<lparr>per_sender_comp_id = Some (er_sender_comp_id c),
        per_target_comp_id = Some (er_target_comp_id c),
        per_order_id = Some (er_order_id c),
        per_cl_order_id = Some (er_cl_order_id c),
        per_orig_cl_ord_id = er_orig_cl_ord_id c,
        per_exec_id = Some (er_exec_id c),
        per_exec_trans_type = Some (exec_trans_to_proto (er_exec_trans_type c)),
        per_exec_type = Some (status_to_proto (er_exec_type c)),
        per_ord_status = Some (status_to_proto (er_ord_status c)),
        per_text = er_text c,
        per_symbol = Some (er_symbol c),
        per_side = Some (side_to_proto (er_side c)),
        per_price = er_price c,
        per_time_in_force = Some (tif_to_proto (er_time_in_force c)),
        per_leaves_qty = Some (er_leaves_qty c),
        per_cum_qty = Some (er_cum_qty c),
        per_avg_px = Some (er_avg_px c)\<rparr>)"

definition serialize_fill_cost_query :: "(container_wrapper \<Rightarrow> 'w) \<Rightarrow> fill_cost_query \<Rightarrow> 'w" where
  "serialize_fill_cost_query ser c =
     ser (KFillCostQuery
       \<lparr>pfcq_symbol = Some (fcq_symbol c),
        pfcq_quantity = Some (fcq_quantity c),
        pfcq_side = Some (side_to_proto (fcq_side c))\<rparr>)"

definition serialize_fill_cost_response :: "(container_wrapper \<Rightarrow> 'w) \<Rightarrow> fill_cost_response \<Rightarrow> 'w" where
  "serialize_fill_cost_response ser c =
     ser (KFillCostResponse
       \<lparr>pfcr_total_cost = fcr_total_cost c\<rparr>)"

definition serialize_trade_container :: "(container_wrapper \<Rightarrow> 'w) \<Rightarrow> trade_container \<Rightarrow> 'w" where
  "serialize_trade_container ser c =
     ser (KTradeContainer
       \<lparr>ptc_ticker = Some (tc_ticker c),
        ptc_price = Some (tc_price c),
        ptc_quantity = Some (tc_quantity c),
        ptc_trade_id = Some (tc_trade_id c),
        ptc_taker_id = Some (tc_taker_id c),
        ptc_maker_id = Some (tc_maker_id c),
        ptc_taker_order_id = Some (tc_taker_order_id c),
        ptc_maker_order_id = Some (tc_maker_order_id c),
        ptc_is_taker_buyer = Some (tc_is_taker_buyer c)\<rparr>)"

definition serialize_cancel_order_response :: "(container_wrapper \<Rightarrow> 'w) \<Rightarrow> cancel_order_response \<Rightarrow> 'w" where
  "serialize_cancel_order_response ser c =
     ser (KCancelOrderResponse
       \<lparr>pcrs_order_id = Some (crs_order_id c),
        pcrs_cl_ord_id = Some (crs_cl_ord_id c),
        pcrs_success = Some (crs_success c)\<rparr>)"

text \<open>The overload a caller selects by the type of the container.\<close>

fun serialize_container :: "(container_wrapper \<Rightarrow> 'w) \<Rightarrow> container \<Rightarrow> 'w" where
  "serialize_container ser (New_Order_Single c) = serialize_new_order_single ser c"
| "serialize_container ser (Cancel_Order_Request c) = serialize_cancel_order_request ser c"
| "serialize_container ser (Execution_Report c) = serialize_execution_report ser c"
| "serialize_container ser (Fill_Cost_Query c) = serialize_fill_cost_query ser c"
| "serialize_container ser (Fill_Cost_Response c) = serialize_fill_cost_response ser c"
| "serialize_container ser (Trade_Container c) = serialize_trade_container ser c"
| "serialize_container ser (Cancel_Order_Response c) = serialize_cancel_order_response ser c"

section \<open>Deserialising\<close>

definition deserialize_new_order_single :: "new_order_single_proto \<Rightarrow> new_order_single result" where
  "deserialize_new_order_single p =
     rbind (side_of_proto (proto_get SIDE_UNSPECIFIED (pnos_side p))) (\<lambda>side.
     rbind (ord_type_of_proto (proto_get ORDER_TYPE_UNSPECIFIED (pnos_ord_type p))) (\<lambda>ord_type.
     rbind (tif_of_proto (proto_get TIF_UNSPECIFIED (pnos_time_in_force p))) (\<lambda>time_in_force.
       Inr \<lparr>nos_sender_comp_id = proto_get [] (pnos_sender_comp_id p),
          nos_target_comp_id = proto_get [] (pnos_target_comp_id p),
          nos_order_id = pnos_order_id p,
          nos_cl_ord_id = proto_get 0 (pnos_cl_ord_id p),
          nos_symbol = proto_get [] (pnos_symbol p),
          nos_side = side,
          nos_order_qty = proto_get 0 (pnos_order_qty p),
          nos_ord_type = ord_type,
          nos_price = pnos_price p,
          nos_time_in_force = time_in_force\<rparr>)))"

definition deserialize_cancel_order_request :: "cancel_order_request_proto \<Rightarrow> cancel_order_request result" where
  "deserialize_cancel_order_request p =
     rbind (side_of_proto (proto_get SIDE_UNSPECIFIED (pcor_side p))) (\<lambda>side.
       Inr \<lparr>cor_sender_comp_id = proto_get [] (pcor_sender_comp_id p),
          cor_target_comp_id = proto_get [] (pcor_target_comp_id p),
          cor_order_id = pcor_order_id p,
          cor_orig_cl_ord_id = proto_get 0 (pcor_orig_cl_ord_id p),
          cor_cl_ord_id = proto_get 0 (pcor_cl_ord_id p),
          cor_symbol = proto_get [] (pcor_symbol p),
          cor_side = side,
          cor_order_qty = proto_get 0 (pcor_order_qty p)\<rparr>)"

definition deserialize_execution_report :: "execution_report_proto \<Rightarrow> execution_report result" where
  "deserialize_execution_report p =
     rbind (exec_trans_of_proto (proto_get EXEC_TRANS_UNSPECIFIED (per_exec_trans_type p))) (\<lambda>exec_trans_type.
     rbind (status_of_proto (proto_get STATUS_UNSPECIFIED (per_exec_type p))) (\<lambda>exec_type.
     rbind (status_of_proto (proto_get STATUS_UNSPECIFIED (per_ord_status p))) (\<lambda>ord_status.
     rbind (side_of_proto (proto_get SIDE_UNSPECIFIED (per_side p))) (\<lambda>side.
     rbind (tif_of_proto (proto_get TIF_UNSPECIFIED (per_time_in_force p))) (\<lambda>time_in_force.
       Inr \<lparr>er_sender_comp_id = proto_get [] (per_sender_comp_id p),
          er_target_comp_id = proto_get [] (per_target_comp_id p),
          er_order_id = proto_get 0 (per_order_id p),
          er_cl_order_id = proto_get 0 (per_cl_order_id p),
          er_orig_cl_ord_id = per_orig_cl_ord_id p,
          er_exec_id = proto_get [] (per_exec_id p),
          er_exec_trans_type = exec_trans_type,
          er_exec_type = exec_type,
          er_ord_status = ord_status,
          er_text = Some (proto_get [] (per_text p)),
          er_symbol = proto_get [] (per_symbol p),
          er_side = side,
          er_price = per_price p,
          er_time_in_force = time_in_force,
          er_leaves_qty = proto_get 0 (per_leaves_qty p),
          er_cum_qty = proto_get 0 (per_cum_qty p),
          er_avg_px = proto_get 0 (per_avg_px p)\<rparr>)))))"

definition deserialize_fill_cost_query :: "fill_cost_query_proto \<Rightarrow> fill_cost_query result" where
  "deserialize_fill_cost_query p =
     rbind (side_of_proto (proto_get SIDE_UNSPECIFIED (pfcq_side p))) (\<lambda>side.
       Inr \<lparr>fcq_symbol = proto_get [] (pfcq_symbol p),
          fcq_quantity = proto_get 0 (pfcq_quantity p),
          fcq_side = side\<rparr>)"

definition deserialize_fill_cost_response :: "fill_cost_response_proto \<Rightarrow> fill_cost_response result" where
  "deserialize_fill_cost_response p =
     Inr \<lparr>fcr_total_cost = pfcr_total_cost p\<rparr>"

definition deserialize_trade_container :: "trade_container_proto \<Rightarrow> trade_container result" where
  "deserialize_trade_container p =
     Inr \<lparr>tc_ticker = proto_get [] (ptc_ticker p),
          tc_price = proto_get 0 (ptc_price p),
          tc_quantity = proto_get 0 (ptc_quantity p),
          tc_trade_id = proto_get [] (ptc_trade_id p),
          tc_taker_id = proto_get [] (ptc_taker_id p),
          tc_maker_id = proto_get [] (ptc_maker_id p),
          tc_taker_order_id = proto_get 0 (ptc_taker_order_id p),
          tc_maker_order_id = proto_get 0 (ptc_maker_order_id p),
          tc_is_taker_buyer = proto_get False (ptc_is_taker_buyer p)\<rparr>"

definition deserialize_cancel_order_response :: "cancel_order_response_proto \<Rightarrow> cancel_order_response result" where
  "deserialize_cancel_order_response p =
     Inr \<lparr>crs_order_id = proto_get 0 (pcrs_order_id p),
          crs_cl_ord_id = proto_get 0 (pcrs_cl_ord_id p),
          crs_success = proto_get False (pcrs_success p)\<rparr>"

definition deserialize_container :: "('w \<Rightarrow> container_wrapper option) \<Rightarrow> 'w \<Rightarrow> container result" where
  "deserialize_container par data =
     (case par data of
        None \<Rightarrow> Inl Invalid_Argument
      | Some w \<Rightarrow>
          (case w of
             No_Container \<Rightarrow> Inl Invalid_Argument
           | KNewOrderSingle p \<Rightarrow> rbind (deserialize_new_order_single p) (\<lambda>c. Inr (New_Order_Single c))
           | KCancelOrderRequest p \<Rightarrow> rbind (deserialize_cancel_order_request p) (\<lambda>c. Inr (Cancel_Order_Request c))
           | KExecutionReport p \<Rightarrow> rbind (deserialize_execution_report p) (\<lambda>c. Inr (Execution_Report c))
           | KFillCostQuery p \<Rightarrow> rbind (deserialize_fill_cost_query p) (\<lambda>c. Inr (Fill_Cost_Query c))
           | KFillCostResponse p \<Rightarrow> rbind (deserialize_fill_cost_response p) (\<lambda>c. Inr (Fill_Cost_Response c))
           | KTradeContainer p \<Rightarrow> rbind (deserialize_trade_container p) (\<lambda>c. Inr (Trade_Container c))
           | KCancelOrderResponse p \<Rightarrow> rbind (deserialize_cancel_order_response p) (\<lambda>c. Inr (Cancel_Order_Response c))))"

section \<open>Round trip\<close>

lemma side_roundtrip [simp]: "side_of_proto (side_to_proto x) = Inr x"
  by (cases x) simp_all

lemma side_of_proto_Inr: "side_of_proto p = Inr x \<longleftrightarrow> p = side_to_proto x"
  by (cases p; cases x) simp_all

lemma side_of_proto_Inl: "side_of_proto p = Inl e \<Longrightarrow> e = Invalid_Argument"
  by (cases p) simp_all

lemma side_present: "proto_get SIDE_UNSPECIFIED f = side_to_proto x \<longleftrightarrow> f = Some (side_to_proto x)"
  by (cases f; cases x) (simp_all add: proto_get_def)

lemma ord_type_roundtrip [simp]: "ord_type_of_proto (ord_type_to_proto x) = Inr x"
  by (cases x) simp_all

lemma ord_type_of_proto_Inr: "ord_type_of_proto p = Inr x \<longleftrightarrow> p = ord_type_to_proto x"
  by (cases p; cases x) simp_all

lemma ord_type_of_proto_Inl: "ord_type_of_proto p = Inl e \<Longrightarrow> e = Invalid_Argument"
  by (cases p) simp_all

lemma ord_type_present: "proto_get ORDER_TYPE_UNSPECIFIED f = ord_type_to_proto x \<longleftrightarrow> f = Some (ord_type_to_proto x)"
  by (cases f; cases x) (simp_all add: proto_get_def)

lemma tif_roundtrip [simp]: "tif_of_proto (tif_to_proto x) = Inr x"
  by (cases x) simp_all

lemma tif_of_proto_Inr: "tif_of_proto p = Inr x \<longleftrightarrow> p = tif_to_proto x"
  by (cases p; cases x) simp_all

lemma tif_of_proto_Inl: "tif_of_proto p = Inl e \<Longrightarrow> e = Invalid_Argument"
  by (cases p) simp_all

lemma tif_present: "proto_get TIF_UNSPECIFIED f = tif_to_proto x \<longleftrightarrow> f = Some (tif_to_proto x)"
  by (cases f; cases x) (simp_all add: proto_get_def)

lemma exec_trans_roundtrip [simp]: "exec_trans_of_proto (exec_trans_to_proto x) = Inr x"
  by (cases x) simp_all

lemma exec_trans_of_proto_Inr: "exec_trans_of_proto p = Inr x \<longleftrightarrow> p = exec_trans_to_proto x"
  by (cases p; cases x) simp_all

lemma exec_trans_of_proto_Inl: "exec_trans_of_proto p = Inl e \<Longrightarrow> e = Invalid_Argument"
  by (cases p) simp_all

lemma exec_trans_present: "proto_get EXEC_TRANS_UNSPECIFIED f = exec_trans_to_proto x \<longleftrightarrow> f = Some (exec_trans_to_proto x)"
  by (cases f; cases x) (simp_all add: proto_get_def)

lemma status_roundtrip [simp]: "status_of_proto (status_to_proto x) = Inr x"
  by (cases x) simp_all

lemma status_of_proto_Inr: "status_of_proto p = Inr x \<longleftrightarrow> p = status_to_proto x"
  by (cases p; cases x) simp_all

lemma status_of_proto_Inl: "status_of_proto p = Inl e \<Longrightarrow> e = Invalid_Argument"
  by (cases p) simp_all

lemma status_present: "proto_get STATUS_UNSPECIFIED f = status_to_proto x \<longleftrightarrow> f = Some (status_to_proto x)"
  by (cases f; cases x) (simp_all add: proto_get_def)

lemmas of_proto_Inr = side_of_proto_Inr ord_type_of_proto_Inr tif_of_proto_Inr exec_trans_of_proto_Inr status_of_proto_Inr
lemmas of_proto_Inl = side_of_proto_Inl ord_type_of_proto_Inl tif_of_proto_Inl exec_trans_of_proto_Inl status_of_proto_Inl
lemmas proto_present = side_present ord_type_present tif_present exec_trans_present status_present

lemma proto_get_Some [simp]: "proto_get d (Some v) = v"
  by (simp add: proto_get_def)

text \<open>
  What a container looks like to the receiver: an execution report without text arrives with the
  empty text, every other container arrives unchanged.
\<close>

fun received :: "container \<Rightarrow> container" where
  "received (Execution_Report c) =
     Execution_Report (c\<lparr>er_text := Some (proto_get [] (er_text c))\<rparr>)"
| "received c = c"

lemmas serialize_defs = serialize_new_order_single_def serialize_cancel_order_request_def serialize_execution_report_def serialize_fill_cost_query_def serialize_fill_cost_response_def serialize_trade_container_def serialize_cancel_order_response_def
lemmas deserialize_defs = deserialize_new_order_single_def deserialize_cancel_order_request_def deserialize_execution_report_def deserialize_fill_cost_query_def deserialize_fill_cost_response_def deserialize_trade_container_def deserialize_cancel_order_response_def

lemma deserialize_serialize:
  assumes "\<And>w. par (ser w) = Some w"
  shows "deserialize_container par (serialize_container ser c) = Inr (received c)"
  by (cases c) (simp_all add: deserialize_container_def serialize_defs deserialize_defs assms)

text \<open>C14 (roundtrip). When the protobuf library parses back what it serialised, a container sent over
  the wire arrives as it was sent, for each of the seven kinds and with every optional field kept,
  except that an execution report without text arrives with the empty text.\<close>

theorem container_roundtrip:
  assumes "\<forall>w. par (ser w) = Some w"
  shows "deserialize_container par (serialize_container ser c) = Inr (received c) \<and>
    ((\<forall>r. c \<noteq> Execution_Report r) \<longrightarrow> received c = c)"
  using deserialize_serialize [of par ser c] assms by (cases c) simp_all

theorem container_roundtrip_witness:
  "deserialize_container Some (serialize_container (\<lambda>w. w) (Fill_Cost_Query \<lparr>fcq_symbol = ''GME'', fcq_quantity = 5, fcq_side = Ask\<rparr>)) =
   Inr (Fill_Cost_Query \<lparr>fcq_symbol = ''GME'', fcq_quantity = 5, fcq_side = Ask\<rparr>)"
  using container_roundtrip [of Some "\<lambda>w. w" "Fill_Cost_Query \<lparr>fcq_symbol = ''GME'', fcq_quantity = 5, fcq_side = Ask\<rparr>"] by simp

text \<open>Malformed traffic is refused, never misread: deserialising either throws
  \<open>std::invalid_argument\<close> or returns a container of the kind in the message, and a new order comes
  out only if its side, type and time in force are present with values the schema names, with
  its id and price present exactly when the message has them.\<close>

theorem deserialized_order_is_in_the_message:
  "(case deserialize_container par data of
      Inl e \<Rightarrow> e = Invalid_Argument
    | Inr (New_Order_Single c) \<Rightarrow>
        (\<exists>p. par data = Some (KNewOrderSingle p) \<and>
           pnos_side p = Some (side_to_proto (nos_side c)) \<and>
           pnos_ord_type p = Some (ord_type_to_proto (nos_ord_type c)) \<and>
           pnos_time_in_force p = Some (tif_to_proto (nos_time_in_force c)) \<and>
           nos_order_id c = pnos_order_id p \<and> nos_price c = pnos_price p \<and>
           nos_order_qty c = proto_get 0 (pnos_order_qty p) \<and> nos_symbol c = proto_get [] (pnos_symbol p))
    | Inr _ \<Rightarrow> True)"
  by (auto simp: deserialize_container_def deserialize_defs result_simps of_proto_Inr proto_present
      split: sum.splits container.splits option.splits container_wrapper.splits dest: of_proto_Inl)

end
