(* ===== verification/MatchingEngine.thy ===== *)
theory MatchingEngine
  imports TradeFeed Messaging
begin

text \<open>
  The matching engine service (\<open>services/matching_engine/src/matching_engine.cpp\<close>): one order book
  per symbol, the queue of trade events, and the loop that takes a message of the order manager,
  handles it, and publishes order book snapshots at intervals.

  The inbound server is the interface \<open>transport::InboundServer\<close>: its state is the type \<open>'s\<close>, and
  \<open>send\<close> and \<open>dequeue_message\<close> are arguments. \<open>ser\<close> and \<open>par\<close> are the protobuf library's text
  conversions. An exception that leaves a handler ends the process, as nothing catches it.
\<close>

section \<open>State\<close>

type_synonym ('s, 'w) send = "int \<Rightarrow> 'w \<Rightarrow> 's \<Rightarrow> bool \<times> 's"
type_synonym ('s, 'w) dequeue_message = "int \<Rightarrow> 's \<Rightarrow> 'w option \<times> 's"

text \<open>The arguments of the service that do not change while it runs.\<close>

record ('p, 'q, 's, 'w) me_env =
  me_world :: env
  me_try_publish :: "'p try_publish"
  me_try_publish_snapshot :: "'q \<Rightarrow> top_order_book_level_aggregates \<Rightarrow> bool \<times> 'q"
  me_send :: "('s, 'w) send"
  me_dequeue_message :: "('s, 'w) dequeue_message"
  me_ser :: "container_wrapper \<Rightarrow> 'w"
  me_par :: "'w \<Rightarrow> container_wrapper option"

text \<open>
  \<open>me_symbols\<close> is the order in which iteration over the hash map of books visits them; \<open>me_tick\<close>
  counts the readings of the clock and the UUID generator by the books.
\<close>

record ('p, 'q, 's) matching_engine =
  me_incoming_request_connection_id :: int
  me_order_response_connection_id :: int
  me_server :: 's
  me_snapshot_publishers :: "string \<rightharpoonup> 'q"
  me_flush_interval :: int
  me_trade_events :: "trade list"
  me_books :: "string \<rightharpoonup> 'p limit_order_book"
  me_symbols :: "string list"
  me_tick :: nat
  me_last_flush :: int

section \<open>Construction\<close>

text \<open>\<open>emplace\<close> keeps the first entry of a symbol that occurs twice.\<close>

fun add_symbols ::
  "(string \<Rightarrow> 'p) \<Rightarrow> (string \<Rightarrow> 'q) \<Rightarrow> string list \<Rightarrow> ('p, 'q, 's) matching_engine \<Rightarrow>
   ('p, 'q, 's) matching_engine" where
  "add_symbols create_trade_publisher create_snapshot_publisher [] me = me"
| "add_symbols create_trade_publisher create_snapshot_publisher (symbol # rest) me =
     add_symbols create_trade_publisher create_snapshot_publisher rest
       (if me_books me symbol = None then
          me\<lparr>me_books := (me_books me)(symbol \<mapsto> make_limit_order_book symbol (create_trade_publisher symbol)),
             me_snapshot_publishers := (me_snapshot_publishers me)(symbol \<mapsto> create_snapshot_publisher symbol),
             me_symbols := me_symbols me @ [symbol]\<rparr>
        else me)"

definition make_matching_engine ::
  "(string \<Rightarrow> 'p) \<Rightarrow> (string \<Rightarrow> 'q) \<Rightarrow> 's \<Rightarrow> string list \<Rightarrow> int \<Rightarrow> int \<Rightarrow> ('p, 'q, 's) matching_engine" where
  "make_matching_engine create_trade_publisher create_snapshot_publisher server active_symbols
     flush_interval now =
     add_symbols create_trade_publisher create_snapshot_publisher active_symbols
       \<lparr>me_incoming_request_connection_id = -1, me_order_response_connection_id = -1,
        me_server = server, me_snapshot_publishers = Map.empty, me_flush_interval = flush_interval,
        me_trade_events = [], me_books = Map.empty, me_symbols = [], me_tick = 0, me_last_flush = now\<rparr>"

text \<open>\<open>init\<close> starts the server and ends the process when that fails; \<open>start\<close> is the server's operation.\<close>

definition me_init ::
  "('s \<Rightarrow> bool \<times> 's) \<Rightarrow> ('p, 'q, 's) matching_engine \<Rightarrow> ('p, 'q, 's) matching_engine result" where
  "me_init start me =
     (case start (me_server me) of
        (True, srv') \<Rightarrow> Inr (me\<lparr>me_server := srv'\<rparr>)
      | (False, _) \<Rightarrow> Inl Terminated)"

text \<open>The connection callback of \<open>main.cpp\<close>: the order manager opens two connections by name.\<close>

definition on_connection ::
  "string \<Rightarrow> int \<Rightarrow> ('p, 'q, 's) matching_engine \<Rightarrow> ('p, 'q, 's) matching_engine" where
  "on_connection counter_party conn_id me =
     (if counter_party = ''order_request'' then me\<lparr>me_incoming_request_connection_id := conn_id\<rparr>
      else if counter_party = ''order_response'' then me\<lparr>me_order_response_connection_id := conn_id\<rparr>
      else me)"

definition connections_established :: "('p, 'q, 's) matching_engine \<Rightarrow> bool" where
  "connections_established me \<longleftrightarrow>
     \<not> (me_incoming_request_connection_id me = -1 \<or> me_order_response_connection_id me = -1)"

section \<open>Handlers\<close>

definition trade_to_container :: "trade \<Rightarrow> trade_container" where
  "trade_to_container t =
     \<lparr>tc_ticker = tr_ticker t, tc_price = tr_price t, tc_quantity = tr_quantity t,
      tc_trade_id = tr_trade_id t, tc_taker_id = tr_taker_id t, tc_maker_id = tr_maker_id t,
      tc_taker_order_id = tr_taker_order_id t, tc_maker_order_id = tr_maker_order_id t,
      tc_is_taker_buyer = tr_is_taker_buyer t\<rparr>"

text \<open>Sending the queued trades: stop at the first failure and keep the rest for the next order.\<close>

fun send_trades ::
  "('s, 'w) send \<Rightarrow> (container_wrapper \<Rightarrow> 'w) \<Rightarrow> int \<Rightarrow> trade list \<Rightarrow> 's \<Rightarrow> trade list \<times> 's" where
  "send_trades send ser conn [] srv = ([], srv)"
| "send_trades send ser conn (t # ts) srv =
     (case send conn (serialize_container ser (Trade_Container (trade_to_container t))) srv of
        (True, srv') \<Rightarrow> send_trades send ser conn ts srv'
      | (False, srv') \<Rightarrow> (t # ts, srv'))"

definition order_price :: "new_order_single \<Rightarrow> int" where
  "order_price o' =
     (case nos_price o' of
        Some p \<Rightarrow> p
      | None \<Rightarrow> if nos_side o' = Bid then MARKET_BID_ORDER_PRICE else MARKET_ASK_ORDER_PRICE)"

definition handle_new_order ::
  "('p, 'q, 's, 'w) me_env \<Rightarrow> ('p, 'q, 's) matching_engine \<Rightarrow> new_order_single \<Rightarrow>
   ('p, 'q, 's) matching_engine result" where
  "handle_new_order e me new_order =
     rbind (opt_at Contract_Violation (nos_order_id new_order)) (\<lambda>order_id.
     rbind (opt_at Out_Of_Range (me_books me (nos_symbol new_order))) (\<lambda>lob.
     rbind (add_order (me_world e) (me_try_publish e) lob (me_trade_events me) (me_tick me) order_id
              (order_price new_order) (nos_order_qty new_order) (nos_side new_order)
              (nos_sender_comp_id new_order)) (\<lambda>(lob', events', tick').
       case send_trades (me_send e) (me_ser e) (me_order_response_connection_id me) events' (me_server me) of
         (rest, srv') \<Rightarrow>
           Inr (me\<lparr>me_books := (me_books me)(nos_symbol new_order \<mapsto> lob'),
                   me_trade_events := rest, me_tick := tick', me_server := srv'\<rparr>))))"

definition handle_cancel_order ::
  "('p, 'q, 's, 'w) me_env \<Rightarrow> ('p, 'q, 's) matching_engine \<Rightarrow> cancel_order_request \<Rightarrow>
   ('p, 'q, 's) matching_engine result" where
  "handle_cancel_order e me cancel_request =
     rbind (opt_at Contract_Violation (cor_order_id cancel_request)) (\<lambda>order_id.
     rbind (opt_at Out_Of_Range (me_books me (cor_symbol cancel_request))) (\<lambda>lob.
     rbind (if order_id_exists lob order_id then cancel_order lob order_id else Inr lob) (\<lambda>lob'.
       Inr (me\<lparr>me_books := (me_books me)(cor_symbol cancel_request \<mapsto> lob'),
               me_server := snd (me_send e (me_order_response_connection_id me)
                 (serialize_container (me_ser e) (Cancel_Order_Response
                    \<lparr>crs_order_id = order_id, crs_cl_ord_id = cor_cl_ord_id cancel_request,
                     crs_success = order_id_exists lob order_id\<rparr>)) (me_server me))\<rparr>))))"

definition handle_fill_cost_query ::
  "('p, 'q, 's, 'w) me_env \<Rightarrow> ('p, 'q, 's) matching_engine \<Rightarrow> fill_cost_query \<Rightarrow>
   ('p, 'q, 's) matching_engine result" where
  "handle_fill_cost_query e me query =
     rbind (opt_at Out_Of_Range (me_books me (fcq_symbol query))) (\<lambda>lob.
     rbind (get_fill_cost lob (fcq_quantity query) (fcq_side query)) (\<lambda>total_cost.
       Inr (me\<lparr>me_server := snd (me_send e (me_incoming_request_connection_id me)
                 (serialize_container (me_ser e) (Fill_Cost_Response \<lparr>fcr_total_cost = total_cost\<rparr>))
                 (me_server me))\<rparr>)))"

fun process_container ::
  "('p, 'q, 's, 'w) me_env \<Rightarrow> ('p, 'q, 's) matching_engine \<Rightarrow> container \<Rightarrow>
   ('p, 'q, 's) matching_engine result" where
  "process_container e me (New_Order_Single c) = handle_new_order e me c"
| "process_container e me (Cancel_Order_Request c) = handle_cancel_order e me c"
| "process_container e me (Fill_Cost_Query c) = handle_fill_cost_query e me c"
| "process_container e me _ = Inr me"

section \<open>The loop\<close>

fun flush_snapshots ::
  "('p, 'q, 's, 'w) me_env \<Rightarrow> nat \<Rightarrow> string list \<Rightarrow> ('p, 'q, 's) matching_engine \<Rightarrow>
   ('p, 'q, 's) matching_engine result" where
  "flush_snapshots e now_ms [] me = Inr me"
| "flush_snapshots e now_ms (symbol # rest) me =
     rbind (opt_at Out_Of_Range (me_books me symbol)) (\<lambda>lob.
     rbind (get_top_order_book_level_aggregate now_ms lob) (\<lambda>snapshot.
     rbind (opt_at Out_Of_Range (me_snapshot_publishers me symbol)) (\<lambda>q.
       flush_snapshots e now_ms rest
         (me\<lparr>me_snapshot_publishers :=
               (me_snapshot_publishers me)(symbol \<mapsto> snd (me_try_publish_snapshot e q snapshot))\<rparr>))))"

text \<open>One iteration of \<open>run\<close>, at clock readings \<open>now\<close> (steady) and \<open>now_ms\<close> (system).\<close>

definition me_iteration ::
  "('p, 'q, 's, 'w) me_env \<Rightarrow> int \<Rightarrow> nat \<Rightarrow> ('p, 'q, 's) matching_engine \<Rightarrow>
   ('p, 'q, 's) matching_engine result" where
  "me_iteration e now now_ms me =
     rbind
       (case me_dequeue_message e (me_incoming_request_connection_id me) (me_server me) of
          (None, srv') \<Rightarrow> Inr (me\<lparr>me_server := srv'\<rparr>)
        | (Some msg, srv') \<Rightarrow>
            rbind (deserialize_container (me_par e) msg) (process_container e (me\<lparr>me_server := srv'\<rparr>)))
       (\<lambda>me'.
          if now - me_last_flush me' > me_flush_interval me' then
            rbind (flush_snapshots e now_ms (me_symbols me') me') (\<lambda>me''. Inr (me''\<lparr>me_last_flush := now\<rparr>))
          else Inr me')"

end
