(* ===== verification/Channel.thy ===== *)
theory Channel
  imports Prelude
begin

text \<open>
  The interface the services rely on when they exchange messages over numbered connections: what
  was sent on a connection is remembered in order, what arrived on a connection is read in order, and
  the connections do not interfere.
\<close>

locale message_sender =
  fixes ok :: "'s \<Rightarrow> bool"
    and send :: "int \<Rightarrow> 'w \<Rightarrow> 's \<Rightarrow> bool \<times> 's"
    and sent :: "'s \<Rightarrow> int \<Rightarrow> 'w list"
  assumes ok_send: "ok s \<Longrightarrow> ok (snd (send c m s))"
    and sent_send: "ok s \<Longrightarrow>
      sent (snd (send c m s)) = (if fst (send c m s) then (sent s)(c := sent s c @ [m]) else sent s)"
begin

text \<open>Sending a list in order, up to the first failure; what was not sent is returned.\<close>

fun send_list :: "int \<Rightarrow> 'w list \<Rightarrow> 's \<Rightarrow> 'w list \<times> 's" where
  "send_list c [] s = ([], s)"
| "send_list c (m # ms) s =
     (case send c m s of
        (True, s') \<Rightarrow> send_list c ms s'
      | (False, s') \<Rightarrow> (m # ms, s'))"

text \<open>What was sent is a prefix, in order; when something is left, the send of its first message is the
  one that failed, on the state in which all before it had been sent.\<close>

lemma send_list_log:
  assumes "send_list c ms s = (rest, s')" "ok s"
  shows "\<exists>done'. ms = done' @ rest \<and> ok s' \<and> sent s' = (sent s)(c := sent s c @ done') \<and>
    (rest \<noteq> [] \<longrightarrow> (\<exists>s1. ok s1 \<and> sent s1 = sent s' \<and> send c (hd rest) s1 = (False, s')))"
  using assms
proof (induction ms arbitrary: s)
  case Nil
  then show ?case by (auto simp: fun_eq_iff)
next
  case (Cons m ms)
  obtain b s1 where s1: "send c m s = (b, s1)" by force
  have ok1: "ok s1" and log1: "sent s1 = (if b then (sent s)(c := sent s c @ [m]) else sent s)"
    using ok_send [OF Cons.prems(2), of c m] sent_send [OF Cons.prems(2), of c m] s1 by simp_all
  show ?case
  proof (cases b)
    case True
    then have "send_list c ms s1 = (rest, s')" using Cons.prems(1) s1 by simp
    from Cons.IH [OF this ok1] obtain d where d: "ms = d @ rest" "ok s'" "sent s' = (sent s1)(c := sent s1 c @ d)"
      "rest \<noteq> [] \<longrightarrow> (\<exists>s1. ok s1 \<and> sent s1 = sent s' \<and> send c (hd rest) s1 = (False, s'))"
      by blast
    then show ?thesis using log1 True by (intro exI [of _ "m # d"]) (auto simp: fun_eq_iff)
  next
    case False
    then have "rest = m # ms" "s' = s1" using Cons.prems(1) s1 by simp_all
    then show ?thesis using s1 log1 ok1 False Cons.prems(2)
      by (intro exI [of _ "[]"]) (auto simp: fun_eq_iff)
  qed
qed

end

locale message_channel = message_sender ok send sent
  for ok :: "'s \<Rightarrow> bool" and send :: "int \<Rightarrow> 'w \<Rightarrow> 's \<Rightarrow> bool \<times> 's" and sent +
  fixes recv :: "int \<Rightarrow> 's \<Rightarrow> 'w option \<times> 's"
    and inbox :: "'s \<Rightarrow> int \<Rightarrow> 'w list"
  assumes ok_recv: "ok s \<Longrightarrow> ok (snd (recv c s))"
    and inbox_send: "ok s \<Longrightarrow> inbox (snd (send c m s)) = inbox s"
    and sent_recv: "ok s \<Longrightarrow> sent (snd (recv c s)) = sent s"
    and recv_inbox: "ok s \<Longrightarrow>
      (case inbox s c of
         [] \<Rightarrow> fst (recv c s) = None \<and> inbox (snd (recv c s)) = inbox s
       | m # ms \<Rightarrow> fst (recv c s) = Some m \<and> inbox (snd (recv c s)) = (inbox s)(c := ms))"
begin

text \<open>A service that polls one connection \<open>n\<close> times reads what was there, oldest first.\<close>

fun poll :: "int \<Rightarrow> nat \<Rightarrow> 's \<Rightarrow> 'w list \<times> 's" where
  "poll c 0 s = ([], s)"
| "poll c (Suc n) s =
     (case recv c s of
        (None, s') \<Rightarrow> poll c n s'
      | (Some m, s') \<Rightarrow> (case poll c n s' of (ms, s'') \<Rightarrow> (m # ms, s'')))"

lemma poll_takes:
  assumes "ok s"
  shows "fst (poll c n s) = take n (inbox s c) \<and>
    inbox (snd (poll c n s)) = (inbox s)(c := drop n (inbox s c)) \<and> ok (snd (poll c n s)) \<and>
    sent (snd (poll c n s)) = sent s"
  using assms
proof (induction n arbitrary: s)
  case 0
  then show ?case by (auto simp: fun_eq_iff)
next
  case (Suc n)
  obtain r s1 where r: "recv c s = (r, s1)" by force
  have s1: "ok s1" "sent s1 = sent s" using ok_recv [OF Suc.prems, of c] sent_recv [OF Suc.prems, of c] r by simp_all
  note IH = Suc.IH [OF s1(1)]
  show ?case
  proof (cases "inbox s c")
    case Nil
    then have "r = None" "inbox s1 = inbox s" using recv_inbox [OF Suc.prems, of c] r by simp_all
    then show ?thesis using IH r Nil s1 by (auto simp: fun_eq_iff)
  next
    case (Cons m ms)
    then have "r = Some m" "inbox s1 = (inbox s)(c := ms)" using recv_inbox [OF Suc.prems, of c] r by simp_all
    then show ?thesis using IH r Cons s1 by (cases "poll c n s1") (auto simp: fun_eq_iff)
  qed
qed

end

end
