(* ===== verification/MeProperties.thy ===== *)
theory MeProperties
  imports MatchingEngine Channel
begin

text \<open>
  The properties of the matching engine service: its books keep their invariant over every run,
  trades reach the order manager once and in order whatever sends fail, requests only touch the
  book of their symbol, and cancel requests are answered truthfully.
\<close>

section \<open>Invariant\<close>

definition me_inv :: "('p, 'q, 's) matching_engine \<Rightarrow> bool" where
  "me_inv me \<longleftrightarrow>
     (\<forall>symbol lob. me_books me symbol = Some lob \<longrightarrow> lob_inv lob \<and> lob_ticker lob = symbol) \<and>
     set (me_symbols me) = dom (me_books me) \<and> dom (me_snapshot_publishers me) = dom (me_books me)"

lemma me_inv_fields [simp]:
  "me_inv (me\<lparr>me_server := srv\<rparr>) = me_inv me" "me_inv (me\<lparr>me_last_flush := now\<rparr>) = me_inv me"
  "me_inv (me\<lparr>me_incoming_request_connection_id := i\<rparr>) = me_inv me"
  "me_inv (me\<lparr>me_order_response_connection_id := i\<rparr>) = me_inv me"
  by (simp_all add: me_inv_def)

lemma me_inv_add_symbol:
  assumes "me_inv me"
  shows "me_inv (me\<lparr>me_books := (me_books me)(symbol \<mapsto> make_limit_order_book symbol p),
     me_snapshot_publishers := (me_snapshot_publishers me)(symbol \<mapsto> q),
     me_symbols := me_symbols me @ [symbol]\<rparr>)"
  using assms lob_inv_empty [of symbol p] by (simp add: me_inv_def make_limit_order_book_def)

lemma add_symbols_inv: "me_inv me \<Longrightarrow> me_inv (add_symbols f g symbols me)"
proof (induction f g symbols me rule: add_symbols.induct)
  case (2 f g symbol rest me)
  then show ?case by (simp add: me_inv_add_symbol)
qed simp

lemma make_matching_engine_inv: "me_inv (make_matching_engine f g srv symbols interval now)"
  unfolding make_matching_engine_def by (rule add_symbols_inv) (simp add: me_inv_def)

lemma add_order_ticker:
  assumes "add_order env pub lob events tick i p q s br = Inr (lob', events', tick')"
  shows "lob_ticker lob' = lob_ticker lob"
  using assms
  by (auto simp: add_order_def match_order_def rest_order_def result_simps Let_def split: if_splits)

lemma cancel_order_ticker:
  "cancel_order lob i = Inr lob' \<Longrightarrow> lob_ticker lob' = lob_ticker lob"
  by (auto simp: cancel_order_def result_simps Let_def split: option.splits if_splits)

text \<open>The integers of an order as the wire carries them.\<close>

definition int32_order :: "new_order_single \<Rightarrow> bool" where
  "int32_order c \<longleftrightarrow> in_i32 (nos_order_qty c) \<and> (\<forall>p. nos_price c = Some p \<longrightarrow> in_i32 p)"

fun int32_container :: "container \<Rightarrow> bool" where
  "int32_container (New_Order_Single c) = int32_order c"
| "int32_container _ = True"

lemma order_price_range: "int32_order c \<Longrightarrow> in_i32 (order_price c)"
  by (auto simp: int32_order_def order_price_def in_i32_def MARKET_ASK_ORDER_PRICE_def
      MARKET_BID_ORDER_PRICE_def split: option.splits)

lemma handle_new_order_cases:
  assumes "handle_new_order e me c = Inr me'"
  obtains order_id lob lob' events' tick' rest srv' where
    "nos_order_id c = Some order_id" "me_books me (nos_symbol c) = Some lob"
    "add_order (me_world e) (me_try_publish e) lob (me_trade_events me) (me_tick me) order_id
       (order_price c) (nos_order_qty c) (nos_side c) (nos_sender_comp_id c) = Inr (lob', events', tick')"
    "send_trades (me_send e) (me_ser e) (me_order_response_connection_id me) events' (me_server me) = (rest, srv')"
    "me' = me\<lparr>me_books := (me_books me)(nos_symbol c \<mapsto> lob'), me_trade_events := rest, me_tick := tick', me_server := srv'\<rparr>"
proof -
  obtain order_id lob where a: "nos_order_id c = Some order_id" "me_books me (nos_symbol c) = Some lob"
    using assms by (auto simp: handle_new_order_def result_simps)
  then obtain lob' events' tick' where add: "add_order (me_world e) (me_try_publish e) lob (me_trade_events me)
      (me_tick me) order_id (order_price c) (nos_order_qty c) (nos_side c) (nos_sender_comp_id c) =
      Inr (lob', events', tick')"
    using assms by (auto simp: handle_new_order_def result_simps)
  obtain rest srv' where "send_trades (me_send e) (me_ser e) (me_order_response_connection_id me) events'
      (me_server me) = (rest, srv')"
    by force
  then show ?thesis using that a add assms by (simp add: handle_new_order_def)
qed

lemma handle_cancel_order_cases:
  assumes "handle_cancel_order e me c = Inr me'"
  obtains order_id lob lob' where
    "cor_order_id c = Some order_id" "me_books me (cor_symbol c) = Some lob"
    "(if order_id_exists lob order_id then cancel_order lob order_id else Inr lob) = Inr lob'"
    "me' = me\<lparr>me_books := (me_books me)(cor_symbol c \<mapsto> lob'),
       me_server := snd (me_send e (me_order_response_connection_id me)
         (serialize_container (me_ser e) (Cancel_Order_Response
            \<lparr>crs_order_id = order_id, crs_cl_ord_id = cor_cl_ord_id c,
             crs_success = order_id_exists lob order_id\<rparr>)) (me_server me))\<rparr>"
  using assms by (auto simp: handle_cancel_order_def result_simps)

lemma process_container_inv:
  assumes "process_container e me c = Inr me'" "me_inv me" "int32_container c"
  shows "me_inv me'"
proof (cases c)
  case (New_Order_Single n)
  then have "handle_new_order e me n = Inr me'" "int32_order n" using assms by simp_all
  then obtain order_id lob lob' events' tick' rest srv' where
    lob: "me_books me (nos_symbol n) = Some lob"
    and add: "add_order (me_world e) (me_try_publish e) lob (me_trade_events me) (me_tick me) order_id
       (order_price n) (nos_order_qty n) (nos_side n) (nos_sender_comp_id n) = Inr (lob', events', tick')"
    and me': "me' = me\<lparr>me_books := (me_books me)(nos_symbol n \<mapsto> lob'), me_trade_events := rest,
       me_tick := tick', me_server := srv'\<rparr>"
    by (elim handle_new_order_cases)
  have "lob_inv lob" "lob_ticker lob = nos_symbol n"
    using assms(2) lob by (auto simp: me_inv_def)
  then have "lob_inv lob'" "lob_ticker lob' = nos_symbol n"
    using add_order_Inr(2) [OF add] add_order_ticker [OF add] order_price_range \<open>int32_order n\<close>
    by (auto simp: int32_order_def)
  then show ?thesis using assms(2) lob me' by (auto simp: me_inv_def)
next
  case (Cancel_Order_Request n)
  then have "handle_cancel_order e me n = Inr me'" using assms by simp
  then obtain order_id lob lob' where
    lob: "me_books me (cor_symbol n) = Some lob"
    and c: "(if order_id_exists lob order_id then cancel_order lob order_id else Inr lob) = Inr lob'"
    and me': "me_books me' = (me_books me)(cor_symbol n \<mapsto> lob')" "me_symbols me' = me_symbols me"
      "me_snapshot_publishers me' = me_snapshot_publishers me"
    by (elim handle_cancel_order_cases) simp
  have "lob_inv lob" "lob_ticker lob = cor_symbol n"
    using assms(2) lob by (auto simp: me_inv_def)
  then have "lob_inv lob'" "lob_ticker lob' = cor_symbol n"
    using c cancel_order_refines [of lob order_id lob'] cancel_order_ticker [of lob order_id lob']
    by (auto split: if_splits)
  then show ?thesis using assms(2) lob me' by (auto simp: me_inv_def)
next
  case (Fill_Cost_Query q)
  then show ?thesis
    using assms by (auto simp: handle_fill_cost_query_def result_simps)
qed (use assms in auto)

lemma flush_snapshots_inv:
  assumes "flush_snapshots e now symbols me = Inr me'" "me_inv me"
  shows "me_inv me' \<and> me_books me' = me_books me"
  using assms
proof (induction e now symbols me rule: flush_snapshots.induct)
  case (2 e now_ms symbol rest me)
  then obtain lob top q where
    s: "me_books me symbol = Some lob" "get_top_order_book_level_aggregate now_ms lob = Inr top"
      "me_snapshot_publishers me symbol = Some q"
      "flush_snapshots e now_ms rest (me\<lparr>me_snapshot_publishers :=
         (me_snapshot_publishers me)(symbol \<mapsto> snd (me_try_publish_snapshot e q top))\<rparr>) = Inr me'"
    by (auto simp: result_simps)
  have "me_inv (me\<lparr>me_snapshot_publishers :=
         (me_snapshot_publishers me)(symbol \<mapsto> snd (me_try_publish_snapshot e q top))\<rparr>)"
    using "2.prems"(2) s(3) by (auto simp: me_inv_def)
  then show ?case using "2.IH" [of lob top q] s by simp
qed simp

text \<open>Runs of the service: construction for a list of active symbols, connections, iterations that do
  not end the process.\<close>

inductive me_reachable ::
  "('p, 'q, 's, 'w) me_env \<Rightarrow> string list \<Rightarrow> ('p, 'q, 's) matching_engine \<Rightarrow> bool"
  for e :: "('p, 'q, 's, 'w) me_env" and active_symbols :: "string list" where
  start: "me_reachable e active_symbols (make_matching_engine f g srv active_symbols interval now)"
| connect: "me_reachable e active_symbols me \<Longrightarrow>
    me_reachable e active_symbols (on_connection name conn_id me)"
| server: "me_reachable e active_symbols me \<Longrightarrow> me_reachable e active_symbols (me\<lparr>me_server := srv'\<rparr>)"
| iterate: "me_reachable e active_symbols me \<Longrightarrow> me_iteration e now now_ms me = Inr me' \<Longrightarrow>
    me_reachable e active_symbols me'"

definition wire_int32 :: "('w \<Rightarrow> container_wrapper option) \<Rightarrow> bool" where
  "wire_int32 par \<longleftrightarrow> (\<forall>msg c. deserialize_container par msg = Inr c \<longrightarrow> int32_container c)"

lemma me_iteration_cases:
  assumes "me_iteration e now now_ms me = Inr me'"
  obtains srv' me1 where
    "me1 = me\<lparr>me_server := srv'\<rparr> \<or>
       (\<exists>msg c. deserialize_container (me_par e) msg = Inr c \<and>
          process_container e (me\<lparr>me_server := srv'\<rparr>) c = Inr me1)"
    "me' = me1 \<or> (\<exists>me2. flush_snapshots e now_ms (me_symbols me1) me1 = Inr me2 \<and> me' = me2\<lparr>me_last_flush := now\<rparr>)"
proof -
  obtain r srv' where d: "me_dequeue_message e (me_incoming_request_connection_id me) (me_server me) = (r, srv')"
    by force
  obtain me1 where step: "(case r of None \<Rightarrow> Inr (me\<lparr>me_server := srv'\<rparr>)
        | Some msg \<Rightarrow> rbind (deserialize_container (me_par e) msg)
            (process_container e (me\<lparr>me_server := srv'\<rparr>))) = Inr me1" and
    m2: "(if now - me_last_flush me1 > me_flush_interval me1 then
            rbind (flush_snapshots e now_ms (me_symbols me1) me1) (\<lambda>me''. Inr (me''\<lparr>me_last_flush := now\<rparr>))
          else Inr me1) = Inr me'"
    using assms(1) d by (cases r) (auto simp: me_iteration_def rbind_eq_Inr)
  show ?thesis
  proof (rule that)
    show "me1 = me\<lparr>me_server := srv'\<rparr> \<or> (\<exists>msg c. deserialize_container (me_par e) msg = Inr c \<and>
          process_container e (me\<lparr>me_server := srv'\<rparr>) c = Inr me1)"
      using step by (cases r) (auto simp: result_simps)
    show "me' = me1 \<or> (\<exists>me2. flush_snapshots e now_ms (me_symbols me1) me1 = Inr me2 \<and> me' = me2\<lparr>me_last_flush := now\<rparr>)"
      using m2 by (auto simp: result_simps split: if_splits)
  qed
qed

lemma me_iteration_inv:
  assumes "me_iteration e now now_ms me = Inr me'" "me_inv me" "wire_int32 (me_par e)"
  shows "me_inv me'"
  using assms(1)
proof (rule me_iteration_cases)
  fix srv' me1
  assume step: "me1 = me\<lparr>me_server := srv'\<rparr> \<or> (\<exists>msg c. deserialize_container (me_par e) msg = Inr c \<and>
      process_container e (me\<lparr>me_server := srv'\<rparr>) c = Inr me1)"
    and flush: "me' = me1 \<or> (\<exists>me2. flush_snapshots e now_ms (me_symbols me1) me1 = Inr me2 \<and> me' = me2\<lparr>me_last_flush := now\<rparr>)"
  have "me_inv (me\<lparr>me_server := srv'\<rparr>)" using assms(2) by simp
  then have m1: "me_inv me1"
    using step process_container_inv assms(3) unfolding wire_int32_def by metis
  then show ?thesis using flush flush_snapshots_inv by fastforce
qed

text \<open>No operation of the running service changes which symbols are registered.\<close>

lemma process_container_symbols:
  "process_container e me c = Inr me' \<Longrightarrow> me_symbols me' = me_symbols me"
  by (cases c)
    (auto simp: handle_fill_cost_query_def result_simps elim!: handle_new_order_cases handle_cancel_order_cases)

lemma flush_snapshots_symbols:
  "flush_snapshots e now symbols me = Inr me' \<Longrightarrow> me_symbols me' = me_symbols me"
  by (induction e now symbols me rule: flush_snapshots.induct) (auto simp: result_simps)

lemma me_iteration_symbols:
  "me_iteration e now now_ms me = Inr me' \<Longrightarrow> me_symbols me' = me_symbols me"
  by (erule me_iteration_cases) (auto dest!: process_container_symbols flush_snapshots_symbols)

text \<open>The constructor registers each symbol once, in the order of first occurrence.\<close>

lemma add_symbols_registers:
  assumes "me_inv me" "distinct (me_symbols me)"
  shows "set (me_symbols (add_symbols f g symbols me)) = set (me_symbols me) \<union> set symbols \<and>
    distinct (me_symbols (add_symbols f g symbols me))"
  using assms
proof (induction f g symbols me rule: add_symbols.induct)
  case (2 f g symbol rest me)
  show ?case
  proof (cases "me_books me symbol = None")
    case True
    then have "symbol \<notin> set (me_symbols me)" using "2.prems"(1) by (auto simp: me_inv_def)
    then show ?thesis using "2.IH" True "2.prems" me_inv_add_symbol [OF "2.prems"(1)] by simp
  next
    case False
    then have "symbol \<in> set (me_symbols me)" using "2.prems"(1) by (auto simp: me_inv_def)
    then show ?thesis using "2.IH" False "2.prems" by auto
  qed
qed simp

lemma make_matching_engine_registers:
  "set (me_symbols (make_matching_engine f g srv symbols interval now)) = set symbols \<and>
   distinct (me_symbols (make_matching_engine f g srv symbols interval now))"
proof -
  let ?me = "\<lparr>me_incoming_request_connection_id = -1, me_order_response_connection_id = -1,
    me_server = srv, me_snapshot_publishers = Map.empty, me_flush_interval = interval,
    me_trade_events = [], me_books = Map.empty, me_symbols = [], me_tick = 0, me_last_flush = now\<rparr>"
  show ?thesis
    using add_symbols_registers [of ?me f g symbols] by (simp add: make_matching_engine_def me_inv_def)
qed

text \<open>C5 (invariant). In every run of the service, for every interleaving of connections, arriving
  messages and snapshot flushes, the symbols with a book are exactly the active symbols the engine
  was constructed for, each registered once and with one snapshot publisher, each book carries
  its symbol, and every book satisfies the order book invariant.\<close>

theorem matching_engine_books_stay_consistent:
  assumes "me_reachable e active_symbols me" "wire_int32 (me_par e)"
  shows "me_inv me \<and> dom (me_books me) = set active_symbols \<and>
    dom (me_snapshot_publishers me) = set active_symbols \<and>
    set (me_symbols me) = set active_symbols \<and> distinct (me_symbols me)"
proof -
  have "me_inv me \<and> set (me_symbols me) = set active_symbols \<and> distinct (me_symbols me)"
    using assms(1)
  proof (induction rule: me_reachable.induct)
    case start
    show ?case by (simp add: make_matching_engine_inv make_matching_engine_registers)
  next
    case (connect me name conn_id)
    then show ?case by (simp add: on_connection_def)
  next
    case (server me srv')
    then show ?case by simp
  next
    case (iterate me now now_ms me')
    then show ?case using me_iteration_inv assms(2) me_iteration_symbols by metis
  qed
  moreover have "me_inv me \<Longrightarrow> dom (me_books me) = set (me_symbols me) \<and>
      dom (me_snapshot_publishers me) = set (me_symbols me)"
    by (simp add: me_inv_def)
  ultimately show ?thesis by simp
qed

lemma int32_order_code [code]:
  "int32_order c \<longleftrightarrow> in_i32 (nos_order_qty c) \<and> (case nos_price c of None \<Rightarrow> True | Some p \<Rightarrow> in_i32 p)"
  by (simp add: int32_order_def split: option.split)

text \<open>A matching engine on recorded channels, for the witnesses.\<close>

type_synonym wire_log = "(int \<times> container_wrapper) list"

definition demo_me_env :: "(trade list, top_order_book_level_aggregates list, wire_log, container_wrapper) me_env" where
  "demo_me_env = \<lparr>me_world = demo_env, me_try_publish = demo_publish,
     me_try_publish_snapshot = (\<lambda>q x. (True, q @ [x])),
     me_send = (\<lambda>c m s. (True, s @ [(c, m)])), 
     me_dequeue_message = (\<lambda>c s. case s of (d, m) # rest \<Rightarrow> if d = c then (Some m, rest) else (None, s) | [] \<Rightarrow> (None, s)),
     me_ser = (\<lambda>w. w),
     me_par = (\<lambda>w. case deserialize_container Some w of
        Inr c \<Rightarrow> if int32_container c then Some w else None | Inl _ \<Rightarrow> None)\<rparr>"

definition demo_me :: "(trade list, top_order_book_level_aggregates list, wire_log) matching_engine" where
  "demo_me = on_connection ''order_response'' 1 (on_connection ''order_request'' 0
     (make_matching_engine (\<lambda>_. []) (\<lambda>_. []) [] [''GME''] 100 0))"

lemma demo_me_reachable: "me_reachable demo_me_env [''GME''] demo_me"
  unfolding demo_me_def by (intro me_reachable.connect me_reachable.start)

lemma demo_me_inv: "me_inv demo_me"
  unfolding demo_me_def on_connection_def by (simp add: make_matching_engine_inv)

definition demo_sell :: new_order_single where
  "demo_sell = \<lparr>nos_sender_comp_id = ''ALICE'', nos_target_comp_id = ''ME'', nos_order_id = Some 0,
     nos_cl_ord_id = 1, nos_symbol = ''GME'', nos_side = Ask, nos_order_qty = 10, nos_ord_type = Limit,
     nos_price = Some 100, nos_time_in_force = Day\<rparr>"

lemma demo_wire: "wire_int32 (me_par demo_me_env)"
proof -
  have "deserialize_container par w = Inr c \<Longrightarrow> par w = Some w \<Longrightarrow> deserialize_container Some w = Inr c" for par c and w :: container_wrapper
    by (simp add: deserialize_container_def)
  moreover have "deserialize_container par w = Inr c \<Longrightarrow> par w \<noteq> None" for par c and w :: container_wrapper
    by (cases "par w") (simp_all add: deserialize_container_def)
  ultimately show ?thesis
    by (fastforce simp: wire_int32_def demo_me_env_def split: sum.splits if_splits)
qed

text \<open>One order arrives and rests in the book.\<close>

theorem matching_engine_books_stay_consistent_witness:
  "\<exists>me' lob. me_iteration demo_me_env 0 0 (demo_me\<lparr>me_server := [(0, serialize_container (me_ser demo_me_env) (New_Order_Single demo_sell))]\<rparr>) = Inr me' \<and>
     me_inv me' \<and> dom (me_books me') = {''GME''} \<and> me_books me' ''GME'' = Some lob \<and> order_id_exists lob 0"
proof -
  let ?me = "demo_me\<lparr>me_server := [(0, serialize_container (me_ser demo_me_env) (New_Order_Single demo_sell))]\<rparr>"
  have "case me_iteration demo_me_env 0 0 ?me of
      Inr me' \<Rightarrow> (case me_books me' ''GME'' of Some lob \<Rightarrow> order_id_exists lob 0 | None \<Rightarrow> False) | Inl _ \<Rightarrow> False" by code_simp
  then obtain me' lob where i: "me_iteration demo_me_env 0 0 ?me = Inr me'" "me_books me' ''GME'' = Some lob" "order_id_exists lob 0"
    by (auto split: sum.splits option.splits)
  have "me_reachable demo_me_env [''GME''] me'"
    by (rule me_reachable.iterate [OF me_reachable.server [OF demo_me_reachable] i(1)])
  from matching_engine_books_stay_consistent [OF this demo_wire] show ?thesis using i by auto
qed

lemma order_id_exists_book:
  assumes "lob_inv lob"
  shows "order_id_exists lob i \<longleftrightarrow> (\<exists>s. i \<in> ord_id ` set (book_of lob s))"
proof -
  have "order_id_exists lob i \<longleftrightarrow> i \<in> fst ` set (node_keys (all_nodes lob))"
    using assms by (force simp: order_id_exists_def lob_inv_def index_ok_def)
  also have "\<dots> \<longleftrightarrow> i \<in> ord_id ` set (book_of lob Bid) \<or> i \<in> ord_id ` set (book_of lob Ask)"
    by (force simp: node_keys_def all_nodes_def set_book_of get_side_def)
  also have "\<dots> \<longleftrightarrow> (\<exists>s. i \<in> ord_id ` set (book_of lob s))"
    by (metis side.exhaust)
  finally show ?thesis .
qed

section \<open>Delivery of trades\<close>

definition trade_message :: "(container_wrapper \<Rightarrow> 'w) \<Rightarrow> trade \<Rightarrow> 'w" where
  "trade_message ser t = serialize_container ser (Trade_Container (trade_to_container t))"

text \<open>\<open>send_trades\<close> is the interface's \<open>send_list\<close> on the messages of the trades.\<close>

lemma send_trades_send_list:
  assumes "message_sender ok send sent" "send_trades send ser conn ts srv = (rest, srv')"
  shows "message_sender.send_list send conn (map (trade_message ser) ts) srv = (map (trade_message ser) rest, srv') \<and>
    (\<exists>done'. ts = done' @ rest)"
  using assms(2)
proof (induction ts arbitrary: srv)
  case Nil
  then show ?case by (simp add: message_sender.send_list.simps [OF assms(1)])
next
  case (Cons t ts)
  obtain ok srv1 where s: "send conn (trade_message ser t) srv = (ok, srv1)" by force
  show ?case
  proof (cases ok)
    case True
    then have "send_trades send ser conn ts srv1 = (rest, srv')"
      using Cons.prems s by (simp add: trade_message_def)
    from Cons.IH [OF this] show ?thesis
      using s True by (auto simp: message_sender.send_list.simps [OF assms(1)])
  next
    case False
    then show ?thesis
      using Cons.prems s by (auto simp: message_sender.send_list.simps [OF assms(1)] trade_message_def)
  qed
qed

lemma send_trades_log:
  assumes "message_sender ok send sent" "ok srv" "send_trades send ser conn ts srv = (rest, srv')"
  shows "\<exists>d. ts = d @ rest \<and> ok srv' \<and> sent srv' = (sent srv)(conn := sent srv conn @ map (trade_message ser) d) \<and>
    (rest \<noteq> [] \<longrightarrow> (\<exists>srv1. ok srv1 \<and> sent srv1 = sent srv' \<and>
       send conn (trade_message ser (hd rest)) srv1 = (False, srv')))"
proof -
  obtain d' where d': "ts = d' @ rest"
    and l: "message_sender.send_list send conn (map (trade_message ser) ts) srv = (map (trade_message ser) rest, srv')"
    using send_trades_send_list [OF assms(1,3)] by blast
  then show ?thesis
    using message_sender.send_list_log [OF assms(1) l assms(2)]
    by (intro exI [of _ d']) (auto simp: hd_map)
qed

text \<open>C6 (functional). No trade is lost, repeated or reordered on the way to the order manager: what a
  new order adds to the queue of trade events are its trades; the messages sent while it is
  handled are exactly a prefix of the queue, oldest first; sending stops before the end of the queue
  only because the send of the first trade that stays behind failed, all before it having been sent;
  and what stays behind is at the front of the queue for the next order. In particular, when no
  send fails the queue is empty afterwards and every trade has been sent.\<close>

theorem new_order_trades_are_delivered_in_order:
  assumes "handle_new_order e me c = Inr me'" "message_sender ok (me_send e) sent" "ok (me_server me)"
    and "me_inv me" "int32_order c"
  shows "\<exists>lob order_id fs rem delivered ts.
    me_books me (nos_symbol c) = Some lob \<and> nos_order_id c = Some order_id \<and>
    spec_add (book_of lob) order_id (order_price c) (nos_order_qty c) (nos_side c) (nos_sender_comp_id c) =
      (book_of (the (me_books me' (nos_symbol c))), fs, rem) \<and>
    list_all2 (reports_fill order_id (nos_side c)) fs ts \<and>
    me_trade_events me @ ts = delivered @ me_trade_events me' \<and>
    sent (me_server me') = (sent (me_server me))(me_order_response_connection_id me :=
      sent (me_server me) (me_order_response_connection_id me) @ map (trade_message (me_ser e)) delivered) \<and>
    (me_trade_events me' \<noteq> [] \<longrightarrow> (\<exists>srv1. ok srv1 \<and> sent srv1 = sent (me_server me') \<and>
      me_send e (me_order_response_connection_id me)
        (trade_message (me_ser e) (hd (me_trade_events me'))) srv1 = (False, me_server me')))"
proof -
  obtain order_id lob lob' events' tick' rest srv' where
    a: "nos_order_id c = Some order_id" "me_books me (nos_symbol c) = Some lob"
    and add: "add_order (me_world e) (me_try_publish e) lob (me_trade_events me) (me_tick me) order_id
       (order_price c) (nos_order_qty c) (nos_side c) (nos_sender_comp_id c) = Inr (lob', events', tick')"
    and send: "send_trades (me_send e) (me_ser e) (me_order_response_connection_id me) events' (me_server me) = (rest, srv')"
    and me': "me' = me\<lparr>me_books := (me_books me)(nos_symbol c \<mapsto> lob'), me_trade_events := rest,
       me_tick := tick', me_server := srv'\<rparr>"
    using assms(1) by (elim handle_new_order_cases)
  have lob: "lob_inv lob" using assms(4) a(2) by (auto simp: me_inv_def)
  obtain fs rem where spec: "spec_add (book_of lob) order_id (order_price c) (nos_order_qty c) (nos_side c)
      (nos_sender_comp_id c) = (book_of lob', fs, rem)"
    and ev: "events' = me_trade_events me @ trades_of (mk_args (me_world e) (me_try_publish e) lob (order_price c)
      order_id (nos_side c) (nos_sender_comp_id c)) (me_tick me) fs"
    using add_order_refines [OF add lob] assms(5) order_price_range by (auto simp: int32_order_def)
  from send_trades_log [OF assms(2,3) send] obtain d where "events' = d @ rest"
    "sent srv' = (sent (me_server me))(me_order_response_connection_id me :=
      sent (me_server me) (me_order_response_connection_id me) @ map (trade_message (me_ser e)) d)"
    "rest \<noteq> [] \<longrightarrow> (\<exists>srv1. ok srv1 \<and> sent srv1 = sent srv' \<and>
       me_send e (me_order_response_connection_id me) (trade_message (me_ser e) (hd rest)) srv1 = (False, srv'))"
    by blast
  then show ?thesis
    using a spec ev me'
    by (intro exI [of _ lob] exI [of _ order_id] exI [of _ fs] exI [of _ rem] exI [of _ d]
        exI [of _ "trades_of (mk_args (me_world e) (me_try_publish e) lob (order_price c) order_id (nos_side c)
          (nos_sender_comp_id c)) (me_tick me) fs"]) (simp add: trades_report_fills)
qed

definition demo_sent :: "wire_log \<Rightarrow> int \<Rightarrow> container_wrapper list" where
  "demo_sent s c = map snd (filter (\<lambda>x. fst x = c) s)"

lemma demo_sender: "message_sender (\<lambda>_. True) (me_send demo_me_env) demo_sent"
  by unfold_locales (auto simp: demo_me_env_def demo_sent_def fun_eq_iff)

text \<open>The engine with a resting ask, and a bid that crosses it.\<close>

lemma demo_book_ticker: "lob_ticker demo_book = ''GME''"
  by code_simp

definition demo_me2 :: "(trade list, top_order_book_level_aggregates list, wire_log) matching_engine" where
  "demo_me2 = demo_me\<lparr>me_books := [''GME'' \<mapsto> demo_book], me_snapshot_publishers := [''GME'' \<mapsto> []]\<rparr>"

lemma demo_me2_inv: "me_inv demo_me2"
  using demo_me_inv demo_book_inv demo_book_ticker
  by (auto simp: me_inv_def demo_me2_def demo_me_def make_matching_engine_def on_connection_def)

definition demo_crossing_bid :: new_order_single where
  "demo_crossing_bid = demo_sell\<lparr>nos_sender_comp_id := ''BOB'', nos_order_id := Some 1, nos_side := Bid,
     nos_order_qty := 4, nos_price := Some 101\<rparr>"

text \<open>The bid trades; its trade is sent, on the response connection, and the queue is empty.\<close>

theorem new_order_trades_are_delivered_in_order_witness:
  "\<exists>me' t. handle_new_order demo_me_env demo_me2 demo_crossing_bid = Inr me' \<and> me_trade_events me' = [] \<and>
     tr_price t = 100 \<and> tr_quantity t = 4 \<and>
     demo_sent (me_server me') 1 = demo_sent (me_server demo_me2) 1 @ [trade_message (me_ser demo_me_env) t]"
proof -
  have "succeeds (handle_new_order demo_me_env demo_me2 demo_crossing_bid)"
    by code_simp
  then obtain me' where h: "handle_new_order demo_me_env demo_me2 demo_crossing_bid = Inr me'"
    by (auto simp: succeeds_iff)
  have conn: "me_order_response_connection_id demo_me2 = 1" "me_trade_events demo_me2 = []"
    and book: "me_books demo_me2 ''GME'' = Some demo_book"
    by (simp_all add: demo_me2_def demo_me_def make_matching_engine_def on_connection_def)
  have bid: "nos_symbol demo_crossing_bid = ''GME''" "nos_order_id demo_crossing_bid = Some 1"
    "nos_side demo_crossing_bid = Bid" "int32_order demo_crossing_bid"
    by (simp_all add: int32_order_def demo_crossing_bid_def demo_sell_def in_i32_def)
  have fills: "case spec_add (book_of demo_book) 1 (order_price demo_crossing_bid) (nos_order_qty demo_crossing_bid) Bid
      (nos_sender_comp_id demo_crossing_bid) of (_, fs, _) \<Rightarrow> map (\<lambda>f. (ord_price (fst f), snd f)) fs = [(100, 4)]"
    by code_simp
  from new_order_trades_are_delivered_in_order [OF h demo_sender TrueI demo_me2_inv bid(4)]
  obtain fs delivered ts where d: "list_all2 (reports_fill 1 Bid) fs ts" "ts = delivered @ me_trade_events me'"
    "map (\<lambda>f. (ord_price (fst f), snd f)) fs = [(100, 4)]"
    "demo_sent (me_server me') = (demo_sent (me_server demo_me2))(1 :=
       demo_sent (me_server demo_me2) 1 @ map (trade_message (me_ser demo_me_env)) delivered)"
    "me_trade_events me' = []"
    using conn book bid fills by (auto simp: demo_me_env_def)
  then obtain f t where "fs = [f]" "ts = [t]" "delivered = [t]" "reports_fill 1 Bid f t" "ord_price (fst f) = 100" "snd f = 4"
    by (auto simp: list_all2_Cons1)
  then show ?thesis using h d by (auto simp: reports_fill_def)
qed

section \<open>Cancels, isolation and failure\<close>

text \<open>C9 (functional). A cancel request for an active symbol never fails: the order leaves the book of
  that symbol if it rests there, otherwise nothing changes, and the reply to the order manager says
  which of the two happened.\<close>

theorem cancel_request_is_answered_truthfully:
  assumes "me_inv me" "me_books me (cor_symbol c) = Some lob" "cor_order_id c = Some order_id"
  shows "\<exists>lob'. handle_cancel_order e me c =
      Inr (me\<lparr>me_books := (me_books me)(cor_symbol c \<mapsto> lob'),
              me_server := snd (me_send e (me_order_response_connection_id me)
                (serialize_container (me_ser e) (Cancel_Order_Response
                   \<lparr>crs_order_id = order_id, crs_cl_ord_id = cor_cl_ord_id c,
                    crs_success = (\<exists>s. order_id \<in> ord_id ` set (book_of lob s))\<rparr>)) (me_server me))\<rparr>) \<and>
    book_of lob' = spec_cancel (book_of lob) order_id \<and> lob_inv lob'"
proof -
  have inv: "lob_inv lob" using assms(1,2) by (auto simp: me_inv_def)
  have known: "order_id_exists lob order_id \<longleftrightarrow> (\<exists>s. order_id \<in> ord_id ` set (book_of lob s))"
    using order_id_exists_book [OF inv] .
  show ?thesis
  proof (cases "order_id_exists lob order_id")
    case True
    then obtain addr where "lob_order_id_map lob order_id = Some addr" by (auto simp: order_id_exists_def)
    then obtain lob' where c: "cancel_order lob order_id = Inr lob'"
      using cancel_order_correct [OF inv] by metis
    then show ?thesis
      using assms(2,3) True known cancel_order_refines [OF c inv]
      by (intro exI [of _ lob']) (simp add: handle_cancel_order_def)
  next
    case False
    then have "spec_cancel (book_of lob) order_id = book_of lob"
      using known by (force simp: spec_cancel_def fun_eq_iff filter_id_conv)
    then show ?thesis
      using assms(2,3) False known inv
      by (intro exI [of _ lob]) (simp add: handle_cancel_order_def)
  qed
qed

definition demo_cancel :: cancel_order_request where
  "demo_cancel = \<lparr>cor_sender_comp_id = ''ALICE'', cor_target_comp_id = ''ME'', cor_order_id = Some 5,
     cor_orig_cl_ord_id = 1, cor_cl_ord_id = 2, cor_symbol = ''GME'', cor_side = Ask, cor_order_qty = 10\<rparr>"

lemma demo_me_book: "me_books demo_me ''GME'' = Some (make_limit_order_book ''GME'' [])"
  by (simp add: demo_me_def make_matching_engine_def on_connection_def)

theorem cancel_request_is_answered_truthfully_witness:
  "succeeds (handle_cancel_order demo_me_env demo_me demo_cancel)"
  using cancel_request_is_answered_truthfully [of demo_me demo_cancel "make_limit_order_book ''GME'' []" 5 demo_me_env]
    demo_me_inv demo_me_book
  by (auto simp: demo_cancel_def succeeds_def)

text \<open>The symbol whose book a request is about.\<close>

fun request_symbol :: "container \<Rightarrow> string option" where
  "request_symbol (New_Order_Single c) = Some (nos_symbol c)"
| "request_symbol (Cancel_Order_Request c) = Some (cor_symbol c)"
| "request_symbol (Fill_Cost_Query c) = Some (fcq_symbol c)"
| "request_symbol _ = None"

text \<open>Symbols are isolated: a request changes at most the book of its own symbol, a fill cost
  query changes no book, and containers the engine does not expect change nothing at all.\<close>

theorem requests_touch_only_their_book:
  assumes "process_container e me c = Inr me'"
  shows "(\<forall>symbol. request_symbol c \<noteq> Some symbol \<longrightarrow> me_books me' symbol = me_books me symbol) \<and>
    ((\<exists>q. c = Fill_Cost_Query q) \<longrightarrow> me_books me' = me_books me) \<and>
    (request_symbol c = None \<longrightarrow> me' = me)"
proof (cases c)
  case (New_Order_Single n)
  then have "handle_new_order e me n = Inr me'" using assms by simp
  then show ?thesis using New_Order_Single by (elim handle_new_order_cases) simp
next
  case (Cancel_Order_Request n)
  then have "handle_cancel_order e me n = Inr me'" using assms by simp
  then show ?thesis using Cancel_Order_Request by (elim handle_cancel_order_cases) simp
next
  case (Fill_Cost_Query q)
  then show ?thesis using assms by (auto simp: handle_fill_cost_query_def result_simps)
qed (use assms in auto)

theorem requests_touch_only_their_book_witness:
  "\<exists>me'. process_container demo_me_env demo_me (Cancel_Order_Request demo_cancel) = Inr me' \<and>
     me_books me' ''AMC'' = me_books demo_me ''AMC''"
proof -
  have "succeeds (process_container demo_me_env demo_me (Cancel_Order_Request demo_cancel))"
    by code_simp
  then obtain me' where p: "process_container demo_me_env demo_me (Cancel_Order_Request demo_cancel) = Inr me'"
    by (auto simp: succeeds_iff)
  show ?thesis using requests_touch_only_their_book [OF p] p by (simp add: demo_cancel_def)
qed

text \<open>A request for a symbol without a book ends the process: the lookup throws and nothing
  catches it, whether the request is an order, a cancel or a fill cost query.\<close>

theorem unknown_symbol_ends_the_engine:
  assumes "request_symbol c = Some symbol" "me_books me symbol = None"
    and "\<forall>n. c = New_Order_Single n \<longrightarrow> nos_order_id n \<noteq> None"
    and "\<forall>n. c = Cancel_Order_Request n \<longrightarrow> cor_order_id n \<noteq> None"
  shows "process_container e me c = Inl Out_Of_Range"
  using assms
  by (cases c) (auto simp: handle_new_order_def handle_cancel_order_def handle_fill_cost_query_def)

theorem unknown_symbol_ends_the_engine_witness:
  "process_container demo_me_env demo_me
     (Fill_Cost_Query \<lparr>fcq_symbol = ''AMC'', fcq_quantity = 5, fcq_side = Ask\<rparr>) = Inl Out_Of_Range"
  by (rule unknown_symbol_ends_the_engine [of _ "''AMC''"])
    (simp_all add: demo_me_def make_matching_engine_def on_connection_def)

end
