(* ===== verification/BalanceChecker.thy ===== *)
theory BalanceChecker
  imports Prelude
begin

text \<open>
  The balance checker of the order manager (\<open>services/order_manager/src/balance_checker.cpp\<close>): a
  hash map from broker to a hash map from ticker to a 64-bit amount, with contracts on every
  operation. \<open>ledger\<close> is the interface the order manager relies on: what an update does to one
  amount, to all others and to the total of a ticker.
\<close>

section \<open>Operations\<close>

type_synonym balance_map = "string \<rightharpoonup> (string \<rightharpoonup> int)"

definition broker_id_exists :: "balance_map \<Rightarrow> string \<Rightarrow> bool" where
  "broker_id_exists m broker_id \<longleftrightarrow> m broker_id \<noteq> None"

definition broker_owns_ticker :: "balance_map \<Rightarrow> string \<Rightarrow> string \<Rightarrow> bool result" where
  "broker_owns_ticker m broker_id ticker =
     (case m broker_id of
        None \<Rightarrow> Inl Contract_Violation
      | Some r \<Rightarrow> if ticker = [] then Inl Contract_Violation else Inr (r ticker \<noteq> None))"

definition get_balance :: "balance_map \<Rightarrow> string \<Rightarrow> string \<Rightarrow> int result" where
  "get_balance m broker_id ticker =
     rbind (broker_owns_ticker m broker_id ticker) (\<lambda>owns.
       if owns then
         (let rtn = the (the (m broker_id) ticker) in
          if rtn \<ge> 0 then Inr rtn else Inl Contract_Violation)
       else Inl Contract_Violation)"

definition has_sufficient_balance :: "balance_map \<Rightarrow> string \<Rightarrow> string \<Rightarrow> int \<Rightarrow> bool result" where
  "has_sufficient_balance m broker_id ticker delta =
     rbind (get_balance m broker_id ticker) (\<lambda>b.
     rbind (i64 (b + delta)) (\<lambda>s. Inr (s \<ge> 0)))"

definition update_balance :: "balance_map \<Rightarrow> string \<Rightarrow> string \<Rightarrow> int \<Rightarrow> balance_map result" where
  "update_balance m broker_id ticker delta =
     (if ticker = [] then Inl Contract_Violation
      else case m broker_id of
        None \<Rightarrow> Inr (m(broker_id \<mapsto> [ticker \<mapsto> delta]))
      | Some r \<Rightarrow>
          (case r ticker of
             None \<Rightarrow> Inr (m(broker_id \<mapsto> r(ticker \<mapsto> delta)))
           | Some v \<Rightarrow>
               rbind (has_sufficient_balance m broker_id ticker delta) (\<lambda>ok.
                 if ok then rbind (i64 (v + delta)) (\<lambda>v'. Inr (m(broker_id \<mapsto> r(ticker \<mapsto> v'))))
                 else Inl Assertion_Failure)))"

section \<open>Amounts and totals\<close>

definition amount :: "balance_map \<Rightarrow> string \<Rightarrow> string \<Rightarrow> int" where
  "amount m broker_id ticker =
     (case m broker_id of None \<Rightarrow> 0 | Some r \<Rightarrow> (case r ticker of None \<Rightarrow> 0 | Some v \<Rightarrow> v))"

definition has_record :: "balance_map \<Rightarrow> string \<Rightarrow> string \<Rightarrow> bool" where
  "has_record m broker_id ticker \<longleftrightarrow> (case m broker_id of None \<Rightarrow> False | Some r \<Rightarrow> r ticker \<noteq> None)"

definition balances_ok :: "balance_map \<Rightarrow> bool" where
  "balances_ok m \<longleftrightarrow> finite (dom m) \<and>
     (\<forall>b r t v. m b = Some r \<longrightarrow> r t = Some v \<longrightarrow> 0 \<le> v \<and> in_i64 v)"

definition total :: "balance_map \<Rightarrow> string \<Rightarrow> int" where
  "total m ticker = (\<Sum>b \<in> dom m. amount m b ticker)"

lemma amount_nonneg: "balances_ok m \<Longrightarrow> 0 \<le> amount m b t"
  by (auto simp: amount_def balances_ok_def split: option.splits)

lemma amount_range: "balances_ok m \<Longrightarrow> in_i64 (amount m b t)"
  by (auto simp: amount_def balances_ok_def in_i64_def split: option.splits)

lemma amount_absent: "m b = None \<Longrightarrow> amount m b t = 0"
  by (simp add: amount_def)

lemma get_balance_record:
  assumes "balances_ok m" "has_record m b t" "t \<noteq> []"
  shows "get_balance m b t = Inr (amount m b t)"
  using assms amount_nonneg [OF assms(1), of b t]
  by (auto simp: get_balance_def broker_owns_ticker_def has_record_def amount_def split: option.splits)

lemma has_sufficient_balance_record:
  assumes "balances_ok m" "has_record m b t" "t \<noteq> []" "in_i64 (amount m b t + d)"
  shows "has_sufficient_balance m b t d = Inr (0 \<le> amount m b t + d)"
  using get_balance_record [OF assms(1-3)] assms(4) by (simp add: has_sufficient_balance_def)

text \<open>When an update returns, what it did.\<close>

lemma update_balance_Inr:
  assumes "update_balance m b t d = Inr m'"
  obtains r where "m' = m(b \<mapsto> r(t \<mapsto> amount m b t + d))" "t \<noteq> []"
    "r = (case m b of None \<Rightarrow> Map.empty | Some r0 \<Rightarrow> r0)"
    "has_record m b t \<longrightarrow> 0 \<le> amount m b t + d \<and> in_i64 (amount m b t + d)"
  using assms
  by (cases "m b"; cases "the (m b) t")
    (auto simp: update_balance_def amount_def has_record_def has_sufficient_balance_def get_balance_def
      broker_owns_ticker_def result_simps Let_def split: if_splits)

lemma update_balance_amount:
  assumes "update_balance m b t d = Inr m'"
  shows "amount m' b' t' = amount m b' t' + (if b' = b \<and> t' = t then d else 0)"
proof -
  obtain r where r: "m' = m(b \<mapsto> r(t \<mapsto> amount m b t + d))" "r = (case m b of None \<Rightarrow> Map.empty | Some r0 \<Rightarrow> r0)"
    using assms by (rule update_balance_Inr)
  then show ?thesis
    by (cases "b' = b"; cases "t' = t"; cases "m b") (auto simp: amount_def split: option.splits)
qed

lemma update_balance_record:
  assumes "update_balance m b t d = Inr m'"
  shows "has_record m' b' t' \<longleftrightarrow> has_record m b' t' \<or> b' = b \<and> t' = t"
proof -
  obtain r where r: "m' = m(b \<mapsto> r(t \<mapsto> amount m b t + d))" "r = (case m b of None \<Rightarrow> Map.empty | Some r0 \<Rightarrow> r0)"
    using assms by (rule update_balance_Inr)
  then show ?thesis
    by (cases "b' = b"; cases "m b") (auto simp: has_record_def split: option.splits)
qed

lemma update_balance_ok:
  assumes "update_balance m b t d = Inr m'" "balances_ok m" "has_record m b t \<or> 0 \<le> d \<and> in_i64 d"
  shows "balances_ok m'"
proof -
  obtain r where r: "m' = m(b \<mapsto> r(t \<mapsto> amount m b t + d))" "r = (case m b of None \<Rightarrow> Map.empty | Some r0 \<Rightarrow> r0)"
    and v: "has_record m b t \<longrightarrow> 0 \<le> amount m b t + d \<and> in_i64 (amount m b t + d)"
    using assms(1) by (rule update_balance_Inr) blast
  have "amount m b t = 0" if "\<not> has_record m b t"
    using that by (auto simp: amount_def has_record_def split: option.splits)
  then have v': "0 \<le> amount m b t + d" "in_i64 (amount m b t + d)"
    using v assms(3) by (cases "has_record m b t"; force)+
  have "0 \<le> w \<and> in_i64 w" if "r u = Some w" for u w
    using assms(2) r(2) that by (auto simp: balances_ok_def split: option.splits)
  then show ?thesis
    using assms(2) r(1) v' by (auto simp: balances_ok_def split: if_splits)
qed

lemma total_update:
  assumes "update_balance m b t d = Inr m'" "balances_ok m"
  shows "total m' t' = total m t' + (if t' = t then d else 0)"
proof -
  obtain r where r: "m' = m(b \<mapsto> r(t \<mapsto> amount m b t + d))"
    using assms(1) by (rule update_balance_Inr) blast
  have fin: "finite (dom m)" using assms(2) by (simp add: balances_ok_def)
  note am = update_balance_amount [OF assms(1)]
  have "total m' t' = (\<Sum>x \<in> insert b (dom m). amount m' x t')"
    using r by (simp add: total_def)
  also have "\<dots> = (\<Sum>x \<in> insert b (dom m). amount m x t' + (if x = b \<and> t' = t then d else 0))"
    using am by simp
  also have "\<dots> = (\<Sum>x \<in> insert b (dom m). amount m x t') + (if t' = t then d else 0)"
    using fin by (simp add: sum.distrib sum.delta)
  also have "(\<Sum>x \<in> insert b (dom m). amount m x t') = total m t'"
    using fin by (cases "b \<in> dom m") (auto simp: total_def insert_absorb amount_absent domIff)
  finally show ?thesis .
qed

lemma update_balance_progress:
  assumes "balances_ok m" "t \<noteq> []" "has_record m b t \<Longrightarrow> 0 \<le> amount m b t + d \<and> in_i64 (amount m b t + d)"
  shows "succeeds (update_balance m b t d)"
proof (cases "has_record m b t")
  case True
  then show ?thesis
    using assms has_sufficient_balance_record [OF assms(1) True assms(2), of d]
    by (auto simp: update_balance_def has_record_def amount_def succeeds_def split: option.splits)
next
  case False
  then show ?thesis
    using assms(2) by (auto simp: update_balance_def has_record_def succeeds_def split: option.splits)
qed

section \<open>The interface\<close>

text \<open>
  A ledger: amounts per account and unit, updates that either fail or add to exactly one amount,
  and totals per unit that change by what was added.
\<close>

locale ledger =
  fixes ok :: "'b \<Rightarrow> bool"
    and amt :: "'b \<Rightarrow> 'acc \<Rightarrow> 'u \<Rightarrow> int"
    and tot :: "'b \<Rightarrow> 'u \<Rightarrow> int"
    and registered :: "'b \<Rightarrow> 'acc \<Rightarrow> 'u \<Rightarrow> bool"
    and update :: "'b \<Rightarrow> 'acc \<Rightarrow> 'u \<Rightarrow> int \<Rightarrow> 'b result"
    and admissible :: "int \<Rightarrow> bool"
  assumes amt_nonneg: "ok m \<Longrightarrow> 0 \<le> amt m a u"
    and update_amt: "update m a u d = Inr m' \<Longrightarrow> amt m' a' u' = amt m a' u' + (if a' = a \<and> u' = u then d else 0)"
    and update_tot: "ok m \<Longrightarrow> update m a u d = Inr m' \<Longrightarrow> tot m' u' = tot m u' + (if u' = u then d else 0)"
    and update_ok: "ok m \<Longrightarrow> update m a u d = Inr m' \<Longrightarrow> registered m a u \<or> 0 \<le> d \<and> admissible d \<Longrightarrow> ok m'"
    and update_registered: "update m a u d = Inr m' \<Longrightarrow> registered m' a' u' \<longleftrightarrow> registered m a' u' \<or> a' = a \<and> u' = u"
begin

text \<open>A sequence of credits, as a settlement makes them.\<close>

fun credit_all :: "'b \<Rightarrow> ('acc \<times> 'u \<times> int) list \<Rightarrow> 'b result" where
  "credit_all m [] = Inr m"
| "credit_all m ((a, u, d) # cs) = rbind (update m a u d) (\<lambda>m'. credit_all m' cs)"

definition credited :: "('acc \<times> 'u \<times> int) list \<Rightarrow> 'u \<Rightarrow> int" where
  "credited cs u = sum_list (map (\<lambda>(a, u', d). if u' = u then d else 0) cs)"

definition credited_to :: "('acc \<times> 'u \<times> int) list \<Rightarrow> 'acc \<Rightarrow> 'u \<Rightarrow> int" where
  "credited_to cs a u = sum_list (map (\<lambda>(a', u', d). if a' = a \<and> u' = u then d else 0) cs)"

lemma credit_all_correct:
  assumes "credit_all m cs = Inr m'" "ok m" "\<forall>(a, u, d) \<in> set cs. 0 \<le> d \<and> admissible d"
  shows "ok m' \<and> (\<forall>u. tot m' u = tot m u + credited cs u) \<and>
    (\<forall>a u. amt m' a u = amt m a u + credited_to cs a u)"
  using assms
proof (induction cs arbitrary: m)
  case Nil
  then show ?case by (simp add: credited_def credited_to_def)
next
  case (Cons c cs)
  obtain a u d where c: "c = (a, u, d)" by (cases c) auto
  obtain m1 where u: "update m a u d = Inr m1" and rest: "credit_all m1 cs = Inr m'"
    using Cons.prems(1) c by (auto simp: result_simps)
  have ok1: "ok m1" using update_ok [OF Cons.prems(2) u] Cons.prems(3) c by auto
  show ?case
    using Cons.IH [OF rest ok1] Cons.prems(3) c update_tot [OF Cons.prems(2) u] update_amt [OF u]
    by (auto simp: credited_def credited_to_def)
qed

end

interpretation bal: ledger balances_ok amount total has_record update_balance in_i64
  using amount_nonneg update_balance_amount total_update update_balance_ok update_balance_record
  by unfold_locales blast+

end
