(* ===== verification/OrderManager.thy ===== *)
theory OrderManager
  imports Messaging BalanceChecker
begin

text \<open>
  The order manager service (\<open>services/order_manager/src/order_manager.cpp\<close>): it gives every order an
  internal id, reserves the balance it may spend, forwards it to the matching engine, settles the
  trades and cancellations the engine answers with, and reports each event to the gateway.

  The connections to the gateways, to the matching engine and to the database are interfaces of the
  program (\<open>InboundServer\<close>, \<open>OutboundClient\<close>, \<open>OrderManagerDatabase\<close>). Their states are the types
  \<open>'s\<close>, \<open>'c\<close> and \<open>'d\<close>, their operations are arguments collected in \<open>om_env\<close>. Every function below
  takes the order manager's state and returns it changed; \<open>Inl\<close> is the end of the process. A call
  that waits for an answer may never return: that is \<open>None\<close>.
\<close>

section \<open>State\<close>

definition USD_SYMBOL :: string where
  "USD_SYMBOL = ''USD''"

record order_info =
  oi_sender_comp_id :: string
  oi_symbol :: string
  oi_side :: side
  oi_price :: "int option"
  oi_time_in_force :: time_in_force
  oi_leaves_qty :: int
  oi_cum_qty :: int
  oi_avg_px :: int
  oi_arrival_gateway_id :: int

text \<open>
  \<open>boost::bimap<int, int>\<close>: both views of a one-to-one relation; \<open>insert\<close> does nothing when either
  side is taken.
\<close>

record bimap =
  bm_left :: "int \<rightharpoonup> int"
  bm_right :: "int \<rightharpoonup> int"

definition bm_empty :: bimap where
  "bm_empty = \<lparr>bm_left = Map.empty, bm_right = Map.empty\<rparr>"

definition bm_insert :: "int \<Rightarrow> int \<Rightarrow> bimap \<Rightarrow> bimap" where
  "bm_insert l r m =
     (if bm_left m l = None \<and> bm_right m r = None
      then \<lparr>bm_left = (bm_left m)(l \<mapsto> r), bm_right = (bm_right m)(r \<mapsto> l)\<rparr> else m)"

text \<open>The writing operations of the database interface, with their arguments.\<close>

datatype db_call =
    Insert_Order int new_order_single bool
  | Insert_Cancel_Request cancel_order_request bool
  | Insert_Trade trade_container
  | Insert_Cancel_Response cancel_order_response
  | Update_Balance int int string int

record db_user_balance_info =
  dbu_user_id :: int
  dbu_username :: string
  dbu_balances :: "(string \<times> int) list"

record ('s, 'c, 'd, 'w) om_env =
  om_server_name :: string
  om_exec_id :: "nat \<Rightarrow> string"
  om_ser :: "container_wrapper \<Rightarrow> 'w"
  om_par :: "'w \<Rightarrow> container_wrapper option"
  om_inbound_send :: "int \<Rightarrow> 'w \<Rightarrow> 's \<Rightarrow> bool \<times> 's"
  om_inbound_dequeue :: "int \<Rightarrow> 's \<Rightarrow> 'w option \<times> 's"
  om_client_send :: "int \<Rightarrow> 'w \<Rightarrow> 'c \<Rightarrow> bool \<times> 'c"
  om_client_dequeue :: "int \<Rightarrow> 'c \<Rightarrow> 'w option \<times> 'c"
  om_client_wait :: "int \<Rightarrow> 'c \<Rightarrow> 'w option \<times> 'c"
  om_client_connect :: "string \<Rightarrow> int \<Rightarrow> string \<Rightarrow> 'c \<Rightarrow> int option \<times> 'c"
  om_db :: "db_call \<Rightarrow> 'd \<Rightarrow> 'd"

text \<open>
  \<open>om_latest_assigned_order_id\<close> is the static variable of \<open>preprocess_container\<close>, \<open>om_gateway_it\<close> the
  position of the iterator of \<open>run\<close>, and \<open>om_reports\<close> counts the execution ids generated so far.
\<close>

record ('s, 'c, 'd) order_manager =
  om_active_symbols :: "string set"
  om_gateway_connection_ids :: "int list"
  om_order_request_connection_id :: int
  om_order_response_connection_id :: int
  om_inbound_server :: 's
  om_order_request_client :: 'c
  om_order_response_client :: 'c
  om_balances :: balance_map
  om_username_user_id_map :: "string \<rightharpoonup> int"
  om_database :: 'd
  om_server_id :: int
  om_order_id_map :: bimap
  om_order_info_map :: "int \<rightharpoonup> order_info"
  om_latest_assigned_order_id :: int
  om_gateway_it :: nat
  om_reports :: nat

section \<open>Start-up\<close>

definition make_order_manager ::
  "string list \<Rightarrow> 's \<Rightarrow> 'c \<Rightarrow> 'c \<Rightarrow> 'd \<Rightarrow> ('s, 'c, 'd) order_manager" where
  "make_order_manager active_symbols inbound_server order_request_client order_response_client database =
     \<lparr>om_active_symbols = set active_symbols, om_gateway_connection_ids = [],
      om_order_request_connection_id = -1, om_order_response_connection_id = -1,
      om_inbound_server = inbound_server, om_order_request_client = order_request_client,
      om_order_response_client = order_response_client, om_balances = Map.empty,
      om_username_user_id_map = Map.empty, om_database = database, om_server_id = -1,
      om_order_id_map = bm_empty, om_order_info_map = Map.empty, om_latest_assigned_order_id = -1,
      om_gateway_it = 0, om_reports = 0\<rparr>"

fun load_balances ::
  "int \<Rightarrow> string \<Rightarrow> (string \<times> int) list \<Rightarrow> balance_map \<times> (string \<rightharpoonup> int) \<Rightarrow>
   (balance_map \<times> (string \<rightharpoonup> int)) result" where
  "load_balances user_id username [] (bal, ids) = Inr (bal, ids)"
| "load_balances user_id username ((symbol, balance) # rest) (bal, ids) =
     rbind (BalanceChecker.update_balance bal username symbol balance) (\<lambda>bal'.
       load_balances user_id username rest
         (bal', if ids username = None then ids(username \<mapsto> user_id) else ids))"

fun load_users ::
  "db_user_balance_info list \<Rightarrow> balance_map \<times> (string \<rightharpoonup> int) \<Rightarrow>
   (balance_map \<times> (string \<rightharpoonup> int)) result" where
  "load_users [] st = Inr st"
| "load_users (u # us) st =
     rbind (load_balances (dbu_user_id u) (dbu_username u) (dbu_balances u) st) (load_users us)"

text \<open>\<open>answer\<close> is what \<open>get_all_users_balances_for_server\<close> returned; \<open>None\<close> is an error.\<close>

definition init_balance_checker ::
  "db_user_balance_info list option \<Rightarrow> balance_map \<times> (string \<rightharpoonup> int) \<Rightarrow>
   (balance_map \<times> (string \<rightharpoonup> int)) result" where
  "init_balance_checker answer st =
     (case answer of
        None \<Rightarrow> Inl Terminated
      | Some users_balances \<Rightarrow>
          if users_balances = [] then Inl Assertion_Failure else load_users users_balances st)"

text \<open>
  \<open>init\<close>: \<open>started\<close> says whether the server and both clients started, \<open>server_row\<close> is the id of the
  server's row (\<open>None\<close> for an error or a missing row, which both end the process).
\<close>

definition init ::
  "bool \<times> bool \<times> bool \<Rightarrow> db_user_balance_info list option \<Rightarrow> int option \<Rightarrow>
   ('s, 'c, 'd) order_manager \<Rightarrow> ('s, 'c, 'd) order_manager result" where
  "init started users_balances server_row om =
     (case started of (inbound, request, response) \<Rightarrow>
        if \<not> (inbound \<and> request \<and> response) then Inl Terminated
        else
          rbind (init_balance_checker users_balances (om_balances om, om_username_user_id_map om))
            (\<lambda>(bal, ids).
          rbind (opt_at Terminated server_row) (\<lambda>server_id.
            Inr (om\<lparr>om_balances := bal, om_username_user_id_map := ids, om_server_id := server_id\<rparr>))))"

text \<open>The connection callback of \<open>main.cpp\<close>, and the condition \<open>wait_for_connections\<close> waits for.\<close>

definition on_gateway_connection :: "int \<Rightarrow> ('s, 'c, 'd) order_manager \<Rightarrow> ('s, 'c, 'd) order_manager" where
  "on_gateway_connection conn_id om =
     om\<lparr>om_gateway_connection_ids := om_gateway_connection_ids om @ [conn_id]\<rparr>"

definition gateway_connected :: "('s, 'c, 'd) order_manager \<Rightarrow> bool" where
  "gateway_connected om \<longleftrightarrow> \<not> (length (om_gateway_connection_ids om) = 0)"

text \<open>At most \<open>try_attempts\<close> attempts to connect under a name; stop at the first that succeeds.\<close>

fun connect_attempts :: "('c \<Rightarrow> int option \<times> 'c) \<Rightarrow> nat \<Rightarrow> 'c \<Rightarrow> int option \<times> 'c" where
  "connect_attempts connect 0 c = (None, c)"
| "connect_attempts connect (Suc n) c =
     (case connect c of
        (Some conn_id, c') \<Rightarrow> (Some conn_id, c')
      | (None, c') \<Rightarrow> connect_attempts connect n c')"

definition connect_matching_engine ::
  "('s, 'c, 'd, 'w) om_env \<Rightarrow> string \<Rightarrow> int \<Rightarrow> int \<Rightarrow> ('s, 'c, 'd) order_manager \<Rightarrow>
   ('s, 'c, 'd) order_manager result" where
  "connect_matching_engine e host port try_attempts om =
     (if \<not> try_attempts > 0 then Inl Contract_Violation
      else
        case connect_attempts (om_client_connect e host port ''order_request'') (nat try_attempts)
               (om_order_request_client om) of
          (None, _) \<Rightarrow> Inl Assertion_Failure
        | (Some request_id, c) \<Rightarrow>
            (case connect_attempts (om_client_connect e host port ''order_response'') (nat try_attempts)
                    (om_order_response_client om) of
               (None, _) \<Rightarrow> Inl Assertion_Failure
             | (Some response_id, c') \<Rightarrow>
                 Inr (om\<lparr>om_order_request_client := c, om_order_request_connection_id := request_id,
                         om_order_response_client := c', om_order_response_connection_id := response_id\<rparr>)))"

section \<open>Requests: ids and the fill cost\<close>

text \<open>The key of a client order id: the ids of a user are told apart by the remainder.\<close>

definition transform_cl_ord_id :: "int \<Rightarrow> int \<Rightarrow> int result" where
  "transform_cl_ord_id cl_ord_id user_id =
     rbind (i32 (cl_ord_id * max_user_count)) (\<lambda>x. i32 (x + user_id))"

definition new_order_info :: "new_order_single \<Rightarrow> int \<Rightarrow> order_info" where
  "new_order_info new_order arrival_gateway_id =
     \<lparr>oi_sender_comp_id = nos_sender_comp_id new_order, oi_symbol = nos_symbol new_order,
      oi_side = nos_side new_order, oi_price = nos_price new_order,
      oi_time_in_force = nos_time_in_force new_order, oi_leaves_qty = nos_order_qty new_order,
      oi_cum_qty = 0, oi_avg_px = 0, oi_arrival_gateway_id = arrival_gateway_id\<rparr>"

text \<open>
  The first half of the handler of a new order: assign the id, look up the user, refuse a client
  order id that was used, and enter the order into both maps. The answer is a reason to reject or
  nothing.
\<close>

definition register_order ::
  "new_order_single \<Rightarrow> int \<Rightarrow> ('s, 'c, 'd) order_manager \<Rightarrow>
   (string option \<times> new_order_single \<times> ('s, 'c, 'd) order_manager) result" where
  "register_order new_order arrival_gateway_id om =
     rbind (i32 (om_latest_assigned_order_id om + 1)) (\<lambda>order_id.
       let numbered = new_order\<lparr>nos_order_id := Some order_id\<rparr>;
           om1 = om\<lparr>om_latest_assigned_order_id := order_id\<rparr> in
       case om_username_user_id_map om (nos_sender_comp_id new_order) of
         None \<Rightarrow> Inr (Some ''Order request contains unknown username'', numbered, om1)
       | Some user_id \<Rightarrow>
           rbind (transform_cl_ord_id (nos_cl_ord_id new_order) user_id) (\<lambda>transformed.
             if bm_right (om_order_id_map om) transformed \<noteq> None then
               Inr (Some ''Client order id has already been used'', numbered, om1)
             else
               Inr (None, numbered,
                 om1\<lparr>om_order_id_map := bm_insert order_id transformed (om_order_id_map om),
                     om_order_info_map :=
                       (if om_order_info_map om order_id = None then
                          (om_order_info_map om)(order_id \<mapsto> new_order_info numbered arrival_gateway_id)
                        else om_order_info_map om)\<rparr>)))"

text \<open>Waiting for the answer: ask again as long as nothing is there.\<close>

partial_function (option) await_message ::
  "(int \<Rightarrow> 'c \<Rightarrow> 'w option \<times> 'c) \<Rightarrow> int \<Rightarrow> 'c \<Rightarrow> ('w \<times> 'c) option" where
  "await_message wait conn c =
     (case wait conn c of
        (Some w, c') \<Rightarrow> Some (w, c')
      | (None, c') \<Rightarrow> await_message wait conn c')"

type_synonym ('s, 'c, 'd) preprocessed =
  "((string + int option) \<times> container \<times> ('s, 'c, 'd) order_manager) result option"

definition fill_cost_query_of :: "new_order_single \<Rightarrow> fill_cost_query" where
  "fill_cost_query_of new_order =
     \<lparr>fcq_symbol = nos_symbol new_order, fcq_quantity = nos_order_qty new_order, fcq_side = Ask\<rparr>"

definition query_fill_cost ::
  "('s, 'c, 'd, 'w) om_env \<Rightarrow> new_order_single \<Rightarrow> ('s, 'c, 'd) order_manager \<Rightarrow> ('s, 'c, 'd) preprocessed" where
  "query_fill_cost e new_order om =
     (let query = fill_cost_query_of new_order; conn = om_order_request_connection_id om in
      case om_client_send e conn (serialize_container (om_ser e) (Fill_Cost_Query query))
             (om_order_request_client om) of
        (False, c') \<Rightarrow>
          Some (Inr (Inl ''Order request dropped due to internal reasons'', New_Order_Single new_order,
                     om\<lparr>om_order_request_client := c'\<rparr>))
      | (True, c') \<Rightarrow>
          (case await_message (om_client_wait e) conn c' of
             None \<Rightarrow> None
           | Some (response_message, c'') \<Rightarrow>
               Some (rbind (deserialize_container (om_par e) response_message) (\<lambda>response.
                 case response of
                   Fill_Cost_Response r \<Rightarrow>
                     Inr (Inr (fcr_total_cost r), New_Order_Single new_order,
                          om\<lparr>om_order_request_client := c''\<rparr>)
                 | _ \<Rightarrow> Inl Assertion_Failure))))"

definition preprocess_new_order ::
  "('s, 'c, 'd, 'w) om_env \<Rightarrow> new_order_single \<Rightarrow> int \<Rightarrow> ('s, 'c, 'd) order_manager \<Rightarrow>
   ('s, 'c, 'd) preprocessed" where
  "preprocess_new_order e new_order arrival_gateway_id om =
     (case register_order new_order arrival_gateway_id om of
        Inl err \<Rightarrow> Some (Inl err)
      | Inr (Some reason, numbered, om') \<Rightarrow> Some (Inr (Inl reason, New_Order_Single numbered, om'))
      | Inr (None, numbered, om') \<Rightarrow>
          if nos_ord_type numbered = Market \<and> nos_side numbered = Bid
          then query_fill_cost e numbered om'
          else Some (Inr (Inr None, New_Order_Single numbered, om')))"

definition preprocess_cancel_request ::
  "cancel_order_request \<Rightarrow> ('s, 'c, 'd) order_manager \<Rightarrow> ((string + int option) \<times> cancel_order_request) result" where
  "preprocess_cancel_request cancel_request om =
     (case om_username_user_id_map om (cor_sender_comp_id cancel_request) of
        None \<Rightarrow> Inr (Inl ''Cancel request contains unknown username'', cancel_request)
      | Some user_id \<Rightarrow>
          rbind (transform_cl_ord_id (cor_orig_cl_ord_id cancel_request) user_id) (\<lambda>transformed.
            Inr (Inr None,
                 case bm_right (om_order_id_map om) transformed of
                   None \<Rightarrow> cancel_request
                 | Some order_id \<Rightarrow> cancel_request\<lparr>cor_order_id := Some order_id\<rparr>)))"

fun preprocess_container ::
  "('s, 'c, 'd, 'w) om_env \<Rightarrow> container \<Rightarrow> int \<Rightarrow> ('s, 'c, 'd) order_manager \<Rightarrow> ('s, 'c, 'd) preprocessed" where
  "preprocess_container e (New_Order_Single c) arrival_gateway_id om =
     preprocess_new_order e c arrival_gateway_id om"
| "preprocess_container e (Cancel_Order_Request c) arrival_gateway_id om =
     Some (rbind (preprocess_cancel_request c om) (\<lambda>(answer, c').
       Inr (answer, Cancel_Order_Request c', om)))"
| "preprocess_container e _ arrival_gateway_id om = Some (Inl Terminated)"

section \<open>Requests: validation\<close>

text \<open>Deduct what the order may spend, when the balance suffices.\<close>

definition reserve ::
  "balance_map \<Rightarrow> string \<Rightarrow> string \<Rightarrow> int \<Rightarrow> string \<Rightarrow> (string \<times> balance_map) result" where
  "reserve bal broker_id ticker delta insufficient =
     rbind (has_sufficient_balance bal broker_id ticker delta) (\<lambda>sufficient.
       if \<not> sufficient then Inr (insufficient, bal)
       else rbind (BalanceChecker.update_balance bal broker_id ticker delta) (\<lambda>bal'. Inr (''ok'', bal')))"

definition validate_bid ::
  "new_order_single \<Rightarrow> balance_map \<Rightarrow> int option \<Rightarrow> (string \<times> balance_map) result" where
  "validate_bid new_order bal market_bid_fill_cost =
     rbind (broker_owns_ticker bal (nos_sender_comp_id new_order) USD_SYMBOL) (\<lambda>owns.
       if \<not> owns then Inr (''User has no USD balance record'', bal)
       else
         case nos_ord_type new_order of
           Limit \<Rightarrow>
             rbind (opt_at Bad_Optional_Access (nos_price new_order)) (\<lambda>price.
             rbind (i64 (- price)) (\<lambda>neg_price.
             rbind (i64 (neg_price * nos_order_qty new_order)) (\<lambda>reserved_usd.
               reserve bal (nos_sender_comp_id new_order) USD_SYMBOL reserved_usd
                 ''User has insufficient USD balance'')))
         | Market \<Rightarrow>
             (case market_bid_fill_cost of
                None \<Rightarrow> Inr (''User has insufficient USD balance'', bal)
              | Some fill_cost \<Rightarrow>
                  rbind (i32 (- fill_cost)) (\<lambda>neg_cost.
                    reserve bal (nos_sender_comp_id new_order) USD_SYMBOL neg_cost
                      ''User has insufficient USD balance'')))"

definition validate_ask :: "new_order_single \<Rightarrow> balance_map \<Rightarrow> (string \<times> balance_map) result" where
  "validate_ask new_order bal =
     rbind (broker_owns_ticker bal (nos_sender_comp_id new_order) (nos_symbol new_order)) (\<lambda>owns.
       if \<not> owns then Inr (''User has no '' @ nos_symbol new_order @ '' record'', bal)
       else
         rbind (i32 (- nos_order_qty new_order)) (\<lambda>neg_qty.
           reserve bal (nos_sender_comp_id new_order) (nos_symbol new_order) neg_qty
             (''User has insufficient '' @ nos_symbol new_order @ '' balance'')))"

definition validate_new_order ::
  "new_order_single \<Rightarrow> string set \<Rightarrow> balance_map \<Rightarrow> int option \<Rightarrow> (string \<times> balance_map) result" where
  "validate_new_order new_order active_symbols bal market_bid_fill_cost =
     (if nos_symbol new_order \<notin> active_symbols then Inr (''Unrecognized symbol'', bal)
      else if (case nos_price new_order of None \<Rightarrow> False | Some p \<Rightarrow> p \<le> 0) then Inr (''Price is not positive'', bal)
      else if nos_order_qty new_order \<le> 0 then Inr (''Quantity is not positive'', bal)
      else if \<not> broker_id_exists bal (nos_sender_comp_id new_order) then
        Inr (''Balance record for not found during validation'', bal)
      else
        case nos_side new_order of
          Bid \<Rightarrow> validate_bid new_order bal market_bid_fill_cost
        | Ask \<Rightarrow> validate_ask new_order bal)"

fun validate_container ::
  "container \<Rightarrow> string set \<Rightarrow> balance_map \<Rightarrow> int option \<Rightarrow> (string \<times> balance_map) result" where
  "validate_container (New_Order_Single c) active_symbols bal market_bid_fill_cost =
     validate_new_order c active_symbols bal market_bid_fill_cost"
| "validate_container (Cancel_Order_Request c) active_symbols bal market_bid_fill_cost =
     Inr (if cor_order_id c \<noteq> None then ''ok'' else ''Cancel request original client order ID not found'', bal)"
| "validate_container _ active_symbols bal market_bid_fill_cost = Inr (''Unsupported request type'', bal)"

section \<open>Execution reports\<close>

text \<open>A value-initialised \<open>OrderInfo\<close>.\<close>

definition default_order_info :: order_info where
  "default_order_info =
     \<lparr>oi_sender_comp_id = [], oi_symbol = [], oi_side = Bid, oi_price = None, oi_time_in_force = Day,
      oi_leaves_qty = 0, oi_cum_qty = 0, oi_avg_px = 0, oi_arrival_gateway_id = 0\<rparr>"

fun generate_rejection_report_container ::
  "string \<Rightarrow> string \<Rightarrow> container \<Rightarrow> (int \<rightharpoonup> order_info) \<Rightarrow> string \<Rightarrow> execution_report result" where
  "generate_rejection_report_container server_name exec_id (New_Order_Single c) infos order_reject_reason =
     rbind (opt_at Bad_Optional_Access (nos_order_id c)) (\<lambda>order_id.
       Inr \<lparr>er_sender_comp_id = server_name, er_target_comp_id = nos_sender_comp_id c,
            er_order_id = order_id, er_cl_order_id = nos_cl_ord_id c, er_orig_cl_ord_id = None,
            er_exec_id = exec_id, er_exec_trans_type = Exec_trans_new,
            er_exec_type = Status_rejected, er_ord_status = Status_rejected,
            er_text = Some order_reject_reason, er_symbol = nos_symbol c, er_side = nos_side c,
            er_price = nos_price c, er_time_in_force = nos_time_in_force c,
            er_leaves_qty = 0, er_cum_qty = 0, er_avg_px = 0\<rparr>)"
| "generate_rejection_report_container server_name exec_id (Cancel_Order_Request c) infos order_reject_reason =
     rbind (case cor_order_id c of
              Some order_id \<Rightarrow> opt_at Out_Of_Range (infos order_id)
            | None \<Rightarrow> Inr default_order_info) (\<lambda>info.
       Inr \<lparr>er_sender_comp_id = server_name, er_target_comp_id = cor_sender_comp_id c,
            er_order_id = (case cor_order_id c of Some i \<Rightarrow> i | None \<Rightarrow> - 1),
            er_cl_order_id = cor_cl_ord_id c, er_orig_cl_ord_id = Some (cor_orig_cl_ord_id c),
            er_exec_id = exec_id, er_exec_trans_type = Exec_trans_new,
            er_exec_type = Status_rejected, er_ord_status = Status_rejected,
            er_text = Some order_reject_reason, er_symbol = oi_symbol info, er_side = oi_side info,
            er_price = oi_price info, er_time_in_force = oi_time_in_force info,
            er_leaves_qty = 0, er_cum_qty = oi_cum_qty info, er_avg_px = oi_avg_px info\<rparr>)"
| "generate_rejection_report_container server_name exec_id _ infos order_reject_reason = Inl Terminated"

fun generate_success_report_container ::
  "string \<Rightarrow> string \<Rightarrow> container \<Rightarrow> (int \<rightharpoonup> order_info) \<Rightarrow> execution_report result" where
  "generate_success_report_container server_name exec_id (New_Order_Single c) infos =
     rbind (opt_at Bad_Optional_Access (nos_order_id c)) (\<lambda>order_id.
       Inr \<lparr>er_sender_comp_id = server_name, er_target_comp_id = nos_sender_comp_id c,
            er_order_id = order_id, er_cl_order_id = nos_cl_ord_id c, er_orig_cl_ord_id = None,
            er_exec_id = exec_id, er_exec_trans_type = Exec_trans_new,
            er_exec_type = Status_new, er_ord_status = Status_new, er_text = None,
            er_symbol = nos_symbol c, er_side = nos_side c, er_price = nos_price c,
            er_time_in_force = nos_time_in_force c, er_leaves_qty = nos_order_qty c,
            er_cum_qty = 0, er_avg_px = 0\<rparr>)"
| "generate_success_report_container server_name exec_id (Cancel_Order_Request c) infos =
     rbind (opt_at Bad_Optional_Access (cor_order_id c)) (\<lambda>order_id.
     rbind (opt_at Out_Of_Range (infos order_id)) (\<lambda>info.
       Inr \<lparr>er_sender_comp_id = server_name, er_target_comp_id = cor_sender_comp_id c,
            er_order_id = order_id, er_cl_order_id = cor_cl_ord_id c,
            er_orig_cl_ord_id = Some (cor_orig_cl_ord_id c),
            er_exec_id = exec_id, er_exec_trans_type = Exec_trans_new,
            er_exec_type = Status_pending_cancel, er_ord_status = Status_pending_cancel, er_text = None,
            er_symbol = oi_symbol info, er_side = oi_side info, er_price = oi_price info,
            er_time_in_force = oi_time_in_force info, er_leaves_qty = oi_leaves_qty info,
            er_cum_qty = oi_cum_qty info, er_avg_px = oi_avg_px info\<rparr>))"
| "generate_success_report_container server_name exec_id _ infos = Inl Assertion_Failure"

text \<open>The report to one side of a trade.\<close>

definition matched_order_report ::
  "string \<Rightarrow> string \<Rightarrow> trade_container \<Rightarrow> string \<Rightarrow> int \<Rightarrow> side \<Rightarrow> bimap \<Rightarrow> (int \<rightharpoonup> order_info) \<Rightarrow>
   execution_report result" where
  "matched_order_report server_name exec_id trade target order_id side ids infos =
     rbind (opt_at Out_Of_Range (bm_left ids order_id)) (\<lambda>transformed.
     rbind (cdiv transformed max_user_count) (\<lambda>cl_order_id.
     rbind (opt_at Out_Of_Range (infos order_id)) (\<lambda>info.
       let status = if oi_leaves_qty info = 0 then Status_filled else Status_partially_filled in
       Inr \<lparr>er_sender_comp_id = server_name, er_target_comp_id = target,
            er_order_id = order_id, er_cl_order_id = cl_order_id, er_orig_cl_ord_id = None,
            er_exec_id = exec_id, er_exec_trans_type = Exec_trans_new,
            er_exec_type = status, er_ord_status = status, er_text = None,
            er_symbol = tc_ticker trade, er_side = side, er_price = Some (tc_price trade),
            er_time_in_force = oi_time_in_force info, er_leaves_qty = oi_leaves_qty info,
            er_cum_qty = oi_cum_qty info, er_avg_px = oi_avg_px info\<rparr>)))"

definition generate_matched_order_report_containers ::
  "string \<Rightarrow> string \<Rightarrow> string \<Rightarrow> trade_container \<Rightarrow> bimap \<Rightarrow> (int \<rightharpoonup> order_info) \<Rightarrow>
   (execution_report \<times> execution_report) result" where
  "generate_matched_order_report_containers server_name exec_id1 exec_id2 trade ids infos =
     rbind (matched_order_report server_name exec_id1 trade (tc_taker_id trade) (tc_taker_order_id trade)
              (if tc_is_taker_buyer trade then Bid else Ask) ids infos) (\<lambda>taker_report.
     rbind (matched_order_report server_name exec_id2 trade (tc_maker_id trade) (tc_maker_order_id trade)
              (if tc_is_taker_buyer trade then Ask else Bid) ids infos) (\<lambda>maker_report.
       Inr (taker_report, maker_report)))"

definition generate_cancel_response_report_container ::
  "string \<Rightarrow> string \<Rightarrow> cancel_order_response \<Rightarrow> bimap \<Rightarrow> (int \<rightharpoonup> order_info) \<Rightarrow> execution_report result" where
  "generate_cancel_response_report_container server_name exec_id cancel_response ids infos =
     rbind (opt_at Out_Of_Range (infos (crs_order_id cancel_response))) (\<lambda>info.
     rbind (opt_at Out_Of_Range (bm_left ids (crs_order_id cancel_response))) (\<lambda>transformed.
     rbind (cdiv transformed max_user_count) (\<lambda>orig_cl_ord_id.
       let status = if crs_success cancel_response then Status_canceled else Status_rejected in
       Inr \<lparr>er_sender_comp_id = server_name, er_target_comp_id = oi_sender_comp_id info,
            er_order_id = crs_order_id cancel_response, er_cl_order_id = crs_cl_ord_id cancel_response,
            er_orig_cl_ord_id = Some orig_cl_ord_id,
            er_exec_id = exec_id, er_exec_trans_type = Exec_trans_new,
            er_exec_type = status, er_ord_status = status,
            er_text = Some (if crs_success cancel_response then [] else ''Order had already been matched''),
            er_symbol = oi_symbol info, er_side = oi_side info, er_price = oi_price info,
            er_time_in_force = oi_time_in_force info, er_leaves_qty = 0,
            er_cum_qty = oi_cum_qty info, er_avg_px = oi_avg_px info\<rparr>)))"

section \<open>Forwarding and replying\<close>

definition reply ::
  "('s, 'c, 'd, 'w) om_env \<Rightarrow> int \<Rightarrow> execution_report \<Rightarrow> ('s, 'c, 'd) order_manager \<Rightarrow> ('s, 'c, 'd) order_manager" where
  "reply e gateway_id report om =
     om\<lparr>om_inbound_server := snd (om_inbound_send e gateway_id
          (serialize_container (om_ser e) (Execution_Report report)) (om_inbound_server om)),
        om_reports := om_reports om + 1\<rparr>"

definition forward_and_reply ::
  "('s, 'c, 'd, 'w) om_env \<Rightarrow> bool \<Rightarrow> container \<Rightarrow> int \<Rightarrow> string option \<Rightarrow> ('s, 'c, 'd) order_manager \<Rightarrow>
   ('s, 'c, 'd) order_manager result" where
  "forward_and_reply e is_container_valid container arrival_gateway_id order_reject_reason om =
     (if is_container_valid \<noteq> (order_reject_reason = None) then Inl Contract_Violation
      else if is_container_valid then
        (let om' = om\<lparr>om_order_request_client := snd (om_client_send e (om_order_request_connection_id om)
                     (serialize_container (om_ser e) container) (om_order_request_client om))\<rparr> in
         rbind (generate_success_report_container (om_server_name e) (om_exec_id e (om_reports om'))
                  container (om_order_info_map om')) (\<lambda>report.
           Inr (reply e arrival_gateway_id report om')))
      else
        rbind (generate_rejection_report_container (om_server_name e) (om_exec_id e (om_reports om))
                 container (om_order_info_map om) (the order_reject_reason)) (\<lambda>report.
          Inr (reply e arrival_gateway_id report om)))"

section \<open>Persistence\<close>

definition db_exec ::
  "('s, 'c, 'd, 'w) om_env \<Rightarrow> db_call \<Rightarrow> ('s, 'c, 'd) order_manager \<Rightarrow> ('s, 'c, 'd) order_manager" where
  "db_exec e call om = om\<lparr>om_database := om_db e call (om_database om)\<rparr>"

text \<open>Write the current balances of one party of a trade, first USD, then the traded symbol.\<close>

definition persist_party ::
  "('s, 'c, 'd, 'w) om_env \<Rightarrow> string \<Rightarrow> string \<Rightarrow> ('s, 'c, 'd) order_manager \<Rightarrow> ('s, 'c, 'd) order_manager result" where
  "persist_party e party symbol om =
     rbind (opt_at Out_Of_Range (om_username_user_id_map om party)) (\<lambda>user_id.
     rbind (get_balance (om_balances om) party USD_SYMBOL) (\<lambda>usd_balance.
     rbind (get_balance (om_balances om) party symbol) (\<lambda>symbol_balance.
       Inr (db_exec e (Update_Balance user_id (om_server_id om) symbol symbol_balance)
             (db_exec e (Update_Balance user_id (om_server_id om) USD_SYMBOL usd_balance) om)))))"

definition trade_buyer :: "trade_container \<Rightarrow> string" where
  "trade_buyer trade = (if tc_is_taker_buyer trade then tc_taker_id trade else tc_maker_id trade)"

definition trade_seller :: "trade_container \<Rightarrow> string" where
  "trade_seller trade = (if tc_is_taker_buyer trade then tc_maker_id trade else tc_taker_id trade)"

definition persist_cancellation ::
  "('s, 'c, 'd, 'w) om_env \<Rightarrow> cancel_order_response \<Rightarrow> ('s, 'c, 'd) order_manager \<Rightarrow>
   ('s, 'c, 'd) order_manager result" where
  "persist_cancellation e cancel_response om =
     rbind (opt_at Out_Of_Range (om_order_info_map om (crs_order_id cancel_response))) (\<lambda>info.
       if oi_price info = None then Inl Assertion_Failure
       else
         let symbol = if oi_side info = Bid then USD_SYMBOL else oi_symbol info in
         rbind (opt_at Out_Of_Range (om_username_user_id_map om (oi_sender_comp_id info))) (\<lambda>user_id.
         rbind (get_balance (om_balances om) (oi_sender_comp_id info) symbol) (\<lambda>balance.
           Inr (db_exec e (Update_Balance user_id (om_server_id om) symbol balance) om))))"

fun update_database ::
  "('s, 'c, 'd, 'w) om_env \<Rightarrow> container \<Rightarrow> bool option \<Rightarrow> ('s, 'c, 'd) order_manager \<Rightarrow>
   ('s, 'c, 'd) order_manager result" where
  "update_database e (New_Order_Single c) valid_container om =
     (case (nos_order_id c, valid_container) of
        (Some order_id, Some valid) \<Rightarrow> Inr (db_exec e (Insert_Order order_id c valid) om)
      | _ \<Rightarrow> Inl Contract_Violation)"
| "update_database e (Cancel_Order_Request c) valid_container om =
     (case valid_container of
        Some valid \<Rightarrow> Inr (db_exec e (Insert_Cancel_Request c valid) om)
      | None \<Rightarrow> Inl Contract_Violation)"
| "update_database e (Execution_Report c) valid_container om = Inr om"
| "update_database e (Trade_Container trade) valid_container om =
     rbind (persist_party e (trade_buyer trade) (tc_ticker trade) (db_exec e (Insert_Trade trade) om))
       (persist_party e (trade_seller trade) (tc_ticker trade))"
| "update_database e (Cancel_Order_Response c) valid_container om =
     (if crs_success c then persist_cancellation e c (db_exec e (Insert_Cancel_Response c) om)
      else Inr (db_exec e (Insert_Cancel_Response c) om))"
| "update_database e _ valid_container om = Inl Assertion_Failure"

section \<open>Settlement\<close>

text \<open>The share of a trade in one order's record: average price, remaining and filled quantity.\<close>

definition fill_order_info :: "trade_container \<Rightarrow> order_info \<Rightarrow> order_info result" where
  "fill_order_info trade info =
     rbind (i32 (oi_avg_px info * oi_cum_qty info)) (\<lambda>filled_cost.
     rbind (i32 (tc_price trade * tc_quantity trade)) (\<lambda>trade_cost.
     rbind (i32 (filled_cost + trade_cost)) (\<lambda>cost.
     rbind (i32 (tc_quantity trade + oi_cum_qty info)) (\<lambda>qty.
     rbind (cdiv cost qty) (\<lambda>avg_px.
     rbind (i32 (oi_leaves_qty info - tc_quantity trade)) (\<lambda>leaves_qty.
     rbind (i32 (oi_cum_qty info + tc_quantity trade)) (\<lambda>cum_qty.
       Inr (info\<lparr>oi_avg_px := avg_px, oi_leaves_qty := leaves_qty, oi_cum_qty := cum_qty\<rparr>))))))))"

definition fill_order ::
  "trade_container \<Rightarrow> int \<Rightarrow> (int \<rightharpoonup> order_info) \<Rightarrow> (int \<rightharpoonup> order_info) result" where
  "fill_order trade order_id infos =
     rbind (opt_at Out_Of_Range (infos order_id)) (\<lambda>info.
     rbind (fill_order_info trade info) (\<lambda>info'. Inr (infos(order_id \<mapsto> info'))))"

text \<open>A limit buyer that pays less than its limit gets the difference back.\<close>

definition refund_improvement ::
  "trade_container \<Rightarrow> int option \<Rightarrow> balance_map \<Rightarrow> balance_map result" where
  "refund_improvement trade limit_price bal =
     (case limit_price of
        None \<Rightarrow> Inr bal
      | Some price \<Rightarrow>
          rbind (i32 (price - tc_price trade)) (\<lambda>price_improvement.
            if \<not> price_improvement \<ge> 0 then Inl Assertion_Failure
            else if price_improvement > 0 then
              rbind (i32 (price_improvement * tc_quantity trade)) (\<lambda>refund.
                BalanceChecker.update_balance bal (trade_buyer trade) USD_SYMBOL refund)
            else Inr bal))"

definition buyer_order_id :: "trade_container \<Rightarrow> int" where
  "buyer_order_id trade =
     (if tc_is_taker_buyer trade then tc_taker_order_id trade else tc_maker_order_id trade)"

definition settle_trade ::
  "trade_container \<Rightarrow> (int \<rightharpoonup> order_info) \<Rightarrow> balance_map \<Rightarrow> ((int \<rightharpoonup> order_info) \<times> balance_map) result" where
  "settle_trade trade infos bal =
     (if infos (tc_taker_order_id trade) = None \<or> infos (tc_maker_order_id trade) = None
      then Inl Contract_Violation
      else
        rbind (fill_order trade (tc_taker_order_id trade) infos) (\<lambda>infos1.
        rbind (fill_order trade (tc_maker_order_id trade) infos1) (\<lambda>infos2.
        rbind (BalanceChecker.update_balance bal (trade_buyer trade) (tc_ticker trade) (tc_quantity trade)) (\<lambda>bal1.
        rbind (opt_at Out_Of_Range (infos2 (buyer_order_id trade))) (\<lambda>buyer_info.
        rbind (refund_improvement trade (oi_price buyer_info) bal1) (\<lambda>bal2.
        rbind (i32 (tc_price trade * tc_quantity trade)) (\<lambda>proceeds.
        rbind (BalanceChecker.update_balance bal2 (trade_seller trade) USD_SYMBOL proceeds) (\<lambda>bal3.
          Inr (infos2, bal3)))))))))"

text \<open>A cancelled order gets back what is still reserved for it.\<close>

definition refund_cancelled ::
  "cancel_order_response \<Rightarrow> (int \<rightharpoonup> order_info) \<Rightarrow> balance_map \<Rightarrow> balance_map result" where
  "refund_cancelled cancel_response infos bal =
     (if crs_success cancel_response then
        rbind (opt_at Out_Of_Range (infos (crs_order_id cancel_response))) (\<lambda>info.
          case oi_price info of
            None \<Rightarrow> Inl Assertion_Failure
          | Some price \<Rightarrow>
              if oi_side info = Bid then
                rbind (i32 (price * oi_leaves_qty info)) (\<lambda>refund.
                  BalanceChecker.update_balance bal (oi_sender_comp_id info) USD_SYMBOL refund)
              else BalanceChecker.update_balance bal (oi_sender_comp_id info) (oi_symbol info) (oi_leaves_qty info))
      else Inr bal)"

fun update_internal_data ::
  "container \<Rightarrow> ('s, 'c, 'd) order_manager \<Rightarrow> ('s, 'c, 'd) order_manager result" where
  "update_internal_data (Trade_Container trade) om =
     rbind (settle_trade trade (om_order_info_map om) (om_balances om)) (\<lambda>(infos, bal).
       Inr (om\<lparr>om_order_info_map := infos, om_balances := bal\<rparr>))"
| "update_internal_data (Cancel_Order_Response c) om =
     rbind (refund_cancelled c (om_order_info_map om) (om_balances om)) (\<lambda>bal.
       Inr (om\<lparr>om_balances := bal\<rparr>))"
| "update_internal_data _ om = Inl Terminated"

section \<open>Reports of what the engine answered\<close>

fun return_execution_report ::
  "('s, 'c, 'd, 'w) om_env \<Rightarrow> container \<Rightarrow> ('s, 'c, 'd) order_manager \<Rightarrow> ('s, 'c, 'd) order_manager result" where
  "return_execution_report e (Trade_Container trade) om =
     rbind (generate_matched_order_report_containers (om_server_name e) (om_exec_id e (om_reports om))
              (om_exec_id e (om_reports om + 1)) trade (om_order_id_map om) (om_order_info_map om))
       (\<lambda>(taker_report, maker_report).
     rbind (opt_at Out_Of_Range (om_order_info_map om (tc_taker_order_id trade))) (\<lambda>taker_info.
     rbind (opt_at Out_Of_Range (om_order_info_map om (tc_maker_order_id trade))) (\<lambda>maker_info.
       Inr (reply e (oi_arrival_gateway_id maker_info) maker_report
             (reply e (oi_arrival_gateway_id taker_info) taker_report om)))))"
| "return_execution_report e (Cancel_Order_Response c) om =
     rbind (generate_cancel_response_report_container (om_server_name e) (om_exec_id e (om_reports om)) c
              (om_order_id_map om) (om_order_info_map om)) (\<lambda>report.
     rbind (opt_at Out_Of_Range (om_order_info_map om (crs_order_id c))) (\<lambda>info.
       Inr (reply e (oi_arrival_gateway_id info) report om)))"
| "return_execution_report e _ om = Inl Terminated"

section \<open>The loop\<close>

definition handle_request ::
  "('s, 'c, 'd, 'w) om_env \<Rightarrow> int \<Rightarrow> container \<Rightarrow> ('s, 'c, 'd) order_manager \<Rightarrow>
   ('s, 'c, 'd) order_manager result option" where
  "handle_request e gateway_id container om =
     (case preprocess_container e container gateway_id om of
        None \<Rightarrow> None
      | Some (Inl err) \<Rightarrow> Some (Inl err)
      | Some (Inr (Inl reason, container', om')) \<Rightarrow>
          Some (rbind (forward_and_reply e False container' gateway_id (Some reason) om')
                 (update_database e container' (Some False)))
      | Some (Inr (Inr market_bid_fill_cost, container', om')) \<Rightarrow>
          Some (rbind (validate_container container' (om_active_symbols om') (om_balances om') market_bid_fill_cost)
                 (\<lambda>(validation_result, bal').
            let valid = (validation_result = ''ok'') in
            rbind (forward_and_reply e valid container' gateway_id
                     (if valid then None else Some validation_result) (om'\<lparr>om_balances := bal'\<rparr>))
              (update_database e container' (Some valid)))))"

definition handle_response ::
  "('s, 'c, 'd, 'w) om_env \<Rightarrow> container \<Rightarrow> ('s, 'c, 'd) order_manager \<Rightarrow> ('s, 'c, 'd) order_manager result" where
  "handle_response e container om =
     rbind (update_internal_data container om) (\<lambda>om1.
     rbind (return_execution_report e container om1)
       (update_database e container None))"

definition poll_gateway ::
  "('s, 'c, 'd, 'w) om_env \<Rightarrow> ('s, 'c, 'd) order_manager \<Rightarrow> ('s, 'c, 'd) order_manager result option" where
  "poll_gateway e om =
     (if \<not> om_gateway_it om < length (om_gateway_connection_ids om) then Some (Inl Invalid_Iterator)
      else
        let gateway_id = om_gateway_connection_ids om ! om_gateway_it om in
        case om_inbound_dequeue e gateway_id (om_inbound_server om) of
          (None, srv') \<Rightarrow> Some (Inr (om\<lparr>om_inbound_server := srv'\<rparr>))
        | (Some msg, srv') \<Rightarrow>
            (case deserialize_container (om_par e) msg of
               Inl err \<Rightarrow> Some (Inl err)
             | Inr container \<Rightarrow> handle_request e gateway_id container (om\<lparr>om_inbound_server := srv'\<rparr>)))"

definition advance_gateway :: "('s, 'c, 'd) order_manager \<Rightarrow> ('s, 'c, 'd) order_manager" where
  "advance_gateway om =
     om\<lparr>om_gateway_it :=
          (if om_gateway_it om + 1 = length (om_gateway_connection_ids om) then 0 else om_gateway_it om + 1)\<rparr>"

definition poll_engine ::
  "('s, 'c, 'd, 'w) om_env \<Rightarrow> ('s, 'c, 'd) order_manager \<Rightarrow> ('s, 'c, 'd) order_manager result" where
  "poll_engine e om =
     (case om_client_dequeue e (om_order_response_connection_id om) (om_order_response_client om) of
        (None, c') \<Rightarrow> Inr (om\<lparr>om_order_response_client := c'\<rparr>)
      | (Some msg, c') \<Rightarrow>
          rbind (deserialize_container (om_par e) msg) (\<lambda>container.
            handle_response e container (om\<lparr>om_order_response_client := c'\<rparr>)))"

text \<open>One iteration of \<open>run\<close>.\<close>

definition om_iteration ::
  "('s, 'c, 'd, 'w) om_env \<Rightarrow> ('s, 'c, 'd) order_manager \<Rightarrow> ('s, 'c, 'd) order_manager result option" where
  "om_iteration e om =
     (case poll_gateway e om of
        None \<Rightarrow> None
      | Some r \<Rightarrow> Some (rbind r (\<lambda>om'. poll_engine e (advance_gateway om'))))"

end
