(* ===== verification/OmLedger.thy ===== *)
theory OmLedger
  imports OrderManager
begin

text \<open>
  What the order manager owes: an order that was accepted holds a reservation, and every step moves
  value between balances and reservations. The lemmas here say what validation reserves, what the
  settlement of a trade and a cancellation release, and that the supply of every unit, balances plus
  reservations, stays what it was. They rest on the laws of \<open>ledger\<close>.
\<close>

section \<open>What validation reserves\<close>

definition reserved_unit :: "new_order_single \<Rightarrow> string" where
  "reserved_unit c = (if nos_side c = Bid then USD_SYMBOL else nos_symbol c)"

definition reserved_amount :: "new_order_single \<Rightarrow> int option \<Rightarrow> int" where
  "reserved_amount c fill_cost =
     (if nos_side c = Ask then nos_order_qty c
      else if nos_ord_type c = Limit then the (nos_price c) * nos_order_qty c
      else the fill_cost)"

definition moved :: "balance_map \<Rightarrow> balance_map \<Rightarrow> string \<Rightarrow> string \<Rightarrow> int \<Rightarrow> bool" where
  "moved bal bal' broker unit d \<longleftrightarrow>
     balances_ok bal' \<and>
     (\<forall>b u. amount bal' b u = amount bal b u + (if b = broker \<and> u = unit then d else 0)) \<and>
     (\<forall>u. total bal' u = total bal u + (if u = unit then d else 0)) \<and>
     (\<forall>b u. has_record bal' b u \<longleftrightarrow> has_record bal b u \<or> b = broker \<and> u = unit)"

lemma update_balance_moved:
  assumes "BalanceChecker.update_balance bal b u d = Inr bal'" "balances_ok bal"
    "has_record bal b u \<or> 0 \<le> d \<and> in_i64 d"
  shows "moved bal bal' b u d"
  unfolding moved_def
  using bal.update_ok [OF assms(2,1,3)] bal.update_amt [OF assms(1)] bal.update_tot [OF assms(2,1)]
    bal.update_registered [OF assms(1)] by blast

lemma broker_owns_record: "broker_owns_ticker bal b u = Inr True \<Longrightarrow> has_record bal b u"
  by (auto simp: broker_owns_ticker_def has_record_def split: option.splits if_splits)

lemma reserve_Inr:
  assumes "reserve bal b u d msg = Inr (r, bal')" "balances_ok bal" "has_record bal b u" "msg \<noteq> ''ok''"
  shows "r \<noteq> ''ok'' \<and> bal' = bal \<or> r = ''ok'' \<and> 0 \<le> amount bal b u + d \<and> moved bal bal' b u d"
proof -
  obtain ok where s: "has_sufficient_balance bal b u d = Inr ok"
    and rest: "(if \<not> ok then Inr (msg, bal)
       else rbind (BalanceChecker.update_balance bal b u d) (\<lambda>bal'. Inr (''ok'', bal'))) = Inr (r, bal')"
    using assms(1) by (auto simp: reserve_def rbind_eq_Inr)
  show ?thesis
  proof (cases ok)
    case True
    then have u: "BalanceChecker.update_balance bal b u d = Inr bal'" and r: "r = ''ok''"
      using rest by (auto simp: result_simps)
    have m: "moved bal bal' b u d" using update_balance_moved [OF u assms(2)] assms(3) by blast
    then have "0 \<le> amount bal' b u" unfolding moved_def by (blast intro: amount_nonneg)
    then show ?thesis using m r by (simp add: moved_def)
  qed (use rest assms(4) in auto)
qed

lemma validate_bid_Inr:
  assumes "validate_bid c bal fc = Inr (r, bal')" "balances_ok bal" "nos_side c = Bid"
  shows "r \<noteq> ''ok'' \<and> bal' = bal \<or>
    r = ''ok'' \<and> reserved_amount c fc \<le> amount bal (nos_sender_comp_id c) USD_SYMBOL \<and>
      (nos_ord_type c = Limit \<longrightarrow> nos_price c \<noteq> None) \<and> (nos_ord_type c = Market \<longrightarrow> fc \<noteq> None) \<and>
      moved bal bal' (nos_sender_comp_id c) USD_SYMBOL (- reserved_amount c fc)"
proof -
  let ?b = "nos_sender_comp_id c" and ?msg = "''User has insufficient USD balance''"
  obtain owns where o: "broker_owns_ticker bal ?b USD_SYMBOL = Inr owns"
    using assms(1) by (auto simp: validate_bid_def rbind_eq_Inr)
  show ?thesis
  proof (cases owns)
    case False
    then show ?thesis using assms(1) o by (auto simp: validate_bid_def)
  next
    case True
    then have rec: "has_record bal ?b USD_SYMBOL" using o broker_owns_record by simp
    show ?thesis
    proof (cases "nos_ord_type c")
      case Limit
      then obtain p where p: "nos_price c = Some p"
        and res: "reserve bal ?b USD_SYMBOL (- p * nos_order_qty c) ?msg = Inr (r, bal')"
        using assms(1) o True by (auto simp: validate_bid_def result_simps)
      show ?thesis using reserve_Inr [OF res assms(2) rec] Limit p assms(3)
        by (auto simp: reserved_amount_def)
    next
      case Market
      show ?thesis
      proof (cases fc)
        case None
        then show ?thesis using assms(1) o True Market by (auto simp: validate_bid_def)
      next
        case (Some f)
        then have res: "reserve bal ?b USD_SYMBOL (- f) ?msg = Inr (r, bal')"
          using assms(1) o True Market by (auto simp: validate_bid_def result_simps)
        show ?thesis using reserve_Inr [OF res assms(2) rec] Market Some assms(3)
          by (auto simp: reserved_amount_def)
      qed
    qed
  qed
qed

lemma validate_ask_Inr:
  assumes "validate_ask c bal = Inr (r, bal')" "balances_ok bal" "nos_side c = Ask"
  shows "r \<noteq> ''ok'' \<and> bal' = bal \<or>
    r = ''ok'' \<and> reserved_amount c fc \<le> amount bal (nos_sender_comp_id c) (nos_symbol c) \<and>
      moved bal bal' (nos_sender_comp_id c) (nos_symbol c) (- reserved_amount c fc)"
proof -
  let ?b = "nos_sender_comp_id c" and ?u = "nos_symbol c"
  obtain owns where o: "broker_owns_ticker bal ?b ?u = Inr owns"
    using assms(1) by (auto simp: validate_ask_def rbind_eq_Inr)
  show ?thesis
  proof (cases owns)
    case False
    then show ?thesis using assms(1) o by (auto simp: validate_ask_def)
  next
    case True
    then have rec: "has_record bal ?b ?u" using o broker_owns_record by simp
    have "reserve bal ?b ?u (- nos_order_qty c) (''User has insufficient '' @ ?u @ '' balance'') = Inr (r, bal')"
      using assms(1) o True by (auto simp: validate_ask_def result_simps)
    from reserve_Inr [OF this assms(2) rec] show ?thesis using assms(3)
      by (auto simp: reserved_amount_def)
  qed
qed

lemma validate_new_order_Inr:
  assumes "validate_new_order c active bal fc = Inr (r, bal')" "balances_ok bal"
  shows "r \<noteq> ''ok'' \<and> bal' = bal \<or>
    r = ''ok'' \<and> nos_symbol c \<in> active \<and> 0 < nos_order_qty c \<and> (\<forall>p. nos_price c = Some p \<longrightarrow> 0 < p) \<and>
      (nos_side c = Bid \<longrightarrow> (if nos_ord_type c = Limit then nos_price c \<noteq> None else fc \<noteq> None)) \<and>
      reserved_amount c fc \<le> amount bal (nos_sender_comp_id c) (reserved_unit c) \<and>
      moved bal bal' (nos_sender_comp_id c) (reserved_unit c) (- reserved_amount c fc)"
proof (cases "nos_symbol c \<notin> active \<or> (\<exists>p. nos_price c = Some p \<and> p \<le> 0) \<or> nos_order_qty c \<le> 0 \<or>
    \<not> broker_id_exists bal (nos_sender_comp_id c)")
  case True
  then show ?thesis
    using assms(1) by (auto simp: validate_new_order_def split: if_splits option.splits)
next
  case False
  then have v: "(case nos_side c of Bid \<Rightarrow> validate_bid c bal fc | Ask \<Rightarrow> validate_ask c bal) = Inr (r, bal')"
    and g: "nos_symbol c \<in> active" "0 < nos_order_qty c" "\<forall>p. nos_price c = Some p \<longrightarrow> 0 < p"
    using assms(1) by (auto simp: validate_new_order_def split: if_splits option.splits)
  show ?thesis
  proof (cases "nos_side c")
    case Bid
    then show ?thesis
      using validate_bid_Inr [OF _ assms(2) Bid, of fc r bal'] v g order_type.exhaust [of "nos_ord_type c"]
      by (auto simp: reserved_unit_def)
  next
    case Ask
    then show ?thesis
      using validate_ask_Inr [OF _ assms(2) Ask, of r bal' fc] v g by (auto simp: reserved_unit_def)
  qed
qed

section \<open>What a trade and a cancellation release\<close>

text \<open>
  The reservation of an order, per unit: an ask holds its remaining quantity, a limit bid its limit
  times its remaining quantity. A market bid holds what it prepaid, which its record does not show.
\<close>

definition reservation :: "order_info \<Rightarrow> string \<Rightarrow> int" where
  "reservation info u =
     (if oi_side info = Ask then (if u = oi_symbol info then oi_leaves_qty info else 0)
      else (case oi_price info of
              None \<Rightarrow> 0
            | Some p \<Rightarrow> if u = USD_SYMBOL then p * oi_leaves_qty info else 0))"

lemma fill_order_info_Inr:
  assumes "fill_order_info trade info = Inr info'"
  shows "info' = info\<lparr>oi_avg_px := oi_avg_px info', oi_leaves_qty := oi_leaves_qty info - tc_quantity trade,
      oi_cum_qty := oi_cum_qty info + tc_quantity trade\<rparr>"
  using assms by (auto simp: fill_order_info_def result_simps)

lemma fill_order_Inr:
  assumes "fill_order trade i infos = Inr infos'"
  obtains info info' where "infos i = Some info" "infos' = infos(i \<mapsto> info')"
    "info' = info\<lparr>oi_avg_px := oi_avg_px info', oi_leaves_qty := oi_leaves_qty info - tc_quantity trade,
      oi_cum_qty := oi_cum_qty info + tc_quantity trade\<rparr>"
  using assms fill_order_info_Inr by (auto simp: fill_order_def result_simps)

definition seller_order_id :: "trade_container \<Rightarrow> int" where
  "seller_order_id trade =
     (if tc_is_taker_buyer trade then tc_maker_order_id trade else tc_taker_order_id trade)"

text \<open>Both records of a trade between two different orders, whoever was the taker.\<close>

lemma settle_trade_Inr:
  assumes "settle_trade trade infos bal = Inr (infos', bal')"
    and "tc_taker_order_id trade \<noteq> tc_maker_order_id trade"
  obtains b s b' s' bal1 bal2 where
    "infos (buyer_order_id trade) = Some b" "infos (seller_order_id trade) = Some s"
    "infos' = infos(buyer_order_id trade \<mapsto> b', seller_order_id trade \<mapsto> s')"
    "b' = b\<lparr>oi_avg_px := oi_avg_px b', oi_leaves_qty := oi_leaves_qty b - tc_quantity trade,
       oi_cum_qty := oi_cum_qty b + tc_quantity trade\<rparr>"
    "s' = s\<lparr>oi_avg_px := oi_avg_px s', oi_leaves_qty := oi_leaves_qty s - tc_quantity trade,
       oi_cum_qty := oi_cum_qty s + tc_quantity trade\<rparr>"
    "BalanceChecker.update_balance bal (trade_buyer trade) (tc_ticker trade) (tc_quantity trade) = Inr bal1"
    "refund_improvement trade (oi_price b) bal1 = Inr bal2"
    "in_i32 (tc_price trade * tc_quantity trade)"
    "BalanceChecker.update_balance bal2 (trade_seller trade) USD_SYMBOL (tc_price trade * tc_quantity trade) = Inr bal'"
proof -
  let ?t = "tc_taker_order_id trade" and ?m = "tc_maker_order_id trade"
  obtain infos1 bal1 bi bal2 where
    f1: "fill_order trade ?t infos = Inr infos1" and f2: "fill_order trade ?m infos1 = Inr infos'" and
    u: "BalanceChecker.update_balance bal (trade_buyer trade) (tc_ticker trade) (tc_quantity trade) = Inr bal1"
      "infos' (buyer_order_id trade) = Some bi" "refund_improvement trade (oi_price bi) bal1 = Inr bal2"
      "in_i32 (tc_price trade * tc_quantity trade)"
      "BalanceChecker.update_balance bal2 (trade_seller trade) USD_SYMBOL (tc_price trade * tc_quantity trade) = Inr bal'"
    using assms(1) by (auto simp: settle_trade_def result_simps split: if_splits)
  obtain t t' where t: "infos ?t = Some t" "infos1 = infos(?t \<mapsto> t')"
    "t' = t\<lparr>oi_avg_px := oi_avg_px t', oi_leaves_qty := oi_leaves_qty t - tc_quantity trade,
       oi_cum_qty := oi_cum_qty t + tc_quantity trade\<rparr>"
    using f1 by (rule fill_order_Inr)
  obtain m m' where m: "infos1 ?m = Some m" "infos' = infos1(?m \<mapsto> m')"
    "m' = m\<lparr>oi_avg_px := oi_avg_px m', oi_leaves_qty := oi_leaves_qty m - tc_quantity trade,
       oi_cum_qty := oi_cum_qty m + tc_quantity trade\<rparr>"
    using f2 by (rule fill_order_Inr)
  have price: "oi_price t' = oi_price t" "oi_price m' = oi_price m"
    using t(3) m(3) by (metis order_info.select_convs(4) order_info.surjective order_info.update_convs(6,7,8))+
  show ?thesis
  proof (cases "tc_is_taker_buyer trade")
    case True
    then show ?thesis
      using that [of t m t' m' bal1 bal2] t m u price assms(2)
      by (simp add: buyer_order_id_def seller_order_id_def)
  next
    case False
    then show ?thesis
      using that [of m t m' t' bal1 bal2] t m u price assms(2)
      by (simp add: buyer_order_id_def seller_order_id_def fun_upd_twist)
  qed
qed

text \<open>
  What the matching engine promises of a trade it reports: it is between two different orders of the
  traded symbol, a bid and an ask, of the users it names, at a price and a quantity of 32 bits, and
  for no more than either order has left.
\<close>

definition trade_fits :: "trade_container \<Rightarrow> (int \<rightharpoonup> order_info) \<Rightarrow> bool" where
  "trade_fits trade infos \<longleftrightarrow>
     tc_taker_order_id trade \<noteq> tc_maker_order_id trade \<and> tc_ticker trade \<noteq> USD_SYMBOL \<and>
     0 \<le> tc_quantity trade \<and> in_i32 (tc_quantity trade) \<and> 0 \<le> tc_price trade \<and>
     (case (infos (buyer_order_id trade), infos (seller_order_id trade)) of
        (Some b, Some s) \<Rightarrow>
          oi_side b = Bid \<and> oi_side s = Ask \<and> oi_symbol s = tc_ticker trade \<and>
          oi_sender_comp_id b = trade_buyer trade \<and> oi_sender_comp_id s = trade_seller trade \<and>
          tc_quantity trade \<le> oi_leaves_qty b \<and> tc_quantity trade \<le> oi_leaves_qty s
      | _ \<Rightarrow> False)"

text \<open>The credits of a settlement, in order.\<close>

definition settlement_credits :: "trade_container \<Rightarrow> int option \<Rightarrow> (string \<times> string \<times> int) list" where
  "settlement_credits trade limit =
     [(trade_buyer trade, tc_ticker trade, tc_quantity trade)] @
     (case limit of
        None \<Rightarrow> []
      | Some p \<Rightarrow> if p > tc_price trade
                  then [(trade_buyer trade, USD_SYMBOL, (p - tc_price trade) * tc_quantity trade)] else []) @
     [(trade_seller trade, USD_SYMBOL, tc_price trade * tc_quantity trade)]"

definition limit_cost :: "trade_container \<Rightarrow> int option \<Rightarrow> int" where
  "limit_cost trade limit = (case limit of None \<Rightarrow> tc_price trade | Some p \<Rightarrow> p) * tc_quantity trade"

lemma settlement_credit_all:
  assumes "BalanceChecker.update_balance bal (trade_buyer trade) (tc_ticker trade) (tc_quantity trade) = Inr bal1"
    "refund_improvement trade limit bal1 = Inr bal2"
    "BalanceChecker.update_balance bal2 (trade_seller trade) USD_SYMBOL (tc_price trade * tc_quantity trade) = Inr bal'"
  shows "bal.credit_all bal (settlement_credits trade limit) = Inr bal'"
  using assms
  by (cases limit) (auto simp: settlement_credits_def refund_improvement_def result_simps split: if_splits)

lemma refund_improvement_Inr:
  assumes "refund_improvement trade limit bal1 = Inr bal2" "limit = Some p"
  shows "tc_price trade \<le> p \<and> (tc_price trade < p \<longrightarrow> in_i32 ((p - tc_price trade) * tc_quantity trade))"
  using assms by (auto simp: refund_improvement_def result_simps split: if_splits)

lemma settle_trade_balances:
  assumes "settle_trade trade infos bal = Inr (infos', bal')" "trade_fits trade infos" "balances_ok bal"
    and b: "infos (buyer_order_id trade) = Some b"
  shows "balances_ok bal'"
    and "\<forall>p. oi_price b = Some p \<longrightarrow> tc_price trade \<le> p"
    and "total bal' u = total bal u + bal.credited (settlement_credits trade (oi_price b)) u"
    and "amount bal' a u = amount bal a u + bal.credited_to (settlement_credits trade (oi_price b)) a u"
proof -
  have ne: "tc_taker_order_id trade \<noteq> tc_maker_order_id trade" using assms(2) by (simp add: trade_fits_def)
  obtain bal1 bal2 where r:
    "BalanceChecker.update_balance bal (trade_buyer trade) (tc_ticker trade) (tc_quantity trade) = Inr bal1"
    "refund_improvement trade (oi_price b) bal1 = Inr bal2" "in_i32 (tc_price trade * tc_quantity trade)"
    "BalanceChecker.update_balance bal2 (trade_seller trade) USD_SYMBOL (tc_price trade * tc_quantity trade) = Inr bal'"
    using assms(1) ne by (rule settle_trade_Inr) (use b in auto)
  note c = settlement_credit_all [OF r(1,2,4)]
  have "\<forall>(a, u, d) \<in> set (settlement_credits trade (oi_price b)). 0 \<le> d \<and> in_i64 d"
    using assms(2) r(3) refund_improvement_Inr [OF r(2)]
    by (auto simp: settlement_credits_def trade_fits_def in_i32_imp_in_i64 split: option.splits)
  from bal.credit_all_correct [OF c assms(3) this]
  show "balances_ok bal'"
    "total bal' u = total bal u + bal.credited (settlement_credits trade (oi_price b)) u"
    "amount bal' a u = amount bal a u + bal.credited_to (settlement_credits trade (oi_price b)) a u"
    by blast+
  show "\<forall>p. oi_price b = Some p \<longrightarrow> tc_price trade \<le> p"
    using refund_improvement_Inr [OF r(2)] by blast
qed

lemma settlement_credited:
  assumes "tc_ticker trade \<noteq> USD_SYMBOL" "\<forall>p. limit = Some p \<longrightarrow> tc_price trade \<le> p"
  shows "bal.credited (settlement_credits trade limit) u =
    (if u = tc_ticker trade then tc_quantity trade else if u = USD_SYMBOL then limit_cost trade limit else 0)"
  using assms
  by (cases limit) (auto simp: bal.credited_def settlement_credits_def limit_cost_def algebra_simps)

text \<open>A trade moves value from the two reservations (and a market buyer's prepayment) to balances.\<close>

lemma settle_trade_conserves:
  assumes "settle_trade trade infos bal = Inr (infos', bal')" "trade_fits trade infos" "balances_ok bal"
  obtains b s b' s' where
    "infos (buyer_order_id trade) = Some b" "infos (seller_order_id trade) = Some s"
    "infos' = infos(buyer_order_id trade \<mapsto> b', seller_order_id trade \<mapsto> s')"
    "oi_price b' = oi_price b" "oi_price s' = oi_price s"
    "oi_leaves_qty b' = oi_leaves_qty b - tc_quantity trade" "oi_leaves_qty s' = oi_leaves_qty s - tc_quantity trade"
    "\<forall>u. total bal' u + reservation b' u + reservation s' u =
       total bal u + reservation b u + reservation s u +
       (if oi_price b = None \<and> u = USD_SYMBOL then tc_price trade * tc_quantity trade else 0)"
proof -
  have ne: "tc_taker_order_id trade \<noteq> tc_maker_order_id trade" using assms(2) by (simp add: trade_fits_def)
  obtain b s b' s' where i: "infos (buyer_order_id trade) = Some b" "infos (seller_order_id trade) = Some s"
    "infos' = infos(buyer_order_id trade \<mapsto> b', seller_order_id trade \<mapsto> s')"
    and b': "b' = b\<lparr>oi_avg_px := oi_avg_px b', oi_leaves_qty := oi_leaves_qty b - tc_quantity trade,
       oi_cum_qty := oi_cum_qty b + tc_quantity trade\<rparr>"
    and s': "s' = s\<lparr>oi_avg_px := oi_avg_px s', oi_leaves_qty := oi_leaves_qty s - tc_quantity trade,
       oi_cum_qty := oi_cum_qty s + tc_quantity trade\<rparr>"
    using assms(1) ne by (rule settle_trade_Inr)
  have sides: "oi_side b = Bid" "oi_side s = Ask" "oi_symbol s = tc_ticker trade" "tc_ticker trade \<noteq> USD_SYMBOL"
    using assms(2) i by (auto simp: trade_fits_def)
  have fb: "oi_side b' = Bid" "oi_price b' = oi_price b" "oi_leaves_qty b' = oi_leaves_qty b - tc_quantity trade"
    by (subst b', simp add: sides)+
  have fs: "oi_side s' = Ask" "oi_symbol s' = tc_ticker trade" "oi_price s' = oi_price s" "oi_leaves_qty s' = oi_leaves_qty s - tc_quantity trade"
    by (subst s', simp add: sides)+
  note bals = settle_trade_balances [OF assms i(1)]
  have "total bal' u + reservation b' u + reservation s' u =
       total bal u + reservation b u + reservation s u +
       (if oi_price b = None \<and> u = USD_SYMBOL then tc_price trade * tc_quantity trade else 0)" for u
    unfolding bals(3) settlement_credited [OF sides(4) bals(2)]
    using sides fb fs
    by (cases "oi_price b") (auto simp: reservation_def limit_cost_def right_diff_distrib)
  then show ?thesis using that i fb(2,3) fs(3,4) by blast
qed

text \<open>A successful cancellation pays the whole reservation of a limit order back.\<close>

lemma refund_cancelled_Inr:
  assumes "refund_cancelled c infos bal = Inr bal'" "balances_ok bal" "crs_success c"
    and "\<And>info. infos (crs_order_id c) = Some info \<Longrightarrow> 0 \<le> oi_leaves_qty info \<and> in_i32 (oi_leaves_qty info) \<and>
      (\<forall>p. oi_price info = Some p \<longrightarrow> 0 \<le> p)"
  obtains info p where "infos (crs_order_id c) = Some info" "oi_price info = Some p"
    "moved bal bal' (oi_sender_comp_id info) (if oi_side info = Bid then USD_SYMBOL else oi_symbol info)
       (if oi_side info = Bid then p * oi_leaves_qty info else oi_leaves_qty info)"
proof -
  obtain info p where i: "infos (crs_order_id c) = Some info" "oi_price info = Some p"
    using assms(1,3) by (auto simp: refund_cancelled_def result_simps split: option.splits)
  let ?u = "if oi_side info = Bid then USD_SYMBOL else oi_symbol info"
  let ?d = "if oi_side info = Bid then p * oi_leaves_qty info else oi_leaves_qty info"
  have u: "BalanceChecker.update_balance bal (oi_sender_comp_id info) ?u ?d = Inr bal'"
    and d: "0 \<le> ?d" "in_i64 ?d"
    using assms(1,3) assms(4) [OF i(1)] i
    by (auto simp: refund_cancelled_def result_simps in_i32_imp_in_i64 split: if_splits)
  then show ?thesis using that i update_balance_moved [OF u assms(2)] by blast
qed

end
