(* ===== verification/OmRun.thy ===== *)
theory OmRun
  imports OmLedger
begin

text \<open>
  Runs of the order manager: what each handler keeps, the invariant of its maps, and the steps by
  which requests and answers of the matching engine change balances and reservations. The second
  component of a run's state records, for every order the engine may still act on, what a market bid
  prepaid and has not spent.
\<close>

section \<open>What the handlers keep\<close>

text \<open>The part of the state that replies and database writes do not touch.\<close>

definition om_core ::
  "('s, 'c, 'd) order_manager \<Rightarrow>
   balance_map \<times> (int \<rightharpoonup> order_info) \<times> bimap \<times> int \<times> (string \<rightharpoonup> int) \<times> string set" where
  "om_core om = (om_balances om, om_order_info_map om, om_order_id_map om, om_latest_assigned_order_id om,
     om_username_user_id_map om, om_active_symbols om)"

lemma om_core_eq:
  "om_core om = om_core om' \<longleftrightarrow>
     om_balances om = om_balances om' \<and> om_order_info_map om = om_order_info_map om' \<and>
     om_order_id_map om = om_order_id_map om' \<and>
     om_latest_assigned_order_id om = om_latest_assigned_order_id om' \<and>
     om_username_user_id_map om = om_username_user_id_map om' \<and> om_active_symbols om = om_active_symbols om'"
  by (auto simp: om_core_def)

lemma om_core_updates [simp]:
  "om_core (om\<lparr>om_inbound_server := a\<rparr>) = om_core om"
  "om_core (om\<lparr>om_order_request_client := b\<rparr>) = om_core om"
  "om_core (om\<lparr>om_order_response_client := b\<rparr>) = om_core om"
  "om_core (om\<lparr>om_database := d\<rparr>) = om_core om"
  "om_core (om\<lparr>om_reports := n\<rparr>) = om_core om"
  by (simp_all add: om_core_def)

lemma om_core_reply [simp]: "om_core (reply e g r om) = om_core om"
  by (simp add: reply_def)

lemma om_core_db_exec [simp]: "om_core (db_exec e call om) = om_core om"
  by (simp add: db_exec_def)

lemma forward_and_reply_core: "forward_and_reply e v c g r om = Inr om' \<Longrightarrow> om_core om' = om_core om"
  by (auto simp: forward_and_reply_def result_simps Let_def split: if_splits)

lemma persist_party_core: "persist_party e b s om = Inr om' \<Longrightarrow> om_core om' = om_core om"
  by (auto simp: persist_party_def result_simps)

lemma update_database_core:
  assumes "update_database e c v om = Inr om'"
  shows "om_core om' = om_core om"
proof (cases c)
  case (Trade_Container t)
  then obtain om1 where
    "persist_party e (trade_buyer t) (tc_ticker t) (db_exec e (Insert_Trade t) om) = Inr om1"
    "persist_party e (trade_seller t) (tc_ticker t) om1 = Inr om'"
    using assms by (auto simp: result_simps)
  from this [THEN persist_party_core] show ?thesis by simp
qed (use assms in \<open>auto simp: result_simps persist_cancellation_def Let_def split: option.splits if_splits\<close>)

lemma return_execution_report_core:
  "return_execution_report e c om = Inr om' \<Longrightarrow> om_core om' = om_core om"
  by (cases c) (auto simp: result_simps)

lemma container_fill_cost_cases:
  "(case r of Fill_Cost_Response f \<Rightarrow> Inr (g f) | _ \<Rightarrow> Inl err) = Inr y \<longleftrightarrow> (\<exists>f. r = Fill_Cost_Response f \<and> y = g f)"
  by (cases r) auto

lemma query_fill_cost_core:
  "query_fill_cost e c om = Some (Inr (ans, c', om')) \<Longrightarrow> c' = New_Order_Single c \<and> om_core om' = om_core om"
  by (auto simp: query_fill_cost_def result_simps container_fill_cost_cases Let_def
      split: prod.splits bool.splits option.splits)

section \<open>Registering orders\<close>

lemma register_order_Inr:
  assumes "register_order c g om = Inr (reason, c', om')"
  obtains (rejected) r where "reason = Some r" "om' = om\<lparr>om_latest_assigned_order_id := om_latest_assigned_order_id om + 1\<rparr>"
      "c' = c\<lparr>nos_order_id := Some (om_latest_assigned_order_id om + 1)\<rparr>"
  | (registered) uid t where "reason = None" "om_username_user_id_map om (nos_sender_comp_id c) = Some uid"
      "transform_cl_ord_id (nos_cl_ord_id c) uid = Inr t" "bm_right (om_order_id_map om) t = None"
      "c' = c\<lparr>nos_order_id := Some (om_latest_assigned_order_id om + 1)\<rparr>"
      "om' = om\<lparr>om_latest_assigned_order_id := om_latest_assigned_order_id om + 1,
         om_order_id_map := bm_insert (om_latest_assigned_order_id om + 1) t (om_order_id_map om),
         om_order_info_map := (if om_order_info_map om (om_latest_assigned_order_id om + 1) = None
           then (om_order_info_map om)(om_latest_assigned_order_id om + 1 \<mapsto> new_order_info c' g)
           else om_order_info_map om)\<rparr>"
  using assms
  by (auto simp: register_order_def result_simps Let_def split: option.splits if_splits)

text \<open>
  The invariant of the id maps: both views agree, an order has a record exactly when it has a client
  id, and no id is beyond the last one assigned.
\<close>

definition ids_ok :: "('s, 'c, 'd) order_manager \<Rightarrow> bool" where
  "ids_ok om \<longleftrightarrow>
     (\<forall>l r. bm_left (om_order_id_map om) l = Some r \<longleftrightarrow> bm_right (om_order_id_map om) r = Some l) \<and>
     dom (bm_left (om_order_id_map om)) = dom (om_order_info_map om) \<and>
     (\<forall>i \<in> dom (om_order_info_map om). 0 \<le> i \<and> i \<le> om_latest_assigned_order_id om) \<and>
     - 1 \<le> om_latest_assigned_order_id om"

lemma ids_ok_core: "om_core om' = om_core om \<Longrightarrow> ids_ok om' = ids_ok om"
  by (simp add: om_core_eq ids_ok_def)

lemma ids_ok_fresh:
  assumes "ids_ok om" "om_latest_assigned_order_id om < i"
  shows "om_order_info_map om i = None" "bm_left (om_order_id_map om) i = None"
proof -
  have "i \<notin> dom (om_order_info_map om)" using assms by (force simp: ids_ok_def)
  moreover have "dom (bm_left (om_order_id_map om)) = dom (om_order_info_map om)"
    using assms(1) by (simp add: ids_ok_def)
  ultimately show "om_order_info_map om i = None" "bm_left (om_order_id_map om) i = None" by blast+
qed

lemma ids_ok_latest:
  assumes "ids_ok om"
  shows "ids_ok (om\<lparr>om_latest_assigned_order_id := om_latest_assigned_order_id om + 1\<rparr>)"
  using assms by (force simp: ids_ok_def)

text \<open>The state after a registration, when the id is new.\<close>

definition register_at ::
  "int \<Rightarrow> int \<Rightarrow> order_info \<Rightarrow> ('s, 'c, 'd) order_manager \<Rightarrow> ('s, 'c, 'd) order_manager" where
  "register_at i t info om =
     om\<lparr>om_latest_assigned_order_id := i,
        om_order_id_map := \<lparr>bm_left = (bm_left (om_order_id_map om))(i \<mapsto> t),
                            bm_right = (bm_right (om_order_id_map om))(t \<mapsto> i)\<rparr>,
        om_order_info_map := (om_order_info_map om)(i \<mapsto> info)\<rparr>"

lemma register_at_ids_ok:
  assumes "ids_ok om" "bm_right (om_order_id_map om) t = None"
  shows "ids_ok (register_at (om_latest_assigned_order_id om + 1) t info om)"
proof -
  let ?i = "om_latest_assigned_order_id om + 1"
  have n: "bm_left (om_order_id_map om) ?i = None" using ids_ok_fresh(2) [OF assms(1)] by simp
  have agree: "bm_left (om_order_id_map om) l = Some r \<longleftrightarrow> bm_right (om_order_id_map om) r = Some l" for l r
    using assms(1) by (simp add: ids_ok_def)
  have "((bm_left (om_order_id_map om))(?i \<mapsto> t)) l = Some r \<longleftrightarrow>
      ((bm_right (om_order_id_map om))(t \<mapsto> ?i)) r = Some l" for l r
    using agree [of l r] agree [of ?i r] agree [of l t] n assms(2) by auto
  then show ?thesis
    using assms(1) by (force simp: ids_ok_def register_at_def)
qed

lemma register_order_registered:
  assumes "register_order c g om = Inr (None, c', om')" "ids_ok om"
  obtains uid t where "om_username_user_id_map om (nos_sender_comp_id c) = Some uid"
    "transform_cl_ord_id (nos_cl_ord_id c) uid = Inr t" "bm_right (om_order_id_map om) t = None"
    "c' = c\<lparr>nos_order_id := Some (om_latest_assigned_order_id om + 1)\<rparr>"
    "om' = register_at (om_latest_assigned_order_id om + 1) t (new_order_info c' g) om"
  using assms(1)
proof (cases rule: register_order_Inr)
  case (registered uid t)
  have "om' = register_at (om_latest_assigned_order_id om + 1) t (new_order_info c' g) om"
    unfolding registered(6) register_at_def bm_insert_def
    using ids_ok_fresh [OF assms(2), of "om_latest_assigned_order_id om + 1"] registered(4) by simp
  then show ?thesis using that [of uid t] registered(2-5) by blast
qed simp

lemma register_order_ids_ok:
  assumes "register_order c g om = Inr (reason, c', om')" "ids_ok om"
  shows "ids_ok om'"
proof (cases reason)
  case None
  then show ?thesis using assms register_order_registered register_at_ids_ok by metis
next
  case (Some r)
  from assms(1) show ?thesis
    by (cases rule: register_order_Inr) (use Some ids_ok_latest [OF assms(2)] in auto)
qed

section \<open>Requests\<close>

lemma preprocess_new_order_Inr:
  assumes "preprocess_new_order e c g om = Some (Inr (ans, c', om'))"
  obtains reason numbered om1 where "register_order c g om = Inr (reason, numbered, om1)"
    "c' = New_Order_Single numbered" "om_core om' = om_core om1"
    "reason = None \<or> (\<exists>r. ans = Inl r)"
    "nos_ord_type numbered = Market \<and> nos_side numbered = Bid \<or> (\<forall>fc. ans = Inr fc \<longrightarrow> fc = None)"
proof -
  obtain reason numbered om1 where r: "register_order c g om = Inr (reason, numbered, om1)"
    using assms by (auto simp: preprocess_new_order_def split: sum.splits)
  show ?thesis
  proof (cases reason)
    case None
    then show ?thesis
      using assms r that [OF r] query_fill_cost_core [of e numbered om1 ans c' om']
      by (auto simp: preprocess_new_order_def split: if_splits)
  next
    case (Some m)
    then show ?thesis using assms r that [OF r] by (auto simp: preprocess_new_order_def)
  qed
qed

text \<open>
  The orders a request opens: an accepted order, with what it prepaid when it is a market bid.
\<close>

definition prepaid :: "new_order_single \<Rightarrow> int option \<Rightarrow> int" where
  "prepaid c fill_cost = (if nos_side c = Bid \<and> nos_ord_type c = Market then the fill_cost else 0)"

definition opened ::
  "('s, 'c, 'd, 'w) om_env \<Rightarrow> int \<Rightarrow> container \<Rightarrow> ('s, 'c, 'd) order_manager \<Rightarrow> (int \<rightharpoonup> int)" where
  "opened e g c om =
     (case preprocess_container e c g om of
        Some (Inr (Inr fill_cost, New_Order_Single numbered, om')) \<Rightarrow>
          (case validate_new_order numbered (om_active_symbols om') (om_balances om') fill_cost of
             Inr (result, _) \<Rightarrow>
               if result = ''ok'' then [the (nos_order_id numbered) \<mapsto> prepaid numbered fill_cost] else Map.empty
           | Inl _ \<Rightarrow> Map.empty)
      | _ \<Rightarrow> Map.empty)"

text \<open>The orders the gateway sends: a limit order has a price, a market order has none.\<close>

fun from_gateway :: "container \<Rightarrow> bool" where
  "from_gateway (New_Order_Single c) \<longleftrightarrow> (nos_price c \<noteq> None \<longleftrightarrow> nos_ord_type c = Limit) \<and> in_i32 (nos_order_qty c)"
| "from_gateway _ \<longleftrightarrow> True"

definition held :: "(int \<rightharpoonup> order_info) \<Rightarrow> (int \<rightharpoonup> int) \<Rightarrow> string \<Rightarrow> int" where
  "held infos live u =
     (\<Sum>i \<in> dom live. reservation (the (infos i)) u + (if u = USD_SYMBOL then the (live i) else 0))"

definition issued :: "('s, 'c, 'd) order_manager \<Rightarrow> (int \<rightharpoonup> int) \<Rightarrow> string \<Rightarrow> int" where
  "issued om live u = total (om_balances om) u + held (om_order_info_map om) live u"

text \<open>The invariant of a run.\<close>

definition order_open :: "order_info \<Rightarrow> int \<Rightarrow> bool" where
  "order_open info pre \<longleftrightarrow> 0 \<le> oi_leaves_qty info \<and> in_i32 (oi_leaves_qty info) \<and>
     (\<forall>p. oi_price info = Some p \<longrightarrow> 0 \<le> p \<and> pre = 0)"

definition om_inv :: "('s, 'c, 'd) order_manager \<Rightarrow> (int \<rightharpoonup> int) \<Rightarrow> bool" where
  "om_inv om live \<longleftrightarrow>
     balances_ok (om_balances om) \<and> ids_ok om \<and> finite (dom live) \<and>
     (\<forall>i pre. live i = Some pre \<longrightarrow> (\<exists>info. om_order_info_map om i = Some info \<and> order_open info pre))"

lemma om_inv_parts:
  assumes "om_inv om live"
  shows "balances_ok (om_balances om)" "ids_ok om" "finite (dom live)"
  using assms by (simp_all add: om_inv_def)

lemma om_inv_live:
  assumes "om_inv om live" "live i = Some pre"
  shows "\<exists>info. om_order_info_map om i = Some info \<and> order_open info pre"
  using assms by (simp add: om_inv_def)

lemma om_inv_open:
  assumes "om_inv om live" "live i = Some pre" "om_order_info_map om i = Some info"
  shows "order_open info pre"
  using assms by (fastforce simp: om_inv_def)

lemma om_inv_core: "om_core om' = om_core om \<Longrightarrow> om_inv om' live = om_inv om live"
  using ids_ok_core [of om' om] by (simp add: om_inv_def om_core_eq)

lemma issued_core: "om_core om' = om_core om \<Longrightarrow> issued om' live u = issued om live u"
  by (simp add: issued_def om_core_eq)

lemma held_outside: "i \<notin> dom live \<Longrightarrow> held (infos(i \<mapsto> info)) live u = held infos live u"
  unfolding held_def by (rule sum.cong) auto

lemma held_open:
  assumes "finite (dom live)" "i \<notin> dom live"
  shows "held (infos(i \<mapsto> info)) (live(i \<mapsto> pre)) u =
    held infos live u + reservation info u + (if u = USD_SYMBOL then pre else 0)"
proof -
  have "held (infos(i \<mapsto> info)) (live(i \<mapsto> pre)) u = reservation info u + (if u = USD_SYMBOL then pre else 0) +
      (\<Sum>j \<in> dom live. reservation (the ((infos(i \<mapsto> info)) j)) u + (if u = USD_SYMBOL then the ((live(i \<mapsto> pre)) j) else 0))"
    using assms by (simp add: held_def)
  also have "(\<Sum>j \<in> dom live. reservation (the ((infos(i \<mapsto> info)) j)) u +
      (if u = USD_SYMBOL then the ((live(i \<mapsto> pre)) j) else 0)) = held infos live u"
    unfolding held_def using assms(2) by (intro sum.cong) auto
  finally show ?thesis by (simp only: ac_simps)
qed

text \<open>Replacing the record and the prepayment of one open order.\<close>

lemma held_update:
  assumes "finite (dom live)" "live i = Some old" "infos i = Some info"
  shows "held (infos(i \<mapsto> info')) (live(i \<mapsto> new)) u =
    held infos live u + reservation info' u - reservation info u + (if u = USD_SYMBOL then new - old else 0)"
proof -
  have i: "dom live = insert i (dom live - {i})" using assms(2) by auto
  have "held infos live u = reservation info u + (if u = USD_SYMBOL then old else 0) + held infos (live(i := None)) u"
    unfolding held_def by (subst i, subst sum.insert) (use assms in \<open>auto intro!: sum.cong\<close>)
  moreover have "held (infos(i \<mapsto> info')) ((live(i := None))(i \<mapsto> new)) u =
      held infos (live(i := None)) u + reservation info' u + (if u = USD_SYMBOL then new else 0)"
    by (rule held_open) (use assms in auto)
  ultimately show ?thesis by simp
qed

lemma held_close:
  assumes "finite (dom live)" "live i = Some old" "infos i = Some info"
  shows "held infos (live(i := None)) u =
    held infos live u - reservation info u - (if u = USD_SYMBOL then old else 0)"
proof -
  have i: "dom live = insert i (dom live - {i})" using assms(2) by auto
  have "held infos live u = reservation info u + (if u = USD_SYMBOL then old else 0) + held infos (live(i := None)) u"
    unfolding held_def by (subst i, subst sum.insert) (use assms in \<open>auto intro!: sum.cong\<close>)
  then show ?thesis by simp
qed

section \<open>Steps keep the invariant and what was issued\<close>

lemma handle_request_cases:
  assumes "handle_request e g c om = Some (Inr om')"
  obtains (refused) r c' om1 where "preprocess_container e c g om = Some (Inr (Inl r, c', om1))"
      "om_core om' = om_core om1"
  | (validated) fc c' om1 res bal' where "preprocess_container e c g om = Some (Inr (Inr fc, c', om1))"
      "validate_container c' (om_active_symbols om1) (om_balances om1) fc = Inr (res, bal')"
      "om_core om' = om_core (om1\<lparr>om_balances := bal'\<rparr>)"
proof -
  obtain ans c' om1 where p: "preprocess_container e c g om = Some (Inr (ans, c', om1))"
    using assms by (auto simp: handle_request_def split: option.splits sum.splits)
  show ?thesis
  proof (cases ans)
    case (Inl r)
    then obtain om2 where f: "forward_and_reply e False c' g (Some r) om1 = Inr om2"
      and d: "update_database e c' (Some False) om2 = Inr om'"
      using assms p by (auto simp: handle_request_def result_simps)
    show ?thesis
      using refused [of r c' om1] p Inl forward_and_reply_core [OF f] update_database_core [OF d] by simp
  next
    case (Inr fc)
    then obtain res bal' om2 where v: "validate_container c' (om_active_symbols om1) (om_balances om1) fc = Inr (res, bal')"
      and f: "forward_and_reply e (res = ''ok'') c' g (if res = ''ok'' then None else Some res)
        (om1\<lparr>om_balances := bal'\<rparr>) = Inr om2"
      and d: "update_database e c' (Some (res = ''ok'')) om2 = Inr om'"
      using assms p by (auto simp: handle_request_def result_simps Let_def)
    show ?thesis
      using validated [of fc c' om1 res bal'] p Inr v forward_and_reply_core [OF f] update_database_core [OF d] by simp
  qed
qed

text \<open>Registering an order opens nothing yet.\<close>

lemma live_registered: "om_inv om live \<Longrightarrow> i \<in> dom live \<Longrightarrow> i \<in> dom (om_order_info_map om)"
  by (force simp: om_inv_def)

lemma live_fresh:
  assumes "om_inv om live" "om_latest_assigned_order_id om < i"
  shows "i \<notin> dom live"
  using live_registered [OF assms(1)] ids_ok_fresh(1) [of om i] assms by (auto simp: om_inv_def)

lemma register_order_inv:
  assumes "register_order c g om = Inr (reason, c', om')" "om_inv om live"
  shows "om_inv om' live \<and> issued om' live u = issued om live u"
proof -
  have ids: "ids_ok om" "ids_ok om'"
    using assms register_order_ids_ok by (auto simp: om_inv_def)
  show ?thesis
  proof (cases reason)
    case None
    obtain t where om': "om' = register_at (om_latest_assigned_order_id om + 1) t (new_order_info c' g) om"
      by (rule register_order_registered [OF assms(1) [unfolded None] ids(1)]) blast
    have n: "om_latest_assigned_order_id om + 1 \<notin> dom live" using live_fresh [OF assms(2)] by simp
    have "om_order_info_map om' j = om_order_info_map om j" if "live j = Some pre" for j pre
      using n that by (auto simp: om' register_at_def)
    moreover have "om_balances om' = om_balances om" by (simp add: om' register_at_def)
    ultimately have "om_inv om' live" using assms(2) ids(2) unfolding om_inv_def by simp
    then show ?thesis using n by (simp add: om' issued_def register_at_def held_outside)
  next
    case (Some r)
    then have "om' = om\<lparr>om_latest_assigned_order_id := om_latest_assigned_order_id om + 1\<rparr>"
      using assms(1) by (auto elim: register_order_Inr)
    then show ?thesis using assms(2) ids(2) by (simp add: om_inv_def issued_def)
  qed
qed

lemma open_order:
  assumes "om_inv om live" "om_order_info_map om i = Some info" "i \<notin> dom live"
    and "moved (om_balances om) bal' b unit (- amt)"
    and "reservation info u + (if u = USD_SYMBOL then pre else 0) = (if u = unit then amt else 0)"
    and "order_open info pre"
  shows "om_inv (om\<lparr>om_balances := bal'\<rparr>) (live(i \<mapsto> pre)) \<and>
    issued (om\<lparr>om_balances := bal'\<rparr>) (live(i \<mapsto> pre)) u = issued om live u"
proof -
  have "ids_ok (om\<lparr>om_balances := bal'\<rparr>)" using assms(1) by (simp add: om_inv_def ids_ok_def)
  moreover have "balances_ok bal'" "total bal' u = total (om_balances om) u + (if u = unit then - amt else 0)"
    using assms(4) by (simp_all add: moved_def)
  moreover have "held (om_order_info_map om) (live(i \<mapsto> pre)) u =
      held (om_order_info_map om) live u + reservation info u + (if u = USD_SYMBOL then pre else 0)"
    using held_open [of live i "om_order_info_map om" info pre u] assms(1-3)
    by (simp add: om_inv_def map_upd_triv)
  ultimately show ?thesis using assms(1,2,5-) by (auto simp: om_inv_def issued_def)
qed

lemma accepted_reservation:
  assumes "nos_price c \<noteq> None \<longleftrightarrow> nos_ord_type c = Limit"
  shows "reservation (new_order_info c g) u + (if u = USD_SYMBOL then prepaid c fc else 0) =
    (if u = reserved_unit c then reserved_amount c fc else 0)"
  using assms
  by (cases "nos_side c"; cases "nos_ord_type c"; cases "nos_price c")
    (auto simp: reservation_def new_order_info_def prepaid_def reserved_unit_def reserved_amount_def)

lemma new_order_step:
  assumes "handle_request e g (New_Order_Single c) om = Some (Inr om')" "om_inv om live"
    and gw: "nos_price c \<noteq> None \<longleftrightarrow> nos_ord_type c = Limit" "in_i32 (nos_order_qty c)"
  shows "om_inv om' (live ++ opened e g (New_Order_Single c) om) \<and>
    issued om' (live ++ opened e g (New_Order_Single c) om) u = issued om live u"
  using assms(1)
proof (cases rule: handle_request_cases)
  case (refused r c' om1)
  then have pre: "preprocess_new_order e c g om = Some (Inr (Inl r, c', om1))" by simp
  obtain reason numbered om2 where reg: "register_order c g om = Inr (reason, numbered, om2)"
    and core: "om_core om1 = om_core om2"
    using pre by (rule preprocess_new_order_Inr)
  have "opened e g (New_Order_Single c) om = Map.empty" using refused(1) by (simp add: opened_def)
  then show ?thesis
    using register_order_inv [OF reg assms(2), of u] om_inv_core [of om' om2 live] issued_core [of om' om2 live u]
      refused(2) core by simp
next
  case (validated fc c' om1 res bal')
  then have "preprocess_new_order e c g om = Some (Inr (Inr fc, c', om1))" by simp
  then obtain reason numbered om2 where reg: "register_order c g om = Inr (reason, numbered, om2)"
    and c': "c' = New_Order_Single numbered" and core: "om_core om1 = om_core om2" and ok: "reason = None"
    by (rule preprocess_new_order_Inr) auto
  let ?i = "om_latest_assigned_order_id om + 1"
  have "ids_ok om" using assms(2) by (simp add: om_inv_def)
  then obtain t where n: "numbered = c\<lparr>nos_order_id := Some ?i\<rparr>"
    and om2: "om2 = register_at ?i t (new_order_info numbered g) om"
    using reg ok register_order_registered by metis
  have inv1: "om_inv om1 live" "issued om1 live u = issued om live u"
    using register_order_inv [OF reg assms(2)] om_inv_core [OF core] issued_core [OF core] by auto
  have v: "validate_new_order numbered (om_active_symbols om1) (om_balances om1) fc = Inr (res, bal')"
    using validated(2) c' by simp
  have opened: "opened e g (New_Order_Single c) om =
      (if res = ''ok'' then [?i \<mapsto> prepaid numbered fc] else Map.empty)"
    using validated(1) c' v n by (simp add: opened_def)
  have bok: "balances_ok (om_balances om1)" using inv1(1) by (simp add: om_inv_def)
  note eq = om_inv_core [OF validated(3)] issued_core [OF validated(3)]
  show ?thesis
  proof (cases "res = ''ok''")
    case False
    then have "bal' = om_balances om1" using validate_new_order_Inr [OF v bok] by blast
    then show ?thesis using inv1 opened False eq by simp
  next
    case True
    then have m: "moved (om_balances om1) bal' (nos_sender_comp_id numbered) (reserved_unit numbered)
        (- reserved_amount numbered fc)" "0 < nos_order_qty numbered"
      "\<forall>p. nos_price numbered = Some p \<longrightarrow> 0 < p"
      using validate_new_order_Inr [OF v bok] by blast+
    have info: "om_order_info_map om1 ?i = Some (new_order_info numbered g)"
      using core by (simp add: om_core_eq om2 register_at_def)
    have fresh: "?i \<notin> dom live" using live_fresh [OF assms(2)] by simp
    have "om_inv (om1\<lparr>om_balances := bal'\<rparr>) (live(?i \<mapsto> prepaid numbered fc)) \<and>
        issued (om1\<lparr>om_balances := bal'\<rparr>) (live(?i \<mapsto> prepaid numbered fc)) u = issued om1 live u"
      using m(2,3) gw n
      by (intro open_order [OF inv1(1) info fresh m(1)] accepted_reservation) (auto simp: order_open_def new_order_info_def prepaid_def)
    then show ?thesis using inv1 opened True eq by simp
  qed
qed

lemma cancel_request_step:
  assumes "handle_request e g (Cancel_Order_Request c) om = Some (Inr om')"
  shows "om_core om' = om_core om \<and> opened e g (Cancel_Order_Request c) om = Map.empty"
  using assms
  by (cases rule: handle_request_cases) (auto simp: opened_def result_simps om_core_eq)

lemma request_step:
  assumes "handle_request e g c om = Some (Inr om')" "om_inv om live" "from_gateway c"
  shows "om_inv om' (live ++ opened e g c om) \<and> issued om' (live ++ opened e g c om) u = issued om live u"
proof (cases c)
  case (New_Order_Single n)
  then show ?thesis using new_order_step [of e g n om om' live u] assms by simp
next
  case (Cancel_Order_Request n)
  then have "om_core om' = om_core om" "opened e g c om = Map.empty"
    using cancel_request_step assms(1) by blast+
  then show ?thesis using assms(2) om_inv_core [of om' om live] issued_core [of om' om live u] by simp
qed (use assms(1) in \<open>auto simp: handle_request_def\<close>)

section \<open>Answers of the engine\<close>

lemma handle_response_core:
  assumes "handle_response e c om = Inr om'"
  obtains om1 where "update_internal_data c om = Inr om1" "om_core om' = om_core om1"
proof -
  obtain om1 om2 where u: "update_internal_data c om = Inr om1" and r: "return_execution_report e c om1 = Inr om2"
    and d: "update_database e c None om2 = Inr om'"
    using assms by (auto simp: handle_response_def result_simps)
  then show ?thesis
    using that [OF u] return_execution_report_core [OF r] update_database_core [OF d] by simp
qed

text \<open>What a trade leaves of the prepayment of a market bid.\<close>

definition spent :: "trade_container \<Rightarrow> (int \<rightharpoonup> order_info) \<Rightarrow> (int \<rightharpoonup> int) \<Rightarrow> (int \<rightharpoonup> int)" where
  "spent trade infos live =
     (let i = buyer_order_id trade in
      if (case infos i of None \<Rightarrow> False | Some b \<Rightarrow> oi_price b = None)
      then live(i \<mapsto> the (live i) - tc_price trade * tc_quantity trade) else live)"

lemma spent_eq:
  assumes "infos (buyer_order_id t) = Some b" "live (buyer_order_id t) = Some pre"
  shows "spent t infos live = live(buyer_order_id t \<mapsto>
    pre - (if oi_price b = None then tc_price t * tc_quantity t else 0))"
  using assms by (auto simp: spent_def Let_def)

lemma buyer_seller_differ:
  "tc_taker_order_id t \<noteq> tc_maker_order_id t \<Longrightarrow> seller_order_id t \<noteq> buyer_order_id t"
  by (simp add: buyer_order_id_def seller_order_id_def)

lemma trade_held:
  assumes "finite (dom live)" "b \<noteq> s" "live b = Some pb" "live s = Some ps" "infos b = Some ib" "infos s = Some is"
  shows "held (infos(b \<mapsto> ib', s \<mapsto> is')) (live(b \<mapsto> pb')) u =
    held infos live u + reservation ib' u - reservation ib u + reservation is' u - reservation is u +
    (if u = USD_SYMBOL then pb' - pb else 0)"
proof -
  have "held (infos(b \<mapsto> ib', s \<mapsto> is')) ((live(b \<mapsto> pb'))(s \<mapsto> ps)) u =
      held (infos(b \<mapsto> ib')) (live(b \<mapsto> pb')) u + reservation is' u - reservation is u + (if u = USD_SYMBOL then ps - ps else 0)"
    by (rule held_update) (use assms in auto)
  moreover have "(live(b \<mapsto> pb'))(s \<mapsto> ps) = live(b \<mapsto> pb')" using assms(2,4) by auto
  moreover have "held (infos(b \<mapsto> ib')) (live(b \<mapsto> pb')) u =
      held infos live u + reservation ib' u - reservation ib u + (if u = USD_SYMBOL then pb' - pb else 0)"
    by (rule held_update) (use assms in auto)
  ultimately show ?thesis by simp
qed

lemma om_inv_replace:
  assumes "om_inv om live" "balances_ok bal'" "dom infos' = dom (om_order_info_map om)" "finite (dom live')"
    and "\<And>i pre. live' i = Some pre \<Longrightarrow>
      live i = Some pre \<and> infos' i = om_order_info_map om i \<or> (\<exists>info. infos' i = Some info \<and> order_open info pre)"
  shows "om_inv (om\<lparr>om_order_info_map := infos', om_balances := bal'\<rparr>) live'"
proof -
  have "ids_ok (om\<lparr>om_order_info_map := infos', om_balances := bal'\<rparr>)"
    using om_inv_parts(2) [OF assms(1)] assms(3) by (simp add: ids_ok_def)
  moreover have "\<exists>info. infos' i = Some info \<and> order_open info pre" if "live' i = Some pre" for i pre
    using assms(5) [OF that] om_inv_live [OF assms(1), of i pre] by metis
  ultimately show ?thesis using assms(2,4) unfolding om_inv_def by simp
qed

lemma trade_step:
  assumes "handle_response e (Trade_Container t) om = Inr om'" "om_inv om live"
    and fits: "trade_fits t (om_order_info_map om)" "buyer_order_id t \<in> dom live" "seller_order_id t \<in> dom live"
  shows "om_inv om' (spent t (om_order_info_map om) live) \<and>
    issued om' (spent t (om_order_info_map om) live) u = issued om live u"
proof -
  let ?b = "buyer_order_id t" and ?s = "seller_order_id t" and ?infos = "om_order_info_map om"
  obtain om1 where u1: "update_internal_data (Trade_Container t) om = Inr om1" and core: "om_core om' = om_core om1"
    using assms(1) by (rule handle_response_core)
  then obtain infos' bal' where st: "settle_trade t ?infos (om_balances om) = Inr (infos', bal')"
    and om1: "om1 = om\<lparr>om_order_info_map := infos', om_balances := bal'\<rparr>"
    by (auto simp: result_simps)
  have bok: "balances_ok (om_balances om)" using assms(2) by (simp add: om_inv_def)
  obtain b s b' s' where i: "?infos ?b = Some b" "?infos ?s = Some s" "infos' = ?infos(?b \<mapsto> b', ?s \<mapsto> s')"
    and p: "oi_price b' = oi_price b" "oi_price s' = oi_price s"
    and q: "oi_leaves_qty b' = oi_leaves_qty b - tc_quantity t" "oi_leaves_qty s' = oi_leaves_qty s - tc_quantity t"
    and cons: "\<forall>u. total bal' u + reservation b' u + reservation s' u =
       total (om_balances om) u + reservation b u + reservation s u +
       (if oi_price b = None \<and> u = USD_SYMBOL then tc_price t * tc_quantity t else 0)"
    by (rule settle_trade_conserves [OF st fits(1) bok])
  obtain pb ps where l: "live ?b = Some pb" "live ?s = Some ps" using fits by blast
  define pb' where "pb' = pb - (if oi_price b = None then tc_price t * tc_quantity t else 0)"
  have sp: "spent t ?infos live = live(?b \<mapsto> pb')" using spent_eq i(1) l(1) by (simp add: pb'_def)
  have ne: "?b \<noteq> ?s" using fits(1) buyer_seller_differ [of t] by (auto simp: trade_fits_def)
  have fin: "finite (dom live)" using assms(2) by (simp add: om_inv_def)
  have "issued om1 (live(?b \<mapsto> pb')) u = issued om live u"
  proof -
    have "held infos' (live(?b \<mapsto> pb')) u = held ?infos live u + reservation b' u - reservation b u +
        reservation s' u - reservation s u + (if u = USD_SYMBOL then pb' - pb else 0)"
      unfolding i(3) by (rule trade_held) (use fin ne l i(1,2) in auto)
    then show ?thesis using spec [OF cons, of u] by (cases "oi_price b = None") (simp_all add: issued_def om1 pb'_def split: if_splits)
  qed
  moreover have "om_inv om1 (live(?b \<mapsto> pb'))"
    unfolding om1
  proof (rule om_inv_replace [OF assms(2) settle_trade_balances(1) [OF st fits(1) bok i(1)]])
    have "tc_quantity t \<le> oi_leaves_qty b" "tc_quantity t \<le> oi_leaves_qty s" "0 \<le> tc_quantity t"
      using fits(1) i(1,2) by (simp_all add: trade_fits_def)
    then have ob: "order_open b' pb'" and os: "order_open s' ps"
      using om_inv_open [OF assms(2) l(1) i(1)] om_inv_open [OF assms(2) l(2) i(2)] p q
        in_i32_between [of "oi_leaves_qty b" "oi_leaves_qty b'"] in_i32_between [of "oi_leaves_qty s" "oi_leaves_qty s'"]
      by (auto simp: order_open_def pb'_def)
    show "(live(?b \<mapsto> pb')) j = Some pre \<Longrightarrow> live j = Some pre \<and> infos' j = ?infos j \<or>
        (\<exists>info. infos' j = Some info \<and> order_open info pre)" for j pre
      using ob os ne l by (auto simp: i(3) split: if_splits)
  qed (use i fin in auto)
  ultimately show ?thesis using sp om_inv_core [OF core] issued_core [OF core] by simp
qed

definition closed :: "cancel_order_response \<Rightarrow> (int \<rightharpoonup> int) \<Rightarrow> (int \<rightharpoonup> int)" where
  "closed c live = (if crs_success c then live(crs_order_id c := None) else live)"

lemma cancel_step:
  assumes "handle_response e (Cancel_Order_Response c) om = Inr om'" "om_inv om live"
    and "crs_success c \<longrightarrow> crs_order_id c \<in> dom live"
  shows "om_inv om' (closed c live) \<and> issued om' (closed c live) u = issued om live u"
proof -
  obtain om1 where "update_internal_data (Cancel_Order_Response c) om = Inr om1" and core: "om_core om' = om_core om1"
    using assms(1) by (rule handle_response_core)
  then obtain bal' where r: "refund_cancelled c (om_order_info_map om) (om_balances om) = Inr bal'"
    and om1: "om1 = om\<lparr>om_balances := bal'\<rparr>"
    by (auto simp: result_simps)
  have bok: "balances_ok (om_balances om)" and fin: "finite (dom live)" using assms(2) by (simp_all add: om_inv_def)
  have "om_inv om1 (closed c live) \<and> issued om1 (closed c live) u = issued om live u"
  proof (cases "crs_success c")
    case False
    then have "om1 = om" using r by (simp add: refund_cancelled_def om1)
    then show ?thesis using False assms(2) by (simp add: closed_def)
  next
    case True
    then obtain info0 pre where li: "om_order_info_map om (crs_order_id c) = Some info0"
      "live (crs_order_id c) = Some pre" and wf: "order_open info0 pre"
      using assms(2,3) by (force simp: om_inv_def)
    obtain info p where i: "om_order_info_map om (crs_order_id c) = Some info" "oi_price info = Some p"
      and m: "moved (om_balances om) bal' (oi_sender_comp_id info) (if oi_side info = Bid then USD_SYMBOL else oi_symbol info)
       (if oi_side info = Bid then p * oi_leaves_qty info else oi_leaves_qty info)"
      by (rule refund_cancelled_Inr [OF r bok True]) (use li wf in \<open>auto simp: order_open_def\<close>)
    then have eq: "info0 = info" "pre = 0" using li wf by (auto simp: order_open_def)
    have "issued om1 (closed c live) u = issued om live u"
      using m i(2) held_close [of live "crs_order_id c" pre "om_order_info_map om" info0 u] fin li
      by (cases "oi_side info") (auto simp: issued_def om1 closed_def True eq moved_def reservation_def)
    moreover have "om_inv om1 (closed c live)"
      using assms(2) m by (auto simp: om_inv_def om1 closed_def True moved_def ids_ok_def)
    ultimately show ?thesis by blast
  qed
  then show ?thesis using om_inv_core [OF core] issued_core [OF core] by simp
qed

section \<open>Runs\<close>

text \<open>
  A step of the order manager: it handles a request of the gateway, a trade or a cancellation answer of
  the engine about orders that are open, or something changes outside the accounts.
\<close>

inductive om_step ::
  "('s, 'c, 'd, 'w) om_env \<Rightarrow> ('s, 'c, 'd) order_manager \<times> (int \<rightharpoonup> int) \<Rightarrow>
   ('s, 'c, 'd) order_manager \<times> (int \<rightharpoonup> int) \<Rightarrow> bool"
  for e :: "('s, 'c, 'd, 'w) om_env" where
  request: "handle_request e g c om = Some (Inr om') \<Longrightarrow> from_gateway c \<Longrightarrow>
    om_step e (om, live) (om', live ++ opened e g c om)"
| trade: "handle_response e (Trade_Container t) om = Inr om' \<Longrightarrow> trade_fits t (om_order_info_map om) \<Longrightarrow>
    buyer_order_id t \<in> dom live \<Longrightarrow> seller_order_id t \<in> dom live \<Longrightarrow>
    om_step e (om, live) (om', spent t (om_order_info_map om) live)"
| cancel: "handle_response e (Cancel_Order_Response c) om = Inr om' \<Longrightarrow>
    (crs_success c \<longrightarrow> crs_order_id c \<in> dom live) \<Longrightarrow>
    om_step e (om, live) (om', closed c live)"
| other: "om_core om' = om_core om \<Longrightarrow> om_step e (om, live) (om', live)"

inductive om_run ::
  "('s, 'c, 'd, 'w) om_env \<Rightarrow> ('s, 'c, 'd) order_manager \<Rightarrow> ('s, 'c, 'd) order_manager \<times> (int \<rightharpoonup> int) \<Rightarrow> bool"
  for e :: "('s, 'c, 'd, 'w) om_env" and om0 where
  start: "om_run e om0 (om0, Map.empty)"
| step: "om_run e om0 st \<Longrightarrow> om_step e st st' \<Longrightarrow> om_run e om0 st'"

lemma om_step_inv:
  assumes "om_step e st st'" "om_inv (fst st) (snd st)"
  shows "om_inv (fst st') (snd st') \<and> issued (fst st') (snd st') u = issued (fst st) (snd st) u"
  using assms
proof cases
  case (request g c om om' live)
  then show ?thesis using request_step [of e g c om om' live u] assms(2) by simp
next
  case (trade t om om' live)
  then show ?thesis using trade_step [of e t om om' live u] assms(2) by simp
next
  case (cancel c om om' live)
  then show ?thesis using cancel_step [of e c om om' live u] assms(2) by simp
next
  case (other om' om live)
  then show ?thesis using om_inv_core [of om' om live] issued_core [of om' om live u] assms(2) by simp
qed

lemma om_run_inv:
  assumes "om_run e om0 st" "om_inv om0 Map.empty"
  shows "om_inv (fst st) (snd st) \<and> issued (fst st) (snd st) u = total (om_balances om0) u"
  using assms
proof (induction rule: om_run.induct)
  case start
  then show ?case by (simp add: issued_def held_def)
next
  case (step st st')
  then show ?case using om_step_inv [OF step.hyps(2)] by auto
qed

end
