(* ===== verification/OmProperties.thy ===== *)
theory OmProperties
  imports OmRun
begin

text \<open>
  The properties of the order manager, with an order manager on recorded channels for their
  witnesses.
\<close>

section \<open>An order manager on recorded channels\<close>

type_synonym om_log = "(int \<times> container_wrapper) list"

definition demo_om_env :: "(om_log, om_log, db_call list, container_wrapper) om_env" where
  "demo_om_env = \<lparr>om_server_name = ''EXCH'', om_exec_id = (\<lambda>_. ''E''), om_ser = (\<lambda>w. w), om_par = Some,
     om_inbound_send = (\<lambda>c m s. (True, s @ [(c, m)])), om_inbound_dequeue = (\<lambda>c s. (None, s)),
     om_client_send = (\<lambda>c m s. (True, s @ [(c, m)])), om_client_dequeue = (\<lambda>c s. (None, s)),
     om_client_wait = (\<lambda>c s. (Some (serialize_container (\<lambda>w. w) (Fill_Cost_Response \<lparr>fcr_total_cost = Some 400\<rparr>)), s)),
     om_client_connect = (\<lambda>h p n c. (Some 0, c)), om_db = (\<lambda>call d. d @ [call])\<rparr>"

definition demo_users :: "db_user_balance_info list" where
  "demo_users = [\<lparr>dbu_user_id = 7, dbu_username = ''ALICE'', dbu_balances = [(''USD'', 1000), (''GME'', 50)]\<rparr>,
     \<lparr>dbu_user_id = 8, dbu_username = ''BOB'', dbu_balances = [(''USD'', 2000)]\<rparr>]"

definition demo_om :: "(om_log, om_log, db_call list) order_manager" where
  "demo_om = (make_order_manager [''GME''] [] [] [] [])\<lparr>
     om_balances := [''ALICE'' \<mapsto> [''USD'' \<mapsto> 1000, ''GME'' \<mapsto> 50], ''BOB'' \<mapsto> [''USD'' \<mapsto> 2000]],
     om_username_user_id_map := [''ALICE'' \<mapsto> 7, ''BOB'' \<mapsto> 8], om_server_id := 1\<rparr>"

definition demo_buy :: new_order_single where
  "demo_buy = \<lparr>nos_sender_comp_id = ''BOB'', nos_target_comp_id = ''EXCH'', nos_order_id = None,
     nos_cl_ord_id = 3, nos_symbol = ''GME'', nos_side = Bid, nos_order_qty = 10, nos_ord_type = Limit,
     nos_price = Some 100, nos_time_in_force = Day\<rparr>"

lemma demo_om_bal: "balances_ok (om_balances demo_om)"
  by (auto simp: demo_om_def balances_ok_def in_i64_def split: if_splits)

lemma demo_om_inv: "om_inv demo_om Map.empty"
  using demo_om_bal
  by (simp add: om_inv_def ids_ok_def demo_om_def make_order_manager_def bm_empty_def)

lemma demo_om_USD: "total (om_balances demo_om) ''USD'' = 3000"
  by (simp add: total_def demo_om_def amount_def)

section \<open>Value\<close>

text \<open>C3 (invariant). Value is conserved and nobody is overdrawn: along every run of the order manager, whatever
  the order of requests, trades and cancellations, for every unit the balances plus what is held for
  open orders (remaining quantity of asks, limit price times remaining quantity of limit bids,
  unspent prepayment of market bids) add up to the balances the run started with, and every
  balance stays non-negative and within 64 bits. What the engine answers is taken to fit the open
  orders it answers about.\<close>

theorem value_is_conserved:
  assumes "om_run e om0 (om, live)" "om_inv om0 Map.empty"
  shows "total (om_balances om) u + held (om_order_info_map om) live u = total (om_balances om0) u \<and>
    (\<forall>b t. 0 \<le> amount (om_balances om) b t \<and> in_i64 (amount (om_balances om) b t))"
proof -
  have r: "om_inv om live" "issued om live u = total (om_balances om0) u"
    using om_run_inv [OF assms, of u] by simp_all
  then show ?thesis
    using amount_nonneg amount_range om_inv_parts(1) [OF r(1)] by (simp add: issued_def)
qed

theorem value_is_conserved_witness:
  "\<exists>om. handle_request demo_om_env 0 (New_Order_Single demo_buy) demo_om = Some (Inr om) \<and>
     total (om_balances om) ''USD'' +
       held (om_order_info_map om) (opened demo_om_env 0 (New_Order_Single demo_buy) demo_om) ''USD'' = 3000"
proof -
  have "succeeds (the (handle_request demo_om_env 0 (New_Order_Single demo_buy) demo_om))"
    "handle_request demo_om_env 0 (New_Order_Single demo_buy) demo_om \<noteq> None"
    by code_simp+
  then obtain om where h: "handle_request demo_om_env 0 (New_Order_Single demo_buy) demo_om = Some (Inr om)"
    by (auto simp: succeeds_iff)
  have "om_step demo_om_env (demo_om, Map.empty)
      (om, Map.empty ++ opened demo_om_env 0 (New_Order_Single demo_buy) demo_om)"
    using h by (rule om_step.request) (simp add: demo_buy_def in_i32_def)
  then have "om_run demo_om_env demo_om (om, opened demo_om_env 0 (New_Order_Single demo_buy) demo_om)"
    using om_run.step [OF om_run.start] by simp
  from value_is_conserved [OF this demo_om_inv, of "''USD''"] h show ?thesis
    using demo_om_USD by simp
qed

text \<open>C10 (functional). Validation reserves exactly what the order may spend: a new order is answered with \<open>ok\<close> only for an
  active symbol, a positive quantity and a positive price if it has one, and only if the sender's
  balance covers the reservation (limit price times quantity or the quoted fill cost in USD for a
  bid, the quantity of the symbol for an ask); then that balance is lower by the reservation and no
  other balance changes. Any other answer leaves all balances as they were.\<close>

theorem validation_reserves_what_the_order_may_spend:
  assumes "validate_new_order c active bal fc = Inr (res, bal')" "balances_ok bal"
  shows "if res = ''ok'' then
      nos_symbol c \<in> active \<and> 0 < nos_order_qty c \<and> (\<forall>p. nos_price c = Some p \<longrightarrow> 0 < p) \<and>
      reserved_amount c fc \<le> amount bal (nos_sender_comp_id c) (reserved_unit c) \<and> balances_ok bal' \<and>
      (\<forall>b u. amount bal' b u = amount bal b u -
         (if b = nos_sender_comp_id c \<and> u = reserved_unit c then reserved_amount c fc else 0))
    else bal' = bal"
  using validate_new_order_Inr [OF assms] by (auto simp: moved_def)

theorem validation_reserves_what_the_order_may_spend_witness:
  "\<exists>bal'. validate_new_order demo_buy {''GME''} (om_balances demo_om) None = Inr (''ok'', bal') \<and>
     amount bal' ''BOB'' ''USD'' = 1000"
proof -
  have "(case validate_new_order demo_buy {''GME''} (om_balances demo_om) None of
      Inr (r, _) \<Rightarrow> r = ''ok'' | Inl _ \<Rightarrow> False)"
    by code_simp
  then obtain bal' where v: "validate_new_order demo_buy {''GME''} (om_balances demo_om) None = Inr (''ok'', bal')"
    by (auto split: sum.splits)
  from validation_reserves_what_the_order_may_spend [OF this demo_om_bal] show ?thesis
    using v by (simp add: demo_buy_def reserved_unit_def reserved_amount_def USD_SYMBOL_def demo_om_def amount_def)
qed

text \<open>C11 (functional). A trade is settled exactly: the buyer receives the traded quantity and, for a limit order, the
  difference between its limit and the trade price for every unit; the seller receives price times
  quantity; no other balance changes; and in the records of the two orders the quantity moves from
  remaining to filled, while every other record stays.\<close>

theorem trade_is_settled_exactly:
  assumes "settle_trade t infos bal = Inr (infos', bal')" "trade_fits t infos" "balances_ok bal"
    and b: "infos (buyer_order_id t) = Some b"
  shows "(\<forall>a u. amount bal' a u = amount bal a u +
      (if a = trade_buyer t \<and> u = tc_ticker t then tc_quantity t else 0) +
      (if a = trade_buyer t \<and> u = USD_SYMBOL
       then (case oi_price b of None \<Rightarrow> 0 | Some p \<Rightarrow> (p - tc_price t) * tc_quantity t) else 0) +
      (if a = trade_seller t \<and> u = USD_SYMBOL then tc_price t * tc_quantity t else 0)) \<and>
    (\<forall>i. if i = tc_taker_order_id t \<or> i = tc_maker_order_id t
         then oi_leaves_qty (the (infos' i)) = oi_leaves_qty (the (infos i)) - tc_quantity t \<and>
              oi_cum_qty (the (infos' i)) = oi_cum_qty (the (infos i)) + tc_quantity t
         else infos' i = infos i)"
proof -
  have ne: "tc_taker_order_id t \<noteq> tc_maker_order_id t" using assms(2) by (simp add: trade_fits_def)
  note bals = settle_trade_balances [OF assms]
  have credits: "bal.credited_to (settlement_credits t (oi_price b)) a u =
      (if a = trade_buyer t \<and> u = tc_ticker t then tc_quantity t else 0) +
      (if a = trade_buyer t \<and> u = USD_SYMBOL
       then (case oi_price b of None \<Rightarrow> 0 | Some p \<Rightarrow> (p - tc_price t) * tc_quantity t) else 0) +
      (if a = trade_seller t \<and> u = USD_SYMBOL then tc_price t * tc_quantity t else 0)" for a u
    using bals(2) by (cases "oi_price b") (auto simp: bal.credited_to_def settlement_credits_def)
  obtain b0 s b' s' where i: "infos (buyer_order_id t) = Some b0" "infos (seller_order_id t) = Some s"
    "infos' = infos(buyer_order_id t \<mapsto> b', seller_order_id t \<mapsto> s')"
    and b': "b' = b0\<lparr>oi_avg_px := oi_avg_px b', oi_leaves_qty := oi_leaves_qty b0 - tc_quantity t,
       oi_cum_qty := oi_cum_qty b0 + tc_quantity t\<rparr>"
    and s': "s' = s\<lparr>oi_avg_px := oi_avg_px s', oi_leaves_qty := oi_leaves_qty s - tc_quantity t,
       oi_cum_qty := oi_cum_qty s + tc_quantity t\<rparr>"
    using assms(1) ne by (rule settle_trade_Inr)
  have f: "oi_leaves_qty b' = oi_leaves_qty b0 - tc_quantity t" "oi_cum_qty b' = oi_cum_qty b0 + tc_quantity t"
    "oi_leaves_qty s' = oi_leaves_qty s - tc_quantity t" "oi_cum_qty s' = oi_cum_qty s + tc_quantity t"
    by (subst b', simp)+ (subst s', simp)+
  show ?thesis
    using bals(4) credits i f ne
    by (cases "tc_is_taker_buyer t") (auto simp: buyer_order_id_def seller_order_id_def)
qed

definition demo_infos :: "int \<rightharpoonup> order_info" where
  "demo_infos = [0 \<mapsto> new_order_info demo_buy 0,
     1 \<mapsto> (new_order_info demo_buy 0)\<lparr>oi_sender_comp_id := ''ALICE'', oi_side := Ask, oi_price := Some 90\<rparr>]"

definition demo_fill :: trade_container where
  "demo_fill = \<lparr>tc_ticker = ''GME'', tc_price = 90, tc_quantity = 4, tc_trade_id = ''T'', tc_taker_id = ''BOB'',
     tc_maker_id = ''ALICE'', tc_taker_order_id = 0, tc_maker_order_id = 1, tc_is_taker_buyer = True\<rparr>"

lemma demo_fill_fits: "trade_fits demo_fill demo_infos"
  by (simp add: trade_fits_def demo_fill_def demo_infos_def buyer_order_id_def seller_order_id_def
      new_order_info_def demo_buy_def trade_buyer_def trade_seller_def USD_SYMBOL_def in_i32_def)

theorem trade_is_settled_exactly_witness:
  "\<exists>infos' bal'. settle_trade demo_fill demo_infos (om_balances demo_om) = Inr (infos', bal') \<and>
     amount bal' ''BOB'' ''USD'' = 2040 \<and> amount bal' ''ALICE'' ''USD'' = 1360 \<and> amount bal' ''BOB'' ''GME'' = 4"
proof -
  have "succeeds (settle_trade demo_fill demo_infos (om_balances demo_om))" by code_simp
  then obtain infos' bal' where s: "settle_trade demo_fill demo_infos (om_balances demo_om) = Inr (infos', bal')"
    by (auto simp: succeeds_iff)
  have b: "demo_infos (buyer_order_id demo_fill) = Some (new_order_info demo_buy 0)"
    by (simp add: demo_infos_def demo_fill_def buyer_order_id_def)
  from trade_is_settled_exactly [OF s demo_fill_fits demo_om_bal b] show ?thesis
    using s by (simp add: demo_fill_def trade_buyer_def trade_seller_def USD_SYMBOL_def new_order_info_def
        demo_buy_def demo_om_def amount_def)
qed

text \<open>C12 (functional). A confirmed cancellation gives back exactly what was still reserved: limit price times remaining
  quantity in USD for a bid, the remaining quantity of the symbol for an ask, to the sender of the
  order and to nobody else; an answer that the order was not cancelled changes no balance.\<close>

theorem cancellation_refunds_the_reservation:
  assumes "refund_cancelled c infos bal = Inr bal'" "balances_ok bal" "infos (crs_order_id c) = Some info"
    and "order_open info 0"
  shows "\<forall>b u. amount bal' b u = amount bal b u +
    (if crs_success c \<and> b = oi_sender_comp_id info then reservation info u else 0)"
proof (cases "crs_success c")
  case True
  obtain info' p where i: "infos (crs_order_id c) = Some info'" "oi_price info' = Some p"
    and m: "moved bal bal' (oi_sender_comp_id info') (if oi_side info' = Bid then USD_SYMBOL else oi_symbol info')
       (if oi_side info' = Bid then p * oi_leaves_qty info' else oi_leaves_qty info')"
    by (rule refund_cancelled_Inr [OF assms(1,2) True]) (use assms(3,4) in \<open>auto simp: order_open_def\<close>)
  then show ?thesis
    using assms(3) True by (cases "oi_side info") (auto simp: moved_def reservation_def)
qed (use assms(1) in \<open>simp add: refund_cancelled_def\<close>)

theorem cancellation_refunds_the_reservation_witness:
  "\<exists>bal'. refund_cancelled \<lparr>crs_order_id = 0, crs_cl_ord_id = 4, crs_success = True\<rparr> demo_infos (om_balances demo_om) = Inr bal' \<and>
     amount bal' ''BOB'' ''USD'' = 3000"
proof -
  let ?c = "\<lparr>crs_order_id = 0, crs_cl_ord_id = 4, crs_success = True\<rparr>"
  have "succeeds (refund_cancelled ?c demo_infos (om_balances demo_om))" by code_simp
  then obtain bal' where r: "refund_cancelled ?c demo_infos (om_balances demo_om) = Inr bal'"
    by (auto simp: succeeds_iff)
  have "order_open (new_order_info demo_buy 0) 0" "demo_infos (crs_order_id ?c) = Some (new_order_info demo_buy 0)"
    by (simp_all add: order_open_def new_order_info_def demo_buy_def in_i32_def demo_infos_def)
  with cancellation_refunds_the_reservation [OF r demo_om_bal] show ?thesis
    using r by (simp add: new_order_info_def demo_buy_def reservation_def USD_SYMBOL_def demo_om_def amount_def)
qed

section \<open>Identifiers\<close>

lemma transform_recover:
  assumes "transform_cl_ord_id k uid = Inr t" "0 \<le> uid" "uid < max_user_count" "0 \<le> k"
  shows "cdiv t max_user_count = Inr k"
proof -
  have t: "t = k * 1000 + uid" "in_i32 t" "0 \<le> t"
    using assms by (auto simp: transform_cl_ord_id_def result_simps max_user_count_def)
  have "t div 1000 = k" using t(1) assms(2,3) by (simp add: max_user_count_def)
  then show ?thesis using cdiv_nonneg [OF t(3) _ t(2), of 1000] by (simp add: max_user_count_def)
qed

lemma transform_injective:
  assumes "transform_cl_ord_id k uid = Inr t" "transform_cl_ord_id k' uid' = Inr t"
    and "0 \<le> uid" "uid < max_user_count" "0 \<le> uid'" "uid' < max_user_count"
  shows "k = k' \<and> uid = uid'"
proof -
  have "k * 1000 + uid = k' * 1000 + uid'"
    using assms(1,2) by (auto simp: transform_cl_ord_id_def result_simps max_user_count_def)
  then have "(k * 1000 + uid) div 1000 = (k' * 1000 + uid') div 1000" "(k * 1000 + uid) mod 1000 = (k' * 1000 + uid') mod 1000"
    by simp_all
  then show ?thesis using assms(3-) by (simp add: max_user_count_def)
qed

text \<open>Order ids are never reused and client ids never collide: registering an order keeps both views
  of the id map in agreement, gives it an id no earlier order has, and accepts it only if its
  sender is known and has not used the client id before; two users, or two client ids of one user,
  never share a key while user ids are below the limit of 1000. A refused order changes no map.\<close>

theorem order_ids_are_fresh:
  assumes "register_order c g om = Inr (reason, c', om')" "ids_ok om"
  shows "ids_ok om' \<and> (\<exists>i. nos_order_id c' = Some i \<and> om_order_info_map om i = None \<and>
      om_latest_assigned_order_id om < i \<and>
      (reason = None \<longrightarrow> om_order_info_map om' = (om_order_info_map om)(i \<mapsto> new_order_info c' g))) \<and>
    (reason \<noteq> None \<longrightarrow> om_order_info_map om' = om_order_info_map om \<and> om_order_id_map om' = om_order_id_map om) \<and>
    (\<forall>k uid k' uid' t. 0 \<le> uid \<longrightarrow> uid < max_user_count \<longrightarrow> 0 \<le> uid' \<longrightarrow> uid' < max_user_count \<longrightarrow>
      transform_cl_ord_id k uid = Inr t \<longrightarrow> transform_cl_ord_id k' uid' = Inr t \<longrightarrow> k = k' \<and> uid = uid')"
proof -
  let ?i = "om_latest_assigned_order_id om + 1"
  have fresh: "om_order_info_map om ?i = None"
    using ids_ok_fresh(1) [OF assms(2)] by simp
  have num: "nos_order_id c' = Some ?i"
    and kept: "reason \<noteq> None \<longrightarrow> om_order_info_map om' = om_order_info_map om \<and> om_order_id_map om' = om_order_id_map om"
    and entered: "reason = None \<longrightarrow> om_order_info_map om' = (om_order_info_map om)(?i \<mapsto> new_order_info c' g)"
    by (cases rule: register_order_Inr [OF assms(1)]; use fresh in simp)+
  have inj: "\<forall>k uid k' uid' t. 0 \<le> uid \<longrightarrow> uid < max_user_count \<longrightarrow> 0 \<le> uid' \<longrightarrow> uid' < max_user_count \<longrightarrow>
      transform_cl_ord_id k uid = Inr t \<longrightarrow> transform_cl_ord_id k' uid' = Inr t \<longrightarrow> k = k' \<and> uid = uid'"
    using transform_injective by blast
  show ?thesis
    by (intro conjI exI [of _ ?i] num fresh entered kept inj register_order_ids_ok [OF assms]) simp
qed

lemma demo_ids: "ids_ok demo_om"
  using om_inv_parts(2) [OF demo_om_inv] .

theorem order_ids_are_fresh_witness:
  "\<exists>c' om'. register_order demo_buy 0 demo_om = Inr (None, c', om') \<and> ids_ok om' \<and> nos_order_id c' = Some 0"
proof -
  have "(case register_order demo_buy 0 demo_om of Inr (r, c', _) \<Rightarrow> r = None \<and> nos_order_id c' = Some 0 | Inl _ \<Rightarrow> False)"
    by code_simp
  then obtain c' om' where r: "register_order demo_buy 0 demo_om = Inr (None, c', om')" "nos_order_id c' = Some 0"
    by (auto split: sum.splits)
  from order_ids_are_fresh [OF r(1) demo_ids] show ?thesis using r by blast
qed

text \<open>A client sees its own order id in every execution report of a fill: the key stored for an order,
  client id times 1000 plus user id, gives the client id back by integer division, as long as user
  ids are below 1000 and client ids are not negative.\<close>

theorem fill_reports_carry_the_client_id:
  assumes "register_order c g om = Inr (None, c', om')" "ids_ok om"
    and "om_username_user_id_map om (nos_sender_comp_id c) = Some uid" "0 \<le> uid" "uid < max_user_count"
    and "0 \<le> nos_cl_ord_id c" "nos_order_id c' = Some i"
    and "matched_order_report srv x t target i s (om_order_id_map om') infos = Inr r"
  shows "er_cl_order_id r = nos_cl_ord_id c \<and> er_order_id r = i"
proof -
  obtain t' where tr: "transform_cl_ord_id (nos_cl_ord_id c) uid = Inr t'" and
    om': "om' = register_at (om_latest_assigned_order_id om + 1) t' (new_order_info c' g) om"
    and c': "c' = c\<lparr>nos_order_id := Some (om_latest_assigned_order_id om + 1)\<rparr>"
    by (rule register_order_registered [OF assms(1,2)]) (use assms(3) in auto)
  have "bm_left (om_order_id_map om') i = Some t'"
    using assms(7) c' by (simp add: om' register_at_def)
  then show ?thesis
    using assms(8) transform_recover [OF tr assms(4-6)]
    by (auto simp: matched_order_report_def result_simps Let_def)
qed

theorem fill_reports_carry_the_client_id_witness:
  "\<exists>c' om' r. register_order demo_buy 0 demo_om = Inr (None, c', om') \<and>
     matched_order_report ''EXCH'' ''E'' demo_fill ''BOB'' 0 Bid (om_order_id_map om') demo_infos = Inr r \<and>
     er_cl_order_id r = 3"
proof -
  have "(case register_order demo_buy 0 demo_om of
      Inr (r, c', om') \<Rightarrow> r = None \<and> nos_order_id c' = Some 0 \<and>
        succeeds (matched_order_report ''EXCH'' ''E'' demo_fill ''BOB'' 0 Bid (om_order_id_map om') demo_infos)
    | Inl _ \<Rightarrow> False)"
    by code_simp
  then obtain c' om' r where h: "register_order demo_buy 0 demo_om = Inr (None, c', om')" "nos_order_id c' = Some 0"
    "matched_order_report ''EXCH'' ''E'' demo_fill ''BOB'' 0 Bid (om_order_id_map om') demo_infos = Inr r"
    by (auto simp: succeeds_iff split: sum.splits)
  have "om_username_user_id_map demo_om (nos_sender_comp_id demo_buy) = Some 8" "0 \<le> nos_cl_ord_id demo_buy"
    "nos_cl_ord_id demo_buy = 3"
    by (simp_all add: demo_om_def demo_buy_def)
  with fill_reports_carry_the_client_id [OF h(1) demo_ids this(1) _ _ this(2) h(2,3)] show ?thesis
    using h by (simp add: max_user_count_def)
qed

section \<open>Rejections and waiting\<close>

text \<open>The request connection after the fill cost of an order was asked for and answered.\<close>

definition client_after_quote ::
  "('s, 'c, 'd, 'w) om_env \<Rightarrow> new_order_single \<Rightarrow> ('s, 'c, 'd) order_manager \<Rightarrow> 'c" where
  "client_after_quote e c om =
     (case om_client_send e (om_order_request_connection_id om)
             (serialize_container (om_ser e) (Fill_Cost_Query (fill_cost_query_of c))) (om_order_request_client om) of
        (False, cl) \<Rightarrow> cl
      | (True, cl) \<Rightarrow>
          (case await_message (om_client_wait e) (om_order_request_connection_id om) cl of
             None \<Rightarrow> cl
           | Some (_, cl') \<Rightarrow> cl'))"

lemma query_fill_cost_client:
  "query_fill_cost e c om = Some (Inr (ans, c', om')) \<Longrightarrow>
   c' = New_Order_Single c \<and> om' = om\<lparr>om_order_request_client := client_after_quote e c om\<rparr>"
  by (auto simp: query_fill_cost_def client_after_quote_def result_simps container_fill_cost_cases Let_def
      split: prod.splits bool.splits option.splits)

text \<open>All that preprocessing a new order changes: the last id, the two maps at that id, and for a market
  bid the connection the quote came over.\<close>

lemma preprocess_new_order_effect:
  assumes "preprocess_new_order e c g om = Some (Inr (ans, c', om1))"
  obtains m infos cl where
    "c' = New_Order_Single (c\<lparr>nos_order_id := Some (om_latest_assigned_order_id om + 1)\<rparr>)"
    "om1 = om\<lparr>om_latest_assigned_order_id := om_latest_assigned_order_id om + 1, om_order_id_map := m,
       om_order_info_map := infos, om_order_request_client := cl\<rparr>"
    "\<And>k. k \<noteq> om_latest_assigned_order_id om + 1 \<Longrightarrow> infos k = om_order_info_map om k"
    "cl = om_order_request_client om \<or>
       nos_ord_type c = Market \<and> nos_side c = Bid \<and> cl = client_after_quote e c om"
proof -
  obtain reason n om2 where reg: "register_order c g om = Inr (reason, n, om2)"
    using assms by (auto simp: preprocess_new_order_def split: sum.splits)
  have n: "n = c\<lparr>nos_order_id := Some (om_latest_assigned_order_id om + 1)\<rparr>"
    by (rule register_order_Inr [OF reg])
  obtain m infos where om2: "om2 = om\<lparr>om_latest_assigned_order_id := om_latest_assigned_order_id om + 1,
      om_order_id_map := m, om_order_info_map := infos\<rparr>"
    and infos: "\<And>k. k \<noteq> om_latest_assigned_order_id om + 1 \<Longrightarrow> infos k = om_order_info_map om k"
  proof (cases rule: register_order_Inr [OF reg])
    case (1 r)
    then show ?thesis using that [where m = "om_order_id_map om" and infos = "om_order_info_map om"] by simp
  next
    case (2 uid t)
    then show ?thesis using that [where m = "om_order_id_map om2" and infos = "om_order_info_map om2"] by simp
  qed
  have q: "client_after_quote e n om2 = client_after_quote e c om"
    by (auto simp: client_after_quote_def n om2 fill_cost_query_of_def split: prod.split bool.split)
  show ?thesis
  proof (cases "reason = None \<and> nos_ord_type n = Market \<and> nos_side n = Bid")
    case True
    then have "query_fill_cost e n om2 = Some (Inr (ans, c', om1))"
      using assms reg by (auto simp: preprocess_new_order_def)
    from query_fill_cost_client [OF this] True show ?thesis
      using that [where m = m and infos = infos and cl = "client_after_quote e c om"] infos q n om2 by simp
  next
    case False
    then have "om1 = om2" "c' = New_Order_Single n"
      using assms reg by (auto simp: preprocess_new_order_def split: option.splits if_splits)
    then show ?thesis using that [where m = m and infos = infos and cl = "om_order_request_client om"] infos n om2 by simp
  qed
qed


text \<open>A bid for more than its sender has: refused by validation, and nothing else has changed.\<close>

definition demo_poor_buy :: new_order_single where
  "demo_poor_buy = demo_buy\<lparr>nos_price := Some 300\<rparr>"

lemma preprocessed_cases:
  "(case x of Some (Inr (a, n, om1)) \<Rightarrow> P a n om1 | _ \<Rightarrow> False) \<Longrightarrow>
   \<exists>a n om1. x = Some (Inr (a, n, om1)) \<and> P a n om1"
  by (auto split: option.splits sum.splits)

lemma map_sum_Inr: "map_sum id fst x = Inr r \<Longrightarrow> \<exists>b. x = Inr (r, b)"
  by (cases x) auto


text \<open>C16 (liveness). Waiting for a fill cost ends when the answer arrives: if polling the connection again and again
  finds nothing \<open>n\<close> times and then a message, the wait returns exactly that message, and the
  connection is left as that last poll left it.\<close>

theorem await_message_returns:
  assumes "\<And>k. st (Suc k) = snd (wait conn (st k))"
    and "\<And>k. k < n \<Longrightarrow> fst (wait conn (st k)) = None" "fst (wait conn (st n)) = Some w"
  shows "await_message wait conn (st 0) = Some (w, st (Suc n))"
proof -
  have "await_message wait conn (st (n - j)) = Some (w, st (Suc n))" if "j \<le> n" for j
    using that
  proof (induction j)
    case 0
    show ?case by (subst await_message.simps) (use assms(1,3) in \<open>auto split: prod.splits option.splits\<close>)
  next
    case (Suc j)
    then have k: "Suc (n - Suc j) = n - j" "n - Suc j < n" by simp_all
    have "wait conn (st (n - Suc j)) = (None, st (n - j))"
      using assms(1) [of "n - Suc j"] assms(2) [OF k(2)] k(1) by (metis prod.collapse)
    then show ?case using Suc by (subst await_message.simps) simp
  qed
  from this [of n] show ?thesis by simp
qed

theorem await_message_returns_witness:
  "await_message (\<lambda>c s. (if s < 3 then None else Some True, s + 1)) 0 (0::nat) = Some (True, 4)"
  using await_message_returns [of "\<lambda>k. k" "\<lambda>c s. (if s < 3 then None else Some True, s + 1)" 0 3 True] by simp

section \<open>Start-up and overflow\<close>

lemma load_balances_adds:
  assumes "load_balances uid name rows (bal, ids) = Inr (bal', ids')" "balances_ok bal"
    and "\<forall>(s, v) \<in> set rows. 0 \<le> v \<and> in_i64 v"
  shows "balances_ok bal' \<and>
    (\<forall>b u. amount bal' b u = amount bal b u + (if b = name then sum_list (map snd (filter (\<lambda>r. fst r = u) rows)) else 0)) \<and>
    ids' = (if rows = [] \<or> ids name \<noteq> None then ids else ids(name \<mapsto> uid))"
  using assms
proof (induction rows arbitrary: bal ids)
  case (Cons r rows)
  obtain s v where r: "r = (s, v)" by force
  obtain bal1 where u: "BalanceChecker.update_balance bal name s v = Inr bal1"
    and rest: "load_balances uid name rows (bal1, if ids name = None then ids(name \<mapsto> uid) else ids) = Inr (bal', ids')"
    using Cons.prems(1) r by (auto simp: result_simps)
  have m: "moved bal bal1 name s v" using update_balance_moved [OF u Cons.prems(2)] Cons.prems(3) r by auto
  then have "balances_ok bal1" by (simp add: moved_def)
  from Cons.IH [OF rest this] Cons.prems(3) r m show ?case by (auto simp: moved_def)
qed auto

text \<open>Start-up loads the accounts of the database: after the balances of all users were read, the amount
  of a user and symbol is the sum of the rows the database returned for it, nothing else was
  added, every amount is non-negative, and a user's id is the first one listed under the name.\<close>

theorem startup_loads_the_accounts:
  assumes "load_users users (bal, ids) = Inr (bal', ids')" "balances_ok bal"
    and "\<forall>u \<in> set users. \<forall>(s, v) \<in> set (dbu_balances u). 0 \<le> v \<and> in_i64 v"
  shows "balances_ok bal' \<and>
    (\<forall>b s. amount bal' b s = amount bal b s +
       sum_list (map (\<lambda>u. if dbu_username u = b then sum_list (map snd (filter (\<lambda>r. fst r = s) (dbu_balances u))) else 0) users)) \<and>
    (\<forall>b. ids' b = (case ids b of Some i \<Rightarrow> Some i
       | None \<Rightarrow> map_option dbu_user_id (find (\<lambda>u. dbu_username u = b \<and> dbu_balances u \<noteq> []) users)))"
  using assms
proof (induction users arbitrary: bal ids)
  case (Cons u us)
  obtain bal1 ids1 where l: "load_balances (dbu_user_id u) (dbu_username u) (dbu_balances u) (bal, ids) = Inr (bal1, ids1)"
    and rest: "load_users us (bal1, ids1) = Inr (bal', ids')"
    using Cons.prems(1) by (auto simp: result_simps)
  have a: "balances_ok bal1"
    "\<forall>b s. amount bal1 b s = amount bal b s +
      (if b = dbu_username u then sum_list (map snd (filter (\<lambda>r. fst r = s) (dbu_balances u))) else 0)"
    "ids1 = (if dbu_balances u = [] \<or> ids (dbu_username u) \<noteq> None then ids else ids(dbu_username u \<mapsto> dbu_user_id u))"
    using load_balances_adds [OF l Cons.prems(2)] Cons.prems(3) by simp_all
  from Cons.IH [OF rest a(1)] Cons.prems(3) a(2,3) show ?case
    by (auto split: option.splits)
qed (auto split: option.splits)

theorem startup_loads_the_accounts_witness:
  "\<exists>bal ids. load_users demo_users (Map.empty, Map.empty) = Inr (bal, ids) \<and>
     amount bal ''ALICE'' ''GME'' = 50 \<and> ids ''BOB'' = Some 8"
proof -
  have "succeeds (load_users demo_users (Map.empty, Map.empty))" by code_simp
  then obtain bal ids where l: "load_users demo_users (Map.empty, Map.empty) = Inr (bal, ids)"
    by (auto simp: succeeds_iff)
  have ok: "balances_ok Map.empty" by (simp add: balances_ok_def)
  have rows: "\<forall>u \<in> set demo_users. \<forall>(s, v) \<in> set (dbu_balances u). 0 \<le> v \<and> in_i64 v"
    by (simp add: demo_users_def in_i64_def)
  from startup_loads_the_accounts [OF l ok rows] show ?thesis
    using l by (simp add: demo_users_def amount_def)
qed

lemma settle_trade_overflow:
  assumes "infos (tc_taker_order_id t) \<noteq> None" "infos (tc_maker_order_id t) \<noteq> None"
    and "\<not> in_i32 (tc_price t * tc_quantity t)"
  shows "settle_trade t infos bal = Inl Signed_Overflow"
  using assms by (auto simp: settle_trade_def fill_order_def fill_order_info_def i32_def)

lemma int32_product_in_i64:
  assumes "in_i32 a" "in_i32 b" "0 \<le> a" "0 \<le> b"
  shows "in_i64 (a * b)" "in_i64 (- (a * b))"
proof -
  have "a * b \<le> 2147483647 * 2147483647"
    using assms by (intro mult_mono) (auto simp: in_i32_def)
  moreover have "0 \<le> a * b" using assms by simp
  ultimately show "in_i64 (a * b)" "in_i64 (- (a * b))" by (simp_all add: in_i64_def)
qed

lemma reserve_covered:
  assumes "balances_ok bal" "has_record bal b u" "u \<noteq> []" "0 \<le> x" "x \<le> amount bal b u"
  shows "\<exists>bal'. reserve bal b u (- x) insufficient = Inr (''ok'', bal') \<and>
    amount bal' b u = amount bal b u - x \<and> balances_ok bal'"
proof -
  have r: "in_i64 (amount bal b u + - x)"
    using amount_range [OF assms(1), of b u] assms(4,5) by (auto simp: in_i64_def)
  note suf = has_sufficient_balance_record [OF assms(1-3) r]
  obtain row v where v: "bal b = Some row" "row u = Some v"
    using assms(2) by (auto simp: has_record_def split: option.splits)
  then have "amount bal b u = v" by (simp add: amount_def)
  then obtain bal' where u: "BalanceChecker.update_balance bal b u (- x) = Inr bal'"
    using suf assms(3,5) v r by (simp add: BalanceChecker.update_balance_def)
  then show ?thesis
    using suf assms update_balance_amount [OF u, of b u] update_balance_ok [OF u assms(1)]
    by (auto simp: reserve_def)
qed

text \<open>C17 (bounds). Reservations are computed in 64 bits and settlements in 32 bits, so the order manager accepts orders
  it cannot settle: a limit bid of a known user for an active symbol, whose price and quantity each
  fit 32 bits and whose price times quantity does not, is accepted when its sender has that much
  USD, the amount is reserved and the order forwarded; when the engine then reports that
  this very order was filled at its price, by whichever order, the settlement overflows and the
  process ends.\<close>

theorem large_trade_overflows_in_settlement:
  assumes order: "nos_ord_type c = Limit" "nos_side c = Bid" "nos_price c = Some p" "0 < p" "in_i32 p"
      "0 < nos_order_qty c" "in_i32 (nos_order_qty c)"
    and large: "\<not> in_i32 (p * nos_order_qty c)"
    and state: "om_inv om live" "in_i32 (om_latest_assigned_order_id om + 1)"
    and sender: "om_username_user_id_map om (nos_sender_comp_id c) = Some uid"
      "transform_cl_ord_id (nos_cl_ord_id c) uid = Inr k" "bm_right (om_order_id_map om) k = None"
    and symbol: "nos_symbol c \<in> om_active_symbols om"
    and rich: "has_record (om_balances om) (nos_sender_comp_id c) USD_SYMBOL"
      "p * nos_order_qty c \<le> amount (om_balances om) (nos_sender_comp_id c) USD_SYMBOL"
  shows "\<exists>om1. handle_request e g (New_Order_Single c) om = Some (Inr om1) \<and>
    amount (om_balances om1) (nos_sender_comp_id c) USD_SYMBOL =
      amount (om_balances om) (nos_sender_comp_id c) USD_SYMBOL - p * nos_order_qty c \<and>
    om_order_request_client om1 = snd (om_client_send e (om_order_request_connection_id om)
      (serialize_container (om_ser e) (New_Order_Single (c\<lparr>nos_order_id := Some (om_latest_assigned_order_id om + 1)\<rparr>)))
      (om_order_request_client om)) \<and>
    (\<forall>t. (tc_taker_order_id t = om_latest_assigned_order_id om + 1 \<and> om_order_info_map om (tc_maker_order_id t) \<noteq> None \<or>
          tc_maker_order_id t = om_latest_assigned_order_id om + 1 \<and> om_order_info_map om (tc_taker_order_id t) \<noteq> None) \<and>
         tc_price t = p \<and> tc_quantity t = nos_order_qty c \<longrightarrow>
       handle_response e (Trade_Container t) om1 = Inl Signed_Overflow)"
proof -
  let ?i = "om_latest_assigned_order_id om + 1"
  let ?n = "c\<lparr>nos_order_id := Some ?i\<rparr>" and ?x = "p * nos_order_qty c"
  have x: "in_i64 ?x" "in_i64 (- ?x)" "0 \<le> ?x"
    using int32_product_in_i64 [of p "nos_order_qty c"] order by auto
  have neg: "in_i64 (- p)" "- p * nos_order_qty c = - ?x" using order(5) by (auto simp: in_i32_def in_i64_def)
  obtain om1 where reg: "register_order c g om = Inr (None, ?n, om1)"
    and om1: "om1 = om\<lparr>om_latest_assigned_order_id := ?i,
      om_order_id_map := bm_insert ?i k (om_order_id_map om),
      om_order_info_map := (om_order_info_map om)(?i \<mapsto> new_order_info ?n g)\<rparr>"
    using sender state(2) ids_ok_fresh(1) [OF om_inv_parts(2) [OF state(1)], of ?i]
    by (simp add: register_order_def Let_def)
  have usd: "USD_SYMBOL \<noteq> []" by (simp add: USD_SYMBOL_def)
  from reserve_covered [OF om_inv_parts(1) [OF state(1)] rich(1) usd x(3) rich(2)]
  obtain bal' where bal': "reserve (om_balances om) (nos_sender_comp_id c) USD_SYMBOL (- ?x)
      ''User has insufficient USD balance'' = Inr (''ok'', bal')"
    "amount bal' (nos_sender_comp_id c) USD_SYMBOL = amount (om_balances om) (nos_sender_comp_id c) USD_SYMBOL - ?x"
    by blast
  have v: "validate_new_order ?n (om_active_symbols om) (om_balances om) None = Inr (''ok'', bal')"
    using order symbol rich(1) usd bal'(1) x neg
    by (auto simp: validate_new_order_def validate_bid_def broker_id_exists_def broker_owns_ticker_def
        has_record_def split: option.splits)
  have pre: "preprocess_container e (New_Order_Single c) g om = Some (Inr (Inr None, New_Order_Single ?n, om1))"
    using reg order(1) by (simp add: preprocess_new_order_def)
  obtain om2 where h: "handle_request e g (New_Order_Single c) om = Some (Inr om2)"
    "om_balances om2 = bal'" "om_order_info_map om2 = (om_order_info_map om)(?i \<mapsto> new_order_info ?n g)"
    "om_order_request_client om2 = snd (om_client_send e (om_order_request_connection_id om)
      (serialize_container (om_ser e) (New_Order_Single ?n)) (om_order_request_client om))"
    using pre v by (simp add: handle_request_def om1 forward_and_reply_def reply_def db_exec_def Let_def)
  have "handle_response e (Trade_Container t) om2 = Inl Signed_Overflow"
    if "tc_taker_order_id t = ?i \<and> om_order_info_map om (tc_maker_order_id t) \<noteq> None \<or>
        tc_maker_order_id t = ?i \<and> om_order_info_map om (tc_taker_order_id t) \<noteq> None"
      "tc_price t = p" "tc_quantity t = nos_order_qty c" for t
  proof -
    have "settle_trade t (om_order_info_map om2) (om_balances om2) = Inl Signed_Overflow"
      by (rule settle_trade_overflow) (use that large h(3) in auto)
    then show ?thesis by (simp add: handle_response_def)
  qed
  then show ?thesis using h bal'(2) by auto
qed

text \<open>Bob bids for 100000 units at 50000, against an ask of Alice.\<close>

definition demo_rich_om :: "(om_log, om_log, db_call list) order_manager" where
  "demo_rich_om = register_at 0 5007
     (new_order_info (demo_buy\<lparr>nos_sender_comp_id := ''ALICE'', nos_side := Ask, nos_order_qty := 100000\<rparr>) 0)
     (demo_om\<lparr>om_balances := [''ALICE'' \<mapsto> [''GME'' \<mapsto> 100000], ''BOB'' \<mapsto> [''USD'' \<mapsto> 6000000000]]\<rparr>)"

definition demo_large_buy :: new_order_single where
  "demo_large_buy = demo_buy\<lparr>nos_order_qty := 100000, nos_price := Some 50000\<rparr>"

definition demo_large_fill :: trade_container where
  "demo_large_fill = demo_fill\<lparr>tc_quantity := 100000, tc_price := 50000, tc_taker_order_id := 1, tc_maker_order_id := 0\<rparr>"

lemma demo_rich_inv: "om_inv demo_rich_om Map.empty"
proof -
  let ?om = "demo_om\<lparr>om_balances := [''ALICE'' \<mapsto> [''GME'' \<mapsto> 100000], ''BOB'' \<mapsto> [''USD'' \<mapsto> 6000000000]]\<rparr>"
  have "ids_ok ?om" using demo_ids by (simp add: ids_ok_def)
  moreover have "om_latest_assigned_order_id ?om = - 1" "bm_right (om_order_id_map ?om) 5007 = None"
    by (simp_all add: demo_om_def make_order_manager_def bm_empty_def)
  ultimately have "ids_ok demo_rich_om"
    using register_at_ids_ok [of ?om 5007] by (simp add: demo_rich_om_def)
  moreover have "balances_ok (om_balances demo_rich_om)"
    by (auto simp: demo_rich_om_def register_at_def balances_ok_def in_i64_def split: if_splits)
  ultimately show ?thesis by (simp add: om_inv_def)
qed

theorem large_trade_overflows_in_settlement_witness:
  "\<exists>om1. handle_request demo_om_env 0 (New_Order_Single demo_large_buy) demo_rich_om = Some (Inr om1) \<and>
     amount (om_balances om1) ''BOB'' ''USD'' = 1000000000 \<and>
     handle_response demo_om_env (Trade_Container demo_large_fill) om1 = Inl Signed_Overflow"
proof -
  have o: "om_latest_assigned_order_id demo_rich_om = 0" "om_order_info_map demo_rich_om 0 \<noteq> None"
    "om_username_user_id_map demo_rich_om ''BOB'' = Some 8" "''GME'' \<in> om_active_symbols demo_rich_om"
    "bm_right (om_order_id_map demo_rich_om) 3008 = None"
    "has_record (om_balances demo_rich_om) ''BOB'' USD_SYMBOL"
    "amount (om_balances demo_rich_om) ''BOB'' USD_SYMBOL = 6000000000"
    by (simp_all add: demo_rich_om_def register_at_def demo_om_def make_order_manager_def bm_empty_def
        has_record_def amount_def USD_SYMBOL_def)
  have c: "nos_ord_type demo_large_buy = Limit" "nos_side demo_large_buy = Bid" "nos_price demo_large_buy = Some 50000"
    "nos_order_qty demo_large_buy = 100000" "nos_sender_comp_id demo_large_buy = ''BOB''" "nos_symbol demo_large_buy = ''GME''"
    "transform_cl_ord_id (nos_cl_ord_id demo_large_buy) 8 = Inr 3008"
    by (simp_all add: demo_large_buy_def demo_buy_def transform_cl_ord_id_def max_user_count_def in_i32_def)
  have t: "tc_taker_order_id demo_large_fill = 1" "tc_maker_order_id demo_large_fill = 0"
    "tc_price demo_large_fill = 50000" "tc_quantity demo_large_fill = 100000"
    by (simp_all add: demo_large_fill_def)
  have i: "in_i32 (50000 :: int)" "in_i32 (100000 :: int)" "\<not> in_i32 (50000 * 100000 :: int)" "in_i32 (0 + 1 :: int)"
    by (simp_all add: in_i32_def)
  from large_trade_overflows_in_settlement [where c = demo_large_buy and p = 50000 and om = demo_rich_om
      and live = Map.empty and uid = 8 and k = 3008 and e = demo_om_env and g = 0]
  obtain om1 where h: "handle_request demo_om_env 0 (New_Order_Single demo_large_buy) demo_rich_om = Some (Inr om1)"
    "amount (om_balances om1) ''BOB'' USD_SYMBOL = 6000000000 - 50000 * 100000"
    "\<forall>t. (tc_taker_order_id t = 1 \<and> om_order_info_map demo_rich_om (tc_maker_order_id t) \<noteq> None \<or>
          tc_maker_order_id t = 1 \<and> om_order_info_map demo_rich_om (tc_taker_order_id t) \<noteq> None) \<and>
         tc_price t = 50000 \<and> tc_quantity t = 100000 \<longrightarrow>
       handle_response demo_om_env (Trade_Container t) om1 = Inl Signed_Overflow"
    using o c i demo_rich_inv by auto
  have "handle_response demo_om_env (Trade_Container demo_large_fill) om1 = Inl Signed_Overflow"
    using h(3) t o(2) by simp
  then show ?thesis using h(1,2) by (auto simp: USD_SYMBOL_def)
qed

end
