(* ===== verification/Exchange.thy ===== *)
theory Exchange
  imports MeProperties OmProperties
begin

text \<open>
  Properties of the order manager and the matching engine together: the quote the order manager asks
  for before a market bid, and what a market bid then costs.
\<close>

text \<open>C7 (equivalence). The prepayment of a market bid is what its trades cost: when the matching engine answers the fill
  cost query of the order manager and then receives the order, with no other message between (the
  order manager waits for the answer), the prices times quantities of the order's trades add up to
  the cost it quoted, so nothing of the reservation is left or missing.\<close>

theorem market_bid_costs_what_was_quoted:
  assumes "me_inv me" "in_i32 (nos_order_qty c)" "nos_side c = Bid" "nos_price c = None"
    and query: "handle_fill_cost_query e me (fill_cost_query_of c) = Inr me1"
    and order: "handle_new_order e me1 c = Inr me2"
  shows "\<exists>cost lob lob' ts tick'. me_books me (nos_symbol c) = Some lob \<and>
    me_server me1 = snd (me_send e (me_incoming_request_connection_id me)
      (serialize_container (me_ser e) (Fill_Cost_Response \<lparr>fcr_total_cost = cost\<rparr>)) (me_server me)) \<and>
    add_order (me_world e) (me_try_publish e) lob (me_trade_events me) (me_tick me) (the (nos_order_id c))
      (order_price c) (nos_order_qty c) Bid (nos_sender_comp_id c) = Inr (lob', me_trade_events me @ ts, tick') \<and>
    me_books me2 = (me_books me)(nos_symbol c \<mapsto> lob') \<and>
    sum_list (map (\<lambda>t. tr_price t * tr_quantity t) ts) = (case cost of None \<Rightarrow> 0 | Some x \<Rightarrow> x)"
proof -
  obtain lob cost where q: "me_books me (nos_symbol c) = Some lob"
    "get_fill_cost lob (nos_order_qty c) Ask = Inr cost"
    "me1 = me\<lparr>me_server := snd (me_send e (me_incoming_request_connection_id me)
      (serialize_container (me_ser e) (Fill_Cost_Response \<lparr>fcr_total_cost = cost\<rparr>)) (me_server me))\<rparr>"
    using query by (auto simp: handle_fill_cost_query_def fill_cost_query_of_def result_simps)
  obtain order_id lob1 lob' events' tick' where o: "nos_order_id c = Some order_id" "me_books me1 (nos_symbol c) = Some lob1"
    and add: "add_order (me_world e) (me_try_publish e) lob1 (me_trade_events me1) (me_tick me1) order_id
       (order_price c) (nos_order_qty c) (nos_side c) (nos_sender_comp_id c) = Inr (lob', events', tick')"
    and m2: "me_books me2 = (me_books me1)(nos_symbol c \<mapsto> lob')"
    by (rule handle_new_order_cases [OF order]) simp
  have inv: "lob_inv lob" using assms(1) q(1) by (auto simp: me_inv_def)
  have price: "order_price c = market_price Bid" using assms(3,4) by (simp add: order_price_def market_price_def)
  have add': "add_order (me_world e) (me_try_publish e) lob (me_trade_events me) (me_tick me) order_id
       (market_price Bid) (nos_order_qty c) Bid (nos_sender_comp_id c) = Inr (lob', events', tick')"
    using add o(2) q assms(3) price by simp
  then obtain ts where ts: "events' = me_trade_events me @ ts"
    using add_order_refines [OF add' inv] assms(2) by auto
  have "sum_list (map (\<lambda>t. tr_price t * tr_quantity t) ts) = (case cost of None \<Rightarrow> 0 | Some x \<Rightarrow> x)"
    by (rule market_cost [OF inv assms(2) _ add' [unfolded ts]]) (use q(2) in simp)
  then show ?thesis
    using q o add' ts m2 price by (intro exI [of _ cost] exI [of _ lob] exI [of _ lob'] exI [of _ ts] exI [of _ tick']) simp
qed

definition demo_market_bid :: new_order_single where
  "demo_market_bid = \<lparr>nos_sender_comp_id = ''BOB'', nos_target_comp_id = ''EXCH'', nos_order_id = Some 1,
     nos_cl_ord_id = 3, nos_symbol = ''GME'', nos_side = Bid, nos_order_qty = 4, nos_ord_type = Market,
     nos_price = None, nos_time_in_force = Day\<rparr>"

theorem market_bid_costs_what_was_quoted_witness:
  "\<exists>me1 me2 cost. handle_fill_cost_query demo_me_env demo_me2 (fill_cost_query_of demo_market_bid) = Inr me1 \<and>
     handle_new_order demo_me_env me1 demo_market_bid = Inr me2 \<and>
     (\<exists>lob' ts tick'. add_order demo_env demo_publish demo_book (me_trade_events demo_me2) (me_tick demo_me2) 1
        (order_price demo_market_bid) 4 Bid ''BOB'' = Inr (lob', me_trade_events demo_me2 @ ts, tick') \<and>
        sum_list (map (\<lambda>t. tr_price t * tr_quantity t) ts) = cost)"
proof -
  have "succeeds (rbind (handle_fill_cost_query demo_me_env demo_me2 (fill_cost_query_of demo_market_bid))
      (\<lambda>me1. handle_new_order demo_me_env me1 demo_market_bid))" by code_simp
  then obtain me1 me2 where h: "handle_fill_cost_query demo_me_env demo_me2 (fill_cost_query_of demo_market_bid) = Inr me1"
    "handle_new_order demo_me_env me1 demo_market_bid = Inr me2"
    by (auto simp: result_simps)
  have b: "in_i32 (nos_order_qty demo_market_bid)" "nos_side demo_market_bid = Bid" "nos_price demo_market_bid = None"
    by (simp_all add: demo_market_bid_def in_i32_def)
  from market_bid_costs_what_was_quoted [OF demo_me2_inv b, of demo_me_env me1 me2] h show ?thesis
    by (fastforce simp: demo_market_bid_def demo_me2_def demo_me_env_def)
qed

text \<open>Waiting on a connection that never delivers does not return.\<close>

lemma await_message_never:
  assumes "\<And>c. fst (wait conn c) = None"
  shows "await_message wait conn c = None"
proof -
  have "\<not> (w = wait \<and> n = conn)" if "await_message w n c = Some r" for w n c r
  proof (rule await_message.raw_induct [where P = "\<lambda>w n c r. \<not> (w = wait \<and> n = conn)", OF _ that])
    fix f w n c r
    assume IH: "\<And>w n c r. f w n c = Some r \<Longrightarrow> \<not> (w = wait \<and> n = conn)"
      and r: "(case w n c of (None, c') \<Rightarrow> f w n c' | (Some x, c') \<Rightarrow> Some (x, c')) = Some r"
    show "\<not> (w = wait \<and> n = conn)"
    proof
      assume eq: "w = wait \<and> n = conn"
      then obtain c' where "w n c = (None, c')" using assms [of c] by (cases "w n c") auto
      then show False using r IH [of w n c' r] eq by simp
    qed
  qed
  from this [of wait conn c] show ?thesis by (cases "await_message wait conn c") simp_all
qed

lemma refused_whatever_the_quote:
  assumes "nos_symbol c \<notin> active \<or> nos_order_qty c \<le> 0"
  shows "\<exists>reason. reason \<noteq> ''ok'' \<and> validate_container (New_Order_Single c) active bal fc = Inr (reason, bal)"
  using assms by (auto simp: validate_new_order_def split: option.split)

lemma engine_ends_on_query:
  assumes "me_dequeue_message e (me_incoming_request_connection_id me) (me_server me) = (Some msg, srv')"
    and "deserialize_container (me_par e) msg = Inr (Fill_Cost_Query (fill_cost_query_of c))"
    and "me_books me (nos_symbol c) = None \<or> nos_order_qty c \<le> 0"
  shows "me_iteration e now now_ms me =
    Inl (if me_books me (nos_symbol c) = None then Out_Of_Range else Contract_Violation)"
  using assms
  by (auto simp: me_iteration_def fill_cost_query_of_def handle_fill_cost_query_def get_fill_cost_def)

text \<open>C18 (error). A market bid is quoted before it is validated, and an invalid one stops the exchange: for a market bid
  of a known user with an inactive symbol or a quantity that is not positive, which validation
  refuses whatever the quote is, the order manager first sends the fill cost query on its connection
  to the matching engine; the iteration in which the engine, with books for the same symbols,
  takes that message ends the engine, by the failing lookup or the violated contract; and if then
  nothing arrives on the connection any more the order manager never answers the request. Had an answer
  arrived, the order manager would have gone on with the connection after that send and wait.\<close>

theorem market_bid_is_quoted_before_it_is_validated:
  assumes "register_order c g om = Inr (None, numbered, om1)" "nos_ord_type c = Market" "nos_side c = Bid"
    and invalid: "nos_symbol c \<notin> om_active_symbols om \<or> nos_order_qty c \<le> 0"
    and msg: "msg = serialize_container (om_ser e) (Fill_Cost_Query (fill_cost_query_of c))"
    and sent: "om_client_send e (om_order_request_connection_id om) msg (om_order_request_client om) = (True, client1)"
    and wire: "\<forall>w. me_par me_e (om_ser e w) = Some w"
    and books: "dom (me_books me) = om_active_symbols om"
    and arrives: "me_dequeue_message me_e (me_incoming_request_connection_id me) (me_server me) = (Some msg, srv')"
  shows "(\<forall>fc. \<exists>reason. reason \<noteq> ''ok'' \<and>
      validate_container (New_Order_Single numbered) (om_active_symbols om1) (om_balances om1) fc =
        Inr (reason, om_balances om1)) \<and>
    me_iteration me_e now now_ms me =
      Inl (if nos_symbol c \<notin> om_active_symbols om then Out_Of_Range else Contract_Violation) \<and>
    ((\<forall>cl. fst (om_client_wait e (om_order_request_connection_id om) cl) = None) \<longrightarrow>
      handle_request e g (New_Order_Single c) om = None) \<and>
    (\<forall>answer client2 r.
      await_message (om_client_wait e) (om_order_request_connection_id om) client1 = Some (answer, client2) \<longrightarrow>
      deserialize_container (om_par e) answer = Inr (Fill_Cost_Response r) \<longrightarrow>
      preprocess_container e (New_Order_Single c) g om =
        Some (Inr (Inr (fcr_total_cost r), New_Order_Single numbered, om1\<lparr>om_order_request_client := client2\<rparr>)))"
proof -
  have n: "nos_symbol numbered = nos_symbol c" "nos_order_qty numbered = nos_order_qty c"
      "nos_ord_type numbered = Market" "nos_side numbered = Bid"
    and om1: "om_active_symbols om1 = om_active_symbols om" "om_order_request_client om1 = om_order_request_client om"
      "om_order_request_connection_id om1 = om_order_request_connection_id om"
    using assms(2,3) by (cases rule: register_order_Inr [OF assms(1)]; simp)+
  have q: "fill_cost_query_of numbered = fill_cost_query_of c" using n by (simp add: fill_cost_query_of_def)
  have refused: "\<exists>reason. reason \<noteq> ''ok'' \<and> validate_container (New_Order_Single numbered) (om_active_symbols om1)
      (om_balances om1) fc = Inr (reason, om_balances om1)" for fc
    using refused_whatever_the_quote [of numbered] invalid n(1,2) om1(1) by simp
  have "deserialize_container (me_par me_e) msg = Inr (Fill_Cost_Query (fill_cost_query_of c))"
    using deserialize_serialize [of "me_par me_e" "om_ser e" "Fill_Cost_Query (fill_cost_query_of c)"] wire msg by simp
  moreover have no_book: "me_books me (nos_symbol c) = None \<longleftrightarrow> nos_symbol c \<notin> om_active_symbols om" using books by blast
  ultimately have ends: "me_iteration me_e now now_ms me =
      Inl (if nos_symbol c \<notin> om_active_symbols om then Out_Of_Range else Contract_Violation)"
    using engine_ends_on_query [OF arrives] invalid by simp
  have pre: "preprocess_container e (New_Order_Single c) g om = query_fill_cost e numbered om1"
    using assms(1) n by (simp add: preprocess_new_order_def)
  have "handle_request e g (New_Order_Single c) om = None"
    if "\<forall>cl. fst (om_client_wait e (om_order_request_connection_id om) cl) = None"
    using await_message_never [of "om_client_wait e" "om_order_request_connection_id om" client1] that pre sent msg om1 q
    by (simp add: handle_request_def query_fill_cost_def)
  moreover have "preprocess_container e (New_Order_Single c) g om =
        Some (Inr (Inr (fcr_total_cost r), New_Order_Single numbered, om1\<lparr>om_order_request_client := client2\<rparr>))"
    if "await_message (om_client_wait e) (om_order_request_connection_id om) client1 = Some (answer, client2)"
      "deserialize_container (om_par e) answer = Inr (Fill_Cost_Response r)" for answer client2 r
    using that pre sent msg om1 q by (simp add: query_fill_cost_def)
  ultimately show ?thesis using refused ends by blast
qed

text \<open>Bob's market bid for a symbol the exchange does not have; the engine's answers never come.\<close>

definition demo_silent_env :: "(om_log, om_log, db_call list, container_wrapper) om_env" where
  "demo_silent_env = demo_om_env\<lparr>om_client_wait := (\<lambda>c s. (None, s))\<rparr>"

definition demo_plain_me_env :: "(trade list, top_order_book_level_aggregates list, wire_log, container_wrapper) me_env" where
  "demo_plain_me_env = demo_me_env\<lparr>me_par := Some\<rparr>"

theorem market_bid_is_quoted_before_it_is_validated_witness:
  "let c = demo_market_bid\<lparr>nos_symbol := ''AMC''\<rparr>;
       msg = serialize_container (\<lambda>w. w) (Fill_Cost_Query (fill_cost_query_of c)) in
   om_client_send demo_silent_env (om_order_request_connection_id demo_om) msg (om_order_request_client demo_om) =
     (True, [(- 1, msg)]) \<and>
   me_iteration demo_plain_me_env 0 0 (demo_me\<lparr>me_server := [(0, msg)]\<rparr>) = Inl Out_Of_Range \<and>
   handle_request demo_silent_env 0 (New_Order_Single c) demo_om = None"
proof -
  let ?c = "demo_market_bid\<lparr>nos_symbol := ''AMC''\<rparr>"
  let ?msg = "serialize_container (\<lambda>w. w) (Fill_Cost_Query (fill_cost_query_of ?c))"
  let ?me = "demo_me\<lparr>me_server := [(0, ?msg)]\<rparr>"
  have "(case register_order ?c 0 demo_om of Inr (r, n, _) \<Rightarrow> r = None | Inl _ \<Rightarrow> False)" by code_simp
  then obtain n om1 where r: "register_order ?c 0 demo_om = Inr (None, n, om1)"
    by (auto split: sum.splits)
  have c: "nos_ord_type ?c = Market" "nos_side ?c = Bid" "nos_symbol ?c \<notin> om_active_symbols demo_om \<or> nos_order_qty ?c \<le> 0"
    "nos_symbol ?c \<notin> om_active_symbols demo_om"
    by (simp_all add: demo_market_bid_def demo_om_def make_order_manager_def)
  have s: "om_client_send demo_silent_env (om_order_request_connection_id demo_om) ?msg (om_order_request_client demo_om) =
      (True, [(- 1, ?msg)])"
    by (simp add: demo_silent_env_def demo_om_env_def demo_om_def make_order_manager_def)
  have m: "?msg = serialize_container (om_ser demo_silent_env) (Fill_Cost_Query (fill_cost_query_of ?c))"
    by (simp add: demo_silent_env_def demo_om_env_def)
  have w: "\<forall>w. me_par demo_plain_me_env (om_ser demo_silent_env w) = Some w"
    by (simp add: demo_plain_me_env_def demo_silent_env_def demo_om_env_def)
  have b: "dom (me_books ?me) = om_active_symbols demo_om"
    by (simp add: demo_me_def make_matching_engine_def on_connection_def demo_om_def make_order_manager_def)
  have a: "me_dequeue_message demo_plain_me_env (me_incoming_request_connection_id ?me) (me_server ?me) = (Some ?msg, [])"
    by (simp add: demo_plain_me_env_def demo_me_env_def demo_me_def make_matching_engine_def on_connection_def)
  have silent: "\<forall>cl. fst (om_client_wait demo_silent_env (om_order_request_connection_id demo_om) cl) = None"
    by (simp add: demo_silent_env_def)
  from market_bid_is_quoted_before_it_is_validated [OF r c(1-3) m s w b a, of 0 0] silent c(4) s
  show ?thesis unfolding Let_def by (intro conjI) simp_all
qed

end
