(* ===== verification/Spinlock.thy ===== *)
theory Spinlock
  imports Prelude
begin

text \<open>
  The spin lock of \<open>libs/core/spinlock_mutex.h\<close>. \<open>test_and_set\<close> sets the flag and returns its old
  value; \<open>get_lock\<close> repeats while the returned value is false.
\<close>

section \<open>The lock\<close>

definition test_and_set :: "bool \<Rightarrow> bool \<times> bool" where
  "test_and_set flag = (flag, True)"

definition spin_unlock :: "bool \<Rightarrow> bool" where
  "spin_unlock flag = False"

text \<open>One iteration of \<open>get_lock\<close>: whether the loop has ended, and the flag.\<close>

definition get_lock_iteration :: "bool \<Rightarrow> bool \<times> bool" where
  "get_lock_iteration flag = (case test_and_set flag of (old, flag') \<Rightarrow> (\<not> (\<not> old), flag'))"

partial_function (option) get_lock :: "bool \<Rightarrow> bool option" where
  "get_lock flag =
     (case get_lock_iteration flag of
        (finished, flag') \<Rightarrow> if finished then Some flag' else get_lock flag')"

section \<open>Threads\<close>

text \<open>Threads that spin (\<open>False\<close>) or are inside the critical section (\<open>True\<close>).\<close>

inductive spin_step :: "bool \<times> (nat \<Rightarrow> bool) \<Rightarrow> bool \<times> (nat \<Rightarrow> bool) \<Rightarrow> bool" where
  try_lock: "\<not> inside i \<Longrightarrow> get_lock_iteration flag = (finished, flag') \<Longrightarrow>
    spin_step (flag, inside) (flag', inside(i := finished))"
| leave: "inside i \<Longrightarrow> spin_step (flag, inside) (spin_unlock flag, inside(i := False))"

lemma get_lock_held: "get_lock True = Some True"
  by (simp add: get_lock.simps get_lock_iteration_def test_and_set_def)

lemma try_lock_free: "\<not> inside i \<Longrightarrow> spin_step (False, inside) (True, inside(i := False))"
  by (rule try_lock) (simp_all add: get_lock_iteration_def test_and_set_def)

lemma try_lock_held: "\<not> inside i \<Longrightarrow> spin_step (True, inside) (True, inside(i := True))"
  by (rule try_lock) (simp_all add: get_lock_iteration_def test_and_set_def)

inductive_simps spin_step_simps: "spin_step (flag, inside) s'"

text \<open>A step lets a thread in only when the flag was set before it, and then whoever tries gets in.\<close>

lemma entering_needs_a_set_flag:
  "spin_step s s' \<Longrightarrow> \<not> snd s k \<Longrightarrow> snd s' k \<Longrightarrow> fst s"
  by (cases s)
    (auto simp: spin_step_simps get_lock_iteration_def test_and_set_def split: if_splits)

lemma get_lock_free: "get_lock False = get_lock True"
  by (subst get_lock.simps) (simp add: get_lock_iteration_def test_and_set_def)

text \<open>C40 (error). The lock is inverted and does not exclude. A thread enters the critical section only in
  a step that finds the flag already set, so the first attempt on a free lock always spins, and
  while the flag is set, that is while another thread holds the lock, every thread that tries
  enters at once; \<open>get_lock\<close> returns on a held lock in its first iteration. So from the free lock any
  two threads reach the critical section together.\<close>

theorem spinlock_does_not_exclude:
  assumes "i \<noteq> j"
  shows "(\<forall>s s' k. spin_step s s' \<and> \<not> snd s k \<and> snd s' k \<longrightarrow> fst s) \<and>
    (\<forall>inside k. \<not> inside k \<longrightarrow> spin_step (True, inside) (True, inside(k := True))) \<and>
    fst (get_lock_iteration True) \<and> \<not> fst (get_lock_iteration False) \<and>
    get_lock True = Some True \<and> get_lock False = Some True \<and>
    (\<exists>inside. spin_step\<^sup>*\<^sup>* (False, \<lambda>_. False) (True, inside) \<and> inside i \<and> inside j)"
proof -
  have "spin_step (False, \<lambda>_. False) (True, (\<lambda>_. False)(i := False))"
    by (rule try_lock_free) simp
  moreover have "spin_step (True, (\<lambda>_. False)(i := False)) (True, (\<lambda>_. False)(i := True))"
    using try_lock_held [of "(\<lambda>_. False)(i := False)" i] by simp
  moreover have "spin_step (True, (\<lambda>_. False)(i := True)) (True, (\<lambda>_. False)(i := True, j := True))"
    using try_lock_held [of "(\<lambda>_. False)(i := True)" j] assms by simp
  ultimately have "spin_step\<^sup>*\<^sup>* (False, \<lambda>_. False) (True, (\<lambda>_. False)(i := True, j := True))"
    by (meson rtranclp.rtrancl_refl rtranclp.rtrancl_into_rtrancl)
  then have "\<exists>inside. spin_step\<^sup>*\<^sup>* (False, \<lambda>_. False) (True, inside) \<and> inside i \<and> inside j"
    using assms by (intro exI [of _ "(\<lambda>_. False)(i := True, j := True)"]) simp
  moreover have "\<forall>s s' k. spin_step s s' \<and> \<not> snd s k \<and> snd s' k \<longrightarrow> fst s"
    by (intro allI impI, elim conjE) (rule entering_needs_a_set_flag)
  moreover have "\<forall>inside k. \<not> inside k \<longrightarrow> spin_step (True, inside) (True, inside(k := True))"
    by (intro allI impI) (rule try_lock_held)
  moreover have "fst (get_lock_iteration True)" "\<not> fst (get_lock_iteration False)"
    by (simp_all add: get_lock_iteration_def test_and_set_def)
  moreover note get_lock_held trans [OF get_lock_free get_lock_held]
  ultimately show ?thesis by (intro conjI)
qed

theorem spinlock_does_not_exclude_witness:
  "\<not> spin_step (False, \<lambda>_. False) (True, \<lambda>k. k = 0) \<and>
   (\<exists>inside. spin_step\<^sup>*\<^sup>* (False, \<lambda>_. False) (True, inside) \<and> inside 0 \<and> inside 1)"
proof -
  note lock = spinlock_does_not_exclude [of 0 1, OF zero_neq_one]
  have "spin_step (False, \<lambda>_. False) (True, \<lambda>k. k = 0) \<and>
      \<not> snd (False, \<lambda>_ :: nat. False) 0 \<and> snd (True, \<lambda>k :: nat. k = 0) 0 \<longrightarrow> fst (False, \<lambda>_ :: nat. False)"
    using lock [THEN conjunct1] by (elim allE)
  then have "\<not> spin_step (False, \<lambda>_. False) (True, \<lambda>k. k = 0)" by simp
  moreover have "\<exists>inside. spin_step\<^sup>*\<^sup>* (False, \<lambda>_. False) (True, inside) \<and> inside 0 \<and> inside 1"
    using lock by (elim conjE)
  ultimately show ?thesis by (rule conjI)
qed

end
