(* ===== verification/Text.thy ===== *)
theory Text
  imports Prelude
begin

text \<open>
  Decimal text of integers: \<open>std::to_string\<close> and the \<open>{}\<close> of \<open>std::format\<close>, and \<open>std::stoi\<close> and \<open>std::stoll\<close>, which skip
  white space, take an optional sign and the longest run of digits after it, ignore what follows,
  and throw when there is no digit or the number does not fit the type.
\<close>

section \<open>Printing\<close>

definition digit_char :: "nat \<Rightarrow> char" where
  "digit_char d = char_of (48 + d)"

fun show_nat :: "nat \<Rightarrow> string" where
  "show_nat n = (if n < 10 then [digit_char n] else show_nat (n div 10) @ [digit_char (n mod 10)])"

declare show_nat.simps [simp del]

definition show_int :: "int \<Rightarrow> string" where
  "show_int x = (if x < 0 then CHR ''-'' # show_nat (nat (- x)) else show_nat (nat x))"

definition show_bool :: "bool \<Rightarrow> string" where
  "show_bool b = (if b then ''true'' else ''false'')"

section \<open>Parsing\<close>

definition digit_value :: "char \<Rightarrow> nat" where
  "digit_value c = of_char c - 48"

definition is_digit :: "char \<Rightarrow> bool" where
  "is_digit c \<longleftrightarrow> 48 \<le> (of_char c :: nat) \<and> (of_char c :: nat) \<le> 57"

definition is_space :: "char \<Rightarrow> bool" where
  "is_space c \<longleftrightarrow> (of_char c :: nat) = 32 \<or> 9 \<le> (of_char c :: nat) \<and> (of_char c :: nat) \<le> 13"

definition digits_value :: "string \<Rightarrow> nat" where
  "digits_value ds = foldl (\<lambda>acc c. acc * 10 + digit_value c) 0 ds"

definition parse_decimal :: "(int \<Rightarrow> bool) \<Rightarrow> string \<Rightarrow> int result" where
  "parse_decimal in_range s =
     (let s1 = dropWhile is_space s;
          negative = (s1 \<noteq> [] \<and> hd s1 = CHR ''-'');
          s2 = (if s1 \<noteq> [] \<and> (hd s1 = CHR ''-'' \<or> hd s1 = CHR ''+'') then tl s1 else s1);
          ds = takeWhile is_digit s2;
          v = (if negative then - int (digits_value ds) else int (digits_value ds)) in
      if ds = [] then Inl Invalid_Argument
      else if in_range v then Inr v else Inl Out_Of_Range)"

definition stoi :: "string \<Rightarrow> int result" where
  "stoi = parse_decimal in_i32"

definition stoll :: "string \<Rightarrow> int result" where
  "stoll = parse_decimal in_i64"

section \<open>Round trip\<close>

lemma of_char_digit [simp]: "d < 10 \<Longrightarrow> (of_char (digit_char d) :: nat) = 48 + d"
  by (simp add: digit_char_def)

lemma digit_char_facts:
  assumes "d < 10"
  shows "is_digit (digit_char d)" "digit_value (digit_char d) = d" "\<not> is_space (digit_char d)"
  using assms by (simp_all add: is_digit_def digit_value_def is_space_def)

lemma show_nat_digits: "c \<in> set (show_nat n) \<Longrightarrow> is_digit c"
proof (induction n rule: show_nat.induct)
  case (1 n)
  then show ?case by (subst (asm) show_nat.simps) (auto simp: digit_char_facts split: if_splits)
qed

lemma digits_value_snoc: "digits_value (ds @ [c]) = digits_value ds * 10 + digit_value c"
  by (simp add: digits_value_def)

lemma digits_value_show_nat: "digits_value (show_nat n) = n"
proof (induction n rule: show_nat.induct)
  case (1 n)
  show ?case
  proof (cases "n < 10")
    case True
    then show ?thesis by (subst show_nat.simps) (simp add: digits_value_def digit_char_facts)
  next
    case False
    then show ?thesis using 1
      by (subst show_nat.simps) (simp add: digits_value_snoc digit_char_facts)
  qed
qed

lemma show_nat_nonempty [simp]: "show_nat n \<noteq> []"
  by (subst show_nat.simps) simp

lemma takeWhile_show_nat: "takeWhile is_digit (show_nat n) = show_nat n"
  by (simp add: takeWhile_eq_all_conv show_nat_digits)

lemma show_nat_hd:
  "\<not> is_space (hd (show_nat n))" "hd (show_nat n) \<noteq> CHR ''-''" "hd (show_nat n) \<noteq> CHR ''+''"
proof -
  have "is_digit (hd (show_nat n))" by (rule show_nat_digits [of _ n]) simp
  then show "\<not> is_space (hd (show_nat n))" "hd (show_nat n) \<noteq> CHR ''-''" "hd (show_nat n) \<noteq> CHR ''+''"
    by (auto simp: is_digit_def is_space_def)
qed

lemma dropWhile_space: "xs \<noteq> [] \<Longrightarrow> \<not> is_space (hd xs) \<Longrightarrow> dropWhile is_space xs = xs"
  by (cases xs) auto

lemma stoi_show_int: "in_i32 x \<Longrightarrow> stoi (show_int x) = Inr x"
proof (cases "x < 0")
  case True
  moreover have "\<not> is_space CHR ''-''" by (simp add: is_space_def)
  moreover assume "in_i32 x"
  ultimately show ?thesis
    by (simp add: stoi_def parse_decimal_def show_int_def takeWhile_show_nat digits_value_show_nat)
next
  case False
  moreover assume "in_i32 x"
  ultimately show ?thesis
    by (simp add: stoi_def parse_decimal_def show_int_def takeWhile_show_nat digits_value_show_nat show_nat_hd dropWhile_space)
qed

lemma stoi_range: "stoi s = Inr v \<Longrightarrow> in_i32 v"
  by (auto simp: stoi_def parse_decimal_def Let_def split: if_splits)

lemma stoi_error: "stoi s = Inl e \<Longrightarrow> e = Invalid_Argument \<or> e = Out_Of_Range"
  by (auto simp: stoi_def parse_decimal_def Let_def split: if_splits)

end
