(* ===== verification/CoreText.thy ===== *)
theory CoreText
  imports CoreTypes Text
begin

text \<open>
  The text of orders and containers: the \<open>std::formatter\<close> specialisations of \<open>libs/core/orders.h\<close> and
  \<open>libs/core/containers.h\<close>, which every service uses in its log and the database client in its rows.
\<close>

section \<open>Enumerations\<close>

definition format_side :: "side \<Rightarrow> string" where
  "format_side s = (if s = Bid then ''bid'' else ''ask'')"

definition format_order_type :: "order_type \<Rightarrow> string" where
  "format_order_type t = (if t = Limit then ''limit'' else ''market'')"

definition format_tif :: "time_in_force \<Rightarrow> string" where
  "format_tif t = (if t = Day then ''day'' else ''gtc'')"

fun format_exec_trans_type :: "exec_trans_type \<Rightarrow> string" where
  "format_exec_trans_type Exec_trans_new = ''new''"
| "format_exec_trans_type Exec_trans_cancel = ''cancel''"
| "format_exec_trans_type Exec_trans_correct = ''correct''"
| "format_exec_trans_type Exec_trans_status = ''status''"

fun format_status :: "exec_type_or_order_status \<Rightarrow> string" where
  "format_status Status_new = ''new''"
| "format_status Status_partially_filled = ''partially_filled''"
| "format_status Status_filled = ''filled''"
| "format_status Status_canceled = ''canceled''"
| "format_status Status_pending_cancel = ''pending_cancel''"
| "format_status Status_rejected = ''rejected''"

section \<open>Containers\<close>

definition value_or :: "'a option \<Rightarrow> 'a \<Rightarrow> 'a" where
  "value_or x d = (case x of None \<Rightarrow> d | Some v \<Rightarrow> v)"

text \<open>The fields of a container, each with its name, between braces.\<close>

fun format_fields :: "(string \<times> string) list \<Rightarrow> string" where
  "format_fields [] = ''''"
| "format_fields [(n, v)] = n @ '': '' @ v"
| "format_fields ((n, v) # f # fs) = n @ '': '' @ v @ '', '' @ format_fields (f # fs)"

definition format_struct :: "string \<Rightarrow> (string \<times> string) list \<Rightarrow> string" where
  "format_struct name fs = name @ ''{'' @ format_fields fs @ ''}''"

definition format_new_order_single :: "new_order_single \<Rightarrow> string" where
  "format_new_order_single c =
     format_struct ''NewOrderSingleContainer''
       [(''sender_comp_id'', nos_sender_comp_id c), (''target_comp_id'', nos_target_comp_id c),
        (''order_id'', show_int (value_or (nos_order_id c) (-1))), (''cl_ord_id'', show_int (nos_cl_ord_id c)),
        (''symbol'', nos_symbol c), (''side'', format_side (nos_side c)),
        (''order_qty'', show_int (nos_order_qty c)), (''ord_type'', format_order_type (nos_ord_type c)),
        (''price'', show_int (value_or (nos_price c) (-1))),
        (''time_in_force'', format_tif (nos_time_in_force c))]"

definition format_trade_container :: "trade_container \<Rightarrow> string" where
  "format_trade_container c =
     format_struct ''TradeContainer''
       [(''ticker'', tc_ticker c), (''price'', show_int (tc_price c)), (''quantity'', show_int (tc_quantity c)),
        (''trade_id'', tc_trade_id c), (''taker_id'', tc_taker_id c), (''maker_id'', tc_maker_id c),
        (''taker_order_id'', show_int (tc_taker_order_id c)), (''maker_order_id'', show_int (tc_maker_order_id c)),
        (''is_taker_buyer'', show_bool (tc_is_taker_buyer c))]"

definition format_cancel_order_request :: "cancel_order_request \<Rightarrow> string" where
  "format_cancel_order_request c =
     format_struct ''CancelOrderRequestContainer''
       [(''sender_comp_id'', cor_sender_comp_id c), (''target_comp_id'', cor_target_comp_id c),
        (''order_id'', show_int (value_or (cor_order_id c) (-1))),
        (''orig_cl_ord_id'', show_int (cor_orig_cl_ord_id c)), (''cl_ord_id'', show_int (cor_cl_ord_id c)),
        (''symbol'', cor_symbol c), (''side'', format_side (cor_side c)), (''order_qty'', show_int (cor_order_qty c))]"

definition format_cancel_order_response :: "cancel_order_response \<Rightarrow> string" where
  "format_cancel_order_response c =
     format_struct ''CancelOrderResponseContainer''
       [(''order_id'', show_int (crs_order_id c)), (''cl_ord_id'', show_int (crs_cl_ord_id c)),
        (''success'', show_bool (crs_success c))]"

definition format_fill_cost_query :: "fill_cost_query \<Rightarrow> string" where
  "format_fill_cost_query c =
     format_struct ''FillCostQueryContainer''
       [(''symbol'', fcq_symbol c), (''quantity'', show_int (fcq_quantity c)), (''side'', format_side (fcq_side c))]"

definition format_fill_cost_response :: "fill_cost_response \<Rightarrow> string" where
  "format_fill_cost_response c =
     format_struct ''FillCostResponseContainer'' [(''total_cost'', show_int (value_or (fcr_total_cost c) (-1)))]"

definition format_execution_report :: "execution_report \<Rightarrow> string" where
  "format_execution_report c =
     format_struct ''ExecutionReportContainer''
       [(''sender_comp_id'', er_sender_comp_id c), (''target_comp_id'', er_target_comp_id c),
        (''order_id'', show_int (er_order_id c)), (''cl_order_id'', show_int (er_cl_order_id c)),
        (''orig_cl_ord_id'', show_int (value_or (er_orig_cl_ord_id c) (-1))), (''exec_id'', er_exec_id c),
        (''exec_trans_type'', format_exec_trans_type (er_exec_trans_type c)),
        (''exec_type'', format_status (er_exec_type c)), (''ord_status'', format_status (er_ord_status c)),
        (''text'', value_or (er_text c) ''N/A''), (''symbol'', er_symbol c), (''side'', format_side (er_side c)),
        (''price'', show_int (value_or (er_price c) (-1))), (''time_in_force'', format_tif (er_time_in_force c)),
        (''leaves_qty'', show_int (er_leaves_qty c)), (''cum_qty'', show_int (er_cum_qty c)),
        (''avg_px'', show_int (er_avg_px c))]"

section \<open>Lemmas\<close>

lemma format_enums_injective:
  "inj format_side" "inj format_order_type" "inj format_tif" "inj format_exec_trans_type" "inj format_status"
proof -
  show "inj format_side" "inj format_order_type" "inj format_tif"
    by (rule injI; simp add: format_side_def format_order_type_def format_tif_def split: if_splits;
        metis side.exhaust order_type.exhaust time_in_force.exhaust)+
  show "inj format_exec_trans_type"
    by (rule injI) (rename_tac x y; case_tac x; case_tac y; simp)
  show "inj format_status"
    by (rule injI) (rename_tac x y; case_tac x; case_tac y; simp)
qed

lemma show_int_injective: "in_i32 x \<Longrightarrow> in_i32 y \<Longrightarrow> show_int x = show_int y \<Longrightarrow> x = y"
  using stoi_show_int by (metis sum.inject(2))

end
