(* ===== verification/Double.thy ===== *)
theory Double
  imports Complex_Main "HOL-Library.Log_Nat" Prelude
begin

text \<open>
  Arithmetic on \<open>double\<close> as the price conversions of \<open>libs/core/orders.h\<close>, the gateway and the market
  data structs use it. A finite double is the rational number it stands for; the result of an
  operation is the exact result rounded to 53 significant bits, to nearest and ties to even, which is
  what IEEE 754 binary64 prescribes in the range of normal numbers. Prices and quantities are below
  \<open>2 ^ 31\<close> cents, so neither the overflow threshold nor the subnormal range is reached.
\<close>

section \<open>Rounding\<close>

definition bin_exp :: "rat \<Rightarrow> int" where
  "bin_exp x =
     (case quotient_of \<bar>x\<bar> of (n, d) \<Rightarrow>
        let k = bitlen n - bitlen d in if \<bar>x\<bar> < 2 powi k then k - 1 else k)"

definition round_half_even :: "rat \<Rightarrow> int" where
  "round_half_even y =
     (let f = \<lfloor>y\<rfloor>; r = y - of_int f in
      if r < 1 / 2 then f else if 1 / 2 < r then f + 1 else if even f then f else f + 1)"

definition round_double :: "rat \<Rightarrow> rat" where
  "round_double x =
     (if x = 0 then 0
      else let u = 2 powi (bin_exp x - 52) in of_int (round_half_even (x / u)) * u)"

text \<open>\<open>static_cast<std::int32_t>\<close> of a double drops the fraction; a value that does not fit is undefined.\<close>

definition double_to_i32 :: "rat \<Rightarrow> int result" where
  "double_to_i32 x = i32 (if x < 0 then \<lceil>x\<rceil> else \<lfloor>x\<rfloor>)"

section \<open>The conversions\<close>

definition decimal_to_int_multiplier :: rat where
  "decimal_to_int_multiplier = 100"

definition convert_to_internal_price :: "rat \<Rightarrow> int result" where
  "convert_to_internal_price price = double_to_i32 (round_double (price * decimal_to_int_multiplier))"

definition convert_to_internal_quantity :: "rat \<Rightarrow> int result" where
  "convert_to_internal_quantity quantity =
     double_to_i32 (round_double (quantity * decimal_to_int_multiplier))"

text \<open>The way out: an \<open>int\<close> divided by the multiplier.\<close>

definition to_decimal :: "int \<Rightarrow> rat" where
  "to_decimal n = round_double (of_int n / decimal_to_int_multiplier)"

section \<open>Rounding error\<close>

lemma bin_exp_lower:
  assumes "x \<noteq> 0"
  shows "2 powi bin_exp x \<le> \<bar>x\<bar>"
proof -
  obtain n d where q: "quotient_of \<bar>x\<bar> = (n, d)" by force
  have d: "0 < d" and x: "\<bar>x\<bar> = of_int n / of_int d"
    using quotient_of_denom_pos [OF q] quotient_of_div [OF q] by simp_all
  have "0 < \<bar>x\<bar>" using assms by simp
  then have n: "0 < n" using d x by (simp add: zero_less_divide_iff)
  have bn: "(2::int) ^ nat (bitlen n - 1) \<le> n" "d < 2 ^ nat (bitlen d)"
    using bitlen_bounds [of n] bitlen_bounds [of d] n d by simp_all
  have "0 < bitlen m" if "0 < m" for m using that bitlen_nonneg [of m] bitlen_eq_zero_iff [of m] by linarith
  then have pos: "0 < bitlen n" "0 < bitlen d" using n d by simp_all
  have "(2::rat) powi (bitlen n - bitlen d - 1) = 2 ^ nat (bitlen n - 1) / 2 ^ nat (bitlen d)"
    using pos power_int_diff [of "2::rat" "bitlen n - 1" "bitlen d"] by (simp add: power_int_def algebra_simps)
  also have "\<dots> \<le> of_int n / of_int d"
  proof (rule frac_le)
    show "(0::rat) \<le> of_int n" "(0::rat) < of_int d" using n d by simp_all
    show "(2::rat) ^ nat (bitlen n - 1) \<le> of_int n" using bn(1) by (metis of_int_le_iff of_int_numeral of_int_power)
    show "of_int d \<le> (2::rat) ^ nat (bitlen d)" using bn(2) by (metis less_imp_le of_int_le_iff of_int_numeral of_int_power)
  qed
  finally have "(2::rat) powi (bitlen n - bitlen d - 1) \<le> \<bar>x\<bar>" using x by simp
  then show ?thesis using q by (simp add: bin_exp_def Let_def)
qed

lemma round_half_even_error: "\<bar>of_int (round_half_even y) - y\<bar> \<le> 1 / 2"
proof -
  have "of_int \<lfloor>y\<rfloor> \<le> y" "y < of_int \<lfloor>y\<rfloor> + 1" by linarith+
  then show ?thesis by (simp add: round_half_even_def Let_def abs_le_iff)
qed

lemma round_double_error: "\<bar>round_double x - x\<bar> \<le> \<bar>x\<bar> / 2 ^ 53"
proof (cases "x = 0")
  case False
  let ?u = "(2::rat) powi (bin_exp x - 52)"
  have u: "0 < ?u" by simp
  have "round_double x - x = (of_int (round_half_even (x / ?u)) - x / ?u) * ?u"
    using False u by (simp add: round_double_def Let_def left_diff_distrib)
  then have "\<bar>round_double x - x\<bar> = \<bar>of_int (round_half_even (x / ?u)) - x / ?u\<bar> * ?u"
    using u by (simp add: abs_mult)
  also have "\<dots> \<le> 1 / 2 * ?u"
    by (rule mult_right_mono [OF round_half_even_error]) (use u in simp)
  also have "?u = 2 powi bin_exp x / 2 ^ 52"
    by (simp add: power_int_diff)
  also have "1 / 2 * (2 powi bin_exp x / 2 ^ 52) \<le> \<bar>x\<bar> / (2::rat) ^ 53"
    using bin_exp_lower [OF False] by simp
  finally show ?thesis .
qed (simp add: round_double_def)

text \<open>
  A number of cents written as a decimal and converted back: the two roundings together lose less
  than one unit, so the truncation gives the number or one less.
\<close>

lemma two_roundings:
  assumes "0 \<le> n" "n < 2 ^ 31"
  shows "\<bar>round_double (to_decimal n * 100) - of_int n\<bar> < 1"
proof -
  let ?e = "1 / 2 ^ 53 :: rat" and ?n = "of_int n :: rat"
  have n: "0 \<le> ?n" "?n < 2 ^ 31" using assms by (simp, metis of_int_less_iff of_int_numeral of_int_power)
  define a where "a = to_decimal n * 100"
  have "\<bar>to_decimal n - ?n / 100\<bar> \<le> ?n / 100 * ?e"
    using round_double_error [of "?n / 100"] n(1) by (simp add: to_decimal_def decimal_to_int_multiplier_def)
  then have a: "\<bar>a - ?n\<bar> \<le> ?n * ?e"
    by (simp add: a_def abs_le_iff field_simps)
  then have "\<bar>a\<bar> \<le> ?n + ?n * ?e" using n(1) by linarith
  then have "\<bar>round_double a - a\<bar> \<le> (?n + ?n * ?e) * ?e"
    using round_double_error [of a] mult_right_mono [of "\<bar>a\<bar>" "?n + ?n * ?e" ?e] by simp
  with a have "\<bar>round_double a - ?n\<bar> \<le> ?n * ?e + (?n + ?n * ?e) * ?e" by linarith
  also have "\<dots> = ?n * (?e + (1 + ?e) * ?e)" by (simp add: algebra_simps)
  also have "\<dots> \<le> 2 ^ 31 * (?e + (1 + ?e) * ?e)"
    by (rule mult_right_mono) (use n in simp_all)
  also have "\<dots> < 1" by (simp add: power_numeral_reduce)
  finally show ?thesis by (simp add: a_def)
qed

lemma convert_back:
  assumes "0 \<le> n" "n < 2 ^ 31"
  shows "convert_to_internal_price (to_decimal n) \<in> {Inr n, Inr (n - 1)}"
proof -
  let ?y = "round_double (to_decimal n * 100)"
  have y: "of_int n - 1 < ?y" "?y < of_int n + 1"
    using two_roundings [OF assms] by (simp_all add: abs_less_iff)
  show ?thesis
  proof (cases "n = 0")
    case True
    then show ?thesis by (simp add: convert_to_internal_price_def to_decimal_def round_double_def double_to_i32_def in_i32_def)
  next
    case False
    then have pos: "1 \<le> n" using assms by simp
    then have "(1::rat) \<le> of_int n" by simp
    then have "0 \<le> ?y" using y(1) by linarith
    moreover have "\<lfloor>?y\<rfloor> = n \<or> \<lfloor>?y\<rfloor> = n - 1" using y by linarith
    moreover have "in_i32 n" "in_i32 (n - 1)" using assms pos by (simp_all add: in_i32_def)
    ultimately show ?thesis
      by (auto simp: convert_to_internal_price_def decimal_to_int_multiplier_def double_to_i32_def)
  qed
qed

text \<open>C20 (bounds). A price in dollars and cents that passes through a \<open>double\<close> arrives as the same number of cents
  or as one cent less, for every amount that fits an \<open>int\<close>: the decimal is rounded to the nearest
  double, multiplied by 100 with one more rounding, and truncated.\<close>

theorem price_conversion_loses_at_most_one_cent:
  assumes "0 \<le> n" "n < 2 ^ 31"
  shows "convert_to_internal_price (to_decimal n) \<in> {Inr n, Inr (n - 1)}"
  using assms by (rule convert_back)

text \<open>29 cents arrive as 28.\<close>

theorem price_conversion_loses_at_most_one_cent_witness:
  "convert_to_internal_price (to_decimal 29) = Inr 28 \<and>
   convert_to_internal_price (to_decimal 29) \<in> {Inr 29, Inr (29 - 1)}"
proof -
  have "convert_to_internal_price (to_decimal 29) = Inr 28" by code_simp
  then show ?thesis using price_conversion_loses_at_most_one_cent [of 29] by simp
qed

end
