(* ===== verification/FloatOps.thy ===== *)
theory FloatOps
  imports Double
begin

text \<open>
  The arithmetic operators of \<open>double\<close> as the simulated traders use them: each is the exact result
  rounded once. Rounding is monotone and keeps the sign, which is what comparisons of computed prices
  rest on.
\<close>

section \<open>Operators\<close>

definition dbl_add :: "rat \<Rightarrow> rat \<Rightarrow> rat" where
  "dbl_add x y = round_double (x + y)"

definition dbl_sub :: "rat \<Rightarrow> rat \<Rightarrow> rat" where
  "dbl_sub x y = round_double (x - y)"

definition dbl_mul :: "rat \<Rightarrow> rat \<Rightarrow> rat" where
  "dbl_mul x y = round_double (x * y)"

definition dbl_div :: "rat \<Rightarrow> rat \<Rightarrow> rat" where
  "dbl_div x y = round_double (x / y)"

text \<open>A literal such as \<open>0.01\<close> is the double nearest to it.\<close>

definition dbl :: "rat \<Rightarrow> rat" where
  "dbl x = round_double x"

text \<open>\<open>std::round\<close>: to the nearest integer, halves away from zero.\<close>

definition std_round :: "rat \<Rightarrow> rat" where
  "std_round x = (if 0 \<le> x then of_int \<lfloor>x + 1 / 2\<rfloor> else - of_int \<lfloor>- x + 1 / 2\<rfloor>)"

section \<open>Rounding is monotone\<close>

lemma bin_exp_upper:
  assumes "x \<noteq> 0"
  shows "\<bar>x\<bar> < 2 powi (bin_exp x + 1)"
proof -
  obtain n d where q: "quotient_of \<bar>x\<bar> = (n, d)" by force
  have d: "0 < d" and x: "\<bar>x\<bar> = of_int n / of_int d"
    using quotient_of_denom_pos [OF q] quotient_of_div [OF q] by simp_all
  have "0 < \<bar>x\<bar>" using assms by simp
  then have n: "0 < n" using d x by (simp add: zero_less_divide_iff)
  have bn: "n < 2 ^ nat (bitlen n)" "(2::int) ^ nat (bitlen d - 1) \<le> d"
    using bitlen_bounds [of n] bitlen_bounds [of d] n d by simp_all
  have "0 < bitlen m" if "0 < m" for m using that bitlen_nonneg [of m] bitlen_eq_zero_iff [of m] by linarith
  then have pos: "0 < bitlen n" "0 < bitlen d" using n d by simp_all
  have "of_int n / of_int d < (2::rat) ^ nat (bitlen n) / 2 ^ nat (bitlen d - 1)"
  proof (rule frac_less)
    show "(0::rat) \<le> of_int n" "(0::rat) < 2 ^ nat (bitlen d - 1)" using n by simp_all
    show "of_int n < (2::rat) ^ nat (bitlen n)" using bn(1) by (metis of_int_less_iff of_int_numeral of_int_power)
    show "(2::rat) ^ nat (bitlen d - 1) \<le> of_int d" using bn(2) by (metis of_int_le_iff of_int_numeral of_int_power)
  qed
  also have "\<dots> = 2 powi (bitlen n - bitlen d + 1)"
    using pos power_int_diff [of "2::rat" "bitlen n" "bitlen d - 1"] by (simp add: power_int_def algebra_simps)
  finally have up: "\<bar>x\<bar> < 2 powi (bitlen n - bitlen d + 1)" using x by simp
  then show ?thesis using q by (simp add: bin_exp_def Let_def)
qed

lemma round_half_even_mono:
  assumes "x \<le> y"
  shows "round_half_even x \<le> round_half_even y"
proof -
  have f: "\<lfloor>x\<rfloor> \<le> \<lfloor>y\<rfloor>" using assms by (rule floor_mono)
  have "\<lfloor>z\<rfloor> \<le> round_half_even z" "round_half_even z \<le> \<lfloor>z\<rfloor> + 1" for z :: rat
    by (simp_all add: round_half_even_def Let_def)
  then have far: ?thesis if "\<lfloor>x\<rfloor> < \<lfloor>y\<rfloor>" using that by (meson add1_zle_eq order_trans)
  show ?thesis
  proof (cases "\<lfloor>x\<rfloor> = \<lfloor>y\<rfloor>")
    case True
    then show ?thesis using assms by (simp add: round_half_even_def Let_def)
  next
    case False
    then show ?thesis using f far by simp
  qed
qed

lemma round_half_even_of_int [simp]: "round_half_even (of_int k) = k"
  by (simp add: round_half_even_def)

lemma round_half_even_minus: "round_half_even (- y) = - round_half_even y"
proof (cases "y = of_int \<lfloor>y\<rfloor>")
  case True
  then show ?thesis by (metis of_int_minus round_half_even_of_int)
next
  case False
  then have "\<lceil>y\<rceil> = \<lfloor>y\<rfloor> + 1" by (simp add: ceiling_altdef)
  then have fl: "\<lfloor>- y\<rfloor> = - \<lfloor>y\<rfloor> - 1" by (simp add: ceiling_def)
  have half: "- y - of_int (- \<lfloor>y\<rfloor> - 1) = 1 - (y - of_int \<lfloor>y\<rfloor>)" by simp
  show ?thesis unfolding round_half_even_def Let_def fl half by auto
qed

lemma round_double_minus: "round_double (- x) = - round_double x"
  by (simp add: round_double_def bin_exp_def Let_def round_half_even_minus)

lemma round_double_0 [simp]: "round_double 0 = 0"
  by (simp add: round_double_def)

text \<open>The rounded value stays in the closed binade of the exact one.\<close>

lemma round_double_binade:
  assumes "0 < x"
  shows "2 powi bin_exp x \<le> round_double x" "round_double x \<le> 2 powi (bin_exp x + 1)"
proof -
  let ?u = "(2::rat) powi (bin_exp x - 52)"
  have u: "0 < ?u" by simp
  have lo: "2 powi bin_exp x = of_int (2 ^ 52) * ?u" by (simp add: power_int_diff)
  have hi: "2 powi (bin_exp x + 1) = of_int (2 ^ 53) * ?u" by (simp add: power_int_diff power_int_add)
  have r: "round_double x = of_int (round_half_even (x / ?u)) * ?u"
    using assms by (simp add: round_double_def Let_def)
  have "of_int (2 ^ 52) \<le> x / ?u" using bin_exp_lower [of x] assms lo u by (simp add: pos_le_divide_eq)
  then have "(2::int) ^ 52 \<le> round_half_even (x / ?u)" using round_half_even_mono by (metis round_half_even_of_int)
  then show "2 powi bin_exp x \<le> round_double x" unfolding lo r using u by (simp only: mult_le_cancel_right_pos of_int_le_iff)
  have "x / ?u \<le> of_int (2 ^ 53)" using bin_exp_upper [of x] assms hi u by (simp add: pos_divide_le_eq)
  then have "round_half_even (x / ?u) \<le> 2 ^ 53" using round_half_even_mono by (metis round_half_even_of_int)
  then show "round_double x \<le> 2 powi (bin_exp x + 1)" unfolding hi r using u by (simp only: mult_le_cancel_right_pos of_int_le_iff)
qed

lemma bin_exp_mono:
  assumes "0 < x" "x \<le> y"
  shows "bin_exp x \<le> bin_exp y"
proof (rule ccontr)
  assume "\<not> ?thesis"
  then have "(2::rat) powi (bin_exp y + 1) \<le> 2 powi bin_exp x" by (intro power_int_increasing) simp_all
  then show False using bin_exp_lower [of x] bin_exp_upper [of y] assms by simp
qed

lemma round_double_mono_pos:
  assumes "0 < x" "x \<le> y"
  shows "round_double x \<le> round_double y"
proof (cases "bin_exp x = bin_exp y")
  case True
  let ?u = "(2::rat) powi (bin_exp y - 52)"
  have "x / ?u \<le> y / ?u" using assms(2) by (simp add: divide_right_mono)
  then have "round_half_even (x / ?u) \<le> round_half_even (y / ?u)" by (rule round_half_even_mono)
  then show ?thesis using assms True by (simp add: round_double_def Let_def)
next
  case False
  then have "bin_exp x + 1 \<le> bin_exp y" using bin_exp_mono [OF assms] by simp
  then have "(2::rat) powi (bin_exp x + 1) \<le> 2 powi bin_exp y" by (intro power_int_increasing) simp_all
  then show ?thesis using round_double_binade [of x] round_double_binade [of y] assms by linarith
qed

lemma round_double_pos: "0 < x \<Longrightarrow> 0 < round_double x"
  using round_double_binade(1) [of x] zero_less_power_int [of "2::rat" "bin_exp x"] by linarith

lemma round_double_sgn:
  "0 \<le> x \<Longrightarrow> 0 \<le> round_double x" "x \<le> 0 \<Longrightarrow> round_double x \<le> 0"
  using round_double_pos [of x] round_double_pos [of "- x"] by (auto simp: round_double_minus le_less)

lemma round_double_mono:
  assumes "x \<le> y"
  shows "round_double x \<le> round_double y"
proof (cases "0 < x")
  case True
  then show ?thesis using assms by (rule round_double_mono_pos)
next
  case False
  show ?thesis
  proof (cases "y < 0")
    case True
    then show ?thesis using round_double_mono_pos [of "- y" "- x"] assms by (simp add: round_double_minus)
  next
    case False
    then show ?thesis using \<open>\<not> 0 < x\<close> round_double_sgn(1) [of y] round_double_sgn(2) [of x] by linarith
  qed
qed

text \<open>Rounding a value that is on the grid changes nothing.\<close>

lemma bin_exp_unique:
  assumes "0 < x" "2 powi k \<le> x" "x < 2 powi (k + 1)"
  shows "bin_exp x = k"
proof -
  have b: "2 powi bin_exp x \<le> x" "x < 2 powi (bin_exp x + 1)"
    using bin_exp_lower [of x] bin_exp_upper [of x] assms(1) by simp_all
  have lt: "i < j" if "(2::rat) powi i < 2 powi j" for i j :: int
    using power_int_increasing [of j i "2::rat"] that by (meson leI not_le one_le_numeral)
  have "bin_exp x < k + 1" "k < bin_exp x + 1"
    using b assms by (intro lt; linarith)+
  then show ?thesis by simp
qed

lemma round_double_power_of_two: "round_double (2 powi k) = 2 powi k"
proof -
  have "(2::rat) powi k < 2 powi (k + 1)" by (rule power_int_strict_increasing) simp_all
  then have e: "bin_exp (2 powi k) = k" by (intro bin_exp_unique) simp_all
  have "(2::rat) powi k / 2 powi (k - 52) = of_int (2 ^ 52)" by (simp add: power_int_diff)
  then have "round_half_even ((2::rat) powi k / 2 powi (k - 52)) = 2 ^ 52" by (simp only: round_half_even_of_int)
  then show ?thesis unfolding round_double_def e Let_def by (simp add: power_int_diff)
qed

lemma round_double_idem_pos:
  assumes x: "0 < x"
  shows "round_double (round_double x) = round_double x"
proof (cases "round_double x = 2 powi (bin_exp x + 1)")
  case True
  then show ?thesis using round_double_power_of_two [of "bin_exp x + 1"] by simp
next
  case False
  have b: "2 powi bin_exp x \<le> round_double x" "round_double x < 2 powi (bin_exp x + 1)"
    using round_double_binade [OF x] False by simp_all
  have p: "0 < round_double x" using x by (rule round_double_pos)
  have e: "bin_exp (round_double x) = bin_exp x" using p b by (rule bin_exp_unique)
  let ?u = "(2::rat) powi (bin_exp x - 52)"
  have r: "round_double x = of_int (round_half_even (x / ?u)) * ?u" using x by (simp add: round_double_def Let_def)
  then have "round_double x / ?u = of_int (round_half_even (x / ?u))" by simp
  then have "round_half_even (round_double x / ?u) = round_half_even (x / ?u)" by simp
  then show ?thesis using e p r by (metis round_double_def order_less_irrefl)
qed

lemma round_double_idem: "round_double (round_double x) = round_double x"
proof (cases "0 < x")
  case True
  then show ?thesis by (rule round_double_idem_pos)
next
  case False
  then show ?thesis using round_double_idem_pos [of "- x"] by (cases "x = 0") (simp_all add: round_double_minus)
qed

section \<open>Consequences\<close>

lemma dbl_add_ge: "0 \<le> y \<Longrightarrow> round_double x \<le> dbl_add x y"
  by (simp add: dbl_add_def round_double_mono)

lemma dbl_sub_le: "0 \<le> y \<Longrightarrow> dbl_sub x y \<le> round_double x"
  by (simp add: dbl_sub_def round_double_mono)

lemma dbl_mul_nonneg: "0 \<le> x \<Longrightarrow> 0 \<le> y \<Longrightarrow> 0 \<le> dbl_mul x y"
  by (simp add: dbl_mul_def round_double_sgn)

lemma dbl_mul_mono: "x \<le> y \<Longrightarrow> 0 \<le> z \<Longrightarrow> dbl_mul x z \<le> dbl_mul y z"
  by (simp add: dbl_mul_def round_double_mono mult_right_mono)

end
