(* ===== verification/SharedMemory.thy ===== *)
theory SharedMemory
  imports RingProperties Text
begin

text \<open>
  The handle of a ring buffer in shared memory, \<open>MpscSharedMemoryRingBuffer\<close> of
  \<open>libs/inter_process/mpsc_shared_memory_ring_buffer.h\<close>: creating and opening the file behind it, mapping
  it, moving the handle and giving it back. The system calls are arguments, collected in \<open>os_env\<close>; a
  mapping is an address, and \<open>os_read\<close> and \<open>os_write\<close> are the accesses to the memory mapped there.
\<close>

section \<open>State\<close>

record ('a, 'o) os_env =
  os_shm_open :: "bool \<Rightarrow> string \<Rightarrow> 'o \<Rightarrow> int \<times> 'o"
  os_open :: "bool \<Rightarrow> string \<Rightarrow> 'o \<Rightarrow> int \<times> 'o"
  os_fstat :: "int \<Rightarrow> 'o \<Rightarrow> int option"
  os_ftruncate :: "int \<Rightarrow> 'o \<Rightarrow> bool \<times> 'o"
  os_mmap :: "int \<Rightarrow> 'o \<Rightarrow> nat option \<times> 'o"
  os_close :: "int \<Rightarrow> 'o \<Rightarrow> 'o"
  os_munmap :: "nat \<Rightarrow> 'o \<Rightarrow> 'o"
  os_shm_unlink :: "string \<Rightarrow> 'o \<Rightarrow> 'o"
  os_unlink :: "string \<Rightarrow> 'o \<Rightarrow> 'o"
  os_read :: "nat \<Rightarrow> 'o \<Rightarrow> 'a ring_buffer"
  os_write :: "nat \<Rightarrow> 'a ring_buffer \<Rightarrow> 'o \<Rightarrow> 'o"

record shm_handle =
  sh_buffer :: "nat option"
  sh_is_owner :: bool
  sh_shm_file_path :: string
  sh_use_shm_open :: bool

section \<open>Creating and opening\<close>

definition get_shm_file_full_name :: "nat \<Rightarrow> string \<Rightarrow> string" where
  "get_shm_file_full_name cap prefix = prefix @ ''_'' @ show_int (int cap)"

text \<open>The last step of both: initialising the buffer unless its magic number is there.\<close>

definition init_once :: "('a, 'o) os_env \<Rightarrow> nat \<Rightarrow> 'o \<Rightarrow> 'o" where
  "init_once env a os =
     (if is_initialized (os_read env a os) then os else os_write env a (rb_init (os_read env a os)) os)"

definition map_buffer :: "('a, 'o) os_env \<Rightarrow> shm_handle \<Rightarrow> int \<Rightarrow> 'o \<Rightarrow> shm_handle result \<times> 'o" where
  "map_buffer env h fd os =
     (case os_mmap env fd os of
        (None, os1) \<Rightarrow> (Inl Runtime_Error, os_close env fd os1)
      | (Some a, os1) \<Rightarrow> (Inr (h\<lparr>sh_buffer := Some a\<rparr>), init_once env a (os_close env fd os1)))"

definition shm_create :: "('a, 'o) os_env \<Rightarrow> nat \<Rightarrow> string \<Rightarrow> bool \<Rightarrow> 'o \<Rightarrow> shm_handle result \<times> 'o" where
  "shm_create env cap prefix use_shm_open os =
     (let h = \<lparr>sh_buffer = None, sh_is_owner = True, sh_shm_file_path = get_shm_file_full_name cap prefix,
               sh_use_shm_open = use_shm_open\<rparr> in
      case (if use_shm_open then os_shm_open env True (sh_shm_file_path h) os else os_open env True (sh_shm_file_path h) os) of
        (fd, os1) \<Rightarrow>
          if fd = -1 then (Inl Runtime_Error, os1)
          else
            (case os_fstat env fd os1 of
               None \<Rightarrow> (Inl Runtime_Error, os1)
             | Some st_size \<Rightarrow>
                 if st_size = 0 then
                   (case os_ftruncate env fd os1 of
                      (False, os2) \<Rightarrow> (Inl Runtime_Error, os_close env fd os2)
                    | (True, os2) \<Rightarrow> map_buffer env h fd os2)
                 else map_buffer env h fd os1))"

definition shm_open_exist :: "('a, 'o) os_env \<Rightarrow> nat \<Rightarrow> string \<Rightarrow> bool \<Rightarrow> 'o \<Rightarrow> shm_handle result \<times> 'o" where
  "shm_open_exist env cap prefix use_shm_open os =
     (let h = \<lparr>sh_buffer = None, sh_is_owner = False, sh_shm_file_path = get_shm_file_full_name cap prefix,
               sh_use_shm_open = use_shm_open\<rparr> in
      case (if use_shm_open then os_shm_open env False (sh_shm_file_path h) os else os_open env False (sh_shm_file_path h) os) of
        (fd, os1) \<Rightarrow>
          if fd = -1 then (Inl Runtime_Error, os1) else map_buffer env h fd os1)"

section \<open>Moving and giving back\<close>

text \<open>The destructor: the owner resets the magic number before it unmaps and unlinks.\<close>

definition shm_release :: "('a, 'o) os_env \<Rightarrow> shm_handle \<Rightarrow> 'o \<Rightarrow> 'o" where
  "shm_release env h os =
     (case sh_buffer h of
        None \<Rightarrow> os
      | Some a \<Rightarrow>
          (let os1 = (if sh_is_owner h then os_write env a (rb_destroy (os_read env a os)) os else os);
               os2 = os_munmap env a os1 in
           if sh_is_owner h then
             (if sh_use_shm_open h then os_shm_unlink env (sh_shm_file_path h) os2
              else os_unlink env (sh_shm_file_path h) os2)
           else os2))"

text \<open>The move constructor: the new handle and what is left of the old one.\<close>

definition shm_move :: "shm_handle \<Rightarrow> shm_handle \<times> shm_handle" where
  "shm_move other = (other, other\<lparr>sh_buffer := None\<rparr>)"

text \<open>Move assignment between two different handles gives back what the target held first.\<close>

definition shm_move_assign :: "('a, 'o) os_env \<Rightarrow> shm_handle \<Rightarrow> shm_handle \<Rightarrow> 'o \<Rightarrow> shm_handle \<times> shm_handle \<times> 'o" where
  "shm_move_assign env this other os = (other, other\<lparr>sh_buffer := None\<rparr>, shm_release env this os)"

section \<open>Blocking push\<close>

text \<open>
  \<open>push_blocking\<close> repeats \<open>try_push\<close> until it succeeds. Other processes act on the buffer before the
  attempts: \<open>rest n\<close> is what they do before attempt \<open>n\<close>.
\<close>

partial_function (option) push_blocking ::
  "(nat \<Rightarrow> 'a ring_buffer \<Rightarrow> 'a ring_buffer) \<Rightarrow> nat \<Rightarrow> 'a \<Rightarrow> 'a ring_buffer \<Rightarrow> 'a ring_buffer option" where
  "push_blocking rest n v rb =
     (case shm_try_publish (rest n rb) v of
        (ok, rb') \<Rightarrow> if ok then Some rb' else push_blocking rest (Suc n) v rb')"

text \<open>The buffer before attempt \<open>n + k\<close> when the \<open>k\<close> attempts before it failed.\<close>

fun after_attempts ::
  "(nat \<Rightarrow> 'a ring_buffer \<Rightarrow> 'a ring_buffer) \<Rightarrow> nat \<Rightarrow> nat \<Rightarrow> 'a \<Rightarrow> 'a ring_buffer \<Rightarrow> 'a ring_buffer" where
  "after_attempts rest n 0 v rb = rest n rb"
| "after_attempts rest n (Suc k) v rb =
     after_attempts rest (Suc n) k v (snd (shm_try_publish (rest n rb) v))"

section \<open>Lemmas\<close>

lemma map_buffer_Inr:
  assumes "map_buffer env h fd os = (Inr h', os')"
  obtains a os1 where "os_mmap env fd os = (Some a, os1)" "h' = h\<lparr>sh_buffer := Some a\<rparr>"
    "os' = init_once env a (os_close env fd os1)"
  using assms by (auto simp: map_buffer_def split: prod.splits option.splits)

text \<open>Memory behaves as memory at an address: what was written is read.\<close>

lemma init_once_initialized:
  assumes "\<And>rb os. os_read env a (os_write env a rb os) = rb"
  shows "is_initialized (os_read env a (init_once env a os))"
    and "is_initialized (os_read env a os) \<Longrightarrow> init_once env a os = os"
  using assms by (auto simp: init_once_def is_initialized_def rb_init_def)

text \<open>A process that finds an initialised buffer behind the name leaves its contents as they are.\<close>

lemma open_keeps_initialized_buffer:
  assumes "shm_open_exist env cap prefix b os = (Inr h, os')" "\<And>rb os. os_read env a (os_write env a rb os) = rb"
    and "sh_buffer h = Some a"
  shows "is_initialized (os_read env a os') \<and> \<not> sh_is_owner h \<and>
    (\<exists>os1. os' = init_once env a os1 \<and> (is_initialized (os_read env a os1) \<longrightarrow> os' = os1))"
proof -
  obtain fd os0 where m: "map_buffer env \<lparr>sh_buffer = None, sh_is_owner = False,
      sh_shm_file_path = get_shm_file_full_name cap prefix, sh_use_shm_open = b\<rparr> fd os0 = (Inr h, os')"
    using assms(1) by (auto simp: shm_open_exist_def Let_def split: prod.splits if_splits)
  then obtain os1 where "os' = init_once env a os1" "\<not> sh_is_owner h"
    using map_buffer_Inr [OF m] assms(3) by (metis option.inject shm_handle.select_convs(1,2) shm_handle.update_convs(1))
  then show ?thesis using init_once_initialized [of env a os1] assms(2) by blast
qed

text \<open>A handle that was moved from releases nothing, so a buffer is given back once.\<close>

lemma moved_handle_releases_nothing:
  "shm_release env (snd (shm_move h)) os = os"
  "shm_move_assign env this other os = (this', other', os') \<Longrightarrow> shm_release env other' os'' = os''"
  by (auto simp: shm_release_def shm_move_def shm_move_assign_def)

text \<open>
  A producer that blocks gets through as soon as there is room before one of its attempts, and its value is
  then the newest in the buffer; as long as there is never room it does not return.
\<close>

lemma push_blocking_returns:
  assumes "ring_ok (after_attempts rest n k v rb)" "0 < budget (after_attempts rest n k v rb)"
    and "length (contents (after_attempts rest n k v rb)) < capacity (after_attempts rest n k v rb)"
  shows "\<exists>j \<le> k. \<exists>rb'. push_blocking rest n v rb = Some rb' \<and>
    rb' = snd (shm_try_publish (after_attempts rest n j v rb) v) \<and>
    fst (shm_try_publish (after_attempts rest n j v rb) v)"
  using assms
proof (induction k arbitrary: n rb)
  case 0
  then have "fst (shm_try_publish (rest n rb) v)" using ring.accept [of "rest n rb" v] by simp
  then show ?case by (subst push_blocking.simps) (auto split: prod.splits)
next
  case (Suc k)
  show ?case
  proof (cases "fst (shm_try_publish (rest n rb) v)")
    case True
    then show ?thesis by (subst push_blocking.simps) (force split: prod.splits intro!: exI [of _ "0::nat"])
  next
    case False
    let ?rb = "snd (shm_try_publish (rest n rb) v)"
    have step: "push_blocking rest n v rb = push_blocking rest (Suc n) v ?rb"
      using False by (subst push_blocking.simps) (auto split: prod.splits)
    obtain j rb' where "j \<le> k" "push_blocking rest (Suc n) v ?rb = Some rb'"
      "rb' = snd (shm_try_publish (after_attempts rest (Suc n) j v ?rb) v)"
      "fst (shm_try_publish (after_attempts rest (Suc n) j v ?rb) v)"
      using Suc.IH [of "Suc n" ?rb] Suc.prems by auto
    then show ?thesis using step by (intro exI [of _ "Suc j"]) auto
  qed
qed

end
