(* ===== verification/Websocket.thy ===== *)
theory Websocket
  imports Fifo Text Channel
begin

text \<open>
  The websocket transport: \<open>ConnectionMetadata\<close> and \<open>WebsocketManager\<close> of
  \<open>libs/transport/websocket/websocket.h\<close>, the client and the server built on them, and the wrappers
  behind the interfaces \<open>InboundServer\<close> and \<open>OutboundClient\<close>.

  The endpoint is the library websocketpp: its state is the type \<open>'e\<close>, its connection handles are the
  type \<open>'h\<close>, and its operations are arguments collected in \<open>ws_env\<close>. A \<open>ConnectionMetadata\<close> object is
  shared: the id map, the handle map and the handlers of a connection all hold pointers to it. So the
  objects live in a store, indexed by an address, and the maps hold addresses. Handlers and calls from
  the service's thread are the operations below; each of them is one step.
\<close>

section \<open>Connection metadata\<close>

datatype connection_status = Connecting | Open | Failed | Closed

datatype message_format = Text_Format | Binary_Format

record ('h, 'w) connection_metadata =
  cm_id :: int
  cm_handle :: 'h
  cm_status :: connection_status
  cm_uri :: string
  cm_counter_party :: string
  cm_error_reason :: string
  cm_message_store :: "'w list"
  cm_message_queue :: "'w ts_queue"

text \<open>
  What the program uses of the endpoint. A Boolean result says whether the operation left its error
  code clear. \<open>ws_order\<close> is the order in which iteration visits the keys of a hash map.
\<close>

record ('h, 'w, 'e) ws_env =
  ws_send_frame :: "'h \<Rightarrow> 'w \<Rightarrow> message_format \<Rightarrow> 'e \<Rightarrow> bool \<times> 'e"
  ws_close_handle :: "'h \<Rightarrow> int \<Rightarrow> 'e \<Rightarrow> bool \<times> 'e"
  ws_is_server :: "'h \<Rightarrow> 'e \<Rightarrow> bool"
  ws_request_header :: "'h \<Rightarrow> string \<Rightarrow> 'e \<Rightarrow> string"
  ws_response_header :: "'h \<Rightarrow> string \<Rightarrow> 'e \<Rightarrow> string"
  ws_close_code :: "'h \<Rightarrow> 'e \<Rightarrow> int"
  ws_close_code_text :: "int \<Rightarrow> string"
  ws_close_reason :: "'h \<Rightarrow> 'e \<Rightarrow> string"
  ws_get_connection :: "string \<Rightarrow> 'e \<Rightarrow> 'h option \<times> 'e"
  ws_append_header :: "'h \<Rightarrow> string \<Rightarrow> string \<Rightarrow> 'e \<Rightarrow> 'e"
  ws_connect :: "'h \<Rightarrow> 'e \<Rightarrow> 'e"
  ws_start_client :: "'e \<Rightarrow> 'e"
  ws_stop_perpetual :: "'e \<Rightarrow> 'e"
  ws_listen :: "int \<Rightarrow> 'e \<Rightarrow> 'e"
  ws_start_accept :: "'e \<Rightarrow> bool \<times> 'e"
  ws_stop_listening :: "'e \<Rightarrow> bool \<times> 'e"
  ws_order :: "int set \<Rightarrow> int list"

definition make_connection_metadata :: "int \<Rightarrow> 'h \<Rightarrow> string \<Rightarrow> ('h, 'w) connection_metadata" where
  "make_connection_metadata id' handle uri =
     \<lparr>cm_id = id', cm_handle = handle, cm_status = Connecting, cm_uri = uri, cm_counter_party = ''N/A'',
      cm_error_reason = [], cm_message_store = [], cm_message_queue = []\<rparr>"

definition counter_party_of :: "('h, 'w, 'e) ws_env \<Rightarrow> 'e \<Rightarrow> 'h \<Rightarrow> string" where
  "counter_party_of env ep handle =
     (if ws_is_server env handle ep then ws_request_header env handle ''client_name'' ep
      else ws_response_header env handle ''Server'' ep)"

definition on_open ::
  "('h, 'w, 'e) ws_env \<Rightarrow> 'e \<Rightarrow> 'h \<Rightarrow> ('h, 'w) connection_metadata \<Rightarrow> ('h, 'w) connection_metadata" where
  "on_open env ep handle m = m\<lparr>cm_status := Open, cm_counter_party := counter_party_of env ep handle\<rparr>"

definition on_fail ::
  "('h, 'w, 'e) ws_env \<Rightarrow> 'e \<Rightarrow> 'h \<Rightarrow> ('h, 'w) connection_metadata \<Rightarrow> ('h, 'w) connection_metadata" where
  "on_fail env ep handle m = m\<lparr>cm_status := Failed, cm_counter_party := counter_party_of env ep handle\<rparr>"

definition on_close ::
  "('h, 'w, 'e) ws_env \<Rightarrow> 'e \<Rightarrow> 'h \<Rightarrow> ('h, 'w) connection_metadata \<Rightarrow> ('h, 'w) connection_metadata" where
  "on_close env ep handle m =
     m\<lparr>cm_status := Closed,
       cm_error_reason := ''Close code: '' @ show_int (ws_close_code env handle ep) @ '' ('' @
         ws_close_code_text env (ws_close_code env handle ep) @ ''), close reason: '' @ ws_close_reason env handle ep\<rparr>"

definition on_message :: "'w \<Rightarrow> ('h, 'w) connection_metadata \<Rightarrow> ('h, 'w) connection_metadata" where
  "on_message payload m = m\<lparr>cm_message_queue := enqueue (cm_message_queue m) payload\<rparr>"

definition record_sent_message :: "'w \<Rightarrow> ('h, 'w) connection_metadata \<Rightarrow> ('h, 'w) connection_metadata" where
  "record_sent_message message m = m\<lparr>cm_message_store := cm_message_store m @ [message]\<rparr>"

section \<open>The manager\<close>

record ('h, 'w, 'e) ws_manager =
  ws_endpoint :: 'e
  ws_running :: bool
  ws_store :: "nat \<rightharpoonup> ('h, 'w) connection_metadata"
  ws_next_object :: nat
  ws_ids :: "int \<rightharpoonup> nat"
  ws_handles :: "'h \<rightharpoonup> nat"
  ws_next_id :: int

definition make_ws_manager :: "'e \<Rightarrow> ('h, 'w, 'e) ws_manager" where
  "make_ws_manager ep =
     \<lparr>ws_endpoint = ep, ws_running = False, ws_store = Map.empty, ws_next_object = 0, ws_ids = Map.empty,
      ws_handles = Map.empty, ws_next_id = 0\<rparr>"

text \<open>Changing the object at an address, through any of the pointers to it.\<close>

definition update_object ::
  "nat \<Rightarrow> (('h, 'w) connection_metadata \<Rightarrow> ('h, 'w) connection_metadata) \<Rightarrow> ('h, 'w, 'e) ws_manager \<Rightarrow>
   ('h, 'w, 'e) ws_manager" where
  "update_object a f s =
     s\<lparr>ws_store := (ws_store s)(a := map_option f (ws_store s a))\<rparr>"

definition get_metadata :: "int \<Rightarrow> ('h, 'w, 'e) ws_manager \<Rightarrow> ('h, 'w) connection_metadata option" where
  "get_metadata i s = (case ws_ids s i of None \<Rightarrow> None | Some a \<Rightarrow> ws_store s a)"

definition ws_send ::
  "('h, 'w, 'e) ws_env \<Rightarrow> int \<Rightarrow> 'w \<Rightarrow> message_format \<Rightarrow> ('h, 'w, 'e) ws_manager \<Rightarrow> bool \<times> ('h, 'w, 'e) ws_manager" where
  "ws_send env i message fmt s =
     (case (ws_ids s i, get_metadata i s) of
        (Some a, Some m) \<Rightarrow>
          (case ws_send_frame env (cm_handle m) message fmt (ws_endpoint s) of
             (False, ep') \<Rightarrow> (False, s\<lparr>ws_endpoint := ep'\<rparr>)
           | (True, ep') \<Rightarrow> (True, update_object a (record_sent_message message) (s\<lparr>ws_endpoint := ep'\<rparr>)))
      | _ \<Rightarrow> (False, s))"

definition ws_close ::
  "('h, 'w, 'e) ws_env \<Rightarrow> int \<Rightarrow> int \<Rightarrow> ('h, 'w, 'e) ws_manager \<Rightarrow> bool \<times> ('h, 'w, 'e) ws_manager" where
  "ws_close env i code s =
     (case get_metadata i s of
        None \<Rightarrow> (False, s)
      | Some m \<Rightarrow>
          (case ws_close_handle env (cm_handle m) code (ws_endpoint s) of
             (ok, ep') \<Rightarrow> (ok, s\<lparr>ws_endpoint := ep'\<rparr>)))"

text \<open>\<open>websocketpp::close::status::going_away\<close>.\<close>

definition going_away :: int where
  "going_away = 1001"

fun close_loop ::
  "('h, 'w, 'e) ws_env \<Rightarrow> int list \<Rightarrow> ('h, 'w, 'e) ws_manager \<Rightarrow> int list \<times> ('h, 'w, 'e) ws_manager" where
  "close_loop env [] s = ([], s)"
| "close_loop env (i # is) s =
     (case get_metadata i s of
        None \<Rightarrow> close_loop env is s
      | Some m \<Rightarrow>
          if cm_status m \<noteq> Open then close_loop env is s
          else
            (case ws_close_handle env (cm_handle m) going_away (ws_endpoint s) of
               (ok, ep') \<Rightarrow>
                 (case close_loop env is (s\<lparr>ws_endpoint := ep'\<rparr>) of
                    (failed, s') \<Rightarrow> (if ok then failed else cm_id m # failed, s'))))"

definition close_all ::
  "('h, 'w, 'e) ws_env \<Rightarrow> ('h, 'w, 'e) ws_manager \<Rightarrow> int list \<times> ('h, 'w, 'e) ws_manager" where
  "close_all env s = close_loop env (ws_order env (dom (ws_ids s))) s"

definition ws_dequeue_message ::
  "int \<Rightarrow> ('h, 'w, 'e) ws_manager \<Rightarrow> 'w option \<times> ('h, 'w, 'e) ws_manager" where
  "ws_dequeue_message i s =
     (case (ws_ids s i, get_metadata i s) of
        (Some a, Some m) \<Rightarrow>
          (case dequeue (cm_message_queue m) of
             (r, q) \<Rightarrow> (r, update_object a (\<lambda>m. m\<lparr>cm_message_queue := q\<rparr>) s))
      | _ \<Rightarrow> (None, s))"

text \<open>The blocking variant: the outer \<open>None\<close> is the state in which the caller sleeps.\<close>

definition ws_wait_and_dequeue_message ::
  "int \<Rightarrow> ('h, 'w, 'e) ws_manager \<Rightarrow> ('w option \<times> ('h, 'w, 'e) ws_manager) option" where
  "ws_wait_and_dequeue_message i s =
     (case (ws_ids s i, get_metadata i s) of
        (Some a, Some m) \<Rightarrow>
          (case wait_and_dequeue (cm_message_queue m) of
             None \<Rightarrow> None
           | Some (w, q) \<Rightarrow> Some (Some w, update_object a (\<lambda>m. m\<lparr>cm_message_queue := q\<rparr>) s))
      | _ \<Rightarrow> Some (None, s))"

section \<open>The server\<close>

definition server_start ::
  "('h, 'w, 'e) ws_env \<Rightarrow> int \<Rightarrow> ('h, 'w, 'e) ws_manager \<Rightarrow> bool \<times> ('h, 'w, 'e) ws_manager" where
  "server_start env port s =
     (case ws_start_accept env (ws_listen env port (ws_endpoint s)) of
        (False, ep') \<Rightarrow> (False, s\<lparr>ws_endpoint := ep'\<rparr>)
      | (True, ep') \<Rightarrow> (True, s\<lparr>ws_endpoint := ep', ws_running := True\<rparr>))"

definition server_stop ::
  "('h, 'w, 'e) ws_env \<Rightarrow> ('h, 'w, 'e) ws_manager \<Rightarrow> bool \<times> ('h, 'w, 'e) ws_manager" where
  "server_stop env s =
     (case ws_stop_listening env (ws_endpoint s) of
        (False, ep') \<Rightarrow> (False, s\<lparr>ws_endpoint := ep'\<rparr>)
      | (True, ep') \<Rightarrow>
          (case close_all env (s\<lparr>ws_endpoint := ep'\<rparr>) of (failed, s') \<Rightarrow> (failed = [], s')))"

fun send_loop ::
  "('h, 'w, 'e) ws_env \<Rightarrow> 'w \<Rightarrow> message_format \<Rightarrow> int list \<Rightarrow> ('h, 'w, 'e) ws_manager \<Rightarrow>
   int list \<times> ('h, 'w, 'e) ws_manager" where
  "send_loop env message fmt [] s = ([], s)"
| "send_loop env message fmt (i # is) s =
     (case ws_send env i message fmt s of
        (ok, s') \<Rightarrow>
          (case send_loop env message fmt is s' of
             (failed, s'') \<Rightarrow> (if ok then failed else i # failed, s'')))"

definition send_to_all ::
  "('h, 'w, 'e) ws_env \<Rightarrow> 'w \<Rightarrow> message_format \<Rightarrow> ('h, 'w, 'e) ws_manager \<Rightarrow> int list \<times> ('h, 'w, 'e) ws_manager" where
  "send_to_all env message fmt s = send_loop env message fmt (ws_order env (dom (ws_ids s))) s"

text \<open>
  The handlers a server installs. \<open>emplace\<close> keeps an entry that is there; the callback gets the metadata
  of the new connection before it is entered, and its effect is the service's.
\<close>

definition server_on_open ::
  "('h, 'w, 'e) ws_env \<Rightarrow> string \<Rightarrow> 'h \<Rightarrow> ('h, 'w, 'e) ws_manager \<Rightarrow>
   (('h, 'w) connection_metadata \<times> ('h, 'w, 'e) ws_manager) result" where
  "server_on_open env uri handle s =
     rbind (i32 (ws_next_id s + 1)) (\<lambda>next_id.
       let new_id = ws_next_id s; a = ws_next_object s;
           m = on_open env (ws_endpoint s) handle (make_connection_metadata new_id handle uri) in
       Inr (m, s\<lparr>ws_next_id := next_id, ws_next_object := a + 1, ws_store := (ws_store s)(a \<mapsto> m),
                 ws_ids := (if ws_ids s new_id = None then (ws_ids s)(new_id \<mapsto> a) else ws_ids s),
                 ws_handles := (if ws_handles s handle = None then (ws_handles s)(handle \<mapsto> a) else ws_handles s)\<rparr>))"

definition server_handler ::
  "(('h, 'w) connection_metadata \<Rightarrow> ('h, 'w) connection_metadata) \<Rightarrow> 'h \<Rightarrow> ('h, 'w, 'e) ws_manager \<Rightarrow>
   ('h, 'w, 'e) ws_manager" where
  "server_handler f handle s = (case ws_handles s handle of None \<Rightarrow> s | Some a \<Rightarrow> update_object a f s)"

definition server_on_message :: "'h \<Rightarrow> 'w \<Rightarrow> ('h, 'w, 'e) ws_manager \<Rightarrow> ('h, 'w, 'e) ws_manager" where
  "server_on_message handle payload s = server_handler (on_message payload) handle s"

definition server_on_close :: "('h, 'w, 'e) ws_env \<Rightarrow> 'h \<Rightarrow> ('h, 'w, 'e) ws_manager \<Rightarrow> ('h, 'w, 'e) ws_manager" where
  "server_on_close env handle s = server_handler (on_close env (ws_endpoint s) handle) handle s"

definition server_on_fail :: "('h, 'w, 'e) ws_env \<Rightarrow> 'h \<Rightarrow> ('h, 'w, 'e) ws_manager \<Rightarrow> ('h, 'w, 'e) ws_manager" where
  "server_on_fail env handle s = server_handler (on_fail env (ws_endpoint s) handle) handle s"

section \<open>The client\<close>

definition client_start :: "('h, 'w, 'e) ws_env \<Rightarrow> ('h, 'w, 'e) ws_manager \<Rightarrow> bool \<times> ('h, 'w, 'e) ws_manager" where
  "client_start env s = (True, s\<lparr>ws_endpoint := ws_start_client env (ws_endpoint s), ws_running := True\<rparr>)"

definition client_stop :: "('h, 'w, 'e) ws_env \<Rightarrow> ('h, 'w, 'e) ws_manager \<Rightarrow> bool \<times> ('h, 'w, 'e) ws_manager" where
  "client_stop env s =
     (case close_all env (s\<lparr>ws_endpoint := ws_stop_perpetual env (ws_endpoint s)\<rparr>) of
        (failed, s') \<Rightarrow> (failed = [], s'))"

text \<open>
  \<open>connect\<close> enters the new object under its id and gives the handlers of the connection a pointer to it,
  which the handle map of this model stands for.
\<close>

definition client_connect ::
  "('h, 'w, 'e) ws_env \<Rightarrow> string \<Rightarrow> string \<Rightarrow> ('h, 'w, 'e) ws_manager \<Rightarrow> (int option \<times> ('h, 'w, 'e) ws_manager) result" where
  "client_connect env uri name s =
     (case ws_get_connection env uri (ws_endpoint s) of
        (None, ep') \<Rightarrow> Inr (None, s\<lparr>ws_endpoint := ep'\<rparr>)
      | (Some handle, ep') \<Rightarrow>
          rbind (i32 (ws_next_id s + 1)) (\<lambda>next_id.
            let new_id = ws_next_id s; a = ws_next_object s in
            Inr (Some new_id,
                 s\<lparr>ws_endpoint := ws_connect env handle (ws_append_header env handle ''client_name'' name ep'),
                   ws_next_id := next_id, ws_next_object := a + 1,
                   ws_store := (ws_store s)(a \<mapsto> make_connection_metadata new_id handle uri),
                   ws_ids := (ws_ids s)(new_id \<mapsto> a), ws_handles := (ws_handles s)(handle \<mapsto> a)\<rparr>)))"

section \<open>The interfaces of the services\<close>

definition get_connection_info :: "('h, 'w, 'e) ws_env \<Rightarrow> ('h, 'w, 'e) ws_manager \<Rightarrow> (int \<times> string) list" where
  "get_connection_info env s =
     map (\<lambda>i. (i, case get_metadata i s of None \<Rightarrow> [] | Some m \<Rightarrow> cm_counter_party m)) (ws_order env (dom (ws_ids s)))"

definition show_metadata :: "('h, string) connection_metadata \<Rightarrow> string" where
  "show_metadata m =
     ''> URI: '' @ cm_uri m @ [CHR 0x0A] @
     ''> Status: '' @ show_int (case cm_status m of Connecting \<Rightarrow> 0 | Open \<Rightarrow> 1 | Failed \<Rightarrow> 2 | Closed \<Rightarrow> 3) @ [CHR 0x0A] @
     ''> Counter party: '' @ cm_counter_party m @ [CHR 0x0A] @
     ''> Error/close reason: '' @ (if cm_error_reason m = [] then ''N/A'' else cm_error_reason m) @
     ''> Messages Processed: ('' @ show_int (int (length (cm_message_store m))) @ '') '' @ [CHR 0x0A] @
     concat (map (\<lambda>w. w @ [CHR 0x0A]) (cm_message_store m))"

section \<open>The invariant\<close>

text \<open>
  Ids and handles name the same objects: every id below the next one at most once, every object
  under its own id and handle.
\<close>

definition ws_inv :: "('h, 'w, 'e) ws_manager \<Rightarrow> bool" where
  "ws_inv s \<longleftrightarrow>
     (\<forall>i a. ws_ids s i = Some a \<longrightarrow> i < ws_next_id s \<and>
        (\<exists>m. ws_store s a = Some m \<and> cm_id m = i \<and> ws_handles s (cm_handle m) = Some a)) \<and>
     (\<forall>h a. ws_handles s h = Some a \<longrightarrow>
        (\<exists>m. ws_store s a = Some m \<and> cm_handle m = h \<and> ws_ids s (cm_id m) = Some a)) \<and>
     (\<forall>a \<in> dom (ws_store s). a < ws_next_object s)"

definition ws_inbox :: "('h, 'w, 'e) ws_manager \<Rightarrow> int \<Rightarrow> 'w list" where
  "ws_inbox s i = (case get_metadata i s of None \<Rightarrow> [] | Some m \<Rightarrow> cm_message_queue m)"

definition ws_sent :: "('h, 'w, 'e) ws_manager \<Rightarrow> int \<Rightarrow> 'w list" where
  "ws_sent s i = (case get_metadata i s of None \<Rightarrow> [] | Some m \<Rightarrow> cm_message_store m)"

definition id_of :: "('h, 'w, 'e) ws_manager \<Rightarrow> 'h \<Rightarrow> int option" where
  "id_of s h = (case ws_handles s h of None \<Rightarrow> None | Some a \<Rightarrow> map_option cm_id (ws_store s a))"

text \<open>An update that keeps id and handle of an object.\<close>

definition keeps_identity :: "(('h, 'w) connection_metadata \<Rightarrow> ('h, 'w) connection_metadata) \<Rightarrow> bool" where
  "keeps_identity f \<longleftrightarrow> (\<forall>m. cm_id (f m) = cm_id m \<and> cm_handle (f m) = cm_handle m)"

lemma update_object_fields [simp]:
  "ws_ids (update_object a f s) = ws_ids s" "ws_handles (update_object a f s) = ws_handles s"
  "ws_next_id (update_object a f s) = ws_next_id s" "ws_next_object (update_object a f s) = ws_next_object s"
  "ws_endpoint (update_object a f s) = ws_endpoint s"
  by (simp_all add: update_object_def)

lemma ws_inv_endpoint [simp]: "ws_inv (s\<lparr>ws_endpoint := ep\<rparr>) = ws_inv s" "ws_inv (s\<lparr>ws_running := b\<rparr>) = ws_inv s"
  by (simp_all add: ws_inv_def)

lemma views_endpoint [simp]:
  "get_metadata i (s\<lparr>ws_endpoint := ep\<rparr>) = get_metadata i s" "ws_inbox (s\<lparr>ws_endpoint := ep\<rparr>) = ws_inbox s"
  "ws_sent (s\<lparr>ws_endpoint := ep\<rparr>) = ws_sent s"
  by (simp_all add: get_metadata_def ws_inbox_def ws_sent_def fun_eq_iff split: option.splits)

lemma store_update_object: "ws_store (update_object a f s) b = (if b = a then map_option f (ws_store s a) else ws_store s b)"
  by (simp add: update_object_def)

lemma ws_inv_id:
  assumes "ws_inv s" "ws_ids s i = Some a"
  shows "\<exists>m. ws_store s a = Some m \<and> cm_id m = i \<and> ws_handles s (cm_handle m) = Some a"
  using assms by (simp add: ws_inv_def)

lemma ws_inv_handle:
  assumes "ws_inv s" "ws_handles s h = Some a"
  shows "\<exists>m. ws_store s a = Some m \<and> cm_handle m = h \<and> ws_ids s (cm_id m) = Some a"
  using assms by (simp add: ws_inv_def)

lemma ws_inv_update_object:
  assumes "ws_inv s" "keeps_identity f"
  shows "ws_inv (update_object a f s)"
proof -
  have k: "cm_id (f m) = cm_id m" "cm_handle (f m) = cm_handle m" for m
    using assms(2) by (simp_all add: keeps_identity_def)
  have "\<exists>m. ws_store (update_object a f s) b = Some m \<and> cm_id m = i \<and> ws_handles s (cm_handle m) = Some b"
    if "ws_ids s i = Some b" for i b
    using ws_inv_id [OF assms(1) that] k by (auto simp: store_update_object)
  moreover have "\<exists>m. ws_store (update_object a f s) b = Some m \<and> cm_handle m = h \<and> ws_ids s (cm_id m) = Some b"
    if "ws_handles s h = Some b" for h b
    using ws_inv_handle [OF assms(1) that] k by (auto simp: store_update_object)
  moreover have "dom (ws_store (update_object a f s)) = dom (ws_store s)"
    by (auto simp: store_update_object split: if_splits)
  ultimately show ?thesis using assms(1) unfolding ws_inv_def by simp
qed

text \<open>What an update of an object shows through the ids.\<close>

lemma ids_injective:
  assumes "ws_inv s" "ws_ids s i = Some a" "ws_ids s j = Some a"
  shows "i = j"
  using ws_inv_id [OF assms(1,2)] ws_inv_id [OF assms(1,3)] by auto

lemma get_metadata_update:
  assumes "ws_inv s" "ws_ids s i = Some a"
  shows "get_metadata j (update_object a f s) = (if j = i then map_option f (get_metadata i s) else get_metadata j s)"
proof (cases "ws_ids s j")
  case None
  then show ?thesis using assms(2) by (auto simp: get_metadata_def)
next
  case (Some b)
  moreover have "b = a \<longleftrightarrow> j = i" using ids_injective [OF assms(1,2), of j] Some assms(2) by auto
  ultimately show ?thesis using assms(2) by (simp add: get_metadata_def store_update_object)
qed

lemma registered_object:
  assumes "ws_inv s" "ws_ids s i = Some a"
  obtains m where "get_metadata i s = Some m" "ws_store s a = Some m" "cm_id m = i" "ws_handles s (cm_handle m) = Some a"
  using ws_inv_id [OF assms] assms(2) by (auto simp: get_metadata_def)

lemma get_metadata_ids: "ws_inv s \<Longrightarrow> get_metadata i s = None \<longleftrightarrow> ws_ids s i = None"
  using ws_inv_id [of s i] by (auto simp: get_metadata_def split: option.splits)

section \<open>Sending and receiving\<close>

lemma keeps_identity_updates [simp]:
  "keeps_identity (record_sent_message w)" "keeps_identity (on_message w)"
  "keeps_identity (\<lambda>m. m\<lparr>cm_message_queue := q\<rparr>)" "keeps_identity (on_open env ep h)"
  "keeps_identity (on_fail env ep h)" "keeps_identity (on_close env ep h)"
  by (simp_all add: keeps_identity_def record_sent_message_def on_message_def on_open_def on_fail_def on_close_def)

lemma ws_send_effect:
  assumes "ws_inv s" "ws_send env i w fmt s = (ok, s')"
  shows "ws_inv s' \<and> ws_inbox s' = ws_inbox s \<and>
    ws_sent s' = (if ok then (ws_sent s)(i := ws_sent s i @ [w]) else ws_sent s) \<and>
    ws_ids s' = ws_ids s \<and> ws_handles s' = ws_handles s \<and> (ok \<longrightarrow> ws_ids s i \<noteq> None)"
proof (cases "ws_ids s i")
  case None
  then show ?thesis using assms by (simp add: ws_send_def get_metadata_def)
next
  case (Some a)
  obtain m where m: "get_metadata i s = Some m" using registered_object [OF assms(1) Some] by metis
  obtain b ep' where e: "ws_send_frame env (cm_handle m) w fmt (ws_endpoint s) = (b, ep')" by force
  have g: "get_metadata j (update_object a (record_sent_message w) (s\<lparr>ws_endpoint := ep'\<rparr>)) =
      (if j = i then map_option (record_sent_message w) (get_metadata i s) else get_metadata j s)" for j
    using get_metadata_update [of "s\<lparr>ws_endpoint := ep'\<rparr>" i a j "record_sent_message w"] assms(1) Some by simp
  show ?thesis
  proof (cases b)
    case True
    then have "ok" "s' = update_object a (record_sent_message w) (s\<lparr>ws_endpoint := ep'\<rparr>)"
      using assms(2) Some m e by (auto simp: ws_send_def)
    then show ?thesis
      using assms(1) Some m ws_inv_update_object [of "s\<lparr>ws_endpoint := ep'\<rparr>" "record_sent_message w" a]
      by (auto simp: ws_inbox_def ws_sent_def g fun_eq_iff record_sent_message_def)
  next
    case False
    then show ?thesis using assms Some m e by (auto simp: ws_send_def)
  qed
qed

lemma ws_dequeue_effect:
  assumes "ws_inv s" "ws_dequeue_message i s = (r, s')"
  shows "ws_inv s' \<and> ws_sent s' = ws_sent s \<and>
    (case ws_inbox s i of [] \<Rightarrow> r = None \<and> ws_inbox s' = ws_inbox s
     | w # ws \<Rightarrow> r = Some w \<and> ws_inbox s' = (ws_inbox s)(i := ws))"
proof (cases "ws_ids s i")
  case None
  then show ?thesis using assms by (simp add: ws_dequeue_message_def get_metadata_def ws_inbox_def)
next
  case (Some a)
  obtain m where m: "get_metadata i s = Some m" using registered_object [OF assms(1) Some] by metis
  obtain q where q: "dequeue (cm_message_queue m) = (r, q)" "s' = update_object a (\<lambda>m. m\<lparr>cm_message_queue := q\<rparr>) s"
    using assms(2) Some m by (auto simp: ws_dequeue_message_def split: prod.splits)
  have g: "get_metadata j s' = (if j = i then Some (m\<lparr>cm_message_queue := q\<rparr>) else get_metadata j s)" for j
    using get_metadata_update [OF assms(1) Some] q(2) m by simp
  have "ws_inv s'" using ws_inv_update_object [OF assms(1)] q(2) by simp
  moreover have "ws_sent s' = ws_sent s" by (auto simp: ws_sent_def g fun_eq_iff m)
  moreover have "ws_inbox s i = cm_message_queue m" by (simp add: ws_inbox_def m)
  moreover have "ws_inbox s' = (ws_inbox s)(i := q)" by (auto simp: ws_inbox_def g fun_eq_iff)
  ultimately show ?thesis using q(1) by (cases "cm_message_queue m") (auto simp: fun_eq_iff)
qed

lemma server_on_message_effect:
  assumes "ws_inv s"
  shows "ws_inv (server_on_message h w s)"
    and "ws_inbox (server_on_message h w s) i = (if id_of s h = Some i then ws_inbox s i @ [w] else ws_inbox s i)"
    and "ws_sent (server_on_message h w s) = ws_sent s"
proof -
  show "ws_inv (server_on_message h w s)"
    using ws_inv_update_object [OF assms] assms by (auto simp: server_on_message_def server_handler_def split: option.splits)
  have "ws_inbox (server_on_message h w s) i = (if id_of s h = Some i then ws_inbox s i @ [w] else ws_inbox s i) \<and>
    ws_sent (server_on_message h w s) = ws_sent s"
  proof (cases "ws_handles s h")
    case None
    then show ?thesis by (simp add: server_on_message_def server_handler_def id_of_def)
  next
    case (Some a)
    then obtain m where m: "ws_store s a = Some m" "cm_handle m = h" "ws_ids s (cm_id m) = Some a"
      using ws_inv_handle [OF assms] by blast
    have g: "get_metadata j (server_on_message h w s) =
        (if j = cm_id m then Some (on_message w m) else get_metadata j s)" for j
      using get_metadata_update [OF assms m(3)] Some m
      by (simp add: server_on_message_def server_handler_def get_metadata_def)
    have m': "get_metadata (cm_id m) s = Some m" using m by (simp add: get_metadata_def)
    have "ws_inbox (server_on_message h w s) i = (if id_of s h = Some i then ws_inbox s i @ [w] else ws_inbox s i)"
      using Some m(1) m' by (auto simp: ws_inbox_def g id_of_def on_message_def enqueue_def)
    moreover have "ws_sent (server_on_message h w s) = ws_sent s"
      using m' by (auto simp: ws_sent_def g fun_eq_iff on_message_def)
    ultimately show ?thesis by blast
  qed
  then show "ws_inbox (server_on_message h w s) i = (if id_of s h = Some i then ws_inbox s i @ [w] else ws_inbox s i)"
    "ws_sent (server_on_message h w s) = ws_sent s"
    by blast+
qed

interpretation ws: message_channel ws_inv "\<lambda>i w. ws_send env i w fmt" ws_sent ws_dequeue_message ws_inbox
  for env fmt
proof unfold_locales
  fix s :: "('a, 'b, 'c) ws_manager" and c m
  assume inv: "ws_inv s"
  obtain ok s' where s: "ws_send env c m fmt s = (ok, s')" by force
  show "ws_inv (snd (ws_send env c m fmt s))" "ws_inbox (snd (ws_send env c m fmt s)) = ws_inbox s"
    "ws_sent (snd (ws_send env c m fmt s)) =
       (if fst (ws_send env c m fmt s) then (ws_sent s)(c := ws_sent s c @ [m]) else ws_sent s)"
    using ws_send_effect [OF inv s] s by auto
  obtain r s' where d: "ws_dequeue_message c s = (r, s')" by force
  show "ws_inv (snd (ws_dequeue_message c s))" "ws_sent (snd (ws_dequeue_message c s)) = ws_sent s"
    "(case ws_inbox s c of
        [] \<Rightarrow> fst (ws_dequeue_message c s) = None \<and> ws_inbox (snd (ws_dequeue_message c s)) = ws_inbox s
      | m # ms \<Rightarrow> fst (ws_dequeue_message c s) = Some m \<and> ws_inbox (snd (ws_dequeue_message c s)) = (ws_inbox s)(c := ms))"
    using ws_dequeue_effect [OF inv d] d by (auto split: list.split_asm)
qed

end
