(* ===== verification/WsProperties.thy ===== *)
theory WsProperties
  imports Websocket
begin

text \<open>
  Reachable states of a websocket manager and what holds in them: messages of different connections
  are kept apart, and a broadcast reaches every connection once or reports it.
\<close>

section \<open>Reachable managers\<close>

lemma new_connection_inv:
  assumes "ws_inv s" "ws_handles s h = None" "cm_id m = ws_next_id s" "cm_handle m = h"
  shows "ws_inv (s\<lparr>ws_next_id := ws_next_id s + 1, ws_next_object := ws_next_object s + 1,
     ws_store := (ws_store s)(ws_next_object s \<mapsto> m), ws_ids := (ws_ids s)(ws_next_id s \<mapsto> ws_next_object s),
     ws_handles := (ws_handles s)(h \<mapsto> ws_next_object s)\<rparr>)"
    and "ws_ids s (ws_next_id s) = None"
proof -
  let ?a = "ws_next_object s" and ?i = "ws_next_id s"
  have lt: "i < ?i" if "ws_ids s i = Some a" for i a using assms(1) that by (simp add: ws_inv_def)
  show new: "ws_ids s ?i = None" using lt [of ?i] by force
  have old: "b \<noteq> ?a" if "ws_store s b = Some x" for b x
    using assms(1) that unfolding ws_inv_def by blast
  have idold: "\<exists>x. ((ws_store s)(?a \<mapsto> m)) b = Some x \<and> cm_id x = i \<and> ((ws_handles s)(h \<mapsto> ?a)) (cm_handle x) = Some b"
    if asm: "ws_ids s i = Some b" for i b
  proof -
    obtain x where x: "ws_store s b = Some x" "cm_id x = i" "ws_handles s (cm_handle x) = Some b"
      using ws_inv_id [OF assms(1) asm] by blast
    then show ?thesis using old [of b x] assms(2) by auto
  qed
  have hold: "\<exists>x. ((ws_store s)(?a \<mapsto> m)) b = Some x \<and> cm_handle x = g \<and> ((ws_ids s)(?i \<mapsto> ?a)) (cm_id x) = Some b"
    if asm: "ws_handles s g = Some b" for g b
  proof -
    obtain x where x: "ws_store s b = Some x" "cm_handle x = g" "ws_ids s (cm_id x) = Some b"
      using ws_inv_handle [OF assms(1) asm] by blast
    then show ?thesis using old [of b x] new by auto
  qed
  have st: "\<forall>b \<in> dom ((ws_store s)(?a \<mapsto> m)). b < ?a + 1"
    using assms(1) by (auto simp: ws_inv_def less_Suc_eq)
  have ids: "i < ?i + 1 \<and> (\<exists>x. ((ws_store s)(?a \<mapsto> m)) b = Some x \<and> cm_id x = i \<and>
      ((ws_handles s)(h \<mapsto> ?a)) (cm_handle x) = Some b)"
    if asm: "((ws_ids s)(?i \<mapsto> ?a)) i = Some b" for i b
  proof (cases "i = ?i")
    case True
    then show ?thesis using asm assms(3,4) by simp
  next
    case False
    then have old: "ws_ids s i = Some b" using asm by simp
    show ?thesis using lt [OF old] idold [OF old] by (intro conjI) simp_all
  qed
  have hs: "\<forall>g b. ((ws_handles s)(h \<mapsto> ?a)) g = Some b \<longrightarrow>
      (\<exists>x. ((ws_store s)(?a \<mapsto> m)) b = Some x \<and> cm_handle x = g \<and> ((ws_ids s)(?i \<mapsto> ?a)) (cm_id x) = Some b)"
    using hold assms(3,4) by auto
  show "ws_inv (s\<lparr>ws_next_id := ?i + 1, ws_next_object := ?a + 1, ws_store := (ws_store s)(?a \<mapsto> m),
     ws_ids := (ws_ids s)(?i \<mapsto> ?a), ws_handles := (ws_handles s)(h \<mapsto> ?a)\<rparr>)"
    unfolding ws_inv_def using ids hs st by simp
qed

lemma server_on_open_inv:
  assumes "server_on_open env uri h s = Inr (m, s')" "ws_inv s" "ws_handles s h = None"
  shows "ws_inv s'"
proof -
  have m: "m = on_open env (ws_endpoint s) h (make_connection_metadata (ws_next_id s) h uri)"
    and s': "s' = s\<lparr>ws_next_id := ws_next_id s + 1, ws_next_object := ws_next_object s + 1,
       ws_store := (ws_store s)(ws_next_object s \<mapsto> m),
       ws_ids := (if ws_ids s (ws_next_id s) = None then (ws_ids s)(ws_next_id s \<mapsto> ws_next_object s) else ws_ids s),
       ws_handles := (ws_handles s)(h \<mapsto> ws_next_object s)\<rparr>"
    using assms(1,3) by (auto simp: server_on_open_def result_simps Let_def)
  show ?thesis
    using new_connection_inv [OF assms(2,3), of m] by (simp add: s' m on_open_def make_connection_metadata_def)
qed

lemma client_connect_inv:
  assumes "client_connect env uri name s = Inr (r, s')" "ws_inv s"
    and "\<forall>h ep'. ws_get_connection env uri (ws_endpoint s) = (Some h, ep') \<longrightarrow> ws_handles s h = None"
  shows "ws_inv s'"
proof -
  obtain ho ep' where g: "ws_get_connection env uri (ws_endpoint s) = (ho, ep')" by force
  show ?thesis
  proof (cases ho)
    case None
    then show ?thesis using assms(1,2) g by (auto simp: client_connect_def)
  next
    case (Some h)
    have "ws_handles (s\<lparr>ws_endpoint := ep'\<rparr>) h = None" using assms(3) g Some by simp
    then show ?thesis
      using assms(1,2) g Some
        new_connection_inv(1) [of "s\<lparr>ws_endpoint := ws_connect env h (ws_append_header env h ''client_name'' name ep')\<rparr>" h
          "make_connection_metadata (ws_next_id s) h uri"]
      by (auto simp: client_connect_def result_simps Let_def make_connection_metadata_def)
  qed
qed

lemma server_handler_inv: "ws_inv s \<Longrightarrow> keeps_identity f \<Longrightarrow> ws_inv (server_handler f h s)"
  using ws_inv_update_object by (auto simp: server_handler_def split: option.splits)

lemma close_loop_inv: "close_loop env is s = (failed, s') \<Longrightarrow> ws_inv s \<Longrightarrow> ws_inv s'"
  by (induction env "is" s arbitrary: failed rule: close_loop.induct)
    (auto split: option.splits if_splits prod.splits)

text \<open>
  Every interleaving of the endpoint's thread, which runs the handlers, with the service's thread. The
  library gives each new connection a handle of its own.
\<close>

inductive ws_reachable :: "('h, 'w, 'e) ws_env \<Rightarrow> ('h, 'w, 'e) ws_manager \<Rightarrow> bool" for env :: "('h, 'w, 'e) ws_env" where
  start: "ws_reachable env (make_ws_manager ep)"
| accept: "ws_reachable env s \<Longrightarrow> ws_handles s h = None \<Longrightarrow> server_on_open env uri h s = Inr (m, s') \<Longrightarrow>
    ws_reachable env s'"
| connect: "ws_reachable env s \<Longrightarrow> client_connect env uri name s = Inr (r, s') \<Longrightarrow>
    (\<forall>h ep'. ws_get_connection env uri (ws_endpoint s) = (Some h, ep') \<longrightarrow> ws_handles s h = None) \<Longrightarrow>
    ws_reachable env s'"
| opened: "ws_reachable env s \<Longrightarrow> ws_reachable env (server_handler (on_open env (ws_endpoint s) h) h s)"
| message: "ws_reachable env s \<Longrightarrow> ws_reachable env (server_on_message h w s)"
| failed: "ws_reachable env s \<Longrightarrow> ws_reachable env (server_on_fail env h s)"
| closed: "ws_reachable env s \<Longrightarrow> ws_reachable env (server_on_close env h s)"
| sending: "ws_reachable env s \<Longrightarrow> ws_send env i w fmt s = (b, s') \<Longrightarrow> ws_reachable env s'"
| reading: "ws_reachable env s \<Longrightarrow> ws_dequeue_message i s = (r, s') \<Longrightarrow> ws_reachable env s'"
| closing: "ws_reachable env s \<Longrightarrow> close_all env s = (is, s') \<Longrightarrow> ws_reachable env s'"
| endpoint: "ws_reachable env s \<Longrightarrow> ws_reachable env (s\<lparr>ws_endpoint := ep\<rparr>)"
| running: "ws_reachable env s \<Longrightarrow> ws_reachable env (s\<lparr>ws_running := b\<rparr>)"

lemma ws_reachable_inv: "ws_reachable env s \<Longrightarrow> ws_inv s"
proof (induction rule: ws_reachable.induct)
  case (start ep)
  show ?case by (simp add: ws_inv_def make_ws_manager_def)
next
  case (accept s h uri m s')
  then show ?case using server_on_open_inv by metis
next
  case (connect s uri name r s')
  then show ?case using client_connect_inv by metis
next
  case (message s h w)
  then show ?case using server_on_message_effect(1) by metis
next
  case (sending s i w fmt b s')
  then show ?case using ws_send_effect by metis
next
  case (reading s i r s')
  then show ?case using ws_dequeue_effect by metis
next
  case (closing s "is" s')
  then show ?case using close_loop_inv by (metis close_all_def)
qed (simp_all add: server_handler_inv server_on_fail_def server_on_close_def)

section \<open>Messages\<close>

text \<open>Sending to a registered connection hands the frame to the endpoint, on that connection's handle.\<close>

lemma id_of_registered:
  assumes "ws_inv s" "id_of s h = Some i"
  obtains a m where "ws_handles s h = Some a" "ws_store s a = Some m" "cm_handle m = h" "ws_ids s i = Some a"
    "get_metadata i s = Some m"
proof -
  obtain a m where a: "ws_handles s h = Some a" "ws_store s a = Some m" "cm_id m = i"
    using assms(2) by (auto simp: id_of_def split: option.splits)
  then show ?thesis using ws_inv_handle [OF assms(1) a(1)] that [of a m] by (auto simp: get_metadata_def)
qed

lemma registered_has_handle:
  assumes "ws_inv s" "ws_ids s i \<noteq> None"
  obtains h where "id_of s h = Some i"
proof -
  obtain a where "ws_ids s i = Some a" using assms(2) by blast
  then obtain m where "ws_store s a = Some m" "cm_id m = i" "ws_handles s (cm_handle m) = Some a"
    using ws_inv_id [OF assms(1)] by blast
  then show ?thesis using that [of "cm_handle m"] by (simp add: id_of_def)
qed

lemma ws_send_frame_sent:
  assumes "ws_inv s" "id_of s h = Some i"
  shows "fst (ws_send env i w fmt s) = fst (ws_send_frame env h w fmt (ws_endpoint s))"
    and "ws_endpoint (snd (ws_send env i w fmt s)) = snd (ws_send_frame env h w fmt (ws_endpoint s))"
  by (rule id_of_registered [OF assms];
      cases "ws_send_frame env h w fmt (ws_endpoint s)"; simp add: ws_send_def split: bool.split)+


definition demo_ws_env :: "(nat, 'w, nat) ws_env" where
  "demo_ws_env = \<lparr>ws_send_frame = (\<lambda>h w f e. (even h, e)), ws_close_handle = (\<lambda>h c e. (True, e)),
     ws_is_server = (\<lambda>h e. True), ws_request_header = (\<lambda>h k e. ''gateway''), ws_response_header = (\<lambda>h k e. []),
     ws_close_code = (\<lambda>h e. 1000), ws_close_code_text = (\<lambda>c. ''Normal close''), ws_close_reason = (\<lambda>h e. []),
     ws_get_connection = (\<lambda>u e. (Some e, Suc e)), ws_append_header = (\<lambda>h k v e. e), ws_connect = (\<lambda>h e. e),
     ws_start_client = (\<lambda>e. e), ws_stop_perpetual = (\<lambda>e. e), ws_listen = (\<lambda>p e. e), ws_start_accept = (\<lambda>e. (True, e)),
     ws_stop_listening = (\<lambda>e. (True, e)), ws_order = sorted_list_of_set\<rparr>"

definition demo_open :: "nat \<Rightarrow> (nat, string, nat) ws_manager \<Rightarrow> (nat, string, nat) ws_manager" where
  "demo_open h s = (case server_on_open demo_ws_env ''ws'' h s of Inr (_, s') \<Rightarrow> s' | Inl _ \<Rightarrow> s)"

definition demo_ws :: "(nat, string, nat) ws_manager" where
  "demo_ws = demo_open 5 (demo_open 4 (make_ws_manager 0))"

lemma demo_open_reachable:
  assumes "ws_reachable demo_ws_env s" "ws_handles s h = None"
  shows "ws_reachable demo_ws_env (demo_open h s)"
proof (cases "server_on_open demo_ws_env ''ws'' h s")
  case (Inl e)
  then show ?thesis using assms(1) by (simp add: demo_open_def)
next
  case (Inr r)
  then show ?thesis using ws_reachable.accept [OF assms, of "''ws''" "fst r" "snd r"] by (cases r) (simp add: demo_open_def)
qed

lemma demo_ws_reachable: "ws_reachable demo_ws_env demo_ws"
proof -
  have "ws_handles (make_ws_manager (0::nat) :: (nat, string, nat) ws_manager) 4 = None"
    "ws_handles (demo_open 4 (make_ws_manager 0)) 5 = None"
    by code_simp+
  then show ?thesis
    unfolding demo_ws_def by (intro demo_open_reachable ws_reachable.start)
qed


section \<open>Broadcast\<close>

lemma send_loop_effect:
  assumes "send_loop env w fmt is s = (failed, s')" "ws_inv s" "distinct is"
  shows "ws_inv s' \<and> ws_inbox s' = ws_inbox s \<and> set failed \<subseteq> set is \<and> distinct failed \<and>
    (\<forall>i. ws_sent s' i = (if i \<in> set is - set failed then ws_sent s i @ [w] else ws_sent s i))"
  using assms
proof (induction "is" arbitrary: s failed)
  case Nil
  then show ?case by simp
next
  case (Cons i "is")
  obtain b s1 where b: "ws_send env i w fmt s = (b, s1)" by force
  obtain failed1 where f: "send_loop env w fmt is s1 = (failed1, s')" "failed = (if b then failed1 else i # failed1)"
    using Cons.prems(1) b by (auto split: prod.splits)
  note e = ws_send_effect [OF Cons.prems(2) b]
  have IH: "ws_inv s'" "ws_inbox s' = ws_inbox s1" "set failed1 \<subseteq> set is" "distinct failed1"
    "\<And>j. ws_sent s' j = (if j \<in> set is - set failed1 then ws_sent s1 j @ [w] else ws_sent s1 j)"
    using Cons.IH [OF f(1)] e Cons.prems(3) by auto
  have new: "i \<notin> set is" "i \<notin> set failed1" using Cons.prems(3) IH(3) by auto
  show ?case
    using IH e f(2) new by (cases b) auto
qed

lemma send_loop_ids:
  assumes "send_loop env w fmt is s = (failed, s')" "ws_inv s"
  shows "ws_ids s' = ws_ids s"
  using assms
proof (induction "is" arbitrary: s failed)
  case (Cons i "is")
  obtain b s1 where b: "ws_send env i w fmt s = (b, s1)" by force
  obtain failed1 where "send_loop env w fmt is s1 = (failed1, s')"
    using Cons.prems(1) b by (auto split: prod.splits)
  then show ?case using Cons.IH ws_send_effect [OF Cons.prems(2) b] by metis
qed simp

text \<open>A broadcast reaches everyone once or says whom it missed: \<open>send_to_all\<close> tries every connection, a
  failing connection does not stop it, every connection that is not reported as failed has the
  message recorded exactly once, and no other record and no unread message changes.\<close>

theorem broadcast_reaches_all_or_reports:
  assumes "ws_reachable env s" "send_to_all env w fmt s = (failed, s')"
    and "set (ws_order env (dom (ws_ids s))) = dom (ws_ids s)" "distinct (ws_order env (dom (ws_ids s)))"
  shows "set failed \<subseteq> dom (ws_ids s) \<and> distinct failed \<and> ws_inbox s' = ws_inbox s \<and>
    (\<forall>i. ws_sent s' i = (if i \<in> dom (ws_ids s) \<and> i \<notin> set failed then ws_sent s i @ [w] else ws_sent s i))"
  using send_loop_effect [OF _ ws_reachable_inv [OF assms(1)] assms(4), of env w fmt failed s'] assms(2,3)
  by (simp add: send_to_all_def)

theorem broadcast_reaches_all_or_reports_witness:
  "\<exists>s'. send_to_all demo_ws_env ''tick'' Text_Format demo_ws = ([1], s') \<and> ws_sent s' 0 = ws_sent demo_ws 0 @ [''tick''] \<and>
     ws_sent s' 1 = ws_sent demo_ws 1"
proof -
  have d: "dom (ws_ids demo_ws) = {0, 1}"
  proof -
    have "ws_ids demo_ws = [0 \<mapsto> 0, 1 \<mapsto> 1]"
      by (simp add: demo_ws_def demo_open_def server_on_open_def make_ws_manager_def in_i32_def Let_def)
    then show ?thesis by auto
  qed
  have o: "ws_order (demo_ws_env :: (nat, string, nat) ws_env) {0, 1} = [0, 1]" by (simp add: demo_ws_env_def)
  have "fst (send_loop demo_ws_env ''tick'' Text_Format [0, 1] demo_ws) = [1]" by code_simp
  then obtain s' where s: "send_to_all demo_ws_env ''tick'' Text_Format demo_ws = ([1], s')"
    using d o by (metis prod.collapse send_to_all_def)
  from broadcast_reaches_all_or_reports [OF demo_ws_reachable s] show ?thesis
    using s d o by simp
qed

end
