(* ===== verification/MarketData.thy ===== *)
theory MarketData
  imports CoreTypes Text Double SharedMemory WsProperties
begin

text \<open>
  Market data: the JSON form of trades and order book snapshots (\<open>libs/core/trade.h\<close>,
  \<open>libs/core/orderbook_snapshot.h\<close>) and the market data processor
  (\<open>services/market_data_processor/src/market_data_processor.cpp\<close>), which takes them from the ring buffers
  of the matching engine and broadcasts them to the subscribers.

  JSON values are nlohmann's: the type \<open>'j\<close> and the operations of \<open>json_env\<close> are arguments, and
  \<open>json_laws\<close> is what its documentation promises of the operations the code uses. A lookup or
  conversion that throws is \<open>None\<close>.
\<close>

section \<open>JSON\<close>

record 'j json_env =
  j_object :: "(string \<times> 'j) list \<Rightarrow> 'j"
  j_array :: "'j list \<Rightarrow> 'j"
  j_string :: "string \<Rightarrow> 'j"
  j_double :: "rat \<Rightarrow> 'j"
  j_int :: "int \<Rightarrow> 'j"
  j_unsigned :: "nat \<Rightarrow> 'j"
  j_at :: "string \<Rightarrow> 'j \<Rightarrow> 'j option"
  j_index :: "nat \<Rightarrow> 'j \<Rightarrow> 'j option"
  j_get_string :: "'j \<Rightarrow> string option"
  j_get_double :: "'j \<Rightarrow> rat option"
  j_get_int :: "'j \<Rightarrow> int option"
  j_dump :: "'j \<Rightarrow> string"

definition json_laws :: "'j json_env \<Rightarrow> bool" where
  "json_laws J \<longleftrightarrow>
     (\<forall>fs k. j_at J k (j_object J fs) = map_of fs k) \<and>
     (\<forall>js i. i < length js \<longrightarrow> j_index J i (j_array J js) = Some (js ! i)) \<and>
     (\<forall>s. j_get_string J (j_string J s) = Some s) \<and>
     (\<forall>x. j_get_double J (j_double J x) = Some x) \<and>
     (\<forall>i. in_i32 i \<longrightarrow> j_get_int J (j_int J i) = Some i) \<and>
     (\<forall>n. in_i32 (int n) \<longrightarrow> j_get_int J (j_unsigned J n) = Some (int n)) \<and>
     (\<forall>x. in_i32 \<lfloor>x\<rfloor> \<and> 0 \<le> x \<longrightarrow> j_get_int J (j_double J x) = Some \<lfloor>x\<rfloor>)"

definition BUY_STR :: string where
  "BUY_STR = ''BUY''"

definition SELL_STR :: string where
  "SELL_STR = ''SELL''"

definition field_of :: "'j json_env \<Rightarrow> string \<Rightarrow> ('j \<Rightarrow> 'a option) \<Rightarrow> 'j \<Rightarrow> 'a result" where
  "field_of J k get j =
     rbind (opt_at Out_Of_Range (j_at J k j)) (\<lambda>v. opt_at Runtime_Error (get v))"

section \<open>Trades\<close>

definition trade_to_json :: "'j json_env \<Rightarrow> trade \<Rightarrow> 'j" where
  "trade_to_json J t =
     j_object J
       [(''ticker'', j_string J (tr_ticker t)), (''trade_id'', j_string J (tr_trade_id t)),
        (''taker_side'', j_string J (if tr_is_taker_buyer t then BUY_STR else SELL_STR)),
        (''price'', j_double J (to_decimal (tr_price t))), (''quantity'', j_double J (to_decimal (tr_quantity t))),
        (''taker_id'', j_string J (tr_taker_id t)), (''maker_id'', j_string J (tr_maker_id t)),
        (''taker_order_id'', j_int J (tr_taker_order_id t)), (''maker_order_id'', j_int J (tr_maker_order_id t)),
        (''create_timestamp'', j_unsigned J (tr_create_timestamp t))]"

text \<open>
  \<open>compare\<close> returns 0 for equal strings, so the Boolean is true for every side but \<open>BUY\<close>. The timestamp
  passes through an \<open>int\<close>.
\<close>

definition trade_from_json :: "'j json_env \<Rightarrow> 'j \<Rightarrow> trade result" where
  "trade_from_json J j =
     rbind (field_of J ''ticker'' (j_get_string J) j) (\<lambda>ticker_str.
     rbind (field_of J ''taker_side'' (j_get_string J) j) (\<lambda>taker_side.
     rbind (field_of J ''price'' (j_get_double J) j) (\<lambda>px.
     rbind (double_to_i32 (round_double (px * decimal_to_int_multiplier))) (\<lambda>price.
     rbind (field_of J ''quantity'' (j_get_double J) j) (\<lambda>qty.
     rbind (double_to_i32 (round_double (qty * decimal_to_int_multiplier))) (\<lambda>quantity.
     rbind (field_of J ''trade_id'' (j_get_string J) j) (\<lambda>trade_id.
     rbind (field_of J ''taker_id'' (j_get_string J) j) (\<lambda>taker_id.
     rbind (field_of J ''maker_id'' (j_get_string J) j) (\<lambda>maker_id.
     rbind (field_of J ''taker_order_id'' (j_get_int J) j) (\<lambda>taker_order_id.
     rbind (field_of J ''maker_order_id'' (j_get_int J) j) (\<lambda>maker_order_id.
     rbind (field_of J ''create_timestamp'' (j_get_int J) j) (\<lambda>ts.
       make_trade ticker_str price quantity trade_id taker_id maker_id taker_order_id maker_order_id
         (taker_side \<noteq> BUY_STR) (nat (ts mod 2 ^ 64))))))))))))))"

section \<open>Snapshots\<close>

definition level_to_json :: "'j json_env \<Rightarrow> level_aggregate \<Rightarrow> 'j" where
  "level_to_json J l =
     j_object J [(''price'', j_double J (to_decimal (la_price l))), (''quantity'', j_double J (to_decimal (la_quantity l)))]"

definition snapshot_to_json :: "'j json_env \<Rightarrow> top_order_book_level_aggregates \<Rightarrow> 'j" where
  "snapshot_to_json J t =
     j_object J
       [(''ticker'', j_string J (tob_ticker t)),
        (''bids'', j_array J (map (level_to_json J) (tob_bid_level_aggregates t))),
        (''asks'', j_array J (map (level_to_json J) (tob_ask_level_aggregates t))),
        (''create_timestamp'', j_unsigned J (tob_create_timestamp t))]"

text \<open>
  The price of a level is read as a \<open>double\<close>, its quantity as an \<open>int\<close>. An index beyond the array is
  undefined in the library.
\<close>

definition level_from_json :: "'j json_env \<Rightarrow> string \<Rightarrow> 'j \<Rightarrow> nat \<Rightarrow> level_aggregate result" where
  "level_from_json J side_key j i =
     rbind (opt_at Out_Of_Range (j_at J side_key j)) (\<lambda>levels.
     rbind (opt_at Out_Of_Bounds (j_index J i levels)) (\<lambda>level.
     rbind (field_of J ''price'' (j_get_double J) level) (\<lambda>px.
     rbind (double_to_i32 (round_double (px * decimal_to_int_multiplier))) (\<lambda>price.
     rbind (field_of J ''quantity'' (j_get_int J) level) (\<lambda>qty.
     rbind (double_to_i32 (round_double (of_int qty * decimal_to_int_multiplier))) (\<lambda>quantity.
       Inr \<lparr>la_price = price, la_quantity = quantity\<rparr>))))))"

fun levels_from_json :: "'j json_env \<Rightarrow> string \<Rightarrow> 'j \<Rightarrow> nat list \<Rightarrow> level_aggregate list result" where
  "levels_from_json J side_key j [] = Inr []"
| "levels_from_json J side_key j (i # is) =
     rbind (level_from_json J side_key j i) (\<lambda>l.
     rbind (levels_from_json J side_key j is) (\<lambda>ls. Inr (l # ls)))"

definition snapshot_from_json :: "'j json_env \<Rightarrow> 'j \<Rightarrow> top_order_book_level_aggregates result" where
  "snapshot_from_json J j =
     rbind (field_of J ''ticker'' (j_get_string J) j) (\<lambda>ticker_str.
     rbind (field_of J ''create_timestamp'' (j_get_int J) j) (\<lambda>ts.
     rbind (make_top_order_book_level_aggregates ticker_str (nat (ts mod 2 ^ 64))) (\<lambda>snapshot.
     rbind (levels_from_json J ''bids'' j [0..<ORDER_BOOK_AGGREGATE_LEVELS]) (\<lambda>bids.
     rbind (levels_from_json J ''asks'' j [0..<ORDER_BOOK_AGGREGATE_LEVELS]) (\<lambda>asks.
       Inr (snapshot\<lparr>tob_bid_level_aggregates := bids, tob_ask_level_aggregates := asks\<rparr>))))))"

section \<open>The market data processor\<close>

record ('h, 'e) market_data_processor =
  mdp_snapshot_buffers :: "top_order_book_level_aggregates ring_buffer list"
  mdp_trade_buffers :: "trade ring_buffer list"
  mdp_server :: "('h, string, 'e) ws_manager"

text \<open>
  The constructor creates two buffers per symbol, under names of the symbol, the kind and the server.
\<close>

definition ORDERBOOK_SNAPSHOT_SHM_FILE :: string where
  "ORDERBOOK_SNAPSHOT_SHM_FILE = ''os''"

definition TRADE_SHM_FILE :: string where
  "TRADE_SHM_FILE = ''td''"

definition OrderbookSnapshotRingBufferCapacity :: nat where
  "OrderbookSnapshotRingBufferCapacity = 1024"

definition TradeRingBufferCapacity :: nat where
  "TradeRingBufferCapacity = 1024"

fun create_buffers ::
  "(top_order_book_level_aggregates, 'o) os_env \<Rightarrow> (trade, 'o) os_env \<Rightarrow> string \<Rightarrow> string list \<Rightarrow> 'o \<Rightarrow>
   (shm_handle \<times> shm_handle) list result \<times> 'o" where
  "create_buffers es et server_name [] os = (Inr [], os)"
| "create_buffers es et server_name (symbol # symbols) os =
     (case shm_create es OrderbookSnapshotRingBufferCapacity
         (symbol @ ''_'' @ ORDERBOOK_SNAPSHOT_SHM_FILE @ ''_'' @ server_name) True os of
        (Inl e, os1) \<Rightarrow> (Inl e, os1)
      | (Inr h1, os1) \<Rightarrow>
          (case shm_create et TradeRingBufferCapacity (symbol @ ''_'' @ TRADE_SHM_FILE @ ''_'' @ server_name) True os1 of
             (Inl e, os2) \<Rightarrow> (Inl e, os2)
           | (Inr h2, os2) \<Rightarrow>
               (case create_buffers es et server_name symbols os2 of
                  (hs, os3) \<Rightarrow> (rbind hs (\<lambda>hs. Inr ((h1, h2) # hs)), os3))))"

definition publish_error :: "string \<Rightarrow> int list \<Rightarrow> string" where
  "publish_error what failed_ids =
     ''MDP failed to publish '' @ what @ '' to client id='' @
     concat (map (\<lambda>i. show_int i @ (if i \<noteq> last failed_ids then '','' else [])) failed_ids)"

text \<open>
  One loop over the buffers of a kind: what is popped is broadcast as text. The result lists the
  messages with the connections each failed for.
\<close>

fun publish_loop ::
  "('h, string, 'e) ws_env \<Rightarrow> ('a \<Rightarrow> string) \<Rightarrow> 'a ring_buffer list \<Rightarrow> ('h, string, 'e) ws_manager \<Rightarrow>
   (string \<times> int list) list \<times> 'a ring_buffer list \<times> ('h, string, 'e) ws_manager" where
  "publish_loop env render [] s = ([], [], s)"
| "publish_loop env render (rb # rbs) s =
     (case shm_try_pop rb of
        (None, rb') \<Rightarrow>
          (case publish_loop env render rbs s of (lg, rbs', s') \<Rightarrow> (lg, rb' # rbs', s'))
      | (Some x, rb') \<Rightarrow>
          (case send_to_all env (render x) Text_Format s of
             (failed, s1) \<Rightarrow>
               (case publish_loop env render rbs s1 of
                  (lg, rbs', s') \<Rightarrow> ((render x, failed) # lg, rb' # rbs', s'))))"

definition mdp_start ::
  "('h, string, 'e) ws_env \<Rightarrow> int \<Rightarrow> ('h, 'e) market_data_processor \<Rightarrow> ('h, 'e) market_data_processor result" where
  "mdp_start env port mdp =
     (case server_start env port (mdp_server mdp) of
        (True, s) \<Rightarrow> Inr (mdp\<lparr>mdp_server := s\<rparr>)
      | (False, s) \<Rightarrow> Inl Runtime_Error)"

definition mdp_iteration ::
  "('h, string, 'e) ws_env \<Rightarrow> 'j json_env \<Rightarrow> ('h, 'e) market_data_processor \<Rightarrow>
   (string \<times> int list) list \<times> ('h, 'e) market_data_processor" where
  "mdp_iteration env J mdp =
     (case publish_loop env (\<lambda>t. j_dump J (snapshot_to_json J t)) (mdp_snapshot_buffers mdp) (mdp_server mdp) of
        (lg1, snaps, s1) \<Rightarrow>
          (case publish_loop env (\<lambda>t. j_dump J (trade_to_json J t)) (mdp_trade_buffers mdp) s1 of
             (lg2, trades, s2) \<Rightarrow>
               (lg1 @ lg2,
                mdp\<lparr>mdp_snapshot_buffers := snaps, mdp_trade_buffers := trades, mdp_server := s2\<rparr>)))"

section \<open>Names\<close>

text \<open>No two buffers of a server share a file, for symbols without an underscore.\<close>

lemma buffer_names_differ:
  assumes "CHR ''_'' \<notin> set s1" "CHR ''_'' \<notin> set s2"
    and "s1 @ ''_'' @ k1 @ ''_'' @ rest1 = s2 @ ''_'' @ k2 @ ''_'' @ rest2"
    and "k1 \<in> {ORDERBOOK_SNAPSHOT_SHM_FILE, TRADE_SHM_FILE}" "k2 \<in> {ORDERBOOK_SNAPSHOT_SHM_FILE, TRADE_SHM_FILE}"
  shows "s1 = s2 \<and> k1 = k2"
proof -
  have "takeWhile (\<lambda>c. c \<noteq> CHR ''_'') (s @ CHR ''_'' # xs) = s" if "CHR ''_'' \<notin> set s" for s xs
    using that by (induction s) auto
  from this [OF assms(1), of "k1 @ ''_'' @ rest1"] this [OF assms(2), of "k2 @ ''_'' @ rest2"]
  have "s1 = s2" using assms(3) by simp
  then show ?thesis using assms(3-5) by (auto simp: ORDERBOOK_SNAPSHOT_SHM_FILE_def TRADE_SHM_FILE_def)
qed

section \<open>Broadcasting\<close>

definition order_lists_keys :: "('h, 'w, 'e) ws_env \<Rightarrow> bool" where
  "order_lists_keys env \<longleftrightarrow> (\<forall>S. finite S \<longrightarrow> set (ws_order env S) = S \<and> distinct (ws_order env S))"

definition heads :: "'a ring_buffer list \<Rightarrow> 'a list" where
  "heads rbs = concat (map (take 1 \<circ> contents) rbs)"

definition delivered :: "(string \<times> int list) list \<Rightarrow> int \<Rightarrow> string list" where
  "delivered lg i = map fst (filter (\<lambda>(w, failed). i \<notin> set failed) lg)"

lemma heads_Cons: "heads (rb # rbs) = take 1 (contents rb) @ heads rbs"
  by (simp add: heads_def)

lemma delivered_Cons [simp]:
  "delivered ((w, failed) # lg) i = (if i \<in> set failed then delivered lg i else w # delivered lg i)"
  "delivered [] i = []"
  by (simp_all add: delivered_def)

lemma delivered_append: "delivered (l1 @ l2) i = delivered l1 i @ delivered l2 i"
  by (simp add: delivered_def)

text \<open>The contract of a broadcast that the loops rely on.\<close>

lemma send_to_all_effect:
  assumes "send_to_all env w fmt s = (failed, s')" "ws_inv s" "finite (dom (ws_ids s))" "order_lists_keys env"
  shows "ws_inv s' \<and> ws_inbox s' = ws_inbox s \<and> ws_ids s' = ws_ids s \<and>
    (\<forall>i. ws_sent s' i = (if i \<in> dom (ws_ids s) \<and> i \<notin> set failed then ws_sent s i @ [w] else ws_sent s i))"
proof -
  have o: "set (ws_order env (dom (ws_ids s))) = dom (ws_ids s)" "distinct (ws_order env (dom (ws_ids s)))"
    using assms(3,4) by (simp_all add: order_lists_keys_def)
  have l: "send_loop env w fmt (ws_order env (dom (ws_ids s))) s = (failed, s')"
    using assms(1) by (simp add: send_to_all_def)
  have "ws_ids s' = ws_ids s"
    using l assms(2) by (rule send_loop_ids)
  then show ?thesis using send_loop_effect [OF l assms(2) o(2)] o(1) by simp
qed

lemma publish_loop_effect:
  assumes "publish_loop env render rbs s = (lg, rbs', s')" "ws_inv s" "finite (dom (ws_ids s))"
    and "order_lists_keys env" "\<forall>rb \<in> set rbs. ring_ok rb"
  shows "ws_inv s' \<and> ws_inbox s' = ws_inbox s \<and> ws_ids s' = ws_ids s \<and>
    map fst lg = map render (heads rbs) \<and> map contents rbs' = map (drop 1 \<circ> contents) rbs \<and>
    (\<forall>rb \<in> set rbs'. ring_ok rb) \<and>
    (\<forall>i. ws_sent s' i = (if i \<in> dom (ws_ids s) then ws_sent s i @ delivered lg i else ws_sent s i))"
  using assms
proof (induction env render rbs s arbitrary: lg rbs' rule: publish_loop.induct)
  case (1 env render s)
  then show ?case by (auto simp: heads_def)
next
  case (2 env render rb rbs s)
  obtain r rb' where pop: "shm_try_pop rb = (r, rb')" by force
  have ok: "ring_ok rb" "\<forall>rb \<in> set rbs. ring_ok rb" using "2.prems"(5) by simp_all
  have ok': "ring_ok rb'" using ring.inv_remove [OF ok(1)] pop by simp
  show ?case
  proof (cases "contents rb")
    case Nil
    then have r: "r = None" "rb' = rb" using ring.remove_none [OF ok(1)] pop by simp_all
    obtain lg1 rbs1 where l: "publish_loop env render rbs s = (lg1, rbs1, s')" "lg = lg1" "rbs' = rb' # rbs1"
      using "2.prems"(1) pop r by (auto split: prod.splits)
    then show ?thesis
      using "2.IH"(1) [OF pop [symmetric] r(1) l(1) "2.prems"(2-4) ok(2)] r Nil ok' by (simp add: heads_Cons)
  next
    case (Cons x xs)
    then have r: "r = Some x" "contents rb' = xs" using ring.remove_some [OF ok(1)] pop by simp_all
    obtain failed s1 where b: "send_to_all env (render x) Text_Format s = (failed, s1)" by force
    obtain lg1 rbs1 where l: "publish_loop env render rbs s1 = (lg1, rbs1, s')" "lg = (render x, failed) # lg1"
      "rbs' = rb' # rbs1"
      using "2.prems"(1) pop r b by (auto split: prod.splits)
    note e = send_to_all_effect [OF b "2.prems"(2-4)]
    have "ws_inv s1" "finite (dom (ws_ids s1))" using e "2.prems"(3) by simp_all
    from "2.IH"(2) [OF pop [symmetric] r(1) b [symmetric] l(1) this "2.prems"(4) ok(2)] show ?thesis
      using e l r Cons ok' by (auto simp: heads_Cons)
  qed
qed

section \<open>Properties\<close>

lemma ws_ids_update_object [simp]: "ws_ids (update_object a f s) = ws_ids s"
  by (simp add: update_object_def)

lemma ws_ids_calls:
  "ws_send env i w fmt s = (b, s') \<Longrightarrow> ws_ids s' = ws_ids s"
  "ws_dequeue_message i s = (r, s') \<Longrightarrow> ws_ids s' = ws_ids s"
  by (auto simp: ws_send_def ws_dequeue_message_def split: option.splits prod.splits bool.splits)

lemma ws_ids_close_loop: "close_loop env is s = (failed, s') \<Longrightarrow> ws_ids s' = ws_ids s"
  by (induction env "is" s arbitrary: failed rule: close_loop.induct)
    (auto split: option.splits if_splits prod.splits)

lemma ws_ids_handler: "ws_ids (server_handler f h s) = ws_ids s"
  by (simp add: server_handler_def split: option.split)

lemma ws_reachable_finite: "ws_reachable env s \<Longrightarrow> finite (dom (ws_ids s))"
proof (induction rule: ws_reachable.induct)
  case (accept s h uri m s')
  have "dom (ws_ids s') \<subseteq> insert (ws_next_id s) (dom (ws_ids s))"
    using accept(3) by (auto simp: server_on_open_def result_simps Let_def split: if_splits)
  then show ?case using accept.IH finite_subset by blast
next
  case (connect s uri name r s')
  have "dom (ws_ids s') \<subseteq> insert (ws_next_id s) (dom (ws_ids s))"
    using connect(2) by (auto simp: client_connect_def result_simps Let_def split: prod.splits option.splits if_splits)
  then show ?case using connect.IH finite_subset by blast
next
  case (closing s "is" s')
  then show ?case using ws_ids_close_loop unfolding close_all_def by metis
qed (simp_all add: make_ws_manager_def ws_ids_handler server_on_message_def server_on_fail_def server_on_close_def
    ws_ids_calls)

text \<open>C23 (functional). One pass of the market data processor takes the oldest snapshot and then the oldest trade of
  every symbol that has one, in the order of the symbols, and broadcasts each as JSON text: every
  connection gets them in that order, except those it is reported as failed for; the buffers keep
  the rest, and messages from the subscribers are not touched.\<close>

theorem feed_is_broadcast_in_order:
  assumes "ws_reachable env (mdp_server mdp)" "order_lists_keys env"
    and "\<forall>rb \<in> set (mdp_snapshot_buffers mdp). ring_ok rb" "\<forall>rb \<in> set (mdp_trade_buffers mdp). ring_ok rb"
    and "mdp_iteration env J mdp = (lg, mdp')"
  shows "map fst lg = map (\<lambda>t. j_dump J (snapshot_to_json J t)) (heads (mdp_snapshot_buffers mdp)) @
      map (\<lambda>t. j_dump J (trade_to_json J t)) (heads (mdp_trade_buffers mdp)) \<and>
    map contents (mdp_snapshot_buffers mdp') = map (drop 1 \<circ> contents) (mdp_snapshot_buffers mdp) \<and>
    map contents (mdp_trade_buffers mdp') = map (drop 1 \<circ> contents) (mdp_trade_buffers mdp) \<and>
    ws_inbox (mdp_server mdp') = ws_inbox (mdp_server mdp) \<and>
    (\<forall>i. ws_sent (mdp_server mdp') i =
       (if i \<in> dom (ws_ids (mdp_server mdp)) then ws_sent (mdp_server mdp) i @ delivered lg i
        else ws_sent (mdp_server mdp) i))"
proof -
  have inv: "ws_inv (mdp_server mdp)" "finite (dom (ws_ids (mdp_server mdp)))"
    using ws_reachable_inv [OF assms(1)] ws_reachable_finite [OF assms(1)] .
  obtain lg1 snaps s1 where p1: "publish_loop env (\<lambda>t. j_dump J (snapshot_to_json J t)) (mdp_snapshot_buffers mdp) (mdp_server mdp) =
      (lg1, snaps, s1)" by (metis prod_cases3)
  obtain lg2 trades s2 where p2: "publish_loop env (\<lambda>t. j_dump J (trade_to_json J t)) (mdp_trade_buffers mdp) s1 = (lg2, trades, s2)"
    by (metis prod_cases3)
  have r: "lg = lg1 @ lg2" "mdp_snapshot_buffers mdp' = snaps" "mdp_trade_buffers mdp' = trades" "mdp_server mdp' = s2"
    using assms(5) p1 p2 by (auto simp: mdp_iteration_def)
  note e1 = publish_loop_effect [OF p1 inv assms(2,3)]
  have "ws_inv s1" "finite (dom (ws_ids s1))" using e1 inv(2) by simp_all
  note e2 = publish_loop_effect [OF p2 this assms(2,4)]
  show ?thesis using e1 e2 r by (simp add: delivered_append)
qed

text \<open>A JSON library: values are nested maps and lists, and the text of an object names its ticker.\<close>

datatype demo_json = Demo_Object "(string \<times> demo_json) list" | Demo_Array "demo_json list" | Demo_String string | Demo_Double rat | Demo_Int int

definition demo_json_env :: "demo_json json_env" where
  "demo_json_env =
     \<lparr>j_object = Demo_Object, j_array = Demo_Array, j_string = Demo_String, j_double = Demo_Double, j_int = Demo_Int,
      j_unsigned = (\<lambda>n. Demo_Int (int n)),
      j_at = (\<lambda>k j. case j of Demo_Object fs \<Rightarrow> map_of fs k | _ \<Rightarrow> None),
      j_index = (\<lambda>i j. case j of Demo_Array js \<Rightarrow> if i < length js then Some (js ! i) else None | _ \<Rightarrow> None),
      j_get_string = (\<lambda>j. case j of Demo_String s \<Rightarrow> Some s | _ \<Rightarrow> None),
      j_get_double = (\<lambda>j. case j of Demo_Double x \<Rightarrow> Some x | Demo_Int i \<Rightarrow> Some (of_int i) | _ \<Rightarrow> None),
      j_get_int = (\<lambda>j. case j of Demo_Int i \<Rightarrow> Some i | Demo_Double x \<Rightarrow> Some \<lfloor>x\<rfloor> | _ \<Rightarrow> None),
      j_dump = (\<lambda>j. case j of Demo_Object ((_, Demo_String s) # _) \<Rightarrow> s | _ \<Rightarrow> [])\<rparr>"

lemma demo_json_laws: "json_laws demo_json_env"
  by (simp add: json_laws_def demo_json_env_def)

definition demo_trade :: trade where
  "demo_trade =
     \<lparr>tr_ticker = ''GME'', tr_price = 1000, tr_quantity = 300, tr_trade_id = ''t1'', tr_taker_id = ''bob'', tr_maker_id = ''al'',
      tr_taker_order_id = 2, tr_maker_order_id = 1, tr_is_taker_buyer = True, tr_create_timestamp = 7\<rparr>"

text \<open>The processor of one symbol with a trade in its buffer and two subscribers, one of which cannot be reached.\<close>

definition demo_mdp :: "(nat, nat) market_data_processor" where
  "demo_mdp =
     \<lparr>mdp_snapshot_buffers = [], mdp_trade_buffers = [snd (shm_try_publish (rb_init (fresh_memory 2 demo_trade)) demo_trade)],
      mdp_server = demo_ws\<rparr>"

theorem feed_is_broadcast_in_order_witness:
  "\<exists>lg mdp'. mdp_iteration demo_ws_env demo_json_env demo_mdp = (lg, mdp') \<and> map fst lg = [''GME''] \<and>
     map contents (mdp_trade_buffers mdp') = [[]]"
proof -
  obtain lg mdp' where r: "mdp_iteration demo_ws_env demo_json_env demo_mdp = (lg, mdp')" by force
  let ?rb = "rb_init (fresh_memory 2 demo_trade)"
  have rb: "ring_ok ?rb" "contents ?rb = []" "capacity ?rb = 2" "0 < budget ?rb"
    using rb_init_ok [OF fresh_memory_geometry [of 1 demo_trade]] by (simp_all add: budget_def rb_init_def max_pos_def)
  have p: "ring_ok (snd (shm_try_publish ?rb demo_trade))" "contents (snd (shm_try_publish ?rb demo_trade)) = [demo_trade]"
    using ring.inv_insert [OF rb(1,4)] ring.items_insert [OF rb(1,4)] rb by simp_all
  have "order_lists_keys (demo_ws_env :: (nat, string, nat) ws_env)"
    by (simp add: order_lists_keys_def demo_ws_env_def)
  from feed_is_broadcast_in_order [OF _ this _ _ r] show ?thesis
    using r p demo_ws_reachable
    by (simp add: demo_mdp_def heads_def demo_json_env_def trade_to_json_def demo_trade_def)
qed

text \<open>What a subscriber reads back from the JSON of a trade is the trade, with price and quantity at
  most one hundredth short and the side of the taker inverted: \<open>compare\<close> is 0 for a buyer. The timestamp
  survives if it fits an \<open>int\<close>.\<close>

theorem trade_json_roundtrip_inverts_the_side:
  assumes "json_laws J" "0 \<le> tr_price t" "tr_price t < 2 ^ 31" "0 \<le> tr_quantity t" "tr_quantity t < 2 ^ 31"
    and "in_i32 (tr_taker_order_id t)" "in_i32 (tr_maker_order_id t)" "in_i32 (int (tr_create_timestamp t))"
    and "make_trade (tr_ticker t) (tr_price t) (tr_quantity t) (tr_trade_id t) (tr_taker_id t) (tr_maker_id t)
      (tr_taker_order_id t) (tr_maker_order_id t) (tr_is_taker_buyer t) (tr_create_timestamp t) = Inr t"
  shows "\<exists>price \<in> {tr_price t, tr_price t - 1}. \<exists>quantity \<in> {tr_quantity t, tr_quantity t - 1}.
    trade_from_json J (trade_to_json J t) =
      Inr (t\<lparr>tr_price := price, tr_quantity := quantity, tr_is_taker_buyer := \<not> tr_is_taker_buyer t\<rparr>)"
proof -
  obtain price where p: "price \<in> {tr_price t, tr_price t - 1}"
    "double_to_i32 (round_double (to_decimal (tr_price t) * decimal_to_int_multiplier)) = Inr price"
    using convert_back [OF assms(2,3)] by (auto simp: convert_to_internal_price_def)
  obtain quantity where q: "quantity \<in> {tr_quantity t, tr_quantity t - 1}"
    "double_to_i32 (round_double (to_decimal (tr_quantity t) * decimal_to_int_multiplier)) = Inr quantity"
    using convert_back [OF assms(4,5)] by (auto simp: convert_to_internal_price_def)
  have j: "j_at J k (trade_to_json J t) = map_of
       [(''ticker'', j_string J (tr_ticker t)), (''trade_id'', j_string J (tr_trade_id t)),
        (''taker_side'', j_string J (if tr_is_taker_buyer t then BUY_STR else SELL_STR)),
        (''price'', j_double J (to_decimal (tr_price t))), (''quantity'', j_double J (to_decimal (tr_quantity t))),
        (''taker_id'', j_string J (tr_taker_id t)), (''maker_id'', j_string J (tr_maker_id t)),
        (''taker_order_id'', j_int J (tr_taker_order_id t)), (''maker_order_id'', j_int J (tr_maker_order_id t)),
        (''create_timestamp'', j_unsigned J (tr_create_timestamp t))] k" for k
    using assms(1) by (simp only: json_laws_def trade_to_json_def)
  have g: "\<And>s. j_get_string J (j_string J s) = Some s" "\<And>x. j_get_double J (j_double J x) = Some x"
    "j_get_int J (j_int J (tr_taker_order_id t)) = Some (tr_taker_order_id t)"
    "j_get_int J (j_int J (tr_maker_order_id t)) = Some (tr_maker_order_id t)"
    "j_get_int J (j_unsigned J (tr_create_timestamp t)) = Some (int (tr_create_timestamp t))"
    using assms(1,6,7,8) by (simp_all add: json_laws_def)
  have ts: "nat (int (tr_create_timestamp t) mod 2 ^ 64) = tr_create_timestamp t"
    using assms(8) by (simp add: in_i32_def)
  have "trade_from_json J (trade_to_json J t) =
      make_trade (tr_ticker t) price quantity (tr_trade_id t) (tr_taker_id t) (tr_maker_id t)
        (tr_taker_order_id t) (tr_maker_order_id t) (\<not> tr_is_taker_buyer t) (tr_create_timestamp t)"
    unfolding trade_from_json_def by (simp add: field_of_def j g p(2) q(2) ts [simplified] BUY_STR_def SELL_STR_def)
  also have "\<dots> = Inr (t\<lparr>tr_price := price, tr_quantity := quantity, tr_is_taker_buyer := \<not> tr_is_taker_buyer t\<rparr>)"
    using assms(9) by (cases t) (auto simp: make_trade_def result_simps)
  finally show ?thesis using p(1) q(1) by blast
qed

theorem trade_json_roundtrip_inverts_the_side_witness:
  "\<exists>t. trade_from_json demo_json_env (trade_to_json demo_json_env demo_trade) = Inr t \<and> \<not> tr_is_taker_buyer t \<and>
     tr_is_taker_buyer demo_trade"
proof -
  have "make_trade (tr_ticker demo_trade) (tr_price demo_trade) (tr_quantity demo_trade) (tr_trade_id demo_trade)
      (tr_taker_id demo_trade) (tr_maker_id demo_trade) (tr_taker_order_id demo_trade) (tr_maker_order_id demo_trade)
      (tr_is_taker_buyer demo_trade) (tr_create_timestamp demo_trade) = Inr demo_trade" by code_simp
  from trade_json_roundtrip_inverts_the_side [OF demo_json_laws _ _ _ _ _ _ _ this] show ?thesis
    by (auto simp: demo_trade_def in_i32_def)
qed

end
