(* ===== verification/MdHandler.thy ===== *)
theory MdHandler
  imports FloatOps MarketData
begin

text \<open>
  The market data side of the simulated traders, \<open>MarketDataHandler\<close> of
  \<open>simulation/traders/market_maker.h\<close>: it keeps, per ticker, the latest top of the book, a window of
  the recent trades, and running sums over the window. Every method runs under the mutex of the
  handler. Numbers are doubles in the normal range.

  \<open>operator[]\<close> of a map inserts a default value where the key is missing, so the getters return the
  handler as well.
\<close>

section \<open>Data\<close>

record sim_snapshot =
  ob_best_bid_price :: rat
  ob_best_bid_qty :: rat
  ob_best_ask_price :: rat
  ob_best_ask_qty :: rat

definition empty_snapshot :: sim_snapshot where
  "empty_snapshot = \<lparr>ob_best_bid_price = 0, ob_best_bid_qty = 0, ob_best_ask_price = 0, ob_best_ask_qty = 0\<rparr>"

definition mid_price :: "sim_snapshot \<Rightarrow> rat" where
  "mid_price ob =
     (if ob_best_bid_price ob > 0 \<and> ob_best_ask_price ob > 0
      then dbl_div (dbl_add (ob_best_bid_price ob) (ob_best_ask_price ob)) 2 else 0)"

record sim_trade =
  st_price :: rat
  st_quantity :: rat
  st_timestamp :: int

record trade_stats =
  ts_sum_x :: rat
  ts_sum_x2 :: rat
  ts_count :: nat

definition empty_stats :: trade_stats where
  "empty_stats = \<lparr>ts_sum_x = 0, ts_sum_x2 = 0, ts_count = 0\<rparr>"

text \<open>\<open>count\<close> is a \<open>size_t\<close>.\<close>

definition add_trade :: "rat \<Rightarrow> trade_stats \<Rightarrow> trade_stats" where
  "add_trade price s =
     \<lparr>ts_sum_x = dbl_add (ts_sum_x s) price, ts_sum_x2 = dbl_add (ts_sum_x2 s) (dbl_mul price price),
      ts_count = (ts_count s + 1) mod 2 ^ 64\<rparr>"

definition remove_trade :: "rat \<Rightarrow> trade_stats \<Rightarrow> trade_stats" where
  "remove_trade price s =
     \<lparr>ts_sum_x = dbl_sub (ts_sum_x s) price, ts_sum_x2 = dbl_sub (ts_sum_x2 s) (dbl_mul price price),
      ts_count = (ts_count s + (2 ^ 64 - 1)) mod 2 ^ 64\<rparr>"

definition get_variance :: "trade_stats \<Rightarrow> rat" where
  "get_variance s =
     (if ts_count s < 2 then 0
      else let var = dbl_div (dbl_sub (ts_sum_x2 s) (dbl_div (dbl_mul (ts_sum_x s) (ts_sum_x s)) (of_nat (ts_count s))))
                       (of_nat (ts_count s - 1))
           in if var > 0 then var else 0)"

record md_handler =
  md_trades :: "string \<rightharpoonup> sim_trade list"
  md_trade_stats :: "string \<rightharpoonup> trade_stats"
  md_orderbooks :: "string \<rightharpoonup> sim_snapshot"

definition make_md_handler :: md_handler where
  "make_md_handler = \<lparr>md_trades = Map.empty, md_trade_stats = Map.empty, md_orderbooks = Map.empty\<rparr>"

definition m_max_trades_window :: nat where
  "m_max_trades_window = 1000"

text \<open>The value of a key after \<open>operator[]\<close>.\<close>

definition at_default :: "'v \<Rightarrow> ('k \<rightharpoonup> 'v) \<Rightarrow> 'k \<Rightarrow> 'v" where
  "at_default d m k = (case m k of None \<Rightarrow> d | Some v \<Rightarrow> v)"

section \<open>Getters\<close>

definition get_latest_orderbook :: "string \<Rightarrow> md_handler \<Rightarrow> sim_snapshot \<times> md_handler" where
  "get_latest_orderbook ticker h =
     (let ob = at_default empty_snapshot (md_orderbooks h) ticker
      in (ob, h\<lparr>md_orderbooks := (md_orderbooks h)(ticker \<mapsto> ob)\<rparr>))"

definition get_recent_trades :: "string \<Rightarrow> md_handler \<Rightarrow> sim_trade list \<times> md_handler" where
  "get_recent_trades ticker h =
     (let ts = at_default [] (md_trades h) ticker
      in (ts, h\<lparr>md_trades := (md_trades h)(ticker \<mapsto> ts)\<rparr>))"

definition calculate_variance :: "string \<Rightarrow> md_handler \<Rightarrow> rat \<times> md_handler" where
  "calculate_variance ticker h =
     (let st = at_default empty_stats (md_trade_stats h) ticker
      in (get_variance st, h\<lparr>md_trade_stats := (md_trade_stats h)(ticker \<mapsto> st)\<rparr>))"

section \<open>Messages\<close>

record 'j md_json =
  mj_json :: "'j json_env"
  mj_parse :: "string \<Rightarrow> 'j option"
  mj_empty :: "'j \<Rightarrow> bool"
  mj_get_int64 :: "'j \<Rightarrow> int option"

text \<open>What a message says: a trade, the top of a book, or nothing the handler reads.\<close>

datatype md_update = Md_Trade string sim_trade | Md_Book string sim_snapshot | Md_None

definition json_number :: "'j md_json \<Rightarrow> string \<Rightarrow> 'j \<Rightarrow> rat option" where
  "json_number J k j = Option.bind (j_at (mj_json J) k j) (j_get_double (mj_json J))"

definition read_sim_trade :: "'j md_json \<Rightarrow> 'j \<Rightarrow> sim_trade option" where
  "read_sim_trade J j =
     Option.bind (json_number J ''price'' j) (\<lambda>price.
     Option.bind (json_number J ''quantity'' j) (\<lambda>quantity.
     Option.bind (case j_at (mj_json J) ''create_timestamp'' j of None \<Rightarrow> Some 0 | Some t \<Rightarrow> mj_get_int64 J t)
       (\<lambda>timestamp. Some \<lparr>st_price = price, st_quantity = quantity, st_timestamp = timestamp\<rparr>)))"

text \<open>The best level of a side: zeros where the side is missing or empty, \<open>None\<close> where it throws.\<close>

definition read_best :: "'j md_json \<Rightarrow> string \<Rightarrow> 'j \<Rightarrow> (rat \<times> rat) option" where
  "read_best J side_key j =
     (case j_at (mj_json J) side_key j of
        None \<Rightarrow> Some (0, 0)
      | Some levels \<Rightarrow>
          if mj_empty J levels then Some (0, 0)
          else Option.bind (j_index (mj_json J) 0 levels) (\<lambda>level.
               Option.bind (json_number J ''price'' level) (\<lambda>price.
               Option.bind (json_number J ''quantity'' level) (\<lambda>quantity. Some (price, quantity)))))"

definition read_update :: "'j md_json \<Rightarrow> string \<Rightarrow> md_update option" where
  "read_update J msg =
     Option.bind (mj_parse J msg) (\<lambda>j.
       case j_at (mj_json J) ''ticker'' j of
         None \<Rightarrow> Some Md_None
       | Some t \<Rightarrow>
           Option.bind (j_get_string (mj_json J) t) (\<lambda>ticker.
             if j_at (mj_json J) ''trade_id'' j \<noteq> None then
               Option.bind (read_sim_trade J j) (\<lambda>tr. Some (Md_Trade ticker tr))
             else
               Option.bind (read_best J ''bids'' j) (\<lambda>(bid_price, bid_qty).
               Option.bind (read_best J ''asks'' j) (\<lambda>(ask_price, ask_qty).
                 Some (Md_Book ticker
                   \<lparr>ob_best_bid_price = bid_price, ob_best_bid_qty = bid_qty,
                    ob_best_ask_price = ask_price, ob_best_ask_qty = ask_qty\<rparr>)))))"

definition record_trade :: "string \<Rightarrow> sim_trade \<Rightarrow> md_handler \<Rightarrow> md_handler" where
  "record_trade ticker t h =
     (let ts = at_default [] (md_trades h) ticker @ [t];
          st = add_trade (st_price t) (at_default empty_stats (md_trade_stats h) ticker)
      in if length ts > m_max_trades_window
         then h\<lparr>md_trades := (md_trades h)(ticker \<mapsto> tl ts),
                md_trade_stats := (md_trade_stats h)(ticker \<mapsto> remove_trade (st_price (hd ts)) st)\<rparr>
         else h\<lparr>md_trades := (md_trades h)(ticker \<mapsto> ts),
                md_trade_stats := (md_trade_stats h)(ticker \<mapsto> st)\<rparr>)"

text \<open>Every exception is caught before the state is touched.\<close>

definition process_message :: "'j md_json \<Rightarrow> string \<Rightarrow> md_handler \<Rightarrow> md_handler" where
  "process_message J msg h =
     (case read_update J msg of
        Some (Md_Trade ticker t) \<Rightarrow> record_trade ticker t h
      | Some (Md_Book ticker ob) \<Rightarrow> h\<lparr>md_orderbooks := (md_orderbooks h)(ticker \<mapsto> ob)\<rparr>
      | _ \<Rightarrow> h)"

text \<open>One round of the consumer: the next message of connection 0, if there is one.\<close>

definition consume_step ::
  "'j md_json \<Rightarrow> ('h, string, 'e) ws_manager \<times> md_handler \<Rightarrow> ('h, string, 'e) ws_manager \<times> md_handler" where
  "consume_step J s =
     (case ws_dequeue_message 0 (fst s) of
        (None, client) \<Rightarrow> (client, snd s)
      | (Some msg, client) \<Rightarrow> (client, process_message J msg (snd s)))"

section \<open>The window\<close>

text \<open>The specification: of all the trades reported for a ticker, the handler keeps the last thousand.\<close>

definition trades_in :: "'j md_json \<Rightarrow> string \<Rightarrow> string list \<Rightarrow> sim_trade list" where
  "trades_in J ticker msgs =
     concat (map (\<lambda>m. case read_update J m of Some (Md_Trade t tr) \<Rightarrow> if t = ticker then [tr] else [] | _ \<Rightarrow> []) msgs)"

definition books_in :: "'j md_json \<Rightarrow> string \<Rightarrow> string list \<Rightarrow> sim_snapshot list" where
  "books_in J ticker msgs =
     concat (map (\<lambda>m. case read_update J m of Some (Md_Book t ob) \<Rightarrow> if t = ticker then [ob] else [] | _ \<Rightarrow> []) msgs)"

definition last_trades :: "nat \<Rightarrow> 'a list \<Rightarrow> 'a list" where
  "last_trades n xs = drop (length xs - n) xs"

lemma length_last_trades [simp]: "length (last_trades n xs) = min n (length xs)"
  by (simp add: last_trades_def)

lemma last_trades_snoc:
  assumes "0 < n"
  shows "last_trades n (xs @ [x]) =
     (if length (last_trades n xs @ [x]) > n then tl (last_trades n xs @ [x]) else last_trades n xs @ [x])"
proof (cases "length xs < n")
  case False
  then have "drop (length xs - n) xs \<noteq> []" using assms by simp
  then show ?thesis using False assms by (simp add: last_trades_def Suc_diff_le drop_Suc drop_tl)
qed (simp add: last_trades_def)

lemma window_pos: "0 < m_max_trades_window"
  by (simp add: m_max_trades_window_def)

abbreviation window :: "string \<Rightarrow> md_handler \<Rightarrow> sim_trade list" where
  "window ticker h \<equiv> at_default [] (md_trades h) ticker"

abbreviation stats_of :: "string \<Rightarrow> md_handler \<Rightarrow> trade_stats" where
  "stats_of ticker h \<equiv> at_default empty_stats (md_trade_stats h) ticker"

abbreviation book_of :: "string \<Rightarrow> md_handler \<Rightarrow> sim_snapshot" where
  "book_of ticker h \<equiv> at_default empty_snapshot (md_orderbooks h) ticker"

lemma at_default_upd [simp]: "at_default d (m(k \<mapsto> v)) k' = (if k' = k then v else at_default d m k')"
  by (simp add: at_default_def)

lemma window_record_trade:
  "window ticker (record_trade t tr h) =
     (if ticker = t then (let ts = window t h @ [tr] in if length ts > m_max_trades_window then tl ts else ts)
      else window ticker h)"
  by (simp add: record_trade_def Let_def)

lemma count_record_trade:
  assumes "ts_count (stats_of t h) = length (window t h)" "length (window t h) \<le> m_max_trades_window"
  shows "ts_count (stats_of t (record_trade t tr h)) = length (window t (record_trade t tr h))"
  using assms by (simp add: record_trade_def Let_def add_trade_def remove_trade_def m_max_trades_window_def)

lemma stats_record_other:
  "ticker \<noteq> t \<Longrightarrow> stats_of ticker (record_trade t tr h) = stats_of ticker h"
  by (simp add: record_trade_def Let_def)

lemma book_record_trade [simp]: "md_orderbooks (record_trade t tr h) = md_orderbooks h"
  by (simp add: record_trade_def Let_def)

definition md_refines :: "'j md_json \<Rightarrow> string list \<Rightarrow> md_handler \<Rightarrow> bool" where
  "md_refines J msgs h \<longleftrightarrow>
     (\<forall>ticker. window ticker h = last_trades m_max_trades_window (trades_in J ticker msgs) \<and>
        ts_count (stats_of ticker h) = length (window ticker h) \<and>
        book_of ticker h = last (empty_snapshot # books_in J ticker msgs))"

lemma md_refines_step:
  assumes "md_refines J msgs h"
  shows "md_refines J (msgs @ [m]) (process_message J m h)"
proof (cases "read_update J m")
  case None
  then show ?thesis using assms by (simp add: md_refines_def process_message_def trades_in_def books_in_def)
next
  case (Some u)
  have w: "window t h = last_trades m_max_trades_window (trades_in J t msgs)"
    and c: "ts_count (stats_of t h) = length (window t h)"
    and b: "book_of t h = last (empty_snapshot # books_in J t msgs)" for t
    using assms by (simp_all add: md_refines_def)
  have len: "length (window t h) \<le> m_max_trades_window" for t by (simp add: w)
  show ?thesis
  proof (cases u)
    case (Md_Trade t tr)
    have "trades_in J t (msgs @ [m]) = trades_in J t msgs @ [tr]"
      "\<And>s. s \<noteq> t \<Longrightarrow> trades_in J s (msgs @ [m]) = trades_in J s msgs" "\<And>s. books_in J s (msgs @ [m]) = books_in J s msgs"
      using Some Md_Trade by (simp_all add: trades_in_def books_in_def)
    then show ?thesis
      using Some Md_Trade w c b count_record_trade [OF c len, of t tr]
      by (simp add: md_refines_def process_message_def window_record_trade last_trades_snoc [OF window_pos] Let_def
        stats_record_other)
  next
    case (Md_Book t ob)
    then show ?thesis
      using Some w c b by (simp add: md_refines_def process_message_def trades_in_def books_in_def)
  next
    case Md_None
    then show ?thesis
      using assms Some by (simp add: md_refines_def process_message_def trades_in_def books_in_def)
  qed
qed

lemma md_refines_run: "md_refines J msgs (fold (process_message J) msgs make_md_handler)"
proof (induction msgs rule: rev_induct)
  case Nil
  show ?case
    by (simp add: md_refines_def make_md_handler_def trades_in_def books_in_def last_trades_def at_default_def empty_stats_def)
next
  case (snoc m msgs)
  then show ?case using md_refines_step by simp
qed

text \<open>C39 (refinement). Whatever messages arrive, in whatever order and however malformed, the handler refines a plain
  log of the feed: the trades it returns for a ticker are the last thousand reported for it in
  order, the running count is their number, the book is the latest one reported (zeros before the
  first), and the variance is never negative and zero for fewer than two trades.\<close>

theorem market_data_window_refines_the_feed:
  fixes J :: "'j md_json"
  shows "let h = fold (process_message J) msgs make_md_handler in
    fst (get_recent_trades ticker h) = last_trades 1000 (trades_in J ticker msgs) \<and>
    ts_count (stats_of ticker h) = length (fst (get_recent_trades ticker h)) \<and>
    fst (get_latest_orderbook ticker h) = last (empty_snapshot # books_in J ticker msgs) \<and>
    (if length (trades_in J ticker msgs) < 2 then fst (calculate_variance ticker h) = 0
     else 0 \<le> fst (calculate_variance ticker h))"
proof -
  let ?h = "fold (process_message J) msgs make_md_handler"
  have r: "window ticker ?h = last_trades m_max_trades_window (trades_in J ticker msgs)"
    "ts_count (stats_of ticker ?h) = length (window ticker ?h)"
    "book_of ticker ?h = last (empty_snapshot # books_in J ticker msgs)"
    using md_refines_run [of J msgs] unfolding md_refines_def by blast+
  have v: "0 \<le> get_variance st" "ts_count st < 2 \<Longrightarrow> get_variance st = 0" for st
    by (simp_all add: get_variance_def Let_def)
  show ?thesis
    using r v [of "stats_of ticker ?h"]
    by (simp add: get_recent_trades_def get_latest_orderbook_def calculate_variance_def Let_def m_max_trades_window_def)
qed

end
