(* ===== verification/Gateway.thy ===== *)
theory Gateway
  imports CoreTypes Text Double Messaging WsProperties
begin

text \<open>
  The FIX gateway, \<open>services/gateway/src/gateway_application.cpp\<close>: it turns the FIX messages of the
  clients into containers for the order manager, rejects what it cannot read, and turns the execution
  reports that come back into FIX messages.

  QuickFIX is not part of the repository. A FIX message is its raw fields, text under a tag; how
  QuickFIX reads a field value (\<open>None\<close> where it throws \<open>IncorrectDataFormat\<close>), the text of its exceptions
  and the sending of a report to a session are arguments, collected in \<open>gateway_env\<close>. A field object
  that was never read holds the empty text.
\<close>

section \<open>FIX messages\<close>

datatype fix_tag =
    Tag_SenderCompID | Tag_TargetCompID | Tag_ClOrdID | Tag_OrigClOrdID | Tag_OrderID | Tag_Symbol
  | Tag_Side | Tag_OrderQty | Tag_OrdType | Tag_Price | Tag_TimeInForce
  | Tag_TransactTime | Tag_LastPx | Tag_Text

type_synonym fix_fields = "fix_tag \<rightharpoonup> string"

record fix_message =
  fm_header :: fix_fields
  fm_body :: fix_fields

datatype fix_exec_trans_type = FIX_ExecTransType_NEW

datatype fix_status =
    FIX_Status_NEW | FIX_Status_PARTIAL_FILL | FIX_Status_FILL | FIX_Status_CANCELED | FIX_Status_REJECTED

record fix_execution_report =
  xr_order_id :: string
  xr_exec_id :: string
  xr_exec_trans_type :: fix_exec_trans_type
  xr_exec_type :: fix_status
  xr_ord_status :: fix_status
  xr_symbol :: string
  xr_side :: string
  xr_leaves_qty :: rat
  xr_cum_qty :: rat
  xr_avg_px :: rat
  xr_cl_ord_id :: string
  xr_order_qty :: "rat option"
  xr_last_px :: "rat option"
  xr_orig_cl_ord_id :: "string option"
  xr_price :: "rat option"
  xr_text :: "string option"

datatype gw_exception = Field_Not_Found fix_tag | Incorrect_Data_Format fix_tag | Cpp_Error cpp_error

text \<open>
  \<open>catch (const std::exception&)\<close> catches QuickFIX's exceptions and those of the standard library. A
  failed assertion and undefined behaviour are not exceptions.
\<close>

fun is_exception :: "gw_exception \<Rightarrow> bool" where
  "is_exception (Cpp_Error e) \<longleftrightarrow> e \<in> {Out_Of_Range, Bad_Optional_Access, Invalid_Argument, Runtime_Error}"
| "is_exception _ \<longleftrightarrow> True"

definition gbind :: "gw_exception + 'a \<Rightarrow> ('a \<Rightarrow> gw_exception + 'b) \<Rightarrow> gw_exception + 'b" where
  "gbind m f = (case m of Inl x \<Rightarrow> Inl x | Inr v \<Rightarrow> f v)"

definition of_result :: "'a result \<Rightarrow> gw_exception + 'a" where
  "of_result r = (case r of Inl e \<Rightarrow> Inl (Cpp_Error e) | Inr v \<Rightarrow> Inr v)"

definition field_value :: "fix_tag \<Rightarrow> (string \<Rightarrow> 'a option) \<Rightarrow> string \<Rightarrow> gw_exception + 'a" where
  "field_value tag conv t = (case conv t of None \<Rightarrow> Inl (Incorrect_Data_Format tag) | Some v \<Rightarrow> Inr v)"

section \<open>State and environment\<close>

record ('h, 'w, 'e, 'f) gateway =
  gw_client :: "('h, 'w, 'e) ws_manager"
  gw_connection_id :: int
  gw_fix :: 'f

record ('h, 'w, 'e, 'f) gateway_env =
  gw_ws :: "('h, 'w, 'e) ws_env"
  gw_serialize :: "container_wrapper \<Rightarrow> 'w"
  gw_parse :: "'w \<Rightarrow> container_wrapper option"
  gw_side :: "string \<Rightarrow> fix_side option"
  gw_ord_type :: "string \<Rightarrow> fix_ord_type option"
  gw_tif :: "string \<Rightarrow> fix_tif option"
  gw_double :: "string \<Rightarrow> rat option"
  gw_side_text :: "fix_side \<Rightarrow> string"
  gw_what :: "gw_exception \<Rightarrow> string"
  gw_send_to_target :: "fix_execution_report \<Rightarrow> string \<Rightarrow> string \<Rightarrow> 'f \<Rightarrow> 'f"

text \<open>
  The constructor: \<open>start\<close> and \<open>connect\<close> of the client, whose name is the default, and \<open>value\<close>, which throws
  out of the constructor and ends the service when there is no connection.
\<close>

definition make_gateway ::
  "('h, 'w, 'e, 'f) gateway_env \<Rightarrow> string \<Rightarrow> int \<Rightarrow> 'e \<Rightarrow> 'f \<Rightarrow> ('h, 'w, 'e, 'f) gateway result" where
  "make_gateway env host port ep fix =
     (case client_start (gw_ws env) (make_ws_manager ep) of (_, client) \<Rightarrow>
        rbind (client_connect (gw_ws env) (''ws://'' @ host @ '':'' @ show_int port) ''N/A'' client) (\<lambda>(cid, client').
        rbind (opt_at Terminated cid) (\<lambda>i.
          Inr \<lparr>gw_client = client', gw_connection_id = i, gw_fix = fix\<rparr>)))"

section \<open>From the clients\<close>

text \<open>\<open>get\<close> of one field after the other into the local field objects, up to the first that is missing.\<close>

fun read_fields :: "fix_fields \<Rightarrow> fix_tag list \<Rightarrow> fix_fields \<Rightarrow> gw_exception option \<times> fix_fields" where
  "read_fields fs [] l = (None, l)"
| "read_fields fs (tag # tags) l =
     (case fs tag of
        None \<Rightarrow> (Some (Field_Not_Found tag), l)
      | Some t \<Rightarrow> read_fields fs tags (l(tag \<mapsto> t)))"

definition field_text :: "fix_fields \<Rightarrow> fix_tag \<Rightarrow> string" where
  "field_text l tag = (case l tag of None \<Rightarrow> [] | Some t \<Rightarrow> t)"

definition make_new_order :: "('h, 'w, 'e, 'f) gateway_env \<Rightarrow> fix_fields \<Rightarrow> gw_exception + new_order_single" where
  "make_new_order env l =
     gbind (of_result (stoi (field_text l Tag_ClOrdID))) (\<lambda>cl_ord_id.
     gbind (field_value Tag_Side (gw_side env) (field_text l Tag_Side)) (\<lambda>fside.
     gbind (of_result (convert_side_to_internal fside)) (\<lambda>side.
     gbind (field_value Tag_OrderQty (gw_double env) (field_text l Tag_OrderQty)) (\<lambda>qty.
     gbind (of_result (convert_to_internal_quantity qty)) (\<lambda>order_qty.
     gbind (field_value Tag_OrdType (gw_ord_type env) (field_text l Tag_OrdType)) (\<lambda>ford_type.
     gbind (of_result (convert_ord_type_to_internal ford_type)) (\<lambda>ord_type.
     gbind (if ford_type = FIX_OrdType_LIMIT then
              gbind (field_value Tag_Price (gw_double env) (field_text l Tag_Price)) (\<lambda>px.
              gbind (of_result (convert_to_internal_price px)) (\<lambda>price. Inr (Some price)))
            else Inr None) (\<lambda>price.
     gbind (field_value Tag_TimeInForce (gw_tif env) (field_text l Tag_TimeInForce)) (\<lambda>ftif.
     gbind (of_result (convert_tif_to_internal ftif)) (\<lambda>tif.
       Inr \<lparr>nos_sender_comp_id = field_text l Tag_SenderCompID, nos_target_comp_id = field_text l Tag_TargetCompID,
            nos_order_id = None, nos_cl_ord_id = cl_ord_id, nos_symbol = field_text l Tag_Symbol, nos_side = side,
            nos_order_qty = order_qty, nos_ord_type = ord_type, nos_price = price, nos_time_in_force = tif\<rparr>))))))))))"

text \<open>The body of the \<open>try\<close> block up to the container, with the local fields as they are when it ends.\<close>

definition read_new_order ::
  "('h, 'w, 'e, 'f) gateway_env \<Rightarrow> fix_message \<Rightarrow> (gw_exception + new_order_single) \<times> fix_fields" where
  "read_new_order env msg =
     (case read_fields (fm_header msg) [Tag_SenderCompID, Tag_TargetCompID] Map.empty of
        (Some x, l) \<Rightarrow> (Inl x, l)
      | (None, l) \<Rightarrow>
          (case read_fields (fm_body msg) [Tag_ClOrdID, Tag_Symbol, Tag_Side, Tag_OrderQty, Tag_OrdType] l of
             (Some x, l) \<Rightarrow> (Inl x, l)
           | (None, l) \<Rightarrow>
               (case gw_ord_type env (field_text l Tag_OrdType) of
                  None \<Rightarrow> (Inl (Incorrect_Data_Format Tag_OrdType), l)
                | Some t \<Rightarrow>
                    (case read_fields (fm_body msg)
                        ((if t = FIX_OrdType_LIMIT then [Tag_Price] else []) @ [Tag_TimeInForce]) l of
                       (Some x, l) \<Rightarrow> (Inl x, l)
                     | (None, l) \<Rightarrow> (make_new_order env l, l)))))"

definition make_cancel_request ::
  "('h, 'w, 'e, 'f) gateway_env \<Rightarrow> fix_message \<Rightarrow> fix_fields \<Rightarrow> gw_exception + cancel_order_request" where
  "make_cancel_request env msg l =
     gbind (if fm_body msg Tag_OrderID \<noteq> None then
              gbind (of_result (stoi (field_text l Tag_OrderID))) (\<lambda>i. Inr (Some i))
            else Inr None) (\<lambda>order_id.
     gbind (of_result (stoi (field_text l Tag_OrigClOrdID))) (\<lambda>orig_cl_ord_id.
     gbind (of_result (stoi (field_text l Tag_ClOrdID))) (\<lambda>cl_ord_id.
     gbind (field_value Tag_Side (gw_side env) (field_text l Tag_Side)) (\<lambda>fside.
     gbind (of_result (convert_side_to_internal fside)) (\<lambda>side.
     gbind (field_value Tag_OrderQty (gw_double env) (field_text l Tag_OrderQty)) (\<lambda>qty.
     gbind (of_result (convert_to_internal_quantity qty)) (\<lambda>order_qty.
       Inr \<lparr>cor_sender_comp_id = field_text l Tag_SenderCompID, cor_target_comp_id = field_text l Tag_TargetCompID,
            cor_order_id = order_id, cor_orig_cl_ord_id = orig_cl_ord_id, cor_cl_ord_id = cl_ord_id,
            cor_symbol = field_text l Tag_Symbol, cor_side = side, cor_order_qty = order_qty\<rparr>)))))))"

definition read_cancel_request ::
  "('h, 'w, 'e, 'f) gateway_env \<Rightarrow> fix_message \<Rightarrow> (gw_exception + cancel_order_request) \<times> fix_fields" where
  "read_cancel_request env msg =
     (case read_fields (fm_header msg) [Tag_SenderCompID, Tag_TargetCompID] Map.empty of
        (Some x, l) \<Rightarrow> (Inl x, l)
      | (None, l) \<Rightarrow>
          (case read_fields (fm_body msg)
              ((if fm_body msg Tag_OrderID \<noteq> None then [Tag_OrderID] else []) @
               [Tag_OrigClOrdID, Tag_ClOrdID, Tag_OrderQty, Tag_Symbol, Tag_Side]) l of
             (Some x, l) \<Rightarrow> (Inl x, l)
           | (None, l) \<Rightarrow> (make_cancel_request env msg l, l)))"

definition rejection :: "fix_fields \<Rightarrow> string \<Rightarrow> string \<Rightarrow> fix_execution_report" where
  "rejection l exec_id reject_reason =
     \<lparr>xr_order_id = field_text l Tag_ClOrdID, xr_exec_id = exec_id, xr_exec_trans_type = FIX_ExecTransType_NEW,
      xr_exec_type = FIX_Status_REJECTED, xr_ord_status = FIX_Status_REJECTED,
      xr_symbol = field_text l Tag_Symbol, xr_side = field_text l Tag_Side,
      xr_leaves_qty = 0, xr_cum_qty = 0, xr_avg_px = 0, xr_cl_ord_id = field_text l Tag_ClOrdID,
      xr_order_qty = None, xr_last_px = None, xr_orig_cl_ord_id = None, xr_price = None,
      xr_text = Some reject_reason\<rparr>"

text \<open>The sender of the rejection is the target of the message, and the other way round.\<close>

definition reject_message ::
  "('h, 'w, 'e, 'f) gateway_env \<Rightarrow> string \<Rightarrow> fix_fields \<Rightarrow> string \<Rightarrow> ('h, 'w, 'e, 'f) gateway \<Rightarrow>
   ('h, 'w, 'e, 'f) gateway" where
  "reject_message env exec_id l reject_reason gw =
     gw\<lparr>gw_fix := gw_send_to_target env (rejection l exec_id reject_reason)
          (field_text l Tag_TargetCompID) (field_text l Tag_SenderCompID) (gw_fix gw)\<rparr>"

definition send_container ::
  "('h, 'w, 'e, 'f) gateway_env \<Rightarrow> container \<Rightarrow> ('h, 'w, 'e, 'f) gateway \<Rightarrow> ('h, 'w, 'e, 'f) gateway" where
  "send_container env c gw =
     gw\<lparr>gw_client := snd (ws_send (gw_ws env) (gw_connection_id gw) (serialize_container (gw_serialize env) c)
          Binary_Format (gw_client gw))\<rparr>"

definition handle_read ::
  "('h, 'w, 'e, 'f) gateway_env \<Rightarrow> string \<Rightarrow> ('a \<Rightarrow> container) \<Rightarrow> (gw_exception + 'a) \<times> fix_fields \<Rightarrow>
   ('h, 'w, 'e, 'f) gateway \<Rightarrow> gw_exception + ('h, 'w, 'e, 'f) gateway" where
  "handle_read env exec_id con r gw =
     (case r of
        (Inr c, l) \<Rightarrow> Inr (send_container env (con c) gw)
      | (Inl x, l) \<Rightarrow>
          if is_exception x then Inr (reject_message env exec_id l (gw_what env x) gw) else Inl x)"

definition on_new_order_single ::
  "('h, 'w, 'e, 'f) gateway_env \<Rightarrow> string \<Rightarrow> fix_message \<Rightarrow> ('h, 'w, 'e, 'f) gateway \<Rightarrow>
   gw_exception + ('h, 'w, 'e, 'f) gateway" where
  "on_new_order_single env exec_id msg gw = handle_read env exec_id New_Order_Single (read_new_order env msg) gw"

definition on_order_cancel_request ::
  "('h, 'w, 'e, 'f) gateway_env \<Rightarrow> string \<Rightarrow> fix_message \<Rightarrow> ('h, 'w, 'e, 'f) gateway \<Rightarrow>
   gw_exception + ('h, 'w, 'e, 'f) gateway" where
  "on_order_cancel_request env exec_id msg gw =
     handle_read env exec_id Cancel_Order_Request (read_cancel_request env msg) gw"

section \<open>From the order manager\<close>

fun fix_status_of :: "exec_type_or_order_status \<Rightarrow> fix_status" where
  "fix_status_of Status_filled = FIX_Status_FILL"
| "fix_status_of Status_partially_filled = FIX_Status_PARTIAL_FILL"
| "fix_status_of Status_canceled = FIX_Status_CANCELED"
| "fix_status_of Status_rejected = FIX_Status_REJECTED"
| "fix_status_of _ = FIX_Status_NEW"

definition fix_report_of ::
  "('h, 'w, 'e, 'f) gateway_env \<Rightarrow> execution_report \<Rightarrow> fix_execution_report result" where
  "fix_report_of env arg =
     rbind (i32 (er_leaves_qty arg + er_cum_qty arg)) (\<lambda>order_qty.
       Inr \<lparr>xr_order_id = show_int (er_order_id arg), xr_exec_id = er_exec_id arg,
            xr_exec_trans_type = FIX_ExecTransType_NEW, xr_exec_type = fix_status_of (er_exec_type arg),
            xr_ord_status = fix_status_of (er_ord_status arg), xr_symbol = er_symbol arg,
            xr_side = gw_side_text env (if er_side arg = Bid then FIX_Side_BUY else FIX_Side_SELL),
            xr_leaves_qty = to_decimal (er_leaves_qty arg), xr_cum_qty = to_decimal (er_cum_qty arg),
            xr_avg_px = to_decimal (er_avg_px arg), xr_cl_ord_id = show_int (er_cl_order_id arg),
            xr_order_qty = Some (to_decimal order_qty), xr_last_px = Some 0,
            xr_orig_cl_ord_id = map_option show_int (er_orig_cl_ord_id arg),
            xr_price = map_option to_decimal (er_price arg), xr_text = er_text arg\<rparr>)"

text \<open>
  \<open>process_report\<close> reads connection 0, whatever id the gateway connected with. A container that is not
  an execution report is dropped, and so is a message that does not deserialise.
\<close>

definition process_report ::
  "('h, 'w, 'e, 'f) gateway_env \<Rightarrow> ('h, 'w, 'e, 'f) gateway \<Rightarrow> gw_exception + ('h, 'w, 'e, 'f) gateway" where
  "process_report env gw =
     (case ws_dequeue_message 0 (gw_client gw) of
        (None, client) \<Rightarrow> Inr (gw\<lparr>gw_client := client\<rparr>)
      | (Some message, client) \<Rightarrow>
          (let gw' = gw\<lparr>gw_client := client\<rparr> in
           case deserialize_container (gw_parse env) message of
             Inl e \<Rightarrow> if is_exception (Cpp_Error e) then Inr gw' else Inl (Cpp_Error e)
           | Inr (Execution_Report arg) \<Rightarrow>
               (case fix_report_of env arg of
                  Inl e \<Rightarrow> if is_exception (Cpp_Error e) then Inr gw' else Inl (Cpp_Error e)
                | Inr report \<Rightarrow>
                    Inr (gw'\<lparr>gw_fix := gw_send_to_target env report (er_sender_comp_id arg) (er_target_comp_id arg)
                               (gw_fix gw')\<rparr>))
           | Inr _ \<Rightarrow> Inr gw'))"

end
