(* ===== verification/GatewayProperties.thy ===== *)
theory GatewayProperties
  imports Gateway OmRun
begin

text \<open>
  The properties of the gateway: what reaches the order manager, what the clients get back, and that
  every state keeps the one connection it reads from and writes to.
\<close>

section \<open>Reading a message\<close>

lemma gbind_eq_Inr [result_simps]: "gbind m f = Inr y \<longleftrightarrow> (\<exists>x. m = Inr x \<and> f x = Inr y)"
  by (cases m) (auto simp: gbind_def)

lemma of_result_eq_Inr [result_simps]: "of_result r = Inr y \<longleftrightarrow> r = Inr y"
  by (cases r) (auto simp: of_result_def)

lemma field_value_eq_Inr [result_simps]: "field_value tag conv t = Inr y \<longleftrightarrow> conv t = Some y"
  by (auto simp: field_value_def split: option.splits)

lemma read_fields_None:
  assumes "read_fields fs tags l = (None, l')"
  shows "(\<forall>tag \<in> set tags. fs tag \<noteq> None) \<and> l' = l ++ (fs |` set tags)"
  using assms
proof (induction fs tags l rule: read_fields.induct)
  case (2 fs tag tags l)
  then obtain t where t: "fs tag = Some t" "read_fields fs tags (l(tag \<mapsto> t)) = (None, l')"
    by (auto split: option.splits)
  then have "(\<forall>tag \<in> set tags. fs tag \<noteq> None) \<and> l' = l(tag \<mapsto> t) ++ (fs |` set tags)" using "2.IH" by blast
  then show ?case using t(1) by (auto simp: fun_eq_iff map_add_def restrict_map_def split: option.splits)
qed simp

lemma read_fields_Some:
  assumes "read_fields fs tags l = (Some x, l')"
  shows "\<exists>tag \<in> set tags. x = Field_Not_Found tag"
  using assms by (induction fs tags l rule: read_fields.induct) (auto split: option.splits)

lemma read_fields_missing:
  assumes "tag \<in> set tags" "fs tag = None"
  shows "\<exists>x l'. read_fields fs tags l = (Some x, l')"
  using assms by (induction fs tags l rule: read_fields.induct) (auto split: option.splits)

lemma read_fields_keeps:
  assumes "read_fields fs tags l = (r, l')" "tag \<notin> set tags"
  shows "l' tag = l tag"
  using assms by (induction fs tags l rule: read_fields.induct) (auto split: option.splits)

lemma convert_quantity_range:
  "convert_to_internal_quantity q = Inr n \<Longrightarrow> in_i32 n"
  by (auto simp: convert_to_internal_quantity_def double_to_i32_def result_simps)

text \<open>What the container of an accepted order says of the message.\<close>

definition order_of_message :: "('h, 'w, 'e, 'f) gateway_env \<Rightarrow> fix_message \<Rightarrow> new_order_single \<Rightarrow> bool" where
  "order_of_message env msg c \<longleftrightarrow>
     fm_header msg Tag_SenderCompID = Some (nos_sender_comp_id c) \<and>
     fm_header msg Tag_TargetCompID = Some (nos_target_comp_id c) \<and>
     fm_body msg Tag_Symbol = Some (nos_symbol c) \<and> nos_order_id c = None \<and>
     (\<exists>t. fm_body msg Tag_ClOrdID = Some t \<and> stoi t = Inr (nos_cl_ord_id c)) \<and>
     (\<exists>t q. fm_body msg Tag_OrderQty = Some t \<and> gw_double env t = Some q \<and>
        convert_to_internal_quantity q = Inr (nos_order_qty c)) \<and>
     (\<exists>t f. fm_body msg Tag_Side = Some t \<and> gw_side env t = Some f \<and> convert_side_to_internal f = Inr (nos_side c)) \<and>
     (\<exists>t f. fm_body msg Tag_OrdType = Some t \<and> gw_ord_type env t = Some f \<and>
        convert_ord_type_to_internal f = Inr (nos_ord_type c)) \<and>
     (\<exists>t f. fm_body msg Tag_TimeInForce = Some t \<and> gw_tif env t = Some f \<and>
        convert_tif_to_internal f = Inr (nos_time_in_force c)) \<and>
     (case nos_ord_type c of
        Market \<Rightarrow> nos_price c = None
      | Limit \<Rightarrow> \<exists>t q p. fm_body msg Tag_Price = Some t \<and> gw_double env t = Some q \<and>
          convert_to_internal_price q = Inr p \<and> nos_price c = Some p)"

lemma convert_ord_type_Inr:
  "convert_ord_type_to_internal f = Inr t \<longleftrightarrow> (f = FIX_OrdType_LIMIT \<and> t = Limit \<or> f = FIX_OrdType_MARKET \<and> t = Market)"
  by (cases f) auto

lemma read_new_order_Inr:
  assumes "read_new_order env msg = (Inr c, l)"
  shows "order_of_message env msg c"
proof -
  obtain l1 where l1: "read_fields (fm_header msg) [Tag_SenderCompID, Tag_TargetCompID] Map.empty = (None, l1)"
    using assms by (auto simp: read_new_order_def simp del: read_fields.simps split: prod.splits option.splits)
  obtain l2 where l2: "read_fields (fm_body msg) [Tag_ClOrdID, Tag_Symbol, Tag_Side, Tag_OrderQty, Tag_OrdType] l1 = (None, l2)"
    using assms l1 by (auto simp: read_new_order_def simp del: read_fields.simps split: prod.splits option.splits)
  obtain t where t: "gw_ord_type env (field_text l2 Tag_OrdType) = Some t"
    using assms l1 l2 by (auto simp: read_new_order_def simp del: read_fields.simps split: prod.splits option.splits)
  define tags where "tags = (if t = FIX_OrdType_LIMIT then [Tag_Price] else []) @ [Tag_TimeInForce]"
  have l3: "read_fields (fm_body msg) tags l2 = (None, l)" and c: "make_new_order env l = Inr c"
    using assms l1 l2 t by (auto simp: read_new_order_def tags_def [symmetric] simp del: read_fields.simps
        split: prod.splits option.splits)
  note r1 = read_fields_None [OF l1] and r2 = read_fields_None [OF l2] and r3 = read_fields_None [OF l3]
  have tx: "field_text l Tag_OrdType = field_text l2 Tag_OrdType"
    using r3 by (simp add: field_text_def map_add_def restrict_map_def tags_def)
  have f: "fm_header msg Tag_SenderCompID = Some (field_text l Tag_SenderCompID)"
    "fm_header msg Tag_TargetCompID = Some (field_text l Tag_TargetCompID)"
    "fm_body msg Tag_ClOrdID = Some (field_text l Tag_ClOrdID)"
    "fm_body msg Tag_Symbol = Some (field_text l Tag_Symbol)"
    "fm_body msg Tag_Side = Some (field_text l Tag_Side)"
    "fm_body msg Tag_OrderQty = Some (field_text l Tag_OrderQty)"
    "fm_body msg Tag_OrdType = Some (field_text l Tag_OrdType)"
    "fm_body msg Tag_TimeInForce = Some (field_text l Tag_TimeInForce)"
    "t = FIX_OrdType_LIMIT \<longrightarrow> fm_body msg Tag_Price = Some (field_text l Tag_Price)"
    using r1 r2 r3 by (auto simp: field_text_def map_add_def restrict_map_def tags_def)
  show ?thesis
    using c f t tx unfolding make_new_order_def order_of_message_def
    by (auto simp: result_simps convert_ord_type_Inr split: if_splits order_type.splits)
qed

lemma order_of_message_from_gateway: "order_of_message env msg c \<Longrightarrow> from_gateway (New_Order_Single c)"
  by (auto simp: order_of_message_def convert_quantity_range split: order_type.splits)

lemma header_fields:
  assumes "fm_header msg Tag_SenderCompID = Some client" "fm_header msg Tag_TargetCompID = Some exchange"
  shows "read_fields (fm_header msg) [Tag_SenderCompID, Tag_TargetCompID] Map.empty =
    (None, [Tag_SenderCompID \<mapsto> client, Tag_TargetCompID \<mapsto> exchange])"
  using assms by simp

lemma incomplete_new_order:
  assumes "fm_header msg Tag_SenderCompID = Some client" "fm_header msg Tag_TargetCompID = Some exchange"
    and "tag \<in> {Tag_ClOrdID, Tag_Symbol, Tag_Side, Tag_OrderQty, Tag_OrdType, Tag_TimeInForce}" "fm_body msg tag = None"
  obtains x l where "read_new_order env msg = (Inl x, l)" "is_exception x"
    "l Tag_SenderCompID = Some client" "l Tag_TargetCompID = Some exchange"
proof -
  define tags where "tags = [Tag_ClOrdID, Tag_Symbol, Tag_Side, Tag_OrderQty, Tag_OrdType]"
  obtain r1 l1 where l1: "read_fields (fm_body msg) tags [Tag_SenderCompID \<mapsto> client, Tag_TargetCompID \<mapsto> exchange] = (r1, l1)"
    by force
  have k1: "l1 Tag_SenderCompID = Some client" "l1 Tag_TargetCompID = Some exchange"
    using read_fields_keeps [OF l1] by (simp_all add: tags_def)
  have unfold1: "read_new_order env msg = (case (r1, l1) of (Some x, l) \<Rightarrow> (Inl x, l)
      | (None, l) \<Rightarrow> (case gw_ord_type env (field_text l Tag_OrdType) of
            None \<Rightarrow> (Inl (Incorrect_Data_Format Tag_OrdType), l)
          | Some t \<Rightarrow> (case read_fields (fm_body msg)
                  ((if t = FIX_OrdType_LIMIT then [Tag_Price] else []) @ [Tag_TimeInForce]) l of
                (Some x, l) \<Rightarrow> (Inl x, l) | (None, l) \<Rightarrow> (make_new_order env l, l))))"
    unfolding read_new_order_def header_fields [OF assms(1,2)] tags_def [symmetric] by (simp add: l1 del: read_fields.simps)
  show ?thesis
  proof (cases r1)
    case (Some x)
    then have "\<exists>tag \<in> set tags. x = Field_Not_Found tag" using l1 by (intro read_fields_Some) simp
    then have "is_exception x" by auto
    then show ?thesis using that [of x l1] unfold1 Some k1 by simp
  next
    case None
    then have "\<forall>t \<in> set tags. fm_body msg t \<noteq> None" using l1 read_fields_None by blast
    then have tif: "fm_body msg Tag_TimeInForce = None" using assms(3,4) by (auto simp: tags_def)
    show ?thesis
    proof (cases "gw_ord_type env (field_text l1 Tag_OrdType)")
      case None
      then show ?thesis using that [of "Incorrect_Data_Format Tag_OrdType" l1] unfold1 \<open>r1 = None\<close> k1 by simp
    next
      case (Some t)
      define tags2 where "tags2 = (if t = FIX_OrdType_LIMIT then [Tag_Price] else []) @ [Tag_TimeInForce]"
      obtain x l2 where l2: "read_fields (fm_body msg) tags2 l1 = (Some x, l2)"
        using read_fields_missing [of Tag_TimeInForce tags2 "fm_body msg" l1] tif by (auto simp: tags2_def)
      have "l2 Tag_SenderCompID = Some client" "l2 Tag_TargetCompID = Some exchange"
        using read_fields_keeps [OF l2] k1 by (simp_all add: tags2_def)
      moreover have "is_exception x" using read_fields_Some [OF l2] by auto
      moreover have "read_new_order env msg = (Inl x, l2)"
        using unfold1 \<open>r1 = None\<close> Some l2 by (simp add: tags2_def)
      ultimately show ?thesis using that by blast
    qed
  qed
qed

section \<open>Reachable gateways\<close>

text \<open>
  The steps of the gateway's two threads: QuickFIX calls the message handlers, the main loop calls
  \<open>process_report\<close>, and the websocket endpoint delivers what the order manager sends.
\<close>

inductive gw_reachable :: "('h, 'w, 'e, 'f) gateway_env \<Rightarrow> ('h, 'w, 'e, 'f) gateway \<Rightarrow> bool"
  for env :: "('h, 'w, 'e, 'f) gateway_env" where
  start: "make_gateway env host port ep fix = Inr gw \<Longrightarrow> gw_reachable env gw"
| new_order: "gw_reachable env gw \<Longrightarrow> on_new_order_single env x msg gw = Inr gw' \<Longrightarrow> gw_reachable env gw'"
| cancel: "gw_reachable env gw \<Longrightarrow> on_order_cancel_request env x msg gw = Inr gw' \<Longrightarrow> gw_reachable env gw'"
| report: "gw_reachable env gw \<Longrightarrow> process_report env gw = Inr gw' \<Longrightarrow> gw_reachable env gw'"
| arrive: "gw_reachable env gw \<Longrightarrow> gw_reachable env (gw\<lparr>gw_client := server_on_message h w (gw_client gw)\<rparr>)"
| connected: "gw_reachable env gw \<Longrightarrow> gw_reachable env (gw\<lparr>gw_client :=
    server_handler (on_open (gw_ws env) (ws_endpoint (gw_client gw)) h) h (gw_client gw)\<rparr>)"
| failed: "gw_reachable env gw \<Longrightarrow> gw_reachable env (gw\<lparr>gw_client := server_on_fail (gw_ws env) h (gw_client gw)\<rparr>)"
| closed: "gw_reachable env gw \<Longrightarrow> gw_reachable env (gw\<lparr>gw_client := server_on_close (gw_ws env) h (gw_client gw)\<rparr>)"
| endpoint: "gw_reachable env gw \<Longrightarrow> gw_reachable env (gw\<lparr>gw_client := (gw_client gw)\<lparr>ws_endpoint := ep\<rparr>\<rparr>)"

text \<open>The websocket state is well formed and the connection that \<open>process_report\<close> reads is the gateway's own,
  which stays registered whatever happens to it.\<close>

definition gw_inv :: "('h, 'w, 'e, 'f) gateway \<Rightarrow> bool" where
  "gw_inv gw \<longleftrightarrow> ws_inv (gw_client gw) \<and> gw_connection_id gw = 0 \<and> ws_ids (gw_client gw) 0 \<noteq> None"

lemma make_gateway_inv:
  assumes "make_gateway env host port ep fix = Inr gw"
  shows "gw_inv gw"
proof -
  define s where "s = snd (client_start (gw_ws env) (make_ws_manager ep))"
  have s: "ws_next_id s = 0" "ws_handles s = Map.empty" "ws_inv s"
    by (simp_all add: s_def client_start_def make_ws_manager_def ws_inv_def)
  obtain cid client where c: "client_connect (gw_ws env) (''ws://'' @ host @ '':'' @ show_int port) ''N/A'' s = Inr (Some cid, client)"
    "gw_client gw = client" "gw_connection_id gw = cid"
    using assms by (auto simp: make_gateway_def s_def result_simps split: prod.splits)
  have "cid = 0" "ws_ids client 0 \<noteq> None"
    using c(1) s(1) by (auto simp: client_connect_def result_simps Let_def split: prod.splits option.splits)
  moreover have "ws_inv client" using client_connect_inv [OF c(1) s(3)] s(2) by simp
  ultimately show ?thesis using c by (simp add: gw_inv_def)
qed

lemma send_container_inv:
  assumes "gw_inv gw"
  shows "gw_inv (send_container env c gw)"
proof -
  obtain ok client where "ws_send (gw_ws env) (gw_connection_id gw) (serialize_container (gw_serialize env) c)
      Binary_Format (gw_client gw) = (ok, client)" by force
  then show ?thesis
    using ws_send_effect [of "gw_client gw"] assms by (auto simp: gw_inv_def send_container_def)
qed

lemma handle_read_inv:
  assumes "handle_read env x con r gw = Inr gw'" "gw_inv gw"
  shows "gw_inv gw'"
  using assms send_container_inv [OF assms(2)]
  by (auto simp: handle_read_def reject_message_def gw_inv_def split: prod.splits sum.splits if_splits)

lemma process_report_inv:
  assumes "process_report env gw = Inr gw'" "gw_inv gw"
  shows "gw_inv gw'"
proof -
  obtain r client where d: "ws_dequeue_message 0 (gw_client gw) = (r, client)" by force
  then have "ws_inv client" using ws.ok_recv [of "gw_client gw" 0] assms(2) by (simp add: gw_inv_def)
  moreover have "ws_ids client = ws_ids (gw_client gw)"
    using d by (auto simp: ws_dequeue_message_def split: option.splits prod.splits)
  moreover have "gw_client gw' = client \<and> gw_connection_id gw' = gw_connection_id gw"
    using assms(1) d by (auto simp: process_report_def Let_def split: option.splits sum.splits container.splits if_splits)
  ultimately show ?thesis using assms(2) by (simp add: gw_inv_def)
qed

lemma server_handler_ids: "ws_ids (server_handler f h s) = ws_ids s"
  by (simp add: server_handler_def split: option.split)

lemma gw_reachable_inv: "gw_reachable env gw \<Longrightarrow> gw_inv gw"
proof (induction rule: gw_reachable.induct)
  case start
  then show ?case by (rule make_gateway_inv)
next
  case new_order
  then show ?case using handle_read_inv unfolding on_new_order_single_def by blast
next
  case cancel
  then show ?case using handle_read_inv unfolding on_order_cancel_request_def by blast
next
  case report
  then show ?case using process_report_inv by blast
next
  case arrive
  then show ?case by (simp add: gw_inv_def server_handler_inv server_on_message_def server_handler_ids)
qed (simp_all add: gw_inv_def server_handler_inv server_handler_ids server_on_fail_def server_on_close_def)

section \<open>A gateway with one client\<close>

definition demo_gw_env :: "(nat, container_wrapper, nat, (fix_execution_report \<times> string \<times> string) list) gateway_env" where
  "demo_gw_env =
     \<lparr>gw_ws = demo_ws_env, gw_serialize = (\<lambda>w. w), gw_parse = Some,
      gw_side = (\<lambda>t. if t = ''1'' then Some FIX_Side_BUY else if t = ''2'' then Some FIX_Side_SELL else None),
      gw_ord_type = (\<lambda>t. if t = ''1'' then Some FIX_OrdType_MARKET else if t = ''2'' then Some FIX_OrdType_LIMIT else None),
      gw_tif = (\<lambda>t. if t = ''0'' then Some FIX_TIF_DAY else if t = ''1'' then Some FIX_TIF_GTC else None),
      gw_double = (\<lambda>t. case stoi t of Inr n \<Rightarrow> Some (of_int n) | Inl _ \<Rightarrow> None),
      gw_side_text = (\<lambda>s. if s = FIX_Side_BUY then ''1'' else ''2''), gw_what = (\<lambda>x. ''Field not found''),
      gw_send_to_target = (\<lambda>r sender target l. l @ [(r, sender, target)])\<rparr>"

definition demo_gw :: "(nat, container_wrapper, nat, (fix_execution_report \<times> string \<times> string) list) gateway" where
  "demo_gw =
     \<lparr>gw_client = \<lparr>ws_endpoint = 1, ws_running = True,
        ws_store = [0 \<mapsto> make_connection_metadata 0 0 ''ws://localhost:67''], ws_next_object = 1,
        ws_ids = [0 \<mapsto> 0], ws_handles = [0 \<mapsto> 0], ws_next_id = 1\<rparr>,
      gw_connection_id = 0, gw_fix = []\<rparr>"

definition demo_fix_order :: fix_message where
  "demo_fix_order =
     \<lparr>fm_header = [Tag_SenderCompID \<mapsto> ''alice'', Tag_TargetCompID \<mapsto> ''elsa''],
      fm_body = [Tag_ClOrdID \<mapsto> ''7'', Tag_Symbol \<mapsto> ''GME'', Tag_Side \<mapsto> ''1'', Tag_OrderQty \<mapsto> ''3'', Tag_OrdType \<mapsto> ''2'',
                 Tag_Price \<mapsto> ''10'', Tag_TimeInForce \<mapsto> ''0'']\<rparr>"

lemma demo_gw_reachable: "gw_reachable demo_gw_env demo_gw"
proof -
  have "show_int 67 = ''67''" by code_simp
  then have "make_gateway demo_gw_env ''localhost'' 67 0 [] = Inr demo_gw"
    by (simp add: demo_gw_def demo_gw_env_def make_gateway_def client_start_def client_connect_def demo_ws_env_def
        make_ws_manager_def in_i32_def)
  then show ?thesis by (rule gw_reachable.start)
qed

lemma demo_gw_wire: "\<forall>w. gw_parse demo_gw_env (gw_serialize demo_gw_env w) = Some w"
  by (simp add: demo_gw_env_def)

section \<open>What reaches the order manager\<close>

lemma send_container_effect:
  assumes "gw_inv gw" "id_of (gw_client gw) h = Some 0" "m = serialize_container (gw_serialize env) c"
  shows "ws_sent (gw_client (send_container env c gw)) =
      (if fst (ws_send_frame (gw_ws env) h m Binary_Format (ws_endpoint (gw_client gw)))
       then (ws_sent (gw_client gw))(0 := ws_sent (gw_client gw) 0 @ [m]) else ws_sent (gw_client gw))"
    and "ws_endpoint (gw_client (send_container env c gw)) =
      snd (ws_send_frame (gw_ws env) h m Binary_Format (ws_endpoint (gw_client gw)))"
    and "ws_inbox (gw_client (send_container env c gw)) = ws_inbox (gw_client gw)"
    and "gw_fix (send_container env c gw) = gw_fix gw"
proof -
  have inv: "ws_inv (gw_client gw)" "gw_connection_id gw = 0" using assms(1) by (simp_all add: gw_inv_def)
  note frame = ws_send_frame_sent [OF inv(1) assms(2)]
  show "ws_sent (gw_client (send_container env c gw)) =
      (if fst (ws_send_frame (gw_ws env) h m Binary_Format (ws_endpoint (gw_client gw)))
       then (ws_sent (gw_client gw))(0 := ws_sent (gw_client gw) 0 @ [m]) else ws_sent (gw_client gw))"
    "ws_endpoint (gw_client (send_container env c gw)) =
      snd (ws_send_frame (gw_ws env) h m Binary_Format (ws_endpoint (gw_client gw)))"
    using ws.sent_send [OF inv(1)] frame inv(2) assms(3) by (simp_all add: send_container_def)
  show "ws_inbox (gw_client (send_container env c gw)) = ws_inbox (gw_client gw)"
    using ws.inbox_send [OF inv(1)] by (simp add: send_container_def)
  show "gw_fix (send_container env c gw) = gw_fix gw" by (simp add: send_container_def)
qed



text \<open>A message without one of its mandatory fields never ends the gateway and never reaches the
  order manager: the client that sent it gets one rejection, addressed back to it, with nothing filled
  and the text of the exception.\<close>

theorem incomplete_order_is_rejected:
  assumes "fm_header msg Tag_SenderCompID = Some client" "fm_header msg Tag_TargetCompID = Some exchange"
    and "tag \<in> {Tag_ClOrdID, Tag_Symbol, Tag_Side, Tag_OrderQty, Tag_OrdType, Tag_TimeInForce}" "fm_body msg tag = None"
  shows "\<exists>r x. on_new_order_single env exec_id msg gw =
      Inr (gw\<lparr>gw_fix := gw_send_to_target env r exchange client (gw_fix gw)\<rparr>) \<and>
    xr_ord_status r = FIX_Status_REJECTED \<and> xr_leaves_qty r = 0 \<and> xr_cum_qty r = 0 \<and> xr_text r = Some (gw_what env x)"
proof -
  obtain x l where l: "read_new_order env msg = (Inl x, l)" "is_exception x"
    "l Tag_SenderCompID = Some client" "l Tag_TargetCompID = Some exchange"
    using incomplete_new_order [OF assms] .
  then have "on_new_order_single env exec_id msg gw =
      Inr (gw\<lparr>gw_fix := gw_send_to_target env (rejection l exec_id (gw_what env x)) exchange client (gw_fix gw)\<rparr>)"
    by (simp add: on_new_order_single_def handle_read_def reject_message_def field_text_def)
  then show ?thesis by (force simp: rejection_def)
qed

theorem incomplete_order_is_rejected_witness:
  "\<exists>r x. on_new_order_single demo_gw_env ''x1'' (demo_fix_order\<lparr>fm_body := (fm_body demo_fix_order)(Tag_Side := None)\<rparr>) demo_gw =
      Inr (demo_gw\<lparr>gw_fix := [(r, ''elsa'', ''alice'')]\<rparr>) \<and> xr_ord_status r = FIX_Status_REJECTED"
proof -
  let ?msg = "demo_fix_order\<lparr>fm_body := (fm_body demo_fix_order)(Tag_Side := None)\<rparr>"
  have "gw_fix demo_gw = []" by code_simp
  then show ?thesis
    using incomplete_order_is_rejected [of ?msg "''alice''" "''elsa''" Tag_Side demo_gw_env "''x1''" demo_gw]
    by (auto simp: demo_fix_order_def demo_gw_env_def)
qed

section \<open>What the clients get back\<close>

lemma convert_quantity_back:
  "0 \<le> n \<Longrightarrow> n < 2 ^ 31 \<Longrightarrow> convert_to_internal_quantity (to_decimal n) \<in> {Inr n, Inr (n - 1)}"
  using convert_back [of n] by (simp add: convert_to_internal_price_def convert_to_internal_quantity_def)

text \<open>C22 (roundtrip). The next execution report of the order manager becomes one FIX message to the client it
  is for: the order id and the client's order id read back as the numbers of the report, an
  original id is present exactly if the report has one, the quantities read back in hundredths at
  most one short, fills, cancellations and rejections keep their status, and the other messages stay
  queued in order.\<close>

theorem execution_report_reaches_the_client:
  assumes "gw_reachable env gw" "\<forall>w. gw_parse env (gw_serialize env w) = Some w"
    and "ws_inbox (gw_client gw) 0 = serialize_container (gw_serialize env) (Execution_Report r) # ms"
    and "in_i32 (er_order_id r)" "in_i32 (er_cl_order_id r)"
    and "0 \<le> er_leaves_qty r" "0 \<le> er_cum_qty r" "er_leaves_qty r + er_cum_qty r < 2 ^ 31"
  shows "\<exists>gw' x. process_report env gw = Inr gw' \<and>
    gw_fix gw' = gw_send_to_target env x (er_sender_comp_id r) (er_target_comp_id r) (gw_fix gw) \<and>
    ws_inbox (gw_client gw') = (ws_inbox (gw_client gw))(0 := ms) \<and> ws_sent (gw_client gw') = ws_sent (gw_client gw) \<and>
    stoi (xr_order_id x) = Inr (er_order_id r) \<and> stoi (xr_cl_ord_id x) = Inr (er_cl_order_id r) \<and>
    xr_orig_cl_ord_id x = map_option show_int (er_orig_cl_ord_id r) \<and>
    convert_to_internal_quantity (xr_cum_qty x) \<in> {Inr (er_cum_qty r), Inr (er_cum_qty r - 1)} \<and>
    convert_to_internal_quantity (xr_leaves_qty x) \<in> {Inr (er_leaves_qty r), Inr (er_leaves_qty r - 1)} \<and>
    (xr_ord_status x = FIX_Status_NEW \<longleftrightarrow> er_ord_status r \<in> {Status_new, Status_pending_cancel}) \<and>
    (xr_ord_status x = FIX_Status_FILL \<longleftrightarrow> er_ord_status r = Status_filled) \<and>
    (xr_ord_status x = FIX_Status_PARTIAL_FILL \<longleftrightarrow> er_ord_status r = Status_partially_filled) \<and>
    (xr_ord_status x = FIX_Status_CANCELED \<longleftrightarrow> er_ord_status r = Status_canceled) \<and>
    (xr_ord_status x = FIX_Status_REJECTED \<longleftrightarrow> er_ord_status r = Status_rejected)"
proof -
  let ?m = "serialize_container (gw_serialize env) (Execution_Report r)"
  define arg where "arg = r\<lparr>er_text := Some (proto_get [] (er_text r))\<rparr>"
  have inv: "ws_inv (gw_client gw)" using gw_reachable_inv [OF assms(1)] by (simp add: gw_inv_def)
  obtain client where d: "ws_dequeue_message 0 (gw_client gw) = (Some ?m, client)"
    "ws_inbox client = (ws_inbox (gw_client gw))(0 := ms)" "ws_sent client = ws_sent (gw_client gw)"
    using ws.recv_inbox [OF inv, of 0] ws.sent_recv [OF inv, of 0] assms(3)
    by (cases "ws_dequeue_message 0 (gw_client gw)") auto
  have m: "deserialize_container (gw_parse env) ?m = Inr (Execution_Report arg)"
    using deserialize_serialize [of "gw_parse env" "gw_serialize env" "Execution_Report r"] assms(2)
    by (simp add: arg_def)
  have fits: "in_i32 (er_leaves_qty r + er_cum_qty r)" using assms(6-8) by (simp add: in_i32_def)
  obtain x where x: "fix_report_of env arg = Inr x" using fits by (simp add: fix_report_of_def arg_def)
  have st: "xr_ord_status x = fix_status_of (er_ord_status r)" and px: "xr_order_id x = show_int (er_order_id r)"
    "xr_cl_ord_id x = show_int (er_cl_order_id r)" "xr_orig_cl_ord_id x = map_option show_int (er_orig_cl_ord_id r)"
    "xr_cum_qty x = to_decimal (er_cum_qty r)" "xr_leaves_qty x = to_decimal (er_leaves_qty r)"
    using x by (auto simp: fix_report_of_def arg_def result_simps)
  let ?gw = "gw\<lparr>gw_client := client,
    gw_fix := gw_send_to_target env x (er_sender_comp_id arg) (er_target_comp_id arg) (gw_fix gw)\<rparr>"
  have run: "process_report env gw = Inr ?gw" using d(1) m x by (simp add: process_report_def)
  have q: "convert_to_internal_quantity (xr_cum_qty x) \<in> {Inr (er_cum_qty r), Inr (er_cum_qty r - 1)}"
    "convert_to_internal_quantity (xr_leaves_qty x) \<in> {Inr (er_leaves_qty r), Inr (er_leaves_qty r - 1)}"
    unfolding px using assms(6-8) by (intro convert_quantity_back; simp)+
  have s: "fix_status_of t = FIX_Status_NEW \<longleftrightarrow> t \<in> {Status_new, Status_pending_cancel}"
    "fix_status_of t = FIX_Status_FILL \<longleftrightarrow> t = Status_filled"
    "fix_status_of t = FIX_Status_PARTIAL_FILL \<longleftrightarrow> t = Status_partially_filled"
    "fix_status_of t = FIX_Status_CANCELED \<longleftrightarrow> t = Status_canceled"
    "fix_status_of t = FIX_Status_REJECTED \<longleftrightarrow> t = Status_rejected" for t
    by (cases t; simp)+
  show ?thesis
    by (rule exI [of _ ?gw], rule exI [of _ x])
      (use run d(2,3) st px q s assms(4,5) in \<open>simp add: arg_def stoi_show_int\<close>)
qed

definition demo_report :: execution_report where
  "demo_report =
     \<lparr>er_sender_comp_id = ''elsa'', er_target_comp_id = ''alice'', er_order_id = 12, er_cl_order_id = 7,
      er_orig_cl_ord_id = None, er_exec_id = ''x2'', er_exec_trans_type = Exec_trans_new,
      er_exec_type = Status_filled, er_ord_status = Status_filled, er_text = None, er_symbol = ''GME'', er_side = Bid,
      er_price = Some 1000, er_time_in_force = Day, er_leaves_qty = 0, er_cum_qty = 300, er_avg_px = 1000\<rparr>"

definition demo_gw_report :: "(nat, container_wrapper, nat, (fix_execution_report \<times> string \<times> string) list) gateway" where
  "demo_gw_report = demo_gw\<lparr>gw_client :=
     server_on_message 0 (serialize_container (gw_serialize demo_gw_env) (Execution_Report demo_report)) (gw_client demo_gw)\<rparr>"

theorem execution_report_reaches_the_client_witness:
  "\<exists>gw' x. process_report demo_gw_env demo_gw_report = Inr gw' \<and> gw_fix gw' = [(x, ''elsa'', ''alice'')] \<and>
     stoi (xr_cl_ord_id x) = Inr 7 \<and> xr_ord_status x = FIX_Status_FILL"
proof -
  have reach: "gw_reachable demo_gw_env demo_gw_report"
    unfolding demo_gw_report_def by (rule gw_reachable.arrive [OF demo_gw_reachable])
  have inbox: "ws_inbox (gw_client demo_gw_report) 0 =
      serialize_container (gw_serialize demo_gw_env) (Execution_Report demo_report) # []" by code_simp
  have "gw_fix demo_gw_report = []" by code_simp
  then show ?thesis
    using execution_report_reaches_the_client [OF reach demo_gw_wire inbox]
    by (auto simp: demo_report_def demo_gw_env_def in_i32_def)
qed

end
