(* ===== verification/FixClient.thy ===== *)
theory FixClient
  imports GatewayProperties
begin

text \<open>
  The client library, \<open>client_sdk/src/fix_client.cpp\<close> and \<open>client_sdk/include/fix_client.h\<close>: it turns the
  orders of a trader into FIX messages for the gateway and the gateway's execution reports into
  \<open>ExecutionReport\<close> structs for the trader's callback.

  QuickFIX is a record of arguments, as for the gateway: how it writes a field value, the sessions of
  the initiator in the order of the \<open>std::set\<close>, and \<open>sendToTarget\<close>, which is \<open>None\<close> where it throws
  \<open>SessionNotFound\<close>.
\<close>

section \<open>Orders and reports of the client\<close>

datatype order_side = OrderSide_BUY | OrderSide_SELL

datatype client_tif = TimeInForce_GTC | TimeInForce_IOC

datatype client_order_status =
    OrderStatus_NEW | OrderStatus_FILLED | OrderStatus_PARTIALLY_FILLED | OrderStatus_CANCELED

text \<open>A member that was never assigned is \<open>None\<close>.\<close>

record client_report =
  cr_order_id :: string
  cr_client_order_id :: int
  cr_ticker :: string
  cr_side :: order_side
  cr_status :: "client_order_status option"
  cr_filled_qty :: rat
  cr_last_px :: rat
  cr_cumulated_filled_qty :: rat
  cr_avg_px :: "rat option"
  cr_remaining_qty :: rat

record fix_cancel_reject =
  cj_cl_ord_id :: "string option"
  cj_text :: "string option"

section \<open>State and environment\<close>

type_synonym fix_session = "string \<times> string"

record 'f fix_client =
  fc_is_connected :: bool
  fc_fix :: 'f

record 'f fix_client_env =
  fc_side_text :: "fix_side \<Rightarrow> string"
  fc_ord_type_text :: "fix_ord_type \<Rightarrow> string"
  fc_tif_text :: "fix_tif \<Rightarrow> string"
  fc_double_text :: "rat \<Rightarrow> string"
  fc_transact_time :: "'f \<Rightarrow> string"
  fc_side :: "string \<Rightarrow> fix_side option"
  fc_sessions :: "'f \<Rightarrow> fix_session list"
  fc_send_to_target :: "fix_message \<Rightarrow> fix_session \<Rightarrow> 'f \<Rightarrow> bool option \<times> 'f"
  fc_start :: "'f \<Rightarrow> 'f"
  fc_stop :: "'f \<Rightarrow> 'f"

section \<open>Connection\<close>

definition make_fix_client :: "'f \<Rightarrow> 'f fix_client" where
  "make_fix_client fix = \<lparr>fc_is_connected = False, fc_fix = fix\<rparr>"

definition on_logon :: "'f fix_client \<Rightarrow> 'f fix_client" where
  "on_logon c = c\<lparr>fc_is_connected := True\<rparr>"

definition on_logout :: "'f fix_client \<Rightarrow> 'f fix_client" where
  "on_logout c = c\<lparr>fc_is_connected := False\<rparr>"

text \<open>
  The loop of \<open>connect\<close>: iteration \<open>i\<close> reads the flag, which the session thread sets, and then the
  clock, in nanoseconds. What it reads is given by the stream of observations.
\<close>

partial_function (option) connect_loop ::
  "(nat \<Rightarrow> bool \<times> int) \<Rightarrow> int \<Rightarrow> int \<Rightarrow> nat \<Rightarrow> unit result option" where
  "connect_loop obs start timeout i =
     (if fst (obs i) then Some (Inr ())
      else if timeout < snd (obs i) - start then Some (Inl Runtime_Error)
      else connect_loop obs start timeout (Suc i))"

definition connect ::
  "'f fix_client_env \<Rightarrow> (nat \<Rightarrow> bool \<times> int) \<Rightarrow> int \<Rightarrow> int \<Rightarrow> 'f fix_client \<Rightarrow>
   unit result option \<times> 'f fix_client" where
  "connect env obs start timeout_sec c =
     (connect_loop obs start (timeout_sec * 1000000000) 0, c\<lparr>fc_fix := fc_start env (fc_fix c)\<rparr>)"

definition disconnect :: "'f fix_client_env \<Rightarrow> 'f fix_client \<Rightarrow> 'f fix_client" where
  "disconnect env c = c\<lparr>fc_fix := fc_stop env (fc_fix c), fc_is_connected := False\<rparr>"

definition is_connected :: "'f fix_client \<Rightarrow> bool" where
  "is_connected c = fc_is_connected c"

definition get_session_id :: "'f fix_client_env \<Rightarrow> 'f fix_client \<Rightarrow> fix_session result" where
  "get_session_id env c =
     (case fc_sessions env (fc_fix c) of [] \<Rightarrow> Inl Runtime_Error | s # _ \<Rightarrow> Inr s)"

section \<open>Requests\<close>

definition client_side_text :: "'f fix_client_env \<Rightarrow> order_side \<Rightarrow> string" where
  "client_side_text env side = fc_side_text env (if side = OrderSide_BUY then FIX_Side_BUY else FIX_Side_SELL)"

definition create_new_order_fix_request ::
  "'f fix_client_env \<Rightarrow> string \<Rightarrow> rat \<Rightarrow> order_side \<Rightarrow> int \<Rightarrow> 'f fix_client \<Rightarrow> fix_message" where
  "create_new_order_fix_request env ticker quantity side client_order_id c =
     \<lparr>fm_header = Map.empty,
      fm_body = [Tag_Side \<mapsto> client_side_text env side, Tag_TransactTime \<mapsto> fc_transact_time env (fc_fix c),
                 Tag_Symbol \<mapsto> ticker, Tag_OrderQty \<mapsto> fc_double_text env quantity,
                 Tag_ClOrdID \<mapsto> show_int client_order_id]\<rparr>"

definition create_cancel_order_fix_request ::
  "'f fix_client_env \<Rightarrow> string \<Rightarrow> order_side \<Rightarrow> int \<Rightarrow> int \<Rightarrow> 'f fix_client \<Rightarrow> fix_message" where
  "create_cancel_order_fix_request env ticker side orig_client_order_id client_order_id c =
     \<lparr>fm_header = Map.empty,
      fm_body = [Tag_OrigClOrdID \<mapsto> show_int orig_client_order_id, Tag_ClOrdID \<mapsto> show_int client_order_id,
                 Tag_Symbol \<mapsto> ticker, Tag_Side \<mapsto> client_side_text env side,
                 Tag_TransactTime \<mapsto> fc_transact_time env (fc_fix c), Tag_OrderQty \<mapsto> fc_double_text env 0]\<rparr>"

definition set_field :: "fix_tag \<Rightarrow> string \<Rightarrow> fix_message \<Rightarrow> fix_message" where
  "set_field tag t msg = msg\<lparr>fm_body := (fm_body msg)(tag \<mapsto> t)\<rparr>"

text \<open>\<open>sendToTarget (message, get_session_id ())\<close> inside a \<open>try\<close> block that turns every exception into \<open>false\<close>.\<close>

definition send_request ::
  "'f fix_client_env \<Rightarrow> fix_message \<Rightarrow> 'f fix_client \<Rightarrow> bool \<times> 'f fix_client" where
  "send_request env msg c =
     (case get_session_id env c of
        Inl e \<Rightarrow> (False, c)
      | Inr s \<Rightarrow>
          (case fc_send_to_target env msg s (fc_fix c) of
             (None, fix) \<Rightarrow> (False, c\<lparr>fc_fix := fix\<rparr>)
           | (Some _, fix) \<Rightarrow> (True, c\<lparr>fc_fix := fix\<rparr>)))"

definition market_order_message ::
  "'f fix_client_env \<Rightarrow> string \<Rightarrow> rat \<Rightarrow> order_side \<Rightarrow> int \<Rightarrow> 'f fix_client \<Rightarrow> fix_message" where
  "market_order_message env ticker quantity side client_order_id c =
     set_field Tag_TimeInForce (fc_tif_text env FIX_TIF_GTC)
       (set_field Tag_OrdType (fc_ord_type_text env FIX_OrdType_MARKET)
         (create_new_order_fix_request env ticker quantity side client_order_id c))"

definition submit_market_order ::
  "'f fix_client_env \<Rightarrow> string \<Rightarrow> rat \<Rightarrow> order_side \<Rightarrow> int \<Rightarrow> 'f fix_client \<Rightarrow> bool \<times> 'f fix_client" where
  "submit_market_order env ticker quantity side client_order_id c =
     (if \<not> is_connected c then (False, c)
      else send_request env (market_order_message env ticker quantity side client_order_id c) c)"

definition limit_order_message ::
  "'f fix_client_env \<Rightarrow> string \<Rightarrow> rat \<Rightarrow> rat \<Rightarrow> order_side \<Rightarrow> int \<Rightarrow> 'f fix_client \<Rightarrow> fix_message" where
  "limit_order_message env ticker price quantity side client_order_id c =
     set_field Tag_OrdType (fc_ord_type_text env FIX_OrdType_LIMIT)
       (set_field Tag_Price (fc_double_text env price)
         (set_field Tag_TimeInForce (fc_tif_text env FIX_TIF_GTC)
           (create_new_order_fix_request env ticker quantity side client_order_id c)))"

definition submit_limit_order ::
  "'f fix_client_env \<Rightarrow> string \<Rightarrow> rat \<Rightarrow> rat \<Rightarrow> order_side \<Rightarrow> client_tif \<Rightarrow> int \<Rightarrow> 'f fix_client \<Rightarrow>
   bool \<times> 'f fix_client" where
  "submit_limit_order env ticker price quantity side time_in_force client_order_id c =
     (if \<not> is_connected c then (False, c)
      else if time_in_force \<noteq> TimeInForce_GTC then (False, c)
      else send_request env (limit_order_message env ticker price quantity side client_order_id c) c)"

definition client_cancel_order ::
  "'f fix_client_env \<Rightarrow> string \<Rightarrow> order_side \<Rightarrow> int \<Rightarrow> int \<Rightarrow> 'f fix_client \<Rightarrow> bool \<times> 'f fix_client" where
  "client_cancel_order env ticker side orig_client_order_id client_order_id c =
     (if \<not> is_connected c then (False, c)
      else send_request env
        (create_cancel_order_fix_request env ticker side orig_client_order_id client_order_id c) c)"

section \<open>Callbacks\<close>

text \<open>
  The \<open>switch\<close> of \<open>onMessage\<close>: the cases of a filled and a partially filled order have no \<open>break\<close>, so
  they run on into the case of a cancelled one; a status without a case leaves the member unassigned.
\<close>

fun report_status :: "fix_status \<Rightarrow> client_order_status option" where
  "report_status FIX_Status_NEW = Some OrderStatus_NEW"
| "report_status FIX_Status_FILL = Some OrderStatus_CANCELED"
| "report_status FIX_Status_PARTIAL_FILL = Some OrderStatus_CANCELED"
| "report_status FIX_Status_CANCELED = Some OrderStatus_CANCELED"
| "report_status FIX_Status_REJECTED = None"

definition read_execution_report ::
  "'f fix_client_env \<Rightarrow> fix_execution_report \<Rightarrow> gw_exception + client_report" where
  "read_execution_report env x =
     (case xr_order_qty x of
        None \<Rightarrow> Inl (Field_Not_Found Tag_OrderQty)
      | Some order_qty \<Rightarrow>
          (case xr_last_px x of
             None \<Rightarrow> Inl (Field_Not_Found Tag_LastPx)
           | Some last_px \<Rightarrow>
               gbind (of_result (stoi (xr_cl_ord_id x))) (\<lambda>client_order_id.
               gbind (field_value Tag_Side (fc_side env) (xr_side x)) (\<lambda>fside.
                 Inr \<lparr>cr_order_id = xr_order_id x, cr_client_order_id = client_order_id, cr_ticker = xr_symbol x,
                      cr_side = (if fside = FIX_Side_BUY then OrderSide_BUY else OrderSide_SELL),
                      cr_status = report_status (xr_ord_status x), cr_filled_qty = order_qty,
                      cr_last_px = last_px, cr_cumulated_filled_qty = xr_cum_qty x, cr_avg_px = None,
                      cr_remaining_qty = xr_leaves_qty x\<rparr>))))"

text \<open>The trader's \<open>on_order_update\<close> runs on what was read; an exception leaves its state alone.\<close>

definition on_execution_report ::
  "'f fix_client_env \<Rightarrow> (client_report \<Rightarrow> 's \<Rightarrow> 's result) \<Rightarrow> fix_execution_report \<Rightarrow> 's \<Rightarrow> gw_exception + 's" where
  "on_execution_report env on_order_update x s =
     gbind (read_execution_report env x) (\<lambda>r. of_result (on_order_update r s))"

definition on_cancel_reject ::
  "(int \<Rightarrow> string \<Rightarrow> 's \<Rightarrow> 's) \<Rightarrow> fix_cancel_reject \<Rightarrow> 's \<Rightarrow> gw_exception + 's" where
  "on_cancel_reject on_order_cancel_rejected x s =
     (case cj_cl_ord_id x of
        None \<Rightarrow> Inl (Field_Not_Found Tag_ClOrdID)
      | Some cl_ord_id \<Rightarrow>
          (case cj_text x of
             None \<Rightarrow> Inl (Field_Not_Found Tag_Text)
           | Some reason \<Rightarrow>
               gbind (of_result (stoi cl_ord_id)) (\<lambda>i. Inr (on_order_cancel_rejected i reason s))))"

section \<open>Connecting ends\<close>

text \<open>Once the clock has passed the deadline, \<open>connect\<close> has returned: connected, or with the timeout.\<close>

lemma connect_loop_returns:
  assumes "timeout < snd (obs n) - start" "i \<le> n"
  shows "connect_loop obs start timeout i = Some (Inr ()) \<and> (\<exists>k \<le> n. fst (obs k)) \<or>
    connect_loop obs start timeout i = Some (Inl Runtime_Error) \<and>
      (\<exists>k \<le> n. \<not> fst (obs k) \<and> timeout < snd (obs k) - start)"
  using assms(2)
proof (induction "n - i" arbitrary: i)
  case 0
  then have "i = n" by simp
  then show ?case using assms(1) by (subst (1 2) connect_loop.simps) auto
next
  case (Suc d)
  then have d: "d = n - Suc i" "Suc i \<le> n" by simp_all
  show ?case
  proof (cases "fst (obs i) \<or> timeout < snd (obs i) - start")
    case True
    then show ?thesis using \<open>i \<le> n\<close> by (subst (1 2) connect_loop.simps) auto
  next
    case False
    then show ?thesis using Suc.hyps(1) [OF d] by (subst (1 2) connect_loop.simps) simp
  qed
qed

section \<open>From the client to the order manager\<close>

lemmas request_defs =
  limit_order_message_def market_order_message_def create_new_order_fix_request_def set_field_def client_side_text_def

definition internal_side :: "order_side \<Rightarrow> side" where
  "internal_side s = (case s of OrderSide_BUY \<Rightarrow> Bid | OrderSide_SELL \<Rightarrow> Ask)"

text \<open>What QuickFIX writes it can read: the two ends agree on the text of a value.\<close>

definition texts_agree :: "'f fix_client_env \<Rightarrow> ('h, 'w, 'e, 'g) gateway_env \<Rightarrow> rat set \<Rightarrow> bool" where
  "texts_agree env genv xs \<longleftrightarrow>
     (\<forall>s \<in> {FIX_Side_BUY, FIX_Side_SELL}. gw_side genv (fc_side_text env s) = Some s) \<and>
     (\<forall>t \<in> {FIX_OrdType_LIMIT, FIX_OrdType_MARKET}. gw_ord_type genv (fc_ord_type_text env t) = Some t) \<and>
     gw_tif genv (fc_tif_text env FIX_TIF_GTC) = Some FIX_TIF_GTC \<and>
     (\<forall>x \<in> xs. gw_double genv (fc_double_text env x) = Some x)"

text \<open>The session adds its own names to the header; the body arrives as it was sent.\<close>

definition with_session :: "fix_session \<Rightarrow> fix_message \<Rightarrow> fix_message" where
  "with_session s msg =
     msg\<lparr>fm_header := (fm_header msg)(Tag_SenderCompID \<mapsto> fst s, Tag_TargetCompID \<mapsto> snd s)\<rparr>"

lemma gateway_reads_limit_order:
  fixes env :: "'f fix_client_env" and genv :: "('h, 'w, 'e, 'g) gateway_env"
  assumes agree: "texts_agree env genv {price, quantity}" and i: "in_i32 i"
    and p: "convert_to_internal_price price = Inr p" and q: "convert_to_internal_quantity quantity = Inr q"
  shows "fst (read_new_order genv (with_session s (limit_order_message env ticker price quantity side i c))) =
    Inr \<lparr>nos_sender_comp_id = fst s, nos_target_comp_id = snd s, nos_order_id = None, nos_cl_ord_id = i,
         nos_symbol = ticker, nos_side = internal_side side, nos_order_qty = q, nos_ord_type = Limit,
         nos_price = Some p, nos_time_in_force = Gtc\<rparr>"
  using agree p q stoi_show_int [OF i]
  by (cases side) (simp_all add: read_new_order_def request_defs with_session_def texts_agree_def field_text_def
    make_new_order_def gbind_def of_result_def field_value_def internal_side_def)

lemma gateway_reads_market_order:
  fixes env :: "'f fix_client_env" and genv :: "('h, 'w, 'e, 'g) gateway_env"
  assumes agree: "texts_agree env genv {quantity}" and i: "in_i32 i"
    and q: "convert_to_internal_quantity quantity = Inr q"
  shows "fst (read_new_order genv (with_session s (market_order_message env ticker quantity side i c))) =
    Inr \<lparr>nos_sender_comp_id = fst s, nos_target_comp_id = snd s, nos_order_id = None, nos_cl_ord_id = i,
         nos_symbol = ticker, nos_side = internal_side side, nos_order_qty = q, nos_ord_type = Market,
         nos_price = None, nos_time_in_force = Gtc\<rparr>"
  using agree q stoi_show_int [OF i]
  by (cases side) (simp_all add: read_new_order_def request_defs with_session_def texts_agree_def field_text_def
    make_new_order_def gbind_def of_result_def field_value_def internal_side_def)

lemma gateway_reads_cancel:
  fixes env :: "'f fix_client_env" and genv :: "('h, 'w, 'e, 'g) gateway_env"
  assumes agree: "texts_agree env genv {0}" and i: "in_i32 i" "in_i32 orig"
  shows "fst (read_cancel_request genv (with_session s (create_cancel_order_fix_request env ticker side orig i c))) =
    Inr \<lparr>cor_sender_comp_id = fst s, cor_target_comp_id = snd s, cor_order_id = None, cor_orig_cl_ord_id = orig,
         cor_cl_ord_id = i, cor_symbol = ticker, cor_side = internal_side side, cor_order_qty = 0\<rparr>"
proof -
  have "convert_to_internal_quantity 0 = Inr 0"
    by (simp add: convert_to_internal_quantity_def double_to_i32_def round_double_def in_i32_def)
  then show ?thesis
    using agree stoi_show_int [OF i(1)] stoi_show_int [OF i(2)]
    by (cases side) (simp_all add: read_cancel_request_def create_cancel_order_fix_request_def client_side_text_def
      with_session_def texts_agree_def field_text_def make_cancel_request_def gbind_def of_result_def
      field_value_def internal_side_def)
qed

lemma handle_read_Inr: "fst r = Inr x \<Longrightarrow> handle_read env exec_id con r gw = Inr (send_container env (con x) gw)"
  by (cases r) (simp add: handle_read_def)

text \<open>C34 (roundtrip). A limit order for \<open>n\<close> cents and \<open>q\<close> hundredths that a connected client submits is handed to its
  first session as one message, and the gateway that receives it passes on exactly that order: same
  ticker, side and client id, limit, good till cancelled, in the name of the session, with price and
  quantity unchanged or one unit short after their way through \<open>double\<close>.\<close>

theorem client_limit_order_reaches_the_order_manager:
  fixes env :: "'f fix_client_env" and genv :: "('h, 'w, 'e, 'g) gateway_env"
  assumes "is_connected c" "fc_sessions env (fc_fix c) = s # ss"
    and "\<forall>msg. fc_send_to_target env msg s (fc_fix c) = (Some True, sent msg)"
    and "texts_agree env genv {to_decimal n, to_decimal q}"
    and "0 \<le> n" "n < 2 ^ 31" "0 \<le> q" "q < 2 ^ 31" "in_i32 i"
  shows "\<exists>msg. \<exists>n' \<in> {n, n - 1}. \<exists>q' \<in> {q, q - 1}.
    submit_limit_order env ticker (to_decimal n) (to_decimal q) side TimeInForce_GTC i c =
      (True, c\<lparr>fc_fix := sent msg\<rparr>) \<and>
    on_new_order_single genv exec_id (with_session s msg) gw =
      Inr (send_container genv (New_Order_Single
        \<lparr>nos_sender_comp_id = fst s, nos_target_comp_id = snd s, nos_order_id = None, nos_cl_ord_id = i,
         nos_symbol = ticker, nos_side = internal_side side, nos_order_qty = q', nos_ord_type = Limit,
         nos_price = Some n', nos_time_in_force = Gtc\<rparr>) gw)"
proof -
  let ?msg = "limit_order_message env ticker (to_decimal n) (to_decimal q) side i c"
  obtain n' where n: "n' \<in> {n, n - 1}" "convert_to_internal_price (to_decimal n) = Inr n'"
    using convert_back [OF assms(5,6)] by blast
  obtain q' where q: "q' \<in> {q, q - 1}" "convert_to_internal_quantity (to_decimal q) = Inr q'"
    using convert_quantity_back [OF assms(7,8)] by blast
  have "submit_limit_order env ticker (to_decimal n) (to_decimal q) side TimeInForce_GTC i c =
      (True, c\<lparr>fc_fix := sent ?msg\<rparr>)"
    using assms(1-3) by (simp add: submit_limit_order_def send_request_def get_session_id_def)
  moreover note handle_read_Inr [OF gateway_reads_limit_order [OF assms(4,9) n(2) q(2), of s ticker side c]]
  ultimately show ?thesis
    using n(1) q(1) unfolding on_new_order_single_def by blast
qed

definition demo_client_env :: "fix_message list fix_client_env" where
  "demo_client_env =
     \<lparr>fc_side_text = (\<lambda>s. if s = FIX_Side_BUY then ''1'' else ''2''),
      fc_ord_type_text = (\<lambda>t. if t = FIX_OrdType_LIMIT then ''2'' else ''1''),
      fc_tif_text = (\<lambda>t. if t = FIX_TIF_GTC then ''1'' else ''0''),
      fc_double_text = (\<lambda>x. show_int \<lfloor>x\<rfloor>), fc_transact_time = (\<lambda>_. ''now''),
      fc_side = (\<lambda>t. if t = ''1'' then Some FIX_Side_BUY else if t = ''2'' then Some FIX_Side_SELL else None),
      fc_sessions = (\<lambda>_. [(''alice'', ''elsa'')]), fc_send_to_target = (\<lambda>m s f. (Some True, f @ [m])),
      fc_start = (\<lambda>f. f), fc_stop = (\<lambda>f. f)\<rparr>"

lemma demo_texts_agree: "texts_agree demo_client_env demo_gw_env {to_decimal 1000, to_decimal 300}"
proof -
  have "to_decimal 1000 = 10" "to_decimal 300 = 3" by code_simp+
  moreover have "stoi (show_int 10) = Inr 10" "stoi (show_int 3) = Inr 3" by (simp_all add: stoi_show_int in_i32_def)
  ultimately show ?thesis by (simp add: texts_agree_def demo_client_env_def demo_gw_env_def)
qed

theorem client_limit_order_reaches_the_order_manager_witness:
  "\<exists>msg. \<exists>n' \<in> {1000, 1000 - 1}. \<exists>q' \<in> {300, 300 - 1}.
    submit_limit_order demo_client_env ''GME'' (to_decimal 1000) (to_decimal 300) OrderSide_BUY TimeInForce_GTC 7
      (on_logon (make_fix_client [])) = (True, (on_logon (make_fix_client []))\<lparr>fc_fix := [msg]\<rparr>) \<and>
    on_new_order_single demo_gw_env ''x1'' (with_session (''alice'', ''elsa'') msg) demo_gw =
      Inr (send_container demo_gw_env (New_Order_Single
        \<lparr>nos_sender_comp_id = ''alice'', nos_target_comp_id = ''elsa'', nos_order_id = None, nos_cl_ord_id = 7,
         nos_symbol = ''GME'', nos_side = Bid, nos_order_qty = q', nos_ord_type = Limit,
         nos_price = Some n', nos_time_in_force = Gtc\<rparr>) demo_gw)"
  using client_limit_order_reaches_the_order_manager
    [of "on_logon (make_fix_client [])" demo_client_env "(''alice'', ''elsa'')" "[]" "\<lambda>m. [m]" demo_gw_env 1000 300 7
      "''GME''" OrderSide_BUY "''x1''" demo_gw] demo_texts_agree
  by (simp add: is_connected_def on_logon_def make_fix_client_def demo_client_env_def in_i32_def internal_side_def)

end
