(* ===== verification/MarketMaker.thy ===== *)
theory MarketMaker
  imports MdHandler FixClient
begin

text \<open>
  The market maker of \<open>simulation/traders/market_maker.h\<close>: \<open>MMFixClient\<close>, which keeps the inventory and
  the active orders, and \<open>MarketMaker\<close>, which quotes a ladder of five levels around an
  Avellaneda-Stoikov reservation price.

  Doubles are finite: where a division would give an infinity the model stops with
  \<open>Division_By_Zero\<close>. \<open>std::log\<close> and the elapsed time are arguments.
\<close>

section \<open>The client of the market maker\<close>

record 'f mm_client =
  mmc_fix :: "'f fix_client"
  mmc_inventory :: "string \<rightharpoonup> rat"
  mmc_active_orders :: "string \<rightharpoonup> (int \<times> order_side) list"
  mmc_order_id_counter :: int

definition make_mm_client :: "'f \<Rightarrow> 'f mm_client" where
  "make_mm_client fix =
     \<lparr>mmc_fix = make_fix_client fix, mmc_inventory = Map.empty, mmc_active_orders = Map.empty,
      mmc_order_id_counter = 0\<rparr>"

text \<open>\<open>std::atomic<int>\<close> wraps around.\<close>

definition wrap_i32 :: "int \<Rightarrow> int" where
  "wrap_i32 x = (x + 2147483648) mod 4294967296 - 2147483648"

definition mm_send_order ::
  "'f fix_client_env \<Rightarrow> string \<Rightarrow> rat \<Rightarrow> rat \<Rightarrow> string \<Rightarrow> 'f mm_client \<Rightarrow> 'f mm_client" where
  "mm_send_order env ticker price quantity side c =
     (if \<not> is_connected (mmc_fix c) then c
      else
        let order_side = (if side = ''BUY'' then OrderSide_BUY else OrderSide_SELL);
            client_order_id = wrap_i32 (mmc_order_id_counter c + 1);
            fix = snd (submit_limit_order env ticker price quantity order_side TimeInForce_GTC client_order_id (mmc_fix c))
        in c\<lparr>mmc_order_id_counter := client_order_id, mmc_fix := fix,
             mmc_active_orders := (mmc_active_orders c)
               (ticker \<mapsto> at_default [] (mmc_active_orders c) ticker @ [(client_order_id, order_side)])\<rparr>)"

fun cancel_loop ::
  "'f fix_client_env \<Rightarrow> string \<Rightarrow> (int \<times> order_side) list \<Rightarrow> 'f mm_client \<Rightarrow> 'f mm_client" where
  "cancel_loop env ticker [] c = c"
| "cancel_loop env ticker ((oid, side) # orders) c =
     (let cancel_id = wrap_i32 (mmc_order_id_counter c + 1)
      in cancel_loop env ticker orders
           (c\<lparr>mmc_order_id_counter := cancel_id,
              mmc_fix := snd (client_cancel_order env ticker side oid cancel_id (mmc_fix c))\<rparr>))"

definition cancel_all_orders :: "'f fix_client_env \<Rightarrow> string \<Rightarrow> 'f mm_client \<Rightarrow> 'f mm_client" where
  "cancel_all_orders env ticker c =
     (let orders = at_default [] (mmc_active_orders c) ticker;
          c1 = c\<lparr>mmc_active_orders := (mmc_active_orders c)(ticker \<mapsto> orders)\<rparr>
      in if orders \<noteq> [] then
           let c2 = cancel_loop env ticker orders c1
           in c2\<lparr>mmc_active_orders := (mmc_active_orders c2)(ticker \<mapsto> [])\<rparr>
         else c1)"

definition mm_get_inventory :: "string \<Rightarrow> 'f mm_client \<Rightarrow> rat \<times> 'f mm_client" where
  "mm_get_inventory ticker c =
     (let q = at_default 0 (mmc_inventory c) ticker in (q, c\<lparr>mmc_inventory := (mmc_inventory c)(ticker \<mapsto> q)\<rparr>))"

definition mm_set_inventory :: "string \<Rightarrow> rat \<Rightarrow> 'f mm_client \<Rightarrow> 'f mm_client" where
  "mm_set_inventory ticker q c = c\<lparr>mmc_inventory := (mmc_inventory c)(ticker \<mapsto> q)\<rparr>"

text \<open>
  The change of the inventory on a report, the same in both trader clients. Reading the status when it
  was never assigned is undefined.
\<close>

definition update_inventory :: "client_report \<Rightarrow> (string \<rightharpoonup> rat) \<Rightarrow> (string \<rightharpoonup> rat) result" where
  "update_inventory report stock =
     rbind (opt_at Indeterminate_Value (cr_status report)) (\<lambda>status.
       if status = OrderStatus_FILLED \<or> status = OrderStatus_PARTIALLY_FILLED then
         let q = at_default 0 stock (cr_ticker report)
         in Inr (stock(cr_ticker report \<mapsto>
              (if cr_side report = OrderSide_BUY then dbl_add q (cr_filled_qty report)
               else dbl_sub q (cr_filled_qty report))))
       else Inr stock)"

definition mm_on_order_update :: "client_report \<Rightarrow> 'f mm_client \<Rightarrow> 'f mm_client result" where
  "mm_on_order_update report c =
     rbind (update_inventory report (mmc_inventory c)) (\<lambda>stock. Inr (c\<lparr>mmc_inventory := stock\<rparr>))"

section \<open>Quotes\<close>

record market_maker =
  mm_initial_inventory :: rat
  mm_lot_size :: rat
  mm_gamma :: rat
  mm_k :: rat
  mm_terminal_time :: rat
  mm_tickers :: "string list"

text \<open>\<open>std::max\<close>.\<close>

definition cpp_max :: "rat \<Rightarrow> rat \<Rightarrow> rat" where
  "cpp_max a b = (if a < b then b else a)"

definition dbl_div_finite :: "rat \<Rightarrow> rat \<Rightarrow> rat result" where
  "dbl_div_finite x y = (if y = 0 then Inl Division_By_Zero else Inr (dbl_div x y))"

definition mm_start :: "string list \<Rightarrow> market_maker \<Rightarrow> 'f mm_client \<Rightarrow> market_maker \<times> 'f mm_client" where
  "mm_start tickers mm c =
     (mm\<lparr>mm_tickers := tickers\<rparr>,
      fold (\<lambda>ticker. mm_set_inventory ticker (mm_initial_inventory mm)) tickers c)"

definition level_spacing :: "rat \<Rightarrow> rat" where
  "level_spacing spread = cpp_max (dbl (5 / 100)) (dbl_mul spread (25 / 100))"

definition bid_level :: "rat \<Rightarrow> rat \<Rightarrow> nat \<Rightarrow> rat" where
  "bid_level bid_price spacing i = dbl_sub bid_price (dbl_mul (of_nat i) spacing)"

definition ask_level :: "rat \<Rightarrow> rat \<Rightarrow> nat \<Rightarrow> rat" where
  "ask_level ask_price spacing i = dbl_add ask_price (dbl_mul (of_nat i) spacing)"

definition level_qty :: "rat \<Rightarrow> nat \<Rightarrow> rat" where
  "level_qty lot i = dbl_mul lot (dbl_add 1 (dbl_mul (of_nat i) (1 / 2)))"

definition num_levels :: nat where
  "num_levels = 5"

definition quote_level ::
  "'f fix_client_env \<Rightarrow> market_maker \<Rightarrow> string \<Rightarrow> rat \<Rightarrow> rat \<Rightarrow> rat \<Rightarrow> nat \<Rightarrow> 'f mm_client \<Rightarrow> 'f mm_client" where
  "quote_level env mm ticker bid_price ask_price spacing i c =
     mm_send_order env ticker (ask_level ask_price spacing i) (level_qty (mm_lot_size mm) i) ''SELL''
       (mm_send_order env ticker (bid_level bid_price spacing i) (level_qty (mm_lot_size mm) i) ''BUY'' c)"

definition place_quotes ::
  "'f fix_client_env \<Rightarrow> market_maker \<Rightarrow> string \<Rightarrow> rat \<Rightarrow> rat \<Rightarrow> rat \<Rightarrow> 'f mm_client \<Rightarrow> 'f mm_client" where
  "place_quotes env mm ticker bid_price ask_price spread c =
     fold (quote_level env mm ticker bid_price ask_price (level_spacing spread)) [0..<num_levels]
       (cancel_all_orders env ticker c)"

text \<open>The prices of \<open>make_market\<close>: bid, ask and spread.\<close>

definition optimal_quotes ::
  "(rat \<Rightarrow> rat) \<Rightarrow> market_maker \<Rightarrow> rat \<Rightarrow> rat \<Rightarrow> rat \<Rightarrow> rat \<Rightarrow> (rat \<times> rat \<times> rat) result" where
  "optimal_quotes logf mm mid variance q elapsed =
     (let q_centered = dbl_sub q (mm_initial_inventory mm) in
      rbind (dbl_div_finite (dbl_sub (mm_terminal_time mm) elapsed) (mm_terminal_time mm)) (\<lambda>t.
      let time_left = cpp_max 0 t;
          reservation_price = dbl_sub mid (dbl_mul (dbl_mul (dbl_mul q_centered (mm_gamma mm)) variance) time_left) in
      rbind (dbl_div_finite 2 (mm_gamma mm)) (\<lambda>g.
      rbind (dbl_div_finite (mm_gamma mm) (mm_k mm)) (\<lambda>gk.
      let spread = dbl_add (dbl_mul (dbl_mul (mm_gamma mm) variance) time_left) (dbl_mul g (logf (dbl_add 1 gk))) in
      Inr (dbl_sub reservation_price (dbl_div spread 2), dbl_add reservation_price (dbl_div spread 2), spread)))))"

definition make_market ::
  "'f fix_client_env \<Rightarrow> (rat \<Rightarrow> rat) \<Rightarrow> rat \<Rightarrow> market_maker \<Rightarrow> string \<Rightarrow> md_handler \<times> 'f mm_client \<Rightarrow>
   (md_handler \<times> 'f mm_client) result" where
  "make_market env logf elapsed mm ticker s =
     (case s of (h, c) \<Rightarrow>
        case get_latest_orderbook ticker h of (ob, h1) \<Rightarrow>
        let mid = (if mid_price ob = 0 then 100 else mid_price ob) in
        case calculate_variance ticker h1 of (v, h2) \<Rightarrow>
        let variance = (if v = 0 then dbl (1 / 100) else v) in
        case mm_get_inventory ticker c of (q, c1) \<Rightarrow>
        rbind (optimal_quotes logf mm mid variance q elapsed) (\<lambda>(bid, ask, spread).
          Inr (h2, place_quotes env mm ticker bid ask spread c1)))"

section \<open>The ladder\<close>

lemma level_spacing_pos: "0 < level_spacing spread"
proof -
  have "0 < dbl (5 / 100)" by (simp add: dbl_def round_double_pos)
  then show ?thesis by (auto simp: level_spacing_def cpp_max_def)
qed

lemma bid_level_mono: "i \<le> j \<Longrightarrow> 0 \<le> sp \<Longrightarrow> bid_level b sp j \<le> bid_level b sp i"
  by (simp add: bid_level_def dbl_sub_def round_double_mono dbl_mul_mono)

lemma ask_level_mono: "i \<le> j \<Longrightarrow> 0 \<le> sp \<Longrightarrow> ask_level a sp i \<le> ask_level a sp j"
  by (simp add: ask_level_def dbl_add_def round_double_mono dbl_mul_mono)

text \<open>A level's price is the quote moved by the level times the spacing, up to the two roundings; so levels are
  apart as soon as the quote is below \<open>2 ^ 51\<close> spacings.\<close>

lemma dbl_mul_error: "\<bar>dbl_mul x y - x * y\<bar> \<le> \<bar>x * y\<bar> / 2 ^ 53"
  using round_double_error [of "x * y"] by (simp add: dbl_mul_def)

lemma shifted_error:
  fixes b x y :: rat
  assumes "\<bar>y - x\<bar> \<le> x / 2 ^ 53" "0 \<le> x" "\<bar>r - (b + s * y)\<bar> \<le> \<bar>b + s * y\<bar> / 2 ^ 53" "s = 1 \<or> s = - 1"
  shows "\<bar>r - (b + s * x)\<bar> \<le> (\<bar>b\<bar> + 3 * x) / 2 ^ 53"
proof -
  have "x / 2 ^ 53 \<le> x" using assms(2) by simp
  then have y: "\<bar>y\<bar> \<le> 2 * x" using assms(2) abs_le_D1 [OF assms(1)] abs_le_D2 [OF assms(1)] by (intro abs_leI) linarith+
  have sy: "\<bar>s * y\<bar> = \<bar>y\<bar>" "\<bar>s * y - s * x\<bar> = \<bar>y - x\<bar>" using assms(4) by auto
  have "\<bar>b + s * y\<bar> \<le> \<bar>b\<bar> + 2 * x" using abs_triangle_ineq [of b "s * y"] sy(1) y by linarith
  then have "\<bar>r - (b + s * y)\<bar> \<le> (\<bar>b\<bar> + 2 * x) / 2 ^ 53"
    using assms(3) by (simp add: field_simps)
  moreover have "\<bar>s * y - s * x\<bar> \<le> x / 2 ^ 53" using assms(1) sy(2) by simp
  moreover have "(\<bar>b\<bar> + 2 * x) / 2 ^ 53 + x / 2 ^ 53 = (\<bar>b\<bar> + 3 * x) / 2 ^ 53" by (simp add: field_simps)
  ultimately show ?thesis by linarith
qed

lemma level_error:
  assumes "0 \<le> sp"
  shows "\<bar>bid_level b sp i - (b - of_nat i * sp)\<bar> \<le> (\<bar>b\<bar> + 3 * (of_nat i * sp)) / 2 ^ 53"
    and "\<bar>ask_level b sp i - (b + of_nat i * sp)\<bar> \<le> (\<bar>b\<bar> + 3 * (of_nat i * sp)) / 2 ^ 53"
proof -
  let ?x = "of_nat i * sp" and ?y = "dbl_mul (of_nat i) sp"
  have x: "0 \<le> ?x" "\<bar>?y - ?x\<bar> \<le> ?x / 2 ^ 53" using assms dbl_mul_error [of "of_nat i" sp] by simp_all
  show "\<bar>bid_level b sp i - (b - of_nat i * sp)\<bar> \<le> (\<bar>b\<bar> + 3 * (of_nat i * sp)) / 2 ^ 53"
    using shifted_error [OF x(2,1), of "bid_level b sp i" b "- 1"] round_double_error [of "b - ?y"]
    by (simp add: bid_level_def dbl_sub_def)
  show "\<bar>ask_level b sp i - (b + of_nat i * sp)\<bar> \<le> (\<bar>b\<bar> + 3 * (of_nat i * sp)) / 2 ^ 53"
    using shifted_error [OF x(2,1), of "ask_level b sp i" b 1] round_double_error [of "b + ?y"]
    by (simp add: ask_level_def dbl_add_def)
qed

lemma spacing_dominates_error:
  assumes "i < 4" "\<bar>b\<bar> \<le> 2 ^ 51 * sp" "0 < sp"
  shows "(\<bar>b\<bar> + 3 * (of_nat i * sp)) / 2 ^ 53 + (\<bar>b\<bar> + 3 * (of_nat (Suc i) * sp)) / 2 ^ 53 < (sp :: rat)"
proof -
  define u where "u = of_nat i * sp"
  have "of_nat i \<le> (3 :: rat)" using assms(1) by simp
  then have u: "u \<le> 3 * sp" unfolding u_def using assms(3) by (intro mult_right_mono) simp_all
  have s: "of_nat (Suc i) * sp = u + sp" by (simp add: u_def algebra_simps)
  have "(\<bar>b\<bar> + 3 * u) + (\<bar>b\<bar> + 3 * (u + sp)) \<le> 4503599627370517 * sp"
    using assms(2) u by (simp add: algebra_simps)
  also have "\<dots> < sp * 9007199254740992" using assms(3) by simp
  finally have "(\<bar>b\<bar> + 3 * u) + (\<bar>b\<bar> + 3 * (u + sp)) < sp * 9007199254740992" .
  then show ?thesis unfolding s u_def [symmetric] by (simp add: add_divide_distrib [symmetric] pos_divide_less_eq)
qed

lemma levels_apart:
  assumes "i < 4" "\<bar>b\<bar> \<le> 2 ^ 51 * sp" "0 < sp"
  shows "bid_level b sp (Suc i) < bid_level b sp i" "ask_level b sp i < ask_level b sp (Suc i)"
proof -
  define e0 e1 where "e0 = (\<bar>b\<bar> + 3 * (of_nat i * sp)) / 2 ^ 53" and "e1 = (\<bar>b\<bar> + 3 * (of_nat (Suc i) * sp)) / 2 ^ 53"
  have d: "e0 + e1 < sp" unfolding e0_def e1_def by (rule spacing_dominates_error [OF assms])
  have s: "of_nat (Suc i) * sp = of_nat i * sp + sp" by (simp add: algebra_simps)
  have sp: "0 \<le> sp" using assms(3) by simp
  note errors = level_error [OF sp, of b i, folded e0_def] level_error [OF sp, of b "Suc i", folded e1_def]
  show "bid_level b sp (Suc i) < bid_level b sp i"
    using abs_le_D2 [OF errors(1)] abs_le_D1 [OF errors(3)] d s by linarith
  show "ask_level b sp i < ask_level b sp (Suc i)"
    using abs_le_D1 [OF errors(2)] abs_le_D2 [OF errors(4)] d s by linarith
qed

lemma spacing_floor: "1 / 32 \<le> level_spacing spread"
proof -
  have "1 / 32 \<le> dbl (5 / 100)"
    using abs_le_D2 [OF round_double_error [of "5 / 100"]] by (simp add: dbl_def)
  then show ?thesis by (auto simp: level_spacing_def cpp_max_def)
qed

lemma bid_below_ask:
  assumes "b \<le> a" "0 \<le> sp"
  shows "bid_level b sp i \<le> ask_level a sp j"
proof -
  have "bid_level b sp i \<le> round_double b" unfolding bid_level_def
    by (rule dbl_sub_le) (use assms(2) in \<open>simp add: dbl_mul_nonneg\<close>)
  also have "\<dots> \<le> round_double a" using assms(1) by (rule round_double_mono)
  also have "\<dots> \<le> ask_level a sp j" unfolding ask_level_def
    by (rule dbl_add_ge) (use assms(2) in \<open>simp add: dbl_mul_nonneg\<close>)
  finally show ?thesis .
qed

lemma optimal_quotes_ordered:
  assumes "0 < mm_gamma mm" "0 < mm_k mm" "mm_terminal_time mm \<noteq> 0" "0 \<le> variance" "\<forall>x \<ge> 1. 0 \<le> logf x"
  obtains bid ask spread where "optimal_quotes logf mm mid variance q elapsed = Inr (bid, ask, spread)" "bid \<le> ask"
proof -
  have r1: "round_double 1 = 1" using round_double_power_of_two [of 0] by simp
  have "1 \<le> dbl_add 1 (dbl_div (mm_gamma mm) (mm_k mm))"
    using dbl_add_ge [of "dbl_div (mm_gamma mm) (mm_k mm)" 1] assms(1,2) by (simp add: r1 dbl_div_def round_double_sgn)
  then have "0 \<le> dbl_mul (dbl_div 2 (mm_gamma mm)) (logf (dbl_add 1 (dbl_div (mm_gamma mm) (mm_k mm))))"
    using assms(1,5) by (simp add: dbl_mul_nonneg dbl_div_def round_double_sgn)
  moreover have "0 \<le> dbl_mul (dbl_mul (mm_gamma mm) variance) t" if "0 \<le> t" for t
    using that assms(1,4) by (simp add: dbl_mul_nonneg)
  ultimately have spread: "0 \<le> dbl_add (dbl_mul (dbl_mul (mm_gamma mm) variance) (cpp_max 0 t))
      (dbl_mul (dbl_div 2 (mm_gamma mm)) (logf (dbl_add 1 (dbl_div (mm_gamma mm) (mm_k mm)))))" for t
    by (simp add: dbl_add_def round_double_sgn cpp_max_def)
  have "dbl_sub r (dbl_div sp 2) \<le> dbl_add r (dbl_div sp 2)" if "0 \<le> sp" for r sp
    using that round_double_sgn(1) [of "sp / 2"] by (simp add: dbl_sub_def dbl_add_def dbl_div_def round_double_mono)
  then show ?thesis
    using assms(1-3) spread that by (simp add: optimal_quotes_def dbl_div_finite_def Let_def)
qed

section \<open>What the market maker sends\<close>

text \<open>
  A session that takes every message. The transaction time of a message is left out of the
  comparison.
\<close>

definition recording :: "fix_message list fix_client_env \<Rightarrow> bool" where
  "recording env \<longleftrightarrow>
     (\<forall>f. fc_sessions env f \<noteq> []) \<and> (\<forall>m s f. fc_send_to_target env m s f = (Some True, f @ [m]))"

definition untimed :: "fix_message \<Rightarrow> fix_message" where
  "untimed msg = msg\<lparr>fm_body := (fm_body msg)(Tag_TransactTime := None)\<rparr>"

definition limit_msg ::
  "fix_message list fix_client_env \<Rightarrow> string \<Rightarrow> rat \<Rightarrow> rat \<Rightarrow> order_side \<Rightarrow> int \<Rightarrow> fix_message" where
  "limit_msg env ticker price quantity side i =
     untimed (limit_order_message env ticker price quantity side i (make_fix_client []))"

definition cancel_msg ::
  "fix_message list fix_client_env \<Rightarrow> string \<Rightarrow> order_side \<Rightarrow> int \<Rightarrow> int \<Rightarrow> fix_message" where
  "cancel_msg env ticker side orig i =
     untimed (create_cancel_order_fix_request env ticker side orig i (make_fix_client []))"

abbreviation sent :: "fix_message list mm_client \<Rightarrow> fix_message list" where
  "sent c \<equiv> map untimed (fc_fix (mmc_fix c))"

abbreviation active :: "string \<Rightarrow> 'f mm_client \<Rightarrow> (int \<times> order_side) list" where
  "active ticker c \<equiv> at_default [] (mmc_active_orders c) ticker"

lemma untimed_limit: "untimed (limit_order_message env ticker price quantity side i c) = limit_msg env ticker price quantity side i"
  by (simp add: limit_msg_def untimed_def request_defs fun_eq_iff)

lemma untimed_cancel: "untimed (create_cancel_order_fix_request env ticker side orig i c) = cancel_msg env ticker side orig i"
  by (simp add: cancel_msg_def untimed_def create_cancel_order_fix_request_def fun_eq_iff)

lemma wrap_i32_wrap [simp]: "wrap_i32 (wrap_i32 x + k) = wrap_i32 (x + k)"
  by (simp add: wrap_i32_def mod_simps algebra_simps)

lemma wrap_i32_id: "in_i32 x \<Longrightarrow> wrap_i32 x = x"
  by (simp add: wrap_i32_def in_i32_def)

fun cancel_msgs where
  "cancel_msgs env ticker n [] = []"
| "cancel_msgs env ticker n ((oid, side) # orders) =
     cancel_msg env ticker side oid (wrap_i32 (n + 1)) # cancel_msgs env ticker (n + 1) orders"

lemma send_request_recording:
  "recording env \<Longrightarrow> send_request env msg c = (True, c\<lparr>fc_fix := fc_fix c @ [msg]\<rparr>)"
  by (auto simp: send_request_def get_session_id_def recording_def split: list.splits)

lemma cancel_loop_sends:
  assumes "recording env" "is_connected (mmc_fix c)" "mmc_order_id_counter c = wrap_i32 n"
  shows "sent (cancel_loop env ticker orders c) = sent c @ cancel_msgs env ticker n orders \<and>
    is_connected (mmc_fix (cancel_loop env ticker orders c)) \<and>
    mmc_order_id_counter (cancel_loop env ticker orders c) = wrap_i32 (n + int (length orders)) \<and>
    mmc_active_orders (cancel_loop env ticker orders c) = mmc_active_orders c"
  using assms(2,3)
proof (induction orders arbitrary: c n)
  case (Cons o' orders)
  obtain oid side where o': "o' = (oid, side)" by force
  let ?c = "c\<lparr>mmc_order_id_counter := wrap_i32 (n + 1),
    mmc_fix := snd (client_cancel_order env ticker side oid (wrap_i32 (n + 1)) (mmc_fix c))\<rparr>"
  have c: "is_connected (mmc_fix ?c)" "sent ?c = sent c @ [cancel_msg env ticker side oid (wrap_i32 (n + 1))]"
    using Cons.prems assms(1)
    by (simp_all add: client_cancel_order_def send_request_recording is_connected_def untimed_cancel)
  show ?case
    using Cons.IH [of ?c "n + 1"] c Cons.prems(2) by (simp add: o' Let_def add.assoc)
qed (simp_all add: assms)

fun ladder_msgs where
  "ladder_msgs env ticker lot bid ask sp n [] = []"
| "ladder_msgs env ticker lot bid ask sp n (i # is) =
     limit_msg env ticker (bid_level bid sp i) (level_qty lot i) OrderSide_BUY (wrap_i32 (n + 1)) #
     limit_msg env ticker (ask_level ask sp i) (level_qty lot i) OrderSide_SELL (wrap_i32 (n + 2)) #
     ladder_msgs env ticker lot bid ask sp (n + 2) is"

fun ladder_ids :: "int \<Rightarrow> nat list \<Rightarrow> (int \<times> order_side) list" where
  "ladder_ids n [] = []"
| "ladder_ids n (i # is) =
     (wrap_i32 (n + 1), OrderSide_BUY) # (wrap_i32 (n + 2), OrderSide_SELL) # ladder_ids (n + 2) is"

lemma mm_send_order_recording:
  assumes "recording env" "is_connected (mmc_fix c)" "mmc_order_id_counter c = wrap_i32 n"
  shows "mm_send_order env ticker price quantity side c =
    (let sd = (if side = ''BUY'' then OrderSide_BUY else OrderSide_SELL); i = wrap_i32 (n + 1) in
     c\<lparr>mmc_order_id_counter := i,
       mmc_fix := (mmc_fix c)\<lparr>fc_fix := fc_fix (mmc_fix c) @ [limit_order_message env ticker price quantity sd i (mmc_fix c)]\<rparr>,
       mmc_active_orders := (mmc_active_orders c)(ticker \<mapsto> active ticker c @ [(i, sd)])\<rparr>)"
  using assms by (simp add: mm_send_order_def submit_limit_order_def send_request_recording Let_def)

lemma ladder_sends:
  assumes "recording env" "is_connected (mmc_fix c)" "mmc_order_id_counter c = wrap_i32 n"
  shows "sent (fold (quote_level env mm ticker bid ask sp) is c) =
      sent c @ ladder_msgs env ticker (mm_lot_size mm) bid ask sp n is \<and>
    active ticker (fold (quote_level env mm ticker bid ask sp) is c) = active ticker c @ ladder_ids n is"
  using assms(2,3)
proof (induction "is" arbitrary: c n)
  case (Cons i "is")
  let ?q = "level_qty (mm_lot_size mm) i"
  let ?c = "quote_level env mm ticker bid ask sp i c"
  have c1: "is_connected (mmc_fix (mm_send_order env ticker (bid_level bid sp i) ?q ''BUY'' c))"
    "mmc_order_id_counter (mm_send_order env ticker (bid_level bid sp i) ?q ''BUY'' c) = wrap_i32 (n + 1)"
    using Cons.prems assms(1) by (simp_all add: mm_send_order_recording Let_def is_connected_def)
  have c2: "is_connected (mmc_fix ?c)" "mmc_order_id_counter ?c = wrap_i32 (n + 2)"
    "sent ?c = sent c @ [limit_msg env ticker (bid_level bid sp i) ?q OrderSide_BUY (wrap_i32 (n + 1)),
      limit_msg env ticker (ask_level ask sp i) ?q OrderSide_SELL (wrap_i32 (n + 2))]"
    "active ticker ?c = active ticker c @ [(wrap_i32 (n + 1), OrderSide_BUY), (wrap_i32 (n + 2), OrderSide_SELL)]"
    using Cons.prems assms(1) c1
    unfolding quote_level_def mm_send_order_recording [OF assms(1) c1]
    by (simp_all add: mm_send_order_recording Let_def is_connected_def untimed_limit add.commute)
  show ?case using Cons.IH [OF c2(1,2)] c2(3,4) by simp
qed simp

lemma place_quotes_sends:
  assumes "recording env" "is_connected (mmc_fix c)" "in_i32 (mmc_order_id_counter c)"
  shows "let old = active ticker c; n = mmc_order_id_counter c; c' = place_quotes env mm ticker bid ask spread c in
    sent c' = sent c @ cancel_msgs env ticker n old @
      ladder_msgs env ticker (mm_lot_size mm) bid ask (level_spacing spread) (n + int (length old)) [0..<num_levels] \<and>
    active ticker c' = ladder_ids (n + int (length old)) [0..<num_levels]"
proof -
  let ?old = "active ticker c" and ?n = "mmc_order_id_counter c"
  let ?d = "cancel_all_orders env ticker c"
  let ?c1 = "c\<lparr>mmc_active_orders := (mmc_active_orders c)(ticker \<mapsto> ?old)\<rparr>"
  have n: "mmc_order_id_counter c = wrap_i32 ?n" using assms(3) by (simp add: wrap_i32_id)
  have l: "sent (cancel_loop env ticker ?old ?c1) = sent c @ cancel_msgs env ticker ?n ?old"
    "is_connected (mmc_fix (cancel_loop env ticker ?old ?c1))"
    "mmc_order_id_counter (cancel_loop env ticker ?old ?c1) = wrap_i32 (?n + int (length ?old))"
    using cancel_loop_sends [OF assms(1), of ?c1 ?n ticker ?old] assms(2) n by simp_all
  have d: "sent ?d = sent c @ cancel_msgs env ticker ?n ?old" "is_connected (mmc_fix ?d)"
    "mmc_order_id_counter ?d = wrap_i32 (?n + int (length ?old))" "active ticker ?d = []"
    using l assms(2) n by (auto simp: cancel_all_orders_def Let_def)
  show ?thesis
    using ladder_sends [OF assms(1) d(2,3), of mm ticker bid ask "level_spacing spread" "[0..<num_levels]"] d(1,4)
    by (simp add: place_quotes_def Let_def)
qed

text \<open>C36 (functional). A connected market maker replaces its quotes: for every order it holds active it sends one cancel
  request, then five bids and five asks under the next ten ids, and these ten are what it holds
  active afterwards. The best bid and ask are the optimal quotes for the mid price, the variance and the
  inventory it reads; the price of level \<open>i\<close> is the quote moved away by \<open>i\<close> times the spacing, with an
  error of at most \<open>(quote + 3 i spacing) / 2 ^ 53\<close> from the roundings of \<open>double\<close>; so from level to
  level bids fall and asks rise strictly, for quotes up to \<open>2 ^ 46\<close>; and no bid is above any ask.\<close>

theorem make_market_replaces_its_quotes:
  assumes "recording env" "is_connected (mmc_fix c)" "in_i32 (mmc_order_id_counter c)"
    and "0 < mm_gamma mm" "0 < mm_k mm" "mm_terminal_time mm \<noteq> 0" "\<forall>x \<ge> 1. 0 \<le> logf x"
    and mid: "mid = (let m = mid_price (fst (get_latest_orderbook ticker h)) in if m = 0 then 100 else m)"
    and var: "variance = (let v = fst (calculate_variance ticker (snd (get_latest_orderbook ticker h))) in
      if v = 0 then dbl (1 / 100) else v)"
  shows "\<exists>bid ask spread sp h' c'. make_market env logf elapsed mm ticker (h, c) = Inr (h', c') \<and>
    optimal_quotes logf mm mid variance (fst (mm_get_inventory ticker c)) elapsed = Inr (bid, ask, spread) \<and>
    sp = level_spacing spread \<and> 1 / 32 \<le> sp \<and>
    (let old = active ticker c; n = mmc_order_id_counter c in
     sent c' = sent c @ cancel_msgs env ticker n old @
       ladder_msgs env ticker (mm_lot_size mm) bid ask sp (n + int (length old)) [0..<5] \<and>
     active ticker c' = ladder_ids (n + int (length old)) [0..<5]) \<and>
    (\<forall>i. \<bar>bid_level bid sp i - (bid - of_nat i * sp)\<bar> \<le> (\<bar>bid\<bar> + 3 * (of_nat i * sp)) / 2 ^ 53 \<and>
         \<bar>ask_level ask sp i - (ask + of_nat i * sp)\<bar> \<le> (\<bar>ask\<bar> + 3 * (of_nat i * sp)) / 2 ^ 53) \<and>
    (\<bar>bid\<bar> \<le> 2 ^ 46 \<longrightarrow> (\<forall>i < 4. bid_level bid sp (Suc i) < bid_level bid sp i)) \<and>
    (\<bar>ask\<bar> \<le> 2 ^ 46 \<longrightarrow> (\<forall>i < 4. ask_level ask sp i < ask_level ask sp (Suc i))) \<and>
    (\<forall>i j. bid_level bid sp i \<le> ask_level ask sp j)"
proof -
  obtain ob h1 where ob: "get_latest_orderbook ticker h = (ob, h1)" by force
  obtain v h2 where v: "calculate_variance ticker h1 = (v, h2)" by force
  obtain q c1 where q: "mm_get_inventory ticker c = (q, c1)" by force
  have c1: "is_connected (mmc_fix c1)" "mmc_order_id_counter c1 = mmc_order_id_counter c"
    "sent c1 = sent c" "active ticker c1 = active ticker c"
    using q assms(2) by (auto simp: mm_get_inventory_def Let_def)
  have "0 \<le> v" using v by (auto simp: calculate_variance_def get_variance_def Let_def)
  moreover have "0 < dbl (1 / 100)" by (simp add: dbl_def round_double_pos)
  ultimately have "0 \<le> variance" using var by (simp add: ob v)
  then obtain bid ask spread where bas:
    "optimal_quotes logf mm mid variance q elapsed = Inr (bid, ask, spread)" "bid \<le> ask"
    using optimal_quotes_ordered [OF assms(4-6) _ assms(7)] by metis
  have m: "make_market env logf elapsed mm ticker (h, c) = Inr (h2, place_quotes env mm ticker bid ask spread c1)"
    using bas(1) mid var by (simp add: make_market_def ob v q Let_def)
  define sp where "sp = level_spacing spread"
  have sp: "0 < sp" "1 / 32 \<le> sp" using level_spacing_pos [of spread] spacing_floor [of spread] by (simp_all add: sp_def)
  have far: "\<bar>x\<bar> \<le> 2 ^ 51 * sp" if "\<bar>x\<bar> \<le> 2 ^ 46" for x
    using that sp(2) by simp
  have ladder: "let old = active ticker c; n = mmc_order_id_counter c in
     sent (place_quotes env mm ticker bid ask spread c1) = sent c @ cancel_msgs env ticker n old @
       ladder_msgs env ticker (mm_lot_size mm) bid ask sp (n + int (length old)) [0..<5] \<and>
     active ticker (place_quotes env mm ticker bid ask spread c1) = ladder_ids (n + int (length old)) [0..<5]"
    using place_quotes_sends [OF assms(1) c1(1), of ticker mm bid ask spread] c1(2-4) assms(3)
    by (simp add: Let_def num_levels_def sp_def)
  have apart: "\<bar>bid\<bar> \<le> 2 ^ 46 \<longrightarrow> (\<forall>i < 4. bid_level bid sp (Suc i) < bid_level bid sp i)"
    "\<bar>ask\<bar> \<le> 2 ^ 46 \<longrightarrow> (\<forall>i < 4. ask_level ask sp i < ask_level ask sp (Suc i))"
    using levels_apart [OF _ far sp(1)] by blast+
  show ?thesis
    by (intro exI conjI) (rule m, use bas(1) q in simp, rule sp_def, rule sp(2), rule ladder,
      use level_error sp(1) in simp, rule apart(1), rule apart(2), use bid_below_ask [OF bas(2)] sp(1) in simp)
qed

definition demo_mm :: market_maker where
  "demo_mm =
     \<lparr>mm_initial_inventory = 100, mm_lot_size = 1, mm_gamma = 1 / 8, mm_k = 3 / 2, mm_terminal_time = 1,
      mm_tickers = [''GME'']\<rparr>"

definition demo_mm_client :: "fix_message list mm_client" where
  "demo_mm_client =
     (make_mm_client [])\<lparr>mmc_fix := on_logon (make_fix_client []), mmc_order_id_counter := 1,
        mmc_active_orders := [''GME'' \<mapsto> [(1, OrderSide_BUY)]]\<rparr>"

text \<open>At the end of its time the market maker quotes 99 to 101, with half a dollar between the levels.\<close>

lemma demo_quotes:
  "optimal_quotes (\<lambda>x. x - 1) (demo_mm\<lparr>mm_gamma := 1, mm_k := 1\<rparr>) 100 v q 1 = Inr (99, 101, 2)"
proof -
  have r: "round_double 99 = 99" "round_double 100 = 100" "round_double 101 = 101" "round_double 2 = 2"
    "round_double 1 = 1" "round_double 0 = 0"
    by code_simp+
  show ?thesis
    by (simp add: optimal_quotes_def demo_mm_def dbl_div_finite_def dbl_div_def dbl_sub_def dbl_add_def dbl_mul_def
        cpp_max_def r Let_def)
qed

theorem make_market_replaces_its_quotes_witness:
  "\<exists>sp h' c'. make_market demo_client_env (\<lambda>x. x - 1) 1 (demo_mm\<lparr>mm_gamma := 1, mm_k := 1\<rparr>) ''GME''
      (make_md_handler, demo_mm_client) = Inr (h', c') \<and>
    sent c' = cancel_msg demo_client_env ''GME'' OrderSide_BUY 1 2 #
      ladder_msgs demo_client_env ''GME'' 1 99 101 sp 2 [0..<5] \<and> length (active ''GME'' c') = 10 \<and>
    (\<forall>i < 4. bid_level 99 sp (Suc i) < bid_level 99 sp i \<and> ask_level 101 sp i < ask_level 101 sp (Suc i))"
proof -
  let ?mm = "demo_mm\<lparr>mm_gamma := 1, mm_k := 1\<rparr>" and ?h = make_md_handler and ?c = demo_mm_client
  define var where "var = (let v = fst (calculate_variance ''GME'' (snd (get_latest_orderbook ''GME'' ?h))) in
      if v = 0 then dbl (1 / 100) else v)"
  have rec: "recording demo_client_env" by (simp add: recording_def demo_client_env_def)
  have c: "is_connected (mmc_fix ?c)" "in_i32 (mmc_order_id_counter ?c)"
    by (simp_all add: demo_mm_client_def make_mm_client_def make_fix_client_def is_connected_def on_logon_def in_i32_def)
  have mm: "0 < mm_gamma ?mm" "0 < mm_k ?mm" "mm_terminal_time ?mm \<noteq> 0" "\<forall>x \<ge> 1. 0 \<le> x - (1 :: rat)"
    by (simp_all add: demo_mm_def)
  have mid: "100 = (let m = mid_price (fst (get_latest_orderbook ''GME'' ?h)) in if m = 0 then 100 else m)"
    by code_simp
  from make_market_replaces_its_quotes [OF rec c mm mid var_def, of 1] obtain bid ask spread sp h' c' where
    m: "make_market demo_client_env (\<lambda>x. x - 1) 1 ?mm ''GME'' (?h, ?c) = Inr (h', c')"
    and o: "optimal_quotes (\<lambda>x. x - 1) ?mm 100 var (fst (mm_get_inventory ''GME'' ?c)) 1 = Inr (bid, ask, spread)"
    and l: "let old = active ''GME'' ?c; n = mmc_order_id_counter ?c in
     sent c' = sent ?c @ cancel_msgs demo_client_env ''GME'' n old @
       ladder_msgs demo_client_env ''GME'' (mm_lot_size ?mm) bid ask sp (n + int (length old)) [0..<5] \<and>
     active ''GME'' c' = ladder_ids (n + int (length old)) [0..<5]"
    and s: "\<bar>bid\<bar> \<le> 2 ^ 46 \<longrightarrow> (\<forall>i < 4. bid_level bid sp (Suc i) < bid_level bid sp i)"
      "\<bar>ask\<bar> \<le> 2 ^ 46 \<longrightarrow> (\<forall>i < 4. ask_level ask sp i < ask_level ask sp (Suc i))"
    by (elim exE conjE)
  have b: "bid = 99" "ask = 101" using o by (simp_all add: demo_quotes)
  have "wrap_i32 2 = 2" by (simp add: wrap_i32_def)
  moreover have "length (ladder_ids n [0..<5]) = 10" for n by (simp add: upt_rec)
  ultimately have "sent c' = cancel_msg demo_client_env ''GME'' OrderSide_BUY 1 2 #
      ladder_msgs demo_client_env ''GME'' 1 99 101 sp 2 [0..<5]" "length (active ''GME'' c') = 10"
    using l b by (simp_all add: demo_mm_def demo_mm_client_def make_mm_client_def make_fix_client_def on_logon_def
        at_default_def Let_def)
  then show ?thesis using m s b by (intro exI [of _ sp] exI [of _ h'] exI [of _ c']) simp
qed

section \<open>Fills do not reach the inventory\<close>

lemma read_report_of_gateway:
  assumes "fix_report_of genv r = Inr x" "in_i32 (er_cl_order_id r)"
    and "\<forall>s \<in> {FIX_Side_BUY, FIX_Side_SELL}. fc_side env (gw_side_text genv s) = Some s"
  obtains y where "read_execution_report env x = Inr y" "cr_status y = report_status (fix_status_of (er_ord_status r))"
  using assms that stoi_show_int [OF assms(2)]
  by (cases "er_side r = Bid") (auto simp: fix_report_of_def result_simps read_execution_report_def gbind_def of_result_def field_value_def)

text \<open>C35 (error). No execution report changes the inventory of a trader. When the gateway sends on a report of the order
  manager, a fill arrives with the status of a cancellation, because the cases of the client's
  \<open>switch\<close> fall through, and leaves the inventory alone; a rejected order makes the client read a
  status that was never assigned; and a rejection by the gateway itself lacks a field the client asks
  for, so it never gets to the trader.\<close>

theorem fills_do_not_reach_the_inventory:
  assumes "fix_report_of genv r = Inr x" "in_i32 (er_cl_order_id r)"
    and "\<forall>s \<in> {FIX_Side_BUY, FIX_Side_SELL}. fc_side env (gw_side_text genv s) = Some s"
  shows "on_execution_report env update_inventory x stock =
      (if er_ord_status r = Status_rejected then Inl (Cpp_Error Indeterminate_Value) else Inr stock) \<and>
    on_execution_report env update_inventory (rejection l exec_id reason) stock = Inl (Field_Not_Found Tag_OrderQty)"
proof -
  obtain y where y: "read_execution_report env x = Inr y" "cr_status y = report_status (fix_status_of (er_ord_status r))"
    using read_report_of_gateway [OF assms] .
  have "update_inventory y stock =
      (if er_ord_status r = Status_rejected then Inl Indeterminate_Value else Inr stock)"
    using y(2) by (cases "er_ord_status r") (simp_all add: update_inventory_def)
  then show ?thesis
    using y(1) by (simp add: on_execution_report_def gbind_def of_result_def rejection_def read_execution_report_def)
qed

theorem fills_do_not_reach_the_inventory_witness:
  "\<exists>x. fix_report_of demo_gw_env demo_report = Inr x \<and> xr_ord_status x = FIX_Status_FILL \<and>
     on_execution_report demo_client_env update_inventory x [''GME'' \<mapsto> 100] = Inr [''GME'' \<mapsto> 100]"
proof -
  obtain x where x: "fix_report_of demo_gw_env demo_report = Inr x" "xr_ord_status x = FIX_Status_FILL"
    by (simp add: fix_report_of_def demo_report_def in_i32_def)
  have "\<forall>s \<in> {FIX_Side_BUY, FIX_Side_SELL}. fc_side demo_client_env (gw_side_text demo_gw_env s) = Some s"
    by (simp add: demo_client_env_def demo_gw_env_def)
  then show ?thesis
    using x fills_do_not_reach_the_inventory [OF x(1), of demo_client_env "[''GME'' \<mapsto> 100]"]
    by (simp add: demo_report_def in_i32_def)
qed

end
