(* ===== verification/Oracle.thy ===== *)
theory Oracle
  imports MdHandler "HOL-Library.AList" "HOL-Library.List_Lexorder" "HOL-Library.Char_ord"
begin

text \<open>
  The oracle of \<open>simulation/traders/oracle_service.h\<close>: the service moves the true price of every ticker
  by a jump diffusion and sends it to its subscriber, the client keeps what it receives.

  The random draws, the square root of the time step and the clock are arguments. \<open>std::map\<close> is the
  list of its entries, of the service's map in ascending order of the keys.
\<close>

section \<open>Service\<close>

record oracle_config =
  oc_mu :: rat
  oc_sigma :: rat
  oc_jump_intensity :: rat
  oc_jump_mean :: rat
  oc_jump_std :: rat
  oc_update_interval_ms :: int

definition default_oracle_config :: oracle_config where
  "default_oracle_config =
     \<lparr>oc_mu = 0, oc_sigma = dbl (5 / 100), oc_jump_intensity = 1 / 2, oc_jump_mean = 0,
      oc_jump_std = dbl (2 / 100), oc_update_interval_ms = 10\<rparr>"

fun om_update :: "'k::linorder \<Rightarrow> 'v \<Rightarrow> ('k \<times> 'v) list \<Rightarrow> ('k \<times> 'v) list" where
  "om_update k v [] = [(k, v)]"
| "om_update k v ((k', v') # m) =
     (if k < k' then (k, v) # (k', v') # m
      else if k = k' then (k, v) # m
      else (k', v') # om_update k v m)"

record ('h, 'e) oracle_service =
  os_config :: oracle_config
  os_true_prices :: "(string \<times> rat) list"
  os_ws_server :: "('h, string, 'e) ws_manager option"

definition make_oracle_service ::
  "string list \<Rightarrow> (string \<rightharpoonup> rat) \<Rightarrow> ('h, string, 'e) ws_manager option \<Rightarrow> oracle_config \<Rightarrow> ('h, 'e) oracle_service" where
  "make_oracle_service tickers initial_prices server config =
     \<lparr>os_config = config,
      os_true_prices = fold (\<lambda>t. om_update t (at_default 100 initial_prices t)) tickers [],
      os_ws_server = server\<rparr>"

record oracle_draw =
  od_normal :: rat
  od_uniform :: rat
  od_jump :: rat
  od_time_ms :: int

definition min_price :: rat where
  "min_price = dbl (1 / 100)"

definition next_price :: "oracle_config \<Rightarrow> rat \<Rightarrow> oracle_draw \<Rightarrow> rat \<Rightarrow> rat" where
  "next_price cfg sqrt_dt d price =
     (let dt = dbl_div (of_int (oc_update_interval_ms cfg)) 1000;
          dW = dbl_mul (od_normal d) sqrt_dt;
          ds = dbl_mul price (dbl_add (dbl_mul (oc_mu cfg) dt) (dbl_mul (oc_sigma cfg) dW));
          ds' = (if od_uniform d < dbl_mul (oc_jump_intensity cfg) dt then dbl_add ds (dbl_mul price (od_jump d)) else ds);
          p = dbl_add price ds'
      in if p < min_price then min_price else p)"

definition oracle_json :: "'j json_env \<Rightarrow> string \<Rightarrow> rat \<Rightarrow> int \<Rightarrow> 'j" where
  "oracle_json J ticker price time_ms =
     j_object J [(''ticker'', j_string J ticker), (''true_price'', j_double J price), (''timestamp'', j_int J time_ms)]"

text \<open>One round over the tickers; the result of \<open>send\<close> is not looked at.\<close>

fun oracle_round ::
  "('h, string, 'e) ws_env \<Rightarrow> 'j json_env \<Rightarrow> oracle_config \<Rightarrow> rat \<Rightarrow> (nat \<Rightarrow> oracle_draw) \<Rightarrow> nat \<Rightarrow>
   (string \<times> rat) list \<Rightarrow> ('h, string, 'e) ws_manager option \<Rightarrow>
   (string \<times> rat) list \<times> ('h, string, 'e) ws_manager option" where
  "oracle_round env J cfg sqrt_dt draws k [] server = ([], server)"
| "oracle_round env J cfg sqrt_dt draws k ((ticker, price) # m) server =
     (let p = next_price cfg sqrt_dt (draws k) price;
          msg = j_dump J (oracle_json J ticker p (od_time_ms (draws k)));
          server' = map_option (\<lambda>s. snd (ws_send env 0 msg Binary_Format s)) server
      in case oracle_round env J cfg sqrt_dt draws (Suc k) m server' of
           (m', server'') \<Rightarrow> ((ticker, p) # m', server''))"

definition oracle_update ::
  "('h, string, 'e) ws_env \<Rightarrow> 'j json_env \<Rightarrow> rat \<Rightarrow> (nat \<Rightarrow> oracle_draw) \<Rightarrow> ('h, 'e) oracle_service \<Rightarrow>
   ('h, 'e) oracle_service" where
  "oracle_update env J sqrt_dt draws s =
     (case oracle_round env J (os_config s) sqrt_dt draws 0 (os_true_prices s) (os_ws_server s) of
        (m, server) \<Rightarrow> s\<lparr>os_true_prices := m, os_ws_server := server\<rparr>)"

section \<open>Client\<close>

type_synonym oracle_prices = "(string \<times> rat) list"

definition get_true_price :: "string \<Rightarrow> oracle_prices \<Rightarrow> rat" where
  "get_true_price ticker m =
     (case map_of m ticker of
        Some p \<Rightarrow> p
      | None \<Rightarrow> if ticker = ''AAPL'' \<and> m = [] then 311 / 2 else 0)"

text \<open>One message; what does not parse or has the wrong type is logged and changes nothing.\<close>

definition oracle_receive :: "'j md_json \<Rightarrow> string \<Rightarrow> oracle_prices \<Rightarrow> oracle_prices" where
  "oracle_receive J msg m =
     (case mj_parse J msg of
        None \<Rightarrow> m
      | Some j \<Rightarrow>
          (case (j_at (mj_json J) ''ticker'' j, j_at (mj_json J) ''true_price'' j) of
             (Some t, Some p) \<Rightarrow>
               (case (j_get_string (mj_json J) t, j_get_double (mj_json J) p) of
                  (Some ticker, Some price) \<Rightarrow> AList.update ticker price m
                | _ \<Rightarrow> m)
           | _ \<Rightarrow> m))"

definition oracle_consume_step ::
  "'j md_json \<Rightarrow> ('h, string, 'e) ws_manager \<times> oracle_prices \<Rightarrow> ('h, string, 'e) ws_manager \<times> oracle_prices" where
  "oracle_consume_step J s =
     (case ws_dequeue_message 0 (fst s) of
        (None, client) \<Rightarrow> (client, snd s)
      | (Some msg, client) \<Rightarrow> (client, oracle_receive J msg (snd s)))"

section \<open>Ordered maps\<close>

lemma keys_om_update [simp]: "fst ` set (om_update k v m) = insert k (fst ` set m)"
  by (induction k v m rule: om_update.induct) auto

lemma sorted_om_update:
  "sorted_wrt (<) (map fst m) \<Longrightarrow> sorted_wrt (<) (map fst (om_update k v m))"
proof (induction k v m rule: om_update.induct)
  case (2 k v k' v' m)
  have "set (map fst (om_update k v m)) = insert k (set (map fst m))" by simp
  then show ?case using 2 by (auto simp: not_less_iff_gr_or_eq)
qed simp

lemma sorted_make_oracle:
  "sorted_wrt (<) (map fst (os_true_prices (make_oracle_service tickers ps server cfg)))"
proof -
  have "sorted_wrt (<) (map fst (fold (\<lambda>t. om_update t (f t)) tickers m))" if "sorted_wrt (<) (map fst m)"
    for f :: "string \<Rightarrow> rat" and m
    using that by (induction tickers arbitrary: m) (simp_all add: sorted_om_update)
  then show ?thesis by (simp add: make_oracle_service_def)
qed

section \<open>What the subscriber learns\<close>

lemma next_price_floor: "min_price \<le> next_price cfg sqrt_dt d price"
  by (simp add: next_price_def Let_def)

definition round_messages :: "'j json_env \<Rightarrow> (nat \<Rightarrow> oracle_draw) \<Rightarrow> nat \<Rightarrow> (string \<times> rat) list \<Rightarrow> string list" where
  "round_messages J draws k m =
     map (\<lambda>(i, t, p). j_dump J (oracle_json J t p (od_time_ms (draws i)))) (enumerate k m)"

lemma round_messages_Cons:
  "round_messages J draws k ((t, p) # m) =
     j_dump J (oracle_json J t p (od_time_ms (draws k))) # round_messages J draws (Suc k) m"
  by (simp add: round_messages_def)

lemma oracle_round_prices:
  assumes "oracle_round env J cfg sqrt_dt draws k m server = (m', server')"
  shows "map fst m' = map fst m \<and> (\<forall>e \<in> set m'. min_price \<le> snd e)"
  using assms
proof (induction m arbitrary: k server m')
  case (Cons e m)
  obtain t p where e: "e = (t, p)" by force
  obtain sv m1 where m1: "oracle_round env J cfg sqrt_dt draws (Suc k) m sv = (m1, server')"
    "m' = (t, next_price cfg sqrt_dt (draws k) p) # m1"
    using Cons.prems by (auto simp: e Let_def split: prod.splits)
  then show ?case using Cons.IH [OF m1(1)] by (simp add: e next_price_floor)
qed simp

lemma ws_send_reachable_handle:
  assumes "ws_inv s" "map_option cm_handle (get_metadata i s) = Some h" "\<forall>w fmt ep. fst (ws_send_frame env h w fmt ep)"
    and "ws_send env i w fmt s = (ok, s')"
  shows "ok" "map_option cm_handle (get_metadata i s') = Some h"
proof -
  obtain m where m: "get_metadata i s = Some m" "cm_handle m = h" using assms(2) by auto
  then obtain a where a: "ws_ids s i = Some a" by (auto simp: get_metadata_def split: option.splits)
  obtain ep' where e: "ws_send_frame env h w fmt (ws_endpoint s) = (True, ep')"
    using assms(3) by (metis prod.collapse)
  have s': "ok" "s' = update_object a (record_sent_message w) (s\<lparr>ws_endpoint := ep'\<rparr>)"
    using assms(4) a m e by (auto simp: ws_send_def)
  show "ok" by fact
  show "map_option cm_handle (get_metadata i s') = Some h"
    using get_metadata_update [of "s\<lparr>ws_endpoint := ep'\<rparr>" i a i "record_sent_message w"] assms(1) a m s'(2)
    by (simp add: record_sent_message_def)
qed

lemma oracle_round_sends:
  assumes "oracle_round env J cfg sqrt_dt draws k m (Some s) = (m', server')"
    and "ws_inv s" "map_option cm_handle (get_metadata 0 s) = Some h"
    and "\<forall>w fmt ep. fst (ws_send_frame env h w fmt ep)"
  shows "\<exists>s'. server' = Some s' \<and> ws_sent s' = (ws_sent s)(0 := ws_sent s 0 @ round_messages J draws k m')"
  using assms(1-3)
proof (induction m arbitrary: k s m')
  case Nil
  then show ?case by (auto simp: round_messages_def)
next
  case (Cons e m)
  obtain t p where e: "e = (t, p)" by force
  let ?p = "next_price cfg sqrt_dt (draws k) p"
  let ?w = "j_dump J (oracle_json J t ?p (od_time_ms (draws k)))"
  obtain b s1 where b: "ws_send env 0 ?w Binary_Format s = (b, s1)" by force
  obtain m1 where m1: "oracle_round env J cfg sqrt_dt draws (Suc k) m (Some s1) = (m1, server')" "m' = (t, ?p) # m1"
    using Cons.prems(1) b by (auto simp: e Let_def split: prod.splits)
  have h: "b" "map_option cm_handle (get_metadata 0 s1) = Some h"
    using ws_send_reachable_handle [OF Cons.prems(2,3) assms(4) b] by simp_all
  have s1: "ws_inv s1" "ws_sent s1 = (ws_sent s)(0 := ws_sent s 0 @ [?w])"
    using ws_send_effect [OF Cons.prems(2) b] h(1) by simp_all
  obtain s' where "server' = Some s'" "ws_sent s' = (ws_sent s1)(0 := ws_sent s1 0 @ round_messages J draws (Suc k) m1)"
    using Cons.IH [OF m1(1) s1(1) h(2)] by blast
  then show ?case using s1(2) m1(2) by (simp add: round_messages_Cons fun_eq_iff)
qed

lemma oracle_receive_message:
  assumes "json_laws (mj_json J)" "mj_parse J (j_dump (mj_json J) (oracle_json (mj_json J) t p k)) = Some (oracle_json (mj_json J) t p k)"
  shows "oracle_receive J (j_dump (mj_json J) (oracle_json (mj_json J) t p k)) m = AList.update t p m"
proof -
  have "j_at (mj_json J) ''ticker'' (oracle_json (mj_json J) t p k) = Some (j_string (mj_json J) t)"
    "j_at (mj_json J) ''true_price'' (oracle_json (mj_json J) t p k) = Some (j_double (mj_json J) p)"
    using assms(1) by (simp_all add: json_laws_def oracle_json_def)
  then show ?thesis using assms by (simp add: oracle_receive_def json_laws_def)
qed

definition readable :: "'j md_json \<Rightarrow> (nat \<Rightarrow> oracle_draw) \<Rightarrow> nat \<Rightarrow> (string \<times> rat) list \<Rightarrow> bool" where
  "readable J draws k m \<longleftrightarrow>
     (\<forall>(i, t, p) \<in> set (enumerate k m). let j = oracle_json (mj_json J) t p (od_time_ms (draws i)) in
        mj_parse J (j_dump (mj_json J) j) = Some j)"

lemma receive_round:
  assumes "json_laws (mj_json J)" "readable J draws k m" "distinct (map fst m)"
  shows "map_of (fold (oracle_receive J) (round_messages (mj_json J) draws k m) c) = map_of c ++ map_of m"
  using assms(2,3)
proof (induction m arbitrary: k c)
  case (Cons e m)
  obtain t p where e: "e = (t, p)" by force
  have r: "readable J draws (Suc k) m" "mj_parse J (j_dump (mj_json J) (oracle_json (mj_json J) t p (od_time_ms (draws k)))) =
      Some (oracle_json (mj_json J) t p (od_time_ms (draws k)))"
    using Cons.prems(1) by (simp_all add: readable_def e Let_def)
  have "t \<notin> dom (map_of m)" using Cons.prems(2) by (simp add: e dom_map_of_conv_image_fst)
  then have "(map_of c)(t \<mapsto> p) ++ map_of m = map_of c ++ map_of (e # m)" by (auto simp: e fun_eq_iff map_add_def split: option.splits)
  moreover have "map_of (fold (oracle_receive J) (round_messages (mj_json J) draws (Suc k) m) (AList.update t p c)) =
      map_of (AList.update t p c) ++ map_of m"
    by (rule Cons.IH [OF r(1)]) (use Cons.prems(2) in simp)
  moreover have "fold (oracle_receive J) (round_messages (mj_json J) draws k (e # m)) c =
      fold (oracle_receive J) (round_messages (mj_json J) draws (Suc k) m) (AList.update t p c)"
    unfolding e round_messages_Cons fold_simps oracle_receive_message [OF assms(1) r(2), of c] ..
  ultimately show ?case by (metis update_conv')
qed (simp add: round_messages_def)

text \<open>C38 (functional). A round of the oracle moves every ticker, never below one cent, and sends every new price to
  connection 0 and to no other. A client that has consumed what the round sent has, whatever it knew
  before, exactly the prices of the service.\<close>

theorem oracle_client_has_the_prices_of_the_service:
  assumes "sorted_wrt (<) (map fst (os_true_prices s))" "os_ws_server s = Some w" "ws_reachable env w"
    and "map_option cm_handle (get_metadata 0 w) = Some hd0" "\<forall>m fmt ep. fst (ws_send_frame env hd0 m fmt ep)"
    and "json_laws (mj_json J)" "oracle_update env (mj_json J) sqrt_dt draws s = s'"
    and "readable J draws 0 (os_true_prices s')"
  shows "map fst (os_true_prices s') = map fst (os_true_prices s) \<and>
    (\<forall>(t, p) \<in> set (os_true_prices s'). min_price \<le> p) \<and>
    (\<exists>w' msgs. os_ws_server s' = Some w' \<and> ws_sent w' = (ws_sent w)(0 := ws_sent w 0 @ msgs) \<and>
       (\<forall>known. \<forall>(t, p) \<in> set (os_true_prices s'). get_true_price t (fold (oracle_receive J) msgs known) = p))"
proof -
  obtain m server where r: "oracle_round env (mj_json J) (os_config s) sqrt_dt draws 0 (os_true_prices s) (Some w) = (m, server)"
    by force
  have s': "os_true_prices s' = m" "os_ws_server s' = server"
    using assms(2,7) r by (auto simp: oracle_update_def)
  have m: "map fst m = map fst (os_true_prices s)" "\<forall>e \<in> set m. min_price \<le> snd e"
    using oracle_round_prices [OF r] by simp_all
  have d: "distinct (map fst m)" using assms(1) m(1) by (simp add: strict_sorted_iff)
  obtain w' where w': "server = Some w'" "ws_sent w' = (ws_sent w)(0 := ws_sent w 0 @ round_messages (mj_json J) draws 0 m)"
    using oracle_round_sends [OF r ws_reachable_inv [OF assms(3)] assms(4,5)] by blast
  have "get_true_price t (fold (oracle_receive J) (round_messages (mj_json J) draws 0 m) known) = p"
    if "(t, p) \<in> set m" for t p known
    using receive_round [OF assms(6) _ d, of draws 0 known] assms(8) s'(1) that d
    by (simp add: get_true_price_def map_add_Some_iff map_of_is_SomeI)
  then show ?thesis using m s' w' by auto
qed

definition demo_oracle :: "(nat, nat) oracle_service" where
  "demo_oracle = make_oracle_service [''GME''] Map.empty (Some demo_ws) default_oracle_config"

definition demo_draws :: "nat \<Rightarrow> oracle_draw" where
  "demo_draws k = \<lparr>od_normal = 0, od_uniform = 1, od_jump = 0, od_time_ms = 5\<rparr>"

definition demo_md_json :: "demo_json md_json" where
  "demo_md_json =
     \<lparr>mj_json = demo_json_env,
      mj_parse = (\<lambda>s. if s = ''GME'' then Some (oracle_json demo_json_env ''GME'' 100 5) else None),
      mj_empty = (\<lambda>j. case j of Demo_Array js \<Rightarrow> js = [] | _ \<Rightarrow> True),
      mj_get_int64 = j_get_int demo_json_env\<rparr>"

theorem oracle_client_has_the_prices_of_the_service_witness:
  "\<exists>w' msgs. os_ws_server (oracle_update demo_ws_env demo_json_env 1 demo_draws demo_oracle) = Some w' \<and>
     ws_sent w' 0 = ws_sent demo_ws 0 @ msgs \<and> ws_sent w' 1 = ws_sent demo_ws 1 \<and>
     get_true_price ''GME'' (fold (oracle_receive demo_md_json) msgs []) = 100"
proof -
  have p: "os_true_prices (oracle_update demo_ws_env demo_json_env 1 demo_draws demo_oracle) = [(''GME'', 100)]"
    by code_simp
  have h: "map_option cm_handle (get_metadata 0 demo_ws) = Some 4" by code_simp
  have "sorted_wrt (<) (map fst (os_true_prices demo_oracle))" "os_ws_server demo_oracle = Some demo_ws"
    by (simp_all add: demo_oracle_def make_oracle_service_def)
  moreover have "readable demo_md_json demo_draws 0 [(''GME'', 100)]"
    by (simp add: readable_def demo_md_json_def demo_draws_def oracle_json_def demo_json_env_def)
  ultimately show ?thesis
    using oracle_client_has_the_prices_of_the_service
      [of demo_oracle demo_ws demo_ws_env 4 demo_md_json 1 demo_draws "oracle_update demo_ws_env demo_json_env 1 demo_draws demo_oracle"]
      demo_ws_reachable h demo_json_laws p
    by (auto simp: demo_md_json_def demo_ws_env_def)
qed

end
