(* ===== verification/InformedTrader.thy ===== *)
theory InformedTrader
  imports MarketMaker Oracle
begin

text \<open>
  The informed trader of \<open>simulation/traders/informed_trader.h\<close>: it compares the true price of the oracle
  with the top of the book and takes the quote that lags behind, within its inventory limits and at
  most every half second per ticker. Times are readings of the steady clock in nanoseconds.
\<close>

section \<open>Client\<close>

record 'f informed_client =
  ic_fix :: "'f fix_client"
  ic_inventory :: "string \<rightharpoonup> rat"
  ic_order_id_counter :: int

definition send_snipe_order ::
  "'f fix_client_env \<Rightarrow> string \<Rightarrow> rat \<Rightarrow> rat \<Rightarrow> string \<Rightarrow> 'f informed_client \<Rightarrow> 'f informed_client" where
  "send_snipe_order env ticker price quantity side c =
     (let order_side = (if side = ''BUY'' then OrderSide_BUY else OrderSide_SELL);
          client_order_id = wrap_i32 (ic_order_id_counter c + 1)
      in c\<lparr>ic_order_id_counter := client_order_id,
           ic_fix := snd (submit_limit_order env ticker price quantity order_side TimeInForce_GTC client_order_id (ic_fix c))\<rparr>)"

definition ic_get_inventory :: "string \<Rightarrow> 'f informed_client \<Rightarrow> rat \<times> 'f informed_client" where
  "ic_get_inventory ticker c =
     (let q = at_default 0 (ic_inventory c) ticker in (q, c\<lparr>ic_inventory := (ic_inventory c)(ticker \<mapsto> q)\<rparr>))"

definition ic_set_inventory :: "string \<Rightarrow> rat \<Rightarrow> 'f informed_client \<Rightarrow> 'f informed_client" where
  "ic_set_inventory ticker q c = c\<lparr>ic_inventory := (ic_inventory c)(ticker \<mapsto> q)\<rparr>"

definition ic_on_order_update :: "client_report \<Rightarrow> 'f informed_client \<Rightarrow> 'f informed_client result" where
  "ic_on_order_update report c =
     rbind (update_inventory report (ic_inventory c)) (\<lambda>stock. Inr (c\<lparr>ic_inventory := stock\<rparr>))"

section \<open>Agent\<close>

record informed_params =
  ip_initial_inventory :: rat
  ip_epsilon :: rat
  ip_trade_qty :: rat
  ip_max_inventory :: rat

definition default_informed_params :: informed_params where
  "default_informed_params =
     \<lparr>ip_initial_inventory = 100, ip_epsilon = dbl (5 / 100), ip_trade_qty = 10, ip_max_inventory = 1000\<rparr>"

record 'f informed_trader =
  it_md :: md_handler
  it_oracle :: oracle_prices
  it_client :: "'f informed_client"
  it_tickers :: "string list"
  it_last_trade_time :: "string \<rightharpoonup> int"

definition it_start :: "informed_params \<Rightarrow> string list \<Rightarrow> 'f informed_trader \<Rightarrow> 'f informed_trader" where
  "it_start p tickers t =
     t\<lparr>it_tickers := tickers,
       it_client := fold (\<lambda>ticker. ic_set_inventory ticker (ip_initial_inventory p)) tickers (it_client t)\<rparr>"

definition cooldown :: int where
  "cooldown = 500 * 1000000"

text \<open>The two cases of \<open>evaluate_and_trade\<close>: the side and the price of the order, if there is one.\<close>

definition snipe :: "informed_params \<Rightarrow> sim_snapshot \<Rightarrow> rat \<Rightarrow> rat \<Rightarrow> (string \<times> rat) option" where
  "snipe p ob true_price current_inventory =
     (if true_price > dbl_add (ob_best_ask_price ob) (ip_epsilon p) then
        if dbl_add current_inventory (ip_trade_qty p) \<le> ip_max_inventory p
        then Some (''BUY'', ob_best_ask_price ob) else None
      else if true_price < dbl_sub (ob_best_bid_price ob) (ip_epsilon p) then
        if dbl_sub current_inventory (ip_trade_qty p) \<ge> 0
        then Some (''SELL'', ob_best_bid_price ob) else None
      else None)"

definition evaluate_and_trade ::
  "'f fix_client_env \<Rightarrow> informed_params \<Rightarrow> int \<Rightarrow> string \<Rightarrow> 'f informed_trader \<Rightarrow> 'f informed_trader" where
  "evaluate_and_trade env p now ticker t =
     (let last_time = at_default 0 (it_last_trade_time t) ticker;
          t1 = t\<lparr>it_last_trade_time := (it_last_trade_time t)(ticker \<mapsto> last_time)\<rparr> in
      if now - last_time < cooldown then t1
      else case get_latest_orderbook ticker (it_md t1) of (ob, h) \<Rightarrow>
        let t2 = t1\<lparr>it_md := h\<rparr> in
        if ob_best_bid_price ob = 0 \<or> ob_best_ask_price ob = 0 then t2
        else case ic_get_inventory ticker (it_client t2) of (q, c) \<Rightarrow>
          let t3 = t2\<lparr>it_client := c\<rparr> in
          case snipe p ob (get_true_price ticker (it_oracle t3)) q of
            None \<Rightarrow> t3
          | Some (side, price) \<Rightarrow>
              t3\<lparr>it_client := send_snipe_order env ticker price (ip_trade_qty p) side (it_client t3),
                 it_last_trade_time := (it_last_trade_time t3)(ticker \<mapsto> now)\<rparr>)"

text \<open>One pass of \<open>run_loop\<close>; each evaluation reads the clock.\<close>

fun it_pass :: "'f fix_client_env \<Rightarrow> informed_params \<Rightarrow> (nat \<Rightarrow> int) \<Rightarrow> nat \<Rightarrow> string list \<Rightarrow> 'f informed_trader \<Rightarrow> 'f informed_trader" where
  "it_pass env p clock k [] t = t"
| "it_pass env p clock k (ticker # tickers) t =
     it_pass env p clock (Suc k) tickers (evaluate_and_trade env p (clock k) ticker t)"

section \<open>Runs\<close>

text \<open>
  A run interleaves evaluations with the other threads: market data, oracle messages and execution
  reports. An order is logged with what it was based on.
\<close>

record snipe_order =
  sn_time :: int
  sn_ticker :: string
  sn_side :: string
  sn_price :: rat
  sn_true_price :: rat
  sn_inventory :: rat

definition sniped :: "informed_params \<Rightarrow> int \<Rightarrow> string \<Rightarrow> 'f informed_trader \<Rightarrow> snipe_order list" where
  "sniped p now ticker t =
     (let ob = fst (get_latest_orderbook ticker (it_md t)); q = fst (ic_get_inventory ticker (it_client t));
          tp = get_true_price ticker (it_oracle t) in
      if now - at_default 0 (it_last_trade_time t) ticker < cooldown \<or> ob_best_bid_price ob = 0 \<or> ob_best_ask_price ob = 0 then []
      else case snipe p ob tp q of
        None \<Rightarrow> []
      | Some (side, price) \<Rightarrow>
          [\<lparr>sn_time = now, sn_ticker = ticker, sn_side = side, sn_price = price, sn_true_price = tp, sn_inventory = q\<rparr>])"

inductive it_run ::
  "'f fix_client_env \<Rightarrow> 'j md_json \<Rightarrow> informed_params \<Rightarrow> int \<Rightarrow> snipe_order list \<Rightarrow> 'f informed_trader \<Rightarrow> bool"
  for env J p where
  start: "it_last_trade_time t = Map.empty \<Longrightarrow> it_run env J p now [] t"
| evaluate: "it_run env J p now os t \<Longrightarrow> now \<le> now' \<Longrightarrow>
    it_run env J p now' (os @ sniped p now' ticker t) (evaluate_and_trade env p now' ticker t)"
| market_data: "it_run env J p now os t \<Longrightarrow> it_run env J p now os (t\<lparr>it_md := process_message J msg (it_md t)\<rparr>)"
| true_price: "it_run env J p now os t \<Longrightarrow> it_run env J p now os (t\<lparr>it_oracle := oracle_receive J msg (it_oracle t)\<rparr>)"
| report: "it_run env J p now os t \<Longrightarrow> ic_on_order_update r (it_client t) = Inr c \<Longrightarrow>
    it_run env J p now os (t\<lparr>it_client := c\<rparr>)"
| connection: "it_run env J p now os t \<Longrightarrow>
    it_run env J p now os (t\<lparr>it_client := (it_client t)\<lparr>ic_fix := f\<rparr>\<rparr>)"

text \<open>An order is justified by the limits the trader is configured with.\<close>

definition justified :: "informed_params \<Rightarrow> snipe_order \<Rightarrow> bool" where
  "justified p n \<longleftrightarrow>
     (sn_side n = ''BUY'' \<and> dbl_add (sn_price n) (ip_epsilon p) < sn_true_price n \<and>
        dbl_add (sn_inventory n) (ip_trade_qty p) \<le> ip_max_inventory p \<or>
      sn_side n = ''SELL'' \<and> sn_true_price n < dbl_sub (sn_price n) (ip_epsilon p) \<and>
        0 \<le> dbl_sub (sn_inventory n) (ip_trade_qty p))"

lemma sniped_justified: "n \<in> set (sniped p now ticker t) \<Longrightarrow>
    justified p n \<and> sn_time n = now \<and> sn_ticker n = ticker \<and> cooldown \<le> now - at_default 0 (it_last_trade_time t) ticker"
  by (auto simp: sniped_def snipe_def justified_def Let_def split: if_splits option.splits)

lemma sniped_at_most_one: "length (sniped p now ticker t) \<le> 1"
  by (auto simp: sniped_def Let_def split: option.splits)

lemma last_time_after:
  "at_default 0 (it_last_trade_time (evaluate_and_trade env p now ticker t)) s =
     (if s = ticker \<and> sniped p now ticker t \<noteq> [] then now else at_default 0 (it_last_trade_time t) s)"
  by (auto simp: evaluate_and_trade_def sniped_def Let_def get_latest_orderbook_def ic_get_inventory_def
      split: option.splits prod.splits)

text \<open>The last trade time of a ticker is not before any of its orders.\<close>

lemma it_run_orders:
  assumes "it_run env J p now os t"
  shows "(\<forall>n \<in> set os. justified p n \<and> sn_time n \<le> at_default 0 (it_last_trade_time t) (sn_ticker n)) \<and>
    sorted_wrt (\<lambda>m n. sn_ticker m = sn_ticker n \<longrightarrow> cooldown \<le> sn_time n - sn_time m) os"
  using assms
proof (induction rule: it_run.induct)
  case (evaluate now os t now' ticker)
  let ?new = "sniped p now' ticker t"
  have new: "justified p n" "sn_time n = now'" "sn_ticker n = ticker" "?new \<noteq> []"
    "cooldown \<le> now' - at_default 0 (it_last_trade_time t) ticker" if "n \<in> set ?new" for n
    using sniped_justified [OF that] that by auto
  have pair: "sorted_wrt R ?new" for R using sniped_at_most_one [of p now' ticker t]
    by (cases ?new) auto
  have c: "0 \<le> cooldown" by (simp add: cooldown_def)
  have old: "sn_time m \<le> at_default 0 (it_last_trade_time t) (sn_ticker m)" if "m \<in> set os" for m
    using evaluate.IH that by blast
  have gap: "cooldown \<le> sn_time n - sn_time m" if "m \<in> set os" "n \<in> set ?new" "sn_ticker m = sn_ticker n" for m n
    using old [OF that(1)] new(2,3,5) [OF that(2)] that(3) by simp
  have keep: "sn_time m \<le> at_default 0 (it_last_trade_time (evaluate_and_trade env p now' ticker t)) (sn_ticker m)"
    if "m \<in> set os" for m
  proof (cases "sn_ticker m = ticker \<and> ?new \<noteq> []")
    case True
    then obtain n where "n \<in> set ?new" by (cases ?new) auto
    then show ?thesis using True gap [OF that, of n] new(2,3) c by (simp add: last_time_after)
  next
    case False
    then show ?thesis using old [OF that] unfolding last_time_after by auto
  qed
  have fresh: "sn_time n \<le> at_default 0 (it_last_trade_time (evaluate_and_trade env p now' ticker t)) (sn_ticker n)"
    if "n \<in> set ?new" for n
    using new(2-4) [OF that] by (simp add: last_time_after)
  show ?case using evaluate.IH keep fresh new(1) gap pair by (auto simp: sorted_wrt_append)
qed (simp_all add: at_default_def)

definition send_snipes :: "'f fix_client_env \<Rightarrow> informed_params \<Rightarrow> snipe_order list \<Rightarrow> 'f informed_client \<Rightarrow> 'f informed_client" where
  "send_snipes env p os c =
     fold (\<lambda>n. send_snipe_order env (sn_ticker n) (sn_price n) (ip_trade_qty p) (sn_side n)) os c"

lemma evaluate_sends:
  "ic_fix (it_client (evaluate_and_trade env p now ticker t)) = ic_fix (send_snipes env p (sniped p now ticker t) (it_client t))"
  by (simp add: evaluate_and_trade_def sniped_def send_snipes_def Let_def get_latest_orderbook_def ic_get_inventory_def
      send_snipe_order_def split: option.split prod.split)

text \<open>C37 (safety). However its evaluations interleave with market data, oracle updates, reports and reconnections, the
  informed trader sends an order only when the true price is beyond the quote by more than epsilon,
  buys only while the inventory plus the order stays within the limit, sells only what it holds, and
  never sends two orders for a ticker within half a second; an evaluation sends the logged orders and
  nothing else.\<close>

theorem informed_trader_stays_within_its_limits:
  assumes "it_run env J p now os t"
  shows "(\<forall>n \<in> set os. justified p n) \<and>
    (\<forall>i j. i < j \<and> j < length os \<and> sn_ticker (os ! i) = sn_ticker (os ! j) \<longrightarrow>
       500 * 1000000 \<le> sn_time (os ! j) - sn_time (os ! i)) \<and>
    (\<forall>now' ticker. ic_fix (it_client (evaluate_and_trade env p now' ticker t)) =
       ic_fix (send_snipes env p (sniped p now' ticker t) (it_client t)))"
  using it_run_orders [OF assms] evaluate_sends by (auto simp: sorted_wrt_iff_nth_less cooldown_def)

definition demo_informed :: "fix_message list informed_trader" where
  "demo_informed =
     \<lparr>it_md = make_md_handler\<lparr>md_orderbooks :=
        [''GME'' \<mapsto> \<lparr>ob_best_bid_price = 99, ob_best_bid_qty = 1, ob_best_ask_price = 101, ob_best_ask_qty = 1\<rparr>]\<rparr>,
      it_oracle = [(''GME'', 110)],
      it_client = \<lparr>ic_fix = on_logon (make_fix_client []), ic_inventory = [''GME'' \<mapsto> 100], ic_order_id_counter = 0\<rparr>,
      it_tickers = [''GME''], it_last_trade_time = Map.empty\<rparr>"

theorem informed_trader_stays_within_its_limits_witness:
  "\<exists>os t. it_run demo_client_env demo_md_json default_informed_params 1000000000 os t \<and>
     map sn_side os = [''BUY''] \<and> (\<forall>n \<in> set os. justified default_informed_params n)"
proof -
  let ?p = default_informed_params
  have "it_last_trade_time demo_informed = Map.empty" by (simp add: demo_informed_def)
  from it_run.evaluate [OF it_run.start [OF this], of 0 1000000000 demo_client_env demo_md_json ?p "''GME''"]
  have r: "it_run demo_client_env demo_md_json ?p 1000000000 (sniped ?p 1000000000 ''GME'' demo_informed)
      (evaluate_and_trade demo_client_env ?p 1000000000 ''GME'' demo_informed)" by simp
  have "dbl_add 101 (dbl (5 / 100)) < 110" "dbl_add 100 10 \<le> 1000" by code_simp+
  then have "map sn_side (sniped ?p 1000000000 ''GME'' demo_informed) = [''BUY'']"
    by (simp add: sniped_def snipe_def demo_informed_def default_informed_params_def cooldown_def at_default_def
        get_latest_orderbook_def ic_get_inventory_def get_true_price_def Let_def)
  then show ?thesis
    using r conjunct1 [OF informed_trader_stays_within_its_limits [OF r]]
    by (intro exI [of _ "sniped ?p 1000000000 ''GME'' demo_informed"]
        exI [of _ "evaluate_and_trade demo_client_env ?p 1000000000 ''GME'' demo_informed"] conjI)
qed

end
