(* ===== verification/NoiseTrader.thy ===== *)
theory NoiseTrader
  imports MarketMaker
begin

text \<open>
  The noise trader of \<open>simulation/traders/noise_trader.h\<close>: at random moments it sends a market order, or
  a limit order near the last price. The draws of the standard library's distributions are arguments
  of the generators; \<open>std::pow\<close> is a parameter.
\<close>

section \<open>Generators\<close>

definition bernoulli_generate :: "bool \<Rightarrow> order_side" where
  "bernoulli_generate draw = (if draw then OrderSide_BUY else OrderSide_SELL)"

definition pareto_generate :: "(rat \<Rightarrow> rat \<Rightarrow> rat) \<Rightarrow> rat \<Rightarrow> rat \<Rightarrow> rat \<Rightarrow> rat result" where
  "pareto_generate pow scale shape u =
     rbind (dbl_div_finite (- 1) shape) (\<lambda>e. Inr (dbl_mul scale (pow (dbl_sub 1 u) e)))"

section \<open>Strategy\<close>

record 'f noise_trader =
  nt_fix_client :: "'f fix_client option"
  nt_tickers :: "string list"
  nt_client_order_id :: int

record noise_draw =
  nd_side :: order_side
  nd_quantity :: rat
  nd_rand :: nat
  nd_is_limit :: bool
  nd_noise :: rat

definition noise_price :: "rat \<Rightarrow> rat \<Rightarrow> rat" where
  "noise_price baseline noise =
     cpp_max (dbl (1 / 100)) (dbl_div (std_round (dbl_mul (dbl_add baseline noise) 100)) 100)"

text \<open>
  One round of \<open>run_strategy\<close>. \<open>rand () % 0\<close> is undefined; the order id is a plain \<open>int\<close>. Without a
  baseline function the baseline is 100.
\<close>

definition noise_step ::
  "'f fix_client_env \<Rightarrow> (string \<Rightarrow> rat) option \<Rightarrow> noise_draw \<Rightarrow> 'f noise_trader \<Rightarrow> 'f noise_trader result" where
  "noise_step env baseline_price_fn d t =
     (if nt_tickers t = [] then Inl Division_By_Zero
      else
        let ticker = nt_tickers t ! (nd_rand d mod length (nt_tickers t)) in
        case nt_fix_client t of
          None \<Rightarrow> Inr t
        | Some c \<Rightarrow>
            if \<not> is_connected c then Inr t
            else rbind (i32 (nt_client_order_id t + 1)) (\<lambda>i.
              if nd_is_limit d then
                let baseline = (case baseline_price_fn of Some f \<Rightarrow> f ticker | None \<Rightarrow> 100);
                    price = noise_price baseline (nd_noise d)
                in Inr (t\<lparr>nt_client_order_id := i, nt_fix_client :=
                     Some (snd (submit_limit_order env ticker price (nd_quantity d) (nd_side d) TimeInForce_GTC i c))\<rparr>)
              else Inr (t\<lparr>nt_client_order_id := i, nt_fix_client :=
                     Some (snd (submit_market_order env ticker (nd_quantity d) (nd_side d) i c))\<rparr>)))"

text \<open>The baseline of the deployment: the price of the last trade seen, or 100.\<close>

definition last_trade_baseline :: "md_handler \<Rightarrow> string \<Rightarrow> rat" where
  "last_trade_baseline h ticker =
     (case fst (get_recent_trades ticker h) of [] \<Rightarrow> 100 | ts \<Rightarrow> st_price (last ts))"

section \<open>Prices the exchange accepts\<close>

lemma noise_price_min: "dbl (1 / 100) \<le> noise_price baseline noise"
  by (simp add: noise_price_def cpp_max_def)

text \<open>
  The price of a limit order, as the gateway converts it, is at least one cent, so the order manager
  never refuses it for its price.
\<close>

lemma noise_price_is_positive:
  assumes "convert_to_internal_price (noise_price baseline noise) = Inr n"
  shows "1 \<le> n"
proof -
  let ?y = "round_double (noise_price baseline noise * 100)"
  have "round_double (dbl (1 / 100) * 100) = 1" by code_simp
  moreover have "round_double (dbl (1 / 100) * 100) \<le> ?y"
    using noise_price_min by (intro round_double_mono) simp
  ultimately have "1 \<le> ?y" by simp
  then show ?thesis
    using assms by (simp add: convert_to_internal_price_def decimal_to_int_multiplier_def double_to_i32_def result_simps
        le_floor_iff split: if_splits)
qed

lemma noise_step_uses_one_id:
  assumes "noise_step env f d t = Inr t'"
  shows "nt_client_order_id t' = nt_client_order_id t \<or> nt_client_order_id t' = nt_client_order_id t + 1"
    and "nt_tickers t' = nt_tickers t"
  using assms by (auto simp: noise_step_def Let_def result_simps split: if_splits option.splits)

end
