(* ===== verification/CoreDb.thy ===== *)
theory CoreDb
  imports CoreTypes Text
begin

text \<open>
  The PostgreSQL side of \<open>libs/database/database_client.h\<close>: the tables of
  \<open>scripts/db_scripts/init_postgresql.sql\<close> and every member function of \<open>DatabaseClient\<close> that reads or
  writes them. A table is the list of its rows; a statement is the function of the tables that its SQL
  text denotes, with the keys, references and checks of the schema. The order of rows a \<open>SELECT\<close>
  without \<open>ORDER BY\<close> returns is the order of the list, which the theorems do not use.

  A function runs one transaction. It either commits or, when a statement fails, is rolled back: the
  tables are as before, but numbers drawn from the sequences behind the \<open>SERIAL\<close> columns are gone. A
  lost connection is a fault that \<open>db_faults\<close> schedules, one entry per transaction. The text of an
  error, and the array literals PostgreSQL reads and prints, are arguments, collected in \<open>pg_env\<close>.
\<close>

section \<open>Tables\<close>

record pg_user =
  pu_user_id :: int
  pu_username :: string
  pu_password :: string

record pg_server =
  ps_server_id :: int
  ps_server_name :: string
  ps_admin_id :: int
  ps_active_tickers :: "string list"
  ps_description :: string
  ps_initial_usd :: int

record pg_allow =
  pa_server_id :: int
  pa_user_id :: int

record pg_balance =
  pb_user_id :: int
  pb_server_id :: int
  pb_symbol :: string
  pb_balance :: int

record pg_bot_balance =
  pi_user_id :: int
  pi_server_id :: int
  pi_balance :: int

record pg_machine =
  pm_machine_id :: int
  pm_machine_name :: string
  pm_ip :: string

record pg_service =
  pv_server_id :: int
  pv_machine_id :: int
  pv_service_type :: service
  pv_port :: int

record core_db =
  db_users :: "pg_user list"
  db_next_user_id :: int
  db_servers :: "pg_server list"
  db_next_server_id :: int
  db_allowlist :: "pg_allow list"
  db_balances :: "pg_balance list"
  db_bot_balances :: "pg_bot_balance list"
  db_machines :: "pg_machine list"
  db_services :: "pg_service list"
  db_has_initial_usd :: bool
  db_faults :: "bool list"

section \<open>Transactions\<close>

datatype sql_error =
    Connection_Lost | Unique_Violation | Foreign_Key_Violation | Check_Violation | String_Too_Long
  | Malformed_Array | Unexpected_Rows | Unbound_Parameter | Undefined_Table | Undefined_Column | Conversion_Error

record pg_env =
  pg_what :: "sql_error \<Rightarrow> string"
  pg_array_in :: "string \<Rightarrow> string list option"
  pg_array_out :: "string list \<Rightarrow> string"

type_synonym 'a txn = "core_db \<Rightarrow> (sql_error + 'a) \<times> core_db"

definition t_return :: "'a \<Rightarrow> 'a txn" where
  "t_return v db = (Inr v, db)"

definition t_fail :: "sql_error \<Rightarrow> 'a txn" where
  "t_fail e db = (Inl e, db)"

definition t_bind :: "'a txn \<Rightarrow> ('a \<Rightarrow> 'b txn) \<Rightarrow> 'b txn" where
  "t_bind m f db = (case m db of (Inl e, db') \<Rightarrow> (Inl e, db') | (Inr v, db') \<Rightarrow> f v db')"

definition t_select :: "(core_db \<Rightarrow> 'a) \<Rightarrow> 'a txn" where
  "t_select f db = (Inr (f db), db)"

definition t_check :: "bool \<Rightarrow> sql_error \<Rightarrow> unit txn" where
  "t_check b e = (if b then t_return () else t_fail e)"

definition t_update :: "(core_db \<Rightarrow> core_db) \<Rightarrow> unit txn" where
  "t_update f db = (Inr (), f db)"

fun t_each :: "('a \<Rightarrow> unit txn) \<Rightarrow> 'a list \<Rightarrow> unit txn" where
  "t_each f [] = t_return ()"
| "t_each f (x # xs) = t_bind (f x) (\<lambda>_. t_each f xs)"

definition rolled_back :: "core_db \<Rightarrow> core_db \<Rightarrow> core_db" where
  "rolled_back before after =
     before\<lparr>db_next_user_id := db_next_user_id after, db_next_server_id := db_next_server_id after\<rparr>"

definition run_txn :: "pg_env \<Rightarrow> string \<Rightarrow> 'a txn \<Rightarrow> core_db \<Rightarrow> (string + 'a) \<times> core_db" where
  "run_txn pg prefix body db =
     (case db_faults db of
        True # fs \<Rightarrow> (Inl (prefix @ pg_what pg Connection_Lost), db\<lparr>db_faults := fs\<rparr>)
      | fs \<Rightarrow>
          let db1 = db\<lparr>db_faults := tl fs\<rparr> in
          case body db1 of
            (Inr v, db2) \<Rightarrow> (Inr v, db2)
          | (Inl e, db2) \<Rightarrow> (Inl (prefix @ pg_what pg e), rolled_back db1 db2))"

section \<open>Statements\<close>

definition user_named :: "string \<Rightarrow> core_db \<Rightarrow> pg_user option" where
  "user_named name db = find (\<lambda>u. pu_username u = name) (db_users db)"

definition user_with_id :: "int \<Rightarrow> core_db \<Rightarrow> pg_user option" where
  "user_with_id uid db = find (\<lambda>u. pu_user_id u = uid) (db_users db)"

definition server_named :: "string \<Rightarrow> core_db \<Rightarrow> pg_server option" where
  "server_named name db = find (\<lambda>s. ps_server_name s = name) (db_servers db)"

definition server_with_id :: "int \<Rightarrow> core_db \<Rightarrow> pg_server option" where
  "server_with_id sid db = find (\<lambda>s. ps_server_id s = sid) (db_servers db)"

definition machine_with_id :: "int \<Rightarrow> core_db \<Rightarrow> pg_machine option" where
  "machine_with_id mid db = find (\<lambda>m. pm_machine_id m = mid) (db_machines db)"

definition allowed :: "int \<Rightarrow> int \<Rightarrow> core_db \<Rightarrow> bool" where
  "allowed sid uid db \<longleftrightarrow> (\<exists>a \<in> set (db_allowlist db). pa_server_id a = sid \<and> pa_user_id a = uid)"

definition allowlist_of :: "int \<Rightarrow> core_db \<Rightarrow> int list" where
  "allowlist_of sid db = map pa_user_id (filter (\<lambda>a. pa_server_id a = sid) (db_allowlist db))"

definition balances_of :: "int \<Rightarrow> int \<Rightarrow> core_db \<Rightarrow> (string \<times> int) list" where
  "balances_of uid sid db =
     map (\<lambda>b. (pb_symbol b, pb_balance b)) (filter (\<lambda>b. pb_user_id b = uid \<and> pb_server_id b = sid) (db_balances db))"

definition insert_user_row :: "string \<Rightarrow> string \<Rightarrow> int txn" where
  "insert_user_row username password =
     t_bind (t_select db_next_user_id) (\<lambda>uid.
     t_bind (t_update (\<lambda>db. db\<lparr>db_next_user_id := uid + 1\<rparr>)) (\<lambda>_.
     t_bind (t_select (user_named username)) (\<lambda>u.
     t_bind (t_check (u = None) Unique_Violation) (\<lambda>_.
     t_bind (t_update (\<lambda>db. db\<lparr>db_users := db_users db @
       [\<lparr>pu_user_id = uid, pu_username = username, pu_password = password\<rparr>]\<rparr>)) (\<lambda>_.
     t_return uid)))))"

text \<open>\<open>active_tickers VARCHAR(10)[]\<close> and \<open>description VARCHAR(255)\<close>.\<close>

definition fits :: "string list \<Rightarrow> string \<Rightarrow> bool" where
  "fits tickers description \<longleftrightarrow> (\<forall>t \<in> set tickers. length t \<le> 10) \<and> length description \<le> 255"

definition cast_array :: "pg_env \<Rightarrow> string \<Rightarrow> string list txn" where
  "cast_array pg arr = (case pg_array_in pg arr of None \<Rightarrow> t_fail Malformed_Array | Some ts \<Rightarrow> t_return ts)"

definition insert_server_row :: "pg_env \<Rightarrow> string \<Rightarrow> int \<Rightarrow> string \<Rightarrow> string \<Rightarrow> int \<Rightarrow> int txn" where
  "insert_server_row pg server_name admin_id description arr initial_usd =
     t_bind (cast_array pg arr) (\<lambda>tickers.
     t_bind (t_select db_next_server_id) (\<lambda>sid.
     t_bind (t_update (\<lambda>db. db\<lparr>db_next_server_id := sid + 1\<rparr>)) (\<lambda>_.
     t_bind (t_check (fits tickers description) String_Too_Long) (\<lambda>_.
     t_bind (t_select (server_named server_name)) (\<lambda>s.
     t_bind (t_check (s = None) Unique_Violation) (\<lambda>_.
     t_bind (t_select (user_with_id admin_id)) (\<lambda>u.
     t_bind (t_check (u \<noteq> None) Foreign_Key_Violation) (\<lambda>_.
     t_bind (t_update (\<lambda>db. db\<lparr>db_servers := db_servers db @
       [\<lparr>ps_server_id = sid, ps_server_name = server_name, ps_admin_id = admin_id, ps_active_tickers = tickers,
         ps_description = description,
         ps_initial_usd = (if db_has_initial_usd db then initial_usd else 100000)\<rparr>]\<rparr>)) (\<lambda>_.
     t_return sid)))))))))"

definition insert_allow_row :: "int \<Rightarrow> int \<Rightarrow> unit txn" where
  "insert_allow_row sid uid =
     t_bind (t_select (allowed sid uid)) (\<lambda>a.
     t_bind (t_check (\<not> a) Unique_Violation) (\<lambda>_.
     t_bind (t_select (server_with_id sid)) (\<lambda>s.
     t_bind (t_select (user_with_id uid)) (\<lambda>u.
     t_bind (t_check (s \<noteq> None \<and> u \<noteq> None) Foreign_Key_Violation) (\<lambda>_.
     t_update (\<lambda>db. db\<lparr>db_allowlist := db_allowlist db @ [\<lparr>pa_server_id = sid, pa_user_id = uid\<rparr>]\<rparr>))))))"

definition insert_service_row :: "int \<Rightarrow> int \<Rightarrow> service \<Rightarrow> int \<Rightarrow> unit txn" where
  "insert_service_row mid sid service_type port =
     t_bind (t_check (1 \<le> port \<and> port \<le> 65535) Check_Violation) (\<lambda>_.
     t_bind (t_select (\<lambda>db. \<exists>v \<in> set (db_services db). pv_server_id v = sid \<and> pv_machine_id v = mid \<and> pv_port v = port)) (\<lambda>dup.
     t_bind (t_check (\<not> dup) Unique_Violation) (\<lambda>_.
     t_bind (t_select (server_with_id sid)) (\<lambda>s.
     t_bind (t_select (machine_with_id mid)) (\<lambda>m.
     t_bind (t_check (s \<noteq> None \<and> m \<noteq> None) Foreign_Key_Violation) (\<lambda>_.
     t_update (\<lambda>db. db\<lparr>db_services := db_services db @
       [\<lparr>pv_server_id = sid, pv_machine_id = mid, pv_service_type = service_type, pv_port = port\<rparr>]\<rparr>)))))))"

definition balance_key :: "int \<Rightarrow> int \<Rightarrow> string \<Rightarrow> pg_balance \<Rightarrow> bool" where
  "balance_key uid sid symbol b \<longleftrightarrow> pb_user_id b = uid \<and> pb_server_id b = sid \<and> pb_symbol b = symbol"

definition has_balance :: "int \<Rightarrow> int \<Rightarrow> string \<Rightarrow> core_db \<Rightarrow> bool" where
  "has_balance uid sid symbol db \<longleftrightarrow> (\<exists>b \<in> set (db_balances db). balance_key uid sid symbol b)"

definition insert_balance_row :: "int \<Rightarrow> int \<Rightarrow> string \<Rightarrow> int \<Rightarrow> unit txn" where
  "insert_balance_row uid sid symbol balance =
     t_bind (t_check (length symbol \<le> 10) String_Too_Long) (\<lambda>_.
     t_bind (t_select (has_balance uid sid symbol)) (\<lambda>dup.
     t_bind (t_check (\<not> dup) Unique_Violation) (\<lambda>_.
     t_bind (t_select (user_with_id uid)) (\<lambda>u.
     t_bind (t_select (server_with_id sid)) (\<lambda>s.
     t_bind (t_check (u \<noteq> None \<and> s \<noteq> None) Foreign_Key_Violation) (\<lambda>_.
     t_update (\<lambda>db. db\<lparr>db_balances := db_balances db @
       [\<lparr>pb_user_id = uid, pb_server_id = sid, pb_symbol = symbol, pb_balance = balance\<rparr>]\<rparr>)))))))"

definition delete_server_row :: "int \<Rightarrow> unit txn" where
  "delete_server_row sid =
     t_bind (t_select (\<lambda>db. (\<exists>a \<in> set (db_allowlist db). pa_server_id a = sid) \<or> (\<exists>b \<in> set (db_balances db). pb_server_id b = sid)))
       (\<lambda>referenced.
     t_bind (t_select (server_with_id sid)) (\<lambda>s.
     t_bind (t_check (s = None \<or> \<not> referenced) Foreign_Key_Violation) (\<lambda>_.
     t_update (\<lambda>db. db\<lparr>db_servers := filter (\<lambda>s. ps_server_id s \<noteq> sid) (db_servers db),
       db_services := filter (\<lambda>v. pv_server_id v \<noteq> sid) (db_services db),
       db_bot_balances := filter (\<lambda>b. pi_server_id b \<noteq> sid) (db_bot_balances db)\<rparr>))))"

definition delete_user_row :: "int \<Rightarrow> unit txn" where
  "delete_user_row uid =
     t_bind (t_select (\<lambda>db. (\<exists>a \<in> set (db_allowlist db). pa_user_id a = uid) \<or>
       (\<exists>b \<in> set (db_balances db). pb_user_id b = uid) \<or> (\<exists>s \<in> set (db_servers db). ps_admin_id s = uid))) (\<lambda>referenced.
     t_bind (t_select (user_with_id uid)) (\<lambda>u.
     t_bind (t_check (u = None \<or> \<not> referenced) Foreign_Key_Violation) (\<lambda>_.
     t_update (\<lambda>db. db\<lparr>db_users := filter (\<lambda>u. pu_user_id u \<noteq> uid) (db_users db),
       db_bot_balances := filter (\<lambda>b. pi_user_id b \<noteq> uid) (db_bot_balances db)\<rparr>))))"

definition delete_allow_rows :: "int \<Rightarrow> unit txn" where
  "delete_allow_rows sid = t_update (\<lambda>db. db\<lparr>db_allowlist := filter (\<lambda>a. pa_server_id a \<noteq> sid) (db_allowlist db)\<rparr>)"

section \<open>Array literals\<close>

lemma dropWhile_shorter: "dropWhile P xs = y # ys \<Longrightarrow> length ys < length xs"
  by (metis Suc_le_eq length_Cons length_dropWhile_le)

function split_commas :: "string \<Rightarrow> string list" where
  "split_commas s =
     (case dropWhile (\<lambda>c. c \<noteq> CHR '','') s of
        [] \<Rightarrow> [takeWhile (\<lambda>c. c \<noteq> CHR '','') s]
      | _ # rest \<Rightarrow> takeWhile (\<lambda>c. c \<noteq> CHR '','') s # split_commas rest)"
  by auto

termination by (relation "measure length") (simp_all add: dropWhile_shorter)

declare split_commas.simps [simp del]

definition unquote :: "string \<Rightarrow> string" where
  "unquote token =
     (if length token \<ge> 2 \<and> hd token = CHR 0x22 \<and> last token = CHR 0x22 then butlast (tl token) else token)"

definition parse_pg_array :: "string \<Rightarrow> string list" where
  "parse_pg_array pg_array =
     (if length pg_array < 2 \<or> hd pg_array \<noteq> CHR ''{'' then []
      else let inner = butlast (tl pg_array) in
        if inner = [] then [] else filter (\<lambda>t. t \<noteq> []) (map unquote (split_commas inner)))"

fun join_commas :: "string list \<Rightarrow> string" where
  "join_commas [] = []"
| "join_commas [t] = t"
| "join_commas (t # ts) = t @ '','' @ join_commas ts"

definition build_pg_array :: "string list \<Rightarrow> string" where
  "build_pg_array items = ''{'' @ join_commas items @ ''}''"


text \<open>Names without the characters the literal is made of survive the round trip.\<close>

definition plain :: "string \<Rightarrow> bool" where
  "plain t \<longleftrightarrow> t \<noteq> [] \<and> CHR '','' \<notin> set t \<and> CHR 0x22 \<notin> set t"

lemma split_commas_single: "CHR '','' \<notin> set t \<Longrightarrow> split_commas t = [t]"
proof -
  assume "CHR '','' \<notin> set t"
  then have "dropWhile (\<lambda>c. c \<noteq> CHR '','') t = []" "takeWhile (\<lambda>c. c \<noteq> CHR '','') t = t" by auto
  then show ?thesis unfolding split_commas.simps [of t] by (simp only: list.case)
qed

lemma split_commas_append:
  assumes "CHR '','' \<notin> set t"
  shows "split_commas (t @ '','' @ s) = t # split_commas s"
proof -
  have "dropWhile (\<lambda>c. c \<noteq> CHR '','') (t @ '','' @ s) = CHR '','' # s"
    "takeWhile (\<lambda>c. c \<noteq> CHR '','') (t @ '','' @ s) = t"
    using assms by (auto simp: dropWhile_append takeWhile_append)
  then show ?thesis unfolding split_commas.simps [of "t @ '','' @ s"] by (simp only: list.case)
qed

lemma split_join: "ts \<noteq> [] \<Longrightarrow> (\<forall>t \<in> set ts. CHR '','' \<notin> set t) \<Longrightarrow> split_commas (join_commas ts) = ts"
  by (induction ts rule: join_commas.induct) (simp_all add: split_commas_single split_commas_append del: append.simps)

lemma join_commas_eq_Nil: "\<forall>t \<in> set ts. t \<noteq> [] \<Longrightarrow> join_commas ts = [] \<longleftrightarrow> ts = []"
  by (cases ts rule: join_commas.cases) auto

lemma unquote_plain: "plain t \<Longrightarrow> unquote t = t"
  by (cases t) (auto simp: unquote_def plain_def)

lemma parse_build: "\<forall>t \<in> set ts. plain t \<Longrightarrow> parse_pg_array (build_pg_array ts) = ts"
proof -
  assume p: "\<forall>t \<in> set ts. plain t"
  have i: "butlast (tl (build_pg_array ts)) = join_commas ts" by (simp add: build_pg_array_def butlast_append)
  have n: "join_commas ts = [] \<longleftrightarrow> ts = []" using p by (intro join_commas_eq_Nil) (auto simp: plain_def)
  have m: "map unquote ts = ts" using p by (intro map_idI) (simp add: unquote_plain)
  have f: "filter (\<lambda>t. t \<noteq> []) ts = ts" using p by (simp add: filter_id_conv plain_def)
  have "ts \<noteq> [] \<Longrightarrow> split_commas (join_commas ts) = ts" using p by (intro split_join) (auto simp: plain_def)
  then show ?thesis using i n m f by (auto simp: parse_pg_array_def Let_def) (auto simp: build_pg_array_def)
qed

section \<open>A small database\<close>

definition demo_pg :: pg_env where
  "demo_pg = \<lparr>pg_what = (\<lambda>_. ''failed''), pg_array_in = (\<lambda>arr. Some (parse_pg_array arr)), pg_array_out = build_pg_array\<rparr>"

definition empty_db :: core_db where
  "empty_db =
     \<lparr>db_users = [], db_next_user_id = 1, db_servers = [], db_next_server_id = 1, db_allowlist = [], db_balances = [],
      db_bot_balances = [], db_machines = [\<lparr>pm_machine_id = 1, pm_machine_name = ''localhost'', pm_ip = ''127.0.0.1''\<rparr>],
      db_services = [], db_has_initial_usd = True, db_faults = []\<rparr>"

end
