(* ===== verification/DbClient.thy ===== *)
theory DbClient
  imports CoreDb
begin

text \<open>
  The member functions of \<open>DatabaseClient\<close> that work on PostgreSQL, in the order of
  \<open>libs/database/database_client.h\<close>. \<open>std::expected<T, std::string>\<close> is a sum with the error text on the
  left.
\<close>

section \<open>Rows\<close>

record user_row =
  ur_user_id :: int
  ur_username :: string

record server_row =
  sr_server_id :: int
  sr_admin_id :: int
  sr_server_name :: string
  sr_admin_name :: string
  sr_active_tickers :: "string list"
  sr_description :: string
  sr_initial_usd :: int

record user_server_row =
  us_server_id :: int
  us_server_name :: string
  us_role :: string
  us_active_tickers :: "string list"
  us_description :: string
  us_initial_usd :: int
  us_balances :: "(string \<times> int) list"

record account_details_row =
  ad_server_id :: int
  ad_server_name :: string
  ad_admin_name :: string
  ad_description :: string
  ad_active_tickers :: "string list"
  ad_role :: string
  ad_initial_usd :: int
  ad_initial_bot_portfolio_balance :: "int option"
  ad_balances :: "(string \<times> int) list"

record service_row =
  sv_service_type :: service
  sv_ip :: string
  sv_port :: int

record service_insert_row =
  si_machine_id :: int
  si_service_type :: service
  si_port :: int

record user_balance_info =
  ub_user_id :: int
  ub_username :: string
  ub_balances :: "(string \<times> int) list"

type_synonym 'a db_op = "core_db \<Rightarrow> (string + 'a) \<times> core_db"

text \<open>The columns as the client reads them.\<close>

definition tickers_of :: "pg_env \<Rightarrow> pg_server \<Rightarrow> string list" where
  "tickers_of pg s = parse_pg_array (pg_array_out pg (ps_active_tickers s))"

definition initial_usd_of :: "core_db \<Rightarrow> pg_server \<Rightarrow> int" where
  "initial_usd_of db s = (if db_has_initial_usd db then ps_initial_usd s else 100000)"

definition user_row_of :: "pg_user \<Rightarrow> user_row" where
  "user_row_of u = \<lparr>ur_user_id = pu_user_id u, ur_username = pu_username u\<rparr>"

text \<open>The inner join with the administrator drops a server whose administrator is missing.\<close>

definition server_row_of :: "pg_env \<Rightarrow> core_db \<Rightarrow> pg_server \<Rightarrow> server_row option" where
  "server_row_of pg db s =
     map_option (\<lambda>u. \<lparr>sr_server_id = ps_server_id s, sr_admin_id = ps_admin_id s, sr_server_name = ps_server_name s,
       sr_admin_name = pu_username u, sr_active_tickers = tickers_of pg s, sr_description = ps_description s,
       sr_initial_usd = initial_usd_of db s\<rparr>) (user_with_id (ps_admin_id s) db)"

section \<open>Balances\<close>

definition read_balance :: "pg_env \<Rightarrow> int \<Rightarrow> int \<Rightarrow> string \<Rightarrow> int db_op" where
  "read_balance pg uid sid symbol =
     run_txn pg ''Error faced when getting balance: ''
       (t_bind (t_select (\<lambda>db. filter (balance_key uid sid symbol) (db_balances db))) (\<lambda>rows.
         case rows of [b] \<Rightarrow> t_return (pb_balance b) | _ \<Rightarrow> t_fail Unexpected_Rows))"

definition read_balances :: "pg_env \<Rightarrow> int \<Rightarrow> int \<Rightarrow> (string \<times> int) list db_op" where
  "read_balances pg uid sid = run_txn pg ''Error faced when getting balance: '' (t_select (balances_of uid sid))"

definition set_balance :: "int \<Rightarrow> int \<Rightarrow> string \<Rightarrow> int \<Rightarrow> core_db \<Rightarrow> core_db" where
  "set_balance uid sid symbol balance db =
     db\<lparr>db_balances := map (\<lambda>b. if balance_key uid sid symbol b then b\<lparr>pb_balance := balance\<rparr> else b) (db_balances db)\<rparr>"

definition db_update_balance :: "pg_env \<Rightarrow> int \<Rightarrow> int \<Rightarrow> string \<Rightarrow> int \<Rightarrow> unit db_op" where
  "db_update_balance pg uid sid symbol balance =
     run_txn pg ''Error faced when updating balance: '' (t_update (set_balance uid sid symbol balance))"

section \<open>Users\<close>

definition authenticate_user :: "pg_env \<Rightarrow> string \<Rightarrow> string \<Rightarrow> user_row option db_op" where
  "authenticate_user pg username password =
     run_txn pg ''Error authenticating user: ''
       (t_select (\<lambda>db. map_option user_row_of
         (find (\<lambda>u. pu_username u = username \<and> pu_password u = password) (db_users db))))"

definition create_user :: "pg_env \<Rightarrow> string \<Rightarrow> string \<Rightarrow> user_row db_op" where
  "create_user pg username password =
     run_txn pg ''Error creating user: ''
       (t_bind (insert_user_row username password) (\<lambda>uid. t_return \<lparr>ur_user_id = uid, ur_username = username\<rparr>))"

definition get_user :: "pg_env \<Rightarrow> string \<Rightarrow> user_row option db_op" where
  "get_user pg username =
     run_txn pg ''Error getting user: '' (t_select (\<lambda>db. map_option user_row_of (user_named username db)))"

section \<open>Servers\<close>

definition get_active_servers :: "pg_env \<Rightarrow> server_row list db_op" where
  "get_active_servers pg =
     run_txn pg ''Error getting active servers: ''
       (t_select (\<lambda>db. List.map_filter (server_row_of pg db) (db_servers db)))"

definition get_server :: "pg_env \<Rightarrow> string \<Rightarrow> server_row option db_op" where
  "get_server pg server_name =
     run_txn pg ''Error getting server: ''
       (t_select (\<lambda>db. Option.bind (server_named server_name db) (server_row_of pg db)))"

definition get_server_active_symbols :: "pg_env \<Rightarrow> string \<Rightarrow> string list db_op" where
  "get_server_active_symbols pg server_name =
     run_txn pg ''Error getting active symbols: ''
       (t_select (\<lambda>db. case server_named server_name db of None \<Rightarrow> [] | Some s \<Rightarrow> tickers_of pg s))"

text \<open>A user belongs to a server as its administrator or through the allowlist.\<close>

definition belongs_to :: "int \<Rightarrow> pg_server \<Rightarrow> core_db \<Rightarrow> bool" where
  "belongs_to uid s db \<longleftrightarrow> ps_admin_id s = uid \<or> allowed (ps_server_id s) uid db"

definition role_of :: "int \<Rightarrow> pg_server \<Rightarrow> string" where
  "role_of uid s = (if ps_admin_id s = uid then ''admin'' else ''member'')"

definition get_user_servers :: "pg_env \<Rightarrow> string \<Rightarrow> user_server_row list db_op" where
  "get_user_servers pg username =
     run_txn pg ''Error getting user servers: ''
       (t_select (\<lambda>db. case user_named username db of
          None \<Rightarrow> []
        | Some u \<Rightarrow>
            map (\<lambda>s. \<lparr>us_server_id = ps_server_id s, us_server_name = ps_server_name s, us_role = role_of (pu_user_id u) s,
                us_active_tickers = tickers_of pg s, us_description = ps_description s, us_initial_usd = initial_usd_of db s,
                us_balances = balances_of (pu_user_id u) (ps_server_id s) db\<rparr>)
              (filter (\<lambda>s. belongs_to (pu_user_id u) s db) (db_servers db))))"

definition bot_balance_of :: "int \<Rightarrow> int \<Rightarrow> core_db \<Rightarrow> int option" where
  "bot_balance_of uid sid db =
     map_option pi_balance (find (\<lambda>b. pi_user_id b = uid \<and> pi_server_id b = sid) (db_bot_balances db))"

definition get_account_details :: "pg_env \<Rightarrow> string \<Rightarrow> string \<Rightarrow> account_details_row option db_op" where
  "get_account_details pg username server_name =
     run_txn pg ''Error getting account details: ''
       (t_select (\<lambda>db.
          Option.bind (user_named username db) (\<lambda>u.
          Option.bind (server_named server_name db) (\<lambda>s.
          Option.bind (user_with_id (ps_admin_id s) db) (\<lambda>admin.
            if \<not> belongs_to (pu_user_id u) s db then None
            else Some \<lparr>ad_server_id = ps_server_id s, ad_server_name = ps_server_name s, ad_admin_name = pu_username admin,
                ad_description = ps_description s, ad_active_tickers = tickers_of pg s, ad_role = role_of (pu_user_id u) s,
                ad_initial_usd = initial_usd_of db s,
                ad_initial_bot_portfolio_balance = bot_balance_of (pu_user_id u) (ps_server_id s) db,
                ad_balances = balances_of (pu_user_id u) (ps_server_id s) db\<rparr>)))))"

definition create_server_with_services ::
  "pg_env \<Rightarrow> string \<Rightarrow> int \<Rightarrow> string \<Rightarrow> string list \<Rightarrow> int list \<Rightarrow> service_insert_row list \<Rightarrow> int \<Rightarrow> int db_op" where
  "create_server_with_services pg server_name admin_id description symbols allowlist_user_ids services initial_usd =
     run_txn pg ''Error creating server: ''
       (t_bind (insert_server_row pg server_name admin_id description (build_pg_array symbols) initial_usd) (\<lambda>sid.
        t_bind (t_each (insert_allow_row sid) allowlist_user_ids) (\<lambda>_.
        t_bind (t_each (\<lambda>v. insert_service_row (si_machine_id v) sid (si_service_type v) (si_port v)) services) (\<lambda>_.
        t_return sid))))"

definition create_server :: "pg_env \<Rightarrow> string \<Rightarrow> int \<Rightarrow> string \<Rightarrow> string list \<Rightarrow> int list \<Rightarrow> int \<Rightarrow> int db_op" where
  "create_server pg server_name admin_id description symbols allowlist_user_ids initial_usd =
     create_server_with_services pg server_name admin_id description symbols allowlist_user_ids [] initial_usd"

definition configure_server ::
  "pg_env \<Rightarrow> string \<Rightarrow> int \<Rightarrow> string \<Rightarrow> string list \<Rightarrow> int list \<Rightarrow> bool db_op" where
  "configure_server pg server_name caller_id description symbols allowlist_user_ids =
     run_txn pg ''Error configuring server: ''
       (t_bind (t_select (server_named server_name)) (\<lambda>so.
        case so of
          None \<Rightarrow> t_return False
        | Some s \<Rightarrow>
            if ps_admin_id s \<noteq> caller_id then t_return False
            else
              t_bind (cast_array pg (build_pg_array symbols)) (\<lambda>tickers.
              t_bind (t_check (fits tickers description) String_Too_Long) (\<lambda>_.
              t_bind (t_update (\<lambda>db. db\<lparr>db_servers :=
                map (\<lambda>r. if ps_server_id r = ps_server_id s
                         then r\<lparr>ps_description := description, ps_active_tickers := tickers\<rparr> else r) (db_servers db)\<rparr>)) (\<lambda>_.
              t_bind (delete_allow_rows (ps_server_id s)) (\<lambda>_.
              t_bind (t_each (insert_allow_row (ps_server_id s)) allowlist_user_ids) (\<lambda>_.
              t_return True)))))))"

definition delete_server :: "pg_env \<Rightarrow> string \<Rightarrow> bool db_op" where
  "delete_server pg server_name =
     run_txn pg ''Error deleting server: ''
       (t_bind (t_select (server_named server_name)) (\<lambda>so.
        case so of
          None \<Rightarrow> t_return False
        | Some s \<Rightarrow>
            t_bind (delete_allow_rows (ps_server_id s)) (\<lambda>_.
            t_bind (t_update (\<lambda>db. db\<lparr>db_balances := filter (\<lambda>b. pb_server_id b \<noteq> ps_server_id s) (db_balances db)\<rparr>)) (\<lambda>_.
            t_bind (t_update (\<lambda>db. db\<lparr>db_services := filter (\<lambda>v. pv_server_id v \<noteq> ps_server_id s) (db_services db)\<rparr>)) (\<lambda>_.
            t_bind (delete_server_row (ps_server_id s)) (\<lambda>_.
            t_return True))))))"

text \<open>One transaction per name, up to the first that is unknown.\<close>

fun resolve_user_ids :: "pg_env \<Rightarrow> string list \<Rightarrow> int list db_op" where
  "resolve_user_ids pg [] db = (Inr [], db)"
| "resolve_user_ids pg (uname # unames) db =
     (case get_user pg uname db of
        (Inl e, db') \<Rightarrow> (Inl e, db')
      | (Inr None, db') \<Rightarrow> (Inl (''User not found: '' @ uname), db')
      | (Inr (Some u), db') \<Rightarrow>
          (case resolve_user_ids pg unames db' of
             (Inl e, db'') \<Rightarrow> (Inl e, db'')
           | (Inr ids, db'') \<Rightarrow> (Inr (ur_user_id u # ids), db'')))"

section \<open>Machines and services\<close>

definition query_machines :: "pg_env \<Rightarrow> pg_machine list db_op" where
  "query_machines pg = run_txn pg ''Error getting active servers: '' (t_select db_machines)"

definition service_row_of :: "core_db \<Rightarrow> pg_service \<Rightarrow> service_row option" where
  "service_row_of db v =
     (if server_with_id (pv_server_id v) db = None then None
      else map_option (\<lambda>m. \<lparr>sv_service_type = pv_service_type v, sv_ip = pm_ip m, sv_port = pv_port v\<rparr>)
             (machine_with_id (pv_machine_id v) db))"

text \<open>The variant without arguments sends the text with its \<open>$1\<close> and no parameter.\<close>

definition query_services_all :: "pg_env \<Rightarrow> service_row list db_op" where
  "query_services_all pg = run_txn pg ''Error getting active servers: '' (t_fail Unbound_Parameter)"

definition query_services :: "pg_env \<Rightarrow> string \<Rightarrow> service_row list db_op" where
  "query_services pg machine_name =
     run_txn pg (''Error getting services of machine '' @ machine_name @ '': '')
       (t_select (\<lambda>db. List.map_filter (service_row_of db)
         (filter (\<lambda>v. case machine_with_id (pv_machine_id v) db of None \<Rightarrow> False | Some m \<Rightarrow> pm_machine_name m = machine_name)
           (db_services db))))"

definition get_service_endpoint :: "pg_env \<Rightarrow> string \<Rightarrow> service \<Rightarrow> (string \<times> int) option db_op" where
  "get_service_endpoint pg server_name service_type =
     run_txn pg (''Error getting service endpoint for '' @ server_name @ '': '')
       (t_select (\<lambda>db. case List.map_filter (service_row_of db)
           (filter (\<lambda>v. pv_service_type v = service_type \<and>
              (case server_with_id (pv_server_id v) db of None \<Rightarrow> False | Some s \<Rightarrow> ps_server_name s = server_name))
             (db_services db)) of
          [] \<Rightarrow> None
        | v # _ \<Rightarrow> Some (sv_ip v, sv_port v)))"

definition insert_service :: "pg_env \<Rightarrow> int \<Rightarrow> int \<Rightarrow> service \<Rightarrow> int \<Rightarrow> unit db_op" where
  "insert_service pg mid sid service_type port =
     run_txn pg ''Error inserting service: '' (insert_service_row mid sid service_type port)"

section \<open>Balances of a server\<close>

definition insert_balance :: "pg_env \<Rightarrow> int \<Rightarrow> int \<Rightarrow> string \<Rightarrow> int \<Rightarrow> unit db_op" where
  "insert_balance pg uid sid symbol balance =
     run_txn pg ''Error inserting balance: '' (insert_balance_row uid sid symbol balance)"

definition upsert_init_bot_portfolio_balance :: "pg_env \<Rightarrow> int \<Rightarrow> int \<Rightarrow> int \<Rightarrow> unit db_op" where
  "upsert_init_bot_portfolio_balance pg uid sid balance =
     run_txn pg ''Error upserting initial bot portfolio balance: ''
       (t_bind (t_select (bot_balance_of uid sid)) (\<lambda>old.
        if old \<noteq> None then
          t_update (\<lambda>db. db\<lparr>db_bot_balances :=
            map (\<lambda>b. if pi_user_id b = uid \<and> pi_server_id b = sid then b\<lparr>pi_balance := balance\<rparr> else b) (db_bot_balances db)\<rparr>)
        else
          t_bind (t_select (user_with_id uid)) (\<lambda>u.
          t_bind (t_select (server_with_id sid)) (\<lambda>s.
          t_bind (t_check (u \<noteq> None \<and> s \<noteq> None) Foreign_Key_Violation) (\<lambda>_.
          t_update (\<lambda>db. db\<lparr>db_bot_balances := db_bot_balances db @
            [\<lparr>pi_user_id = uid, pi_server_id = sid, pi_balance = balance\<rparr>]\<rparr>))))))"

definition get_users_by_server :: "pg_env \<Rightarrow> int \<Rightarrow> int list db_op" where
  "get_users_by_server pg sid = run_txn pg ''Error getting users by server: '' (t_select (allowlist_of sid))"

text \<open>The allowlist and, where it is missing there, the administrator at the end.\<close>

definition members_of :: "pg_server \<Rightarrow> core_db \<Rightarrow> int list" where
  "members_of s db =
     (let ids = allowlist_of (ps_server_id s) db
      in if ps_admin_id s \<in> set ids then ids else ids @ [ps_admin_id s])"

text \<open>\<open>INSERT ... ON CONFLICT DO NOTHING\<close>, with the number of affected rows.\<close>

fun ensure_usd_loop :: "int \<Rightarrow> int \<Rightarrow> int list \<Rightarrow> int txn" where
  "ensure_usd_loop sid balance [] = t_return 0"
| "ensure_usd_loop sid balance (uid # uids) =
     t_bind (t_select (has_balance uid sid ''USD'')) (\<lambda>present.
     t_bind (if present then t_return () else insert_balance_row uid sid ''USD'' balance) (\<lambda>_.
     t_bind (ensure_usd_loop sid balance uids) (\<lambda>n.
     t_return (if present then n else n + 1))))"

definition ensure_initial_usd_balances :: "pg_env \<Rightarrow> string \<Rightarrow> int \<Rightarrow> int db_op" where
  "ensure_initial_usd_balances pg server_name initial_usd_amount db =
     (case run_txn pg ''Error ensuring initial USD balances: ''
        (t_bind (t_select (server_named server_name)) (\<lambda>so.
         case so of
           None \<Rightarrow> t_return None
         | Some s \<Rightarrow>
             t_bind (t_select db_has_initial_usd) (\<lambda>has.
             t_bind (t_select (members_of s)) (\<lambda>uids.
             t_bind (ensure_usd_loop (ps_server_id s) ((if has then ps_initial_usd s else initial_usd_amount) * 100 * 100) uids) (\<lambda>n.
             t_return (Some n)))))) db of
        (Inl e, db') \<Rightarrow> (Inl e, db')
      | (Inr None, db') \<Rightarrow> (Inl (''Server not found: '' @ server_name), db')
      | (Inr (Some n), db') \<Rightarrow> (Inr n, db'))"

definition balance_infos :: "pg_server \<Rightarrow> core_db \<Rightarrow> user_balance_info list" where
  "balance_infos s db =
     List.map_filter (\<lambda>uid. map_option (\<lambda>u. \<lparr>ub_user_id = uid, ub_username = pu_username u,
         ub_balances = balances_of uid (ps_server_id s) db\<rparr>) (user_with_id uid db)) (members_of s db)"

definition get_all_users_balances_for_server :: "pg_env \<Rightarrow> string \<Rightarrow> user_balance_info list db_op" where
  "get_all_users_balances_for_server pg server_name db =
     (case run_txn pg ''Error getting users and balances: ''
        (t_select (\<lambda>db. map_option (\<lambda>s. balance_infos s db) (server_named server_name db))) db of
        (Inl e, db') \<Rightarrow> (Inl e, db')
      | (Inr None, db') \<Rightarrow> (Inl (''Server not found: '' @ server_name), db')
      | (Inr (Some infos), db') \<Rightarrow> (Inr infos, db'))"

definition delete_uat_data :: "pg_env \<Rightarrow> int list \<Rightarrow> int list \<Rightarrow> unit db_op" where
  "delete_uat_data pg user_ids server_ids db =
     (if user_ids = [] \<and> server_ids = [] then (Inr (), db)
      else run_txn pg ''Error deleting UAT data: ''
        (t_bind (t_each delete_allow_rows server_ids) (\<lambda>_.
         t_bind (t_each (\<lambda>uid. t_update (\<lambda>db. db\<lparr>db_balances := filter (\<lambda>b. pb_user_id b \<noteq> uid) (db_balances db)\<rparr>)) user_ids) (\<lambda>_.
         t_bind (t_each delete_server_row server_ids) (\<lambda>_.
         t_each delete_user_row user_ids)))) db)"

end
