(* ===== verification/DbProperties.thy ===== *)
theory DbProperties
  imports DbClient
begin

text \<open>
  What the database client keeps of the tables. Keys and references of the schema hold in every state
  the client can reach, and the statements touch only what they name.
\<close>

section \<open>Invariants of transactions\<close>

lemmas txn_defs = t_return_def t_fail_def t_bind_def t_select_def t_check_def t_update_def

text \<open>
  A property of the tables that neither the fault schedule nor a step of the sequences can break is
  kept by a transaction if it is kept by its statements, whether it commits or not.
\<close>

locale db_invariant =
  fixes inv :: "core_db \<Rightarrow> bool"
  assumes inv_faults: "inv db \<Longrightarrow> inv (db\<lparr>db_faults := fs\<rparr>)"
    and inv_rolled_back:
      "inv db \<Longrightarrow> inv db' \<Longrightarrow> db_next_user_id db \<le> db_next_user_id db' \<Longrightarrow>
       db_next_server_id db \<le> db_next_server_id db' \<Longrightarrow> inv (rolled_back db db')"
begin

definition keeps :: "'a txn \<Rightarrow> bool" where
  "keeps m \<longleftrightarrow> (\<forall>db. inv db \<longrightarrow> inv (snd (m db)) \<and> db_next_user_id db \<le> db_next_user_id (snd (m db)) \<and>
     db_next_server_id db \<le> db_next_server_id (snd (m db)))"

lemma keepsI:
  assumes "\<And>db. inv db \<Longrightarrow> inv (snd (m db))"
    and "\<And>db. db_next_user_id db \<le> db_next_user_id (snd (m db))" "\<And>db. db_next_server_id db \<le> db_next_server_id (snd (m db))"
  shows "keeps m"
  using assms by (simp add: keeps_def)

lemma keeps_return [simp]: "keeps (t_return v)"
  by (simp add: keeps_def t_return_def)

lemma keeps_fail [simp]: "keeps (t_fail e)"
  by (simp add: keeps_def t_fail_def)

lemma keeps_select [simp]: "keeps (t_select f)"
  by (simp add: keeps_def t_select_def)

lemma keeps_check [simp]: "keeps (t_check b e)"
  by (simp add: t_check_def)

lemma keeps_bind: "keeps m \<Longrightarrow> (\<And>v. keeps (f v)) \<Longrightarrow> keeps (t_bind m f)"
proof -
  assume m: "keeps m" and f: "\<And>v. keeps (f v)"
  show ?thesis
    unfolding keeps_def
  proof (intro allI impI)
    fix db
    assume i: "inv db"
    obtain r db' where r: "m db = (r, db')" by force
    have 1: "inv db'" "db_next_user_id db \<le> db_next_user_id db'" "db_next_server_id db \<le> db_next_server_id db'"
      using m i r unfolding keeps_def by (metis snd_conv)+
    show "inv (snd (t_bind m f db)) \<and> db_next_user_id db \<le> db_next_user_id (snd (t_bind m f db)) \<and>
      db_next_server_id db \<le> db_next_server_id (snd (t_bind m f db))"
    proof (cases r)
      case (Inl e)
      then show ?thesis using 1 r by (simp add: t_bind_def)
    next
      case (Inr v)
      have "inv (snd (f v db'))" "db_next_user_id db' \<le> db_next_user_id (snd (f v db'))"
        "db_next_server_id db' \<le> db_next_server_id (snd (f v db'))"
        using f [of v] 1(1) unfolding keeps_def by blast+
      then show ?thesis using 1 r Inr by (simp add: t_bind_def)
    qed
  qed
qed

lemma keeps_each: "(\<And>x. keeps (f x)) \<Longrightarrow> keeps (t_each f xs)"
  by (induction xs) (simp_all add: keeps_bind)

lemma run_txn_inv:
  assumes "keeps m" "inv db"
  shows "inv (snd (run_txn pg prefix m db))"
proof -
  let ?db = "db\<lparr>db_faults := tl (db_faults db)\<rparr>"
  have 1: "inv ?db" using assms(2) by (rule inv_faults)
  then have "inv (snd (m ?db))" "db_next_user_id ?db \<le> db_next_user_id (snd (m ?db))"
    "db_next_server_id ?db \<le> db_next_server_id (snd (m ?db))"
    using assms(1) unfolding keeps_def by blast+
  then have 2: "inv (rolled_back ?db (snd (m ?db)))" using 1 by (intro inv_rolled_back) simp_all
  show ?thesis
    using \<open>inv (snd (m ?db))\<close> 2 inv_faults [OF assms(2)]
    by (auto simp: run_txn_def Let_def split: list.splits bool.splits sum.splits prod.splits)
qed

end

section \<open>Keys and references\<close>

definition keys_distinct :: "core_db \<Rightarrow> bool" where
  "keys_distinct db \<longleftrightarrow>
     distinct (map pu_user_id (db_users db)) \<and> distinct (map pu_username (db_users db)) \<and>
     distinct (map ps_server_id (db_servers db)) \<and> distinct (map ps_server_name (db_servers db)) \<and>
     distinct (map (\<lambda>a. (pa_server_id a, pa_user_id a)) (db_allowlist db)) \<and>
     distinct (map (\<lambda>b. (pb_user_id b, pb_server_id b, pb_symbol b)) (db_balances db)) \<and>
     distinct (map (\<lambda>b. (pi_user_id b, pi_server_id b)) (db_bot_balances db)) \<and>
     distinct (map (\<lambda>v. (pv_server_id v, pv_machine_id v, pv_port v)) (db_services db))"

abbreviation user_ids :: "core_db \<Rightarrow> int set" where
  "user_ids db \<equiv> pu_user_id ` set (db_users db)"

abbreviation server_ids :: "core_db \<Rightarrow> int set" where
  "server_ids db \<equiv> ps_server_id ` set (db_servers db)"

definition references_hold :: "core_db \<Rightarrow> bool" where
  "references_hold db \<longleftrightarrow>
     (\<forall>s \<in> set (db_servers db). ps_admin_id s \<in> user_ids db) \<and>
     (\<forall>a \<in> set (db_allowlist db). pa_server_id a \<in> server_ids db \<and> pa_user_id a \<in> user_ids db) \<and>
     (\<forall>b \<in> set (db_balances db). pb_server_id b \<in> server_ids db \<and> pb_user_id b \<in> user_ids db) \<and>
     (\<forall>b \<in> set (db_bot_balances db). pi_server_id b \<in> server_ids db \<and> pi_user_id b \<in> user_ids db) \<and>
     (\<forall>v \<in> set (db_services db). pv_server_id v \<in> server_ids db \<and>
        pv_machine_id v \<in> pm_machine_id ` set (db_machines db) \<and> 1 \<le> pv_port v \<and> pv_port v \<le> 65535)"

definition sequences_ahead :: "core_db \<Rightarrow> bool" where
  "sequences_ahead db \<longleftrightarrow>
     (\<forall>u \<in> set (db_users db). pu_user_id u < db_next_user_id db) \<and>
     (\<forall>s \<in> set (db_servers db). ps_server_id s < db_next_server_id db)"

definition db_ok :: "core_db \<Rightarrow> bool" where
  "db_ok db \<longleftrightarrow> keys_distinct db \<and> references_hold db \<and> sequences_ahead db"

lemmas db_ok_defs = db_ok_def keys_distinct_def references_hold_def sequences_ahead_def

interpretation ok: db_invariant db_ok
  by unfold_locales (auto simp: db_ok_defs rolled_back_def)

lemma find_None_iff_key: "find (\<lambda>x. f x = k) xs = None \<longleftrightarrow> k \<notin> f ` set xs"
  by (auto simp: find_None_iff)

lemma find_key_Some: "find (\<lambda>x. f x = k) xs = Some y \<Longrightarrow> k \<in> f ` set xs"
  by (auto simp: find_Some_iff)

lemmas key_lookups = user_named_def user_with_id_def server_named_def server_with_id_def machine_with_id_def find_None_iff_key

lemma keeps_insert_user: "ok.keeps (insert_user_row username password)"
proof (rule ok.keepsI)
  fix db assume "db_ok db"
  then show "db_ok (snd (insert_user_row username password db))"
    by (auto simp: insert_user_row_def txn_defs key_lookups db_ok_defs dest: find_key_Some)
qed (simp_all add: insert_user_row_def txn_defs)

lemma keeps_cast [simp]: "ok.keeps (cast_array pg arr)"
  by (simp add: cast_array_def split: option.split)

lemma keeps_insert_allow: "ok.keeps (insert_allow_row sid uid)"
proof (rule ok.keepsI)
  fix db assume "db_ok db"
  then show "db_ok (snd (insert_allow_row sid uid db))"
    by (auto simp: insert_allow_row_def txn_defs key_lookups db_ok_defs allowed_def dest: find_key_Some)
qed (simp_all add: insert_allow_row_def txn_defs)

lemma keeps_insert_service: "ok.keeps (insert_service_row mid sid st port)"
proof (rule ok.keepsI)
  fix db assume "db_ok db"
  then show "db_ok (snd (insert_service_row mid sid st port db))"
    by (auto simp: insert_service_row_def txn_defs key_lookups db_ok_defs dest: find_key_Some)
qed (simp_all add: insert_service_row_def txn_defs)

lemma keeps_insert_balance: "ok.keeps (insert_balance_row uid sid symbol balance)"
proof (rule ok.keepsI)
  fix db assume "db_ok db"
  then show "db_ok (snd (insert_balance_row uid sid symbol balance db))"
    by (auto simp: insert_balance_row_def txn_defs key_lookups db_ok_defs has_balance_def balance_key_def dest: find_key_Some)
qed (simp_all add: insert_balance_row_def txn_defs)

lemma keeps_insert_server: "ok.keeps (insert_server_row pg name admin descr arr usd)"
proof (rule ok.keepsI)
  fix db assume "db_ok db"
  then show "db_ok (snd (insert_server_row pg name admin descr arr usd db))"
    by (cases "pg_array_in pg arr") (auto simp: insert_server_row_def cast_array_def txn_defs key_lookups db_ok_defs dest: find_key_Some)
qed (simp_all add: insert_server_row_def cast_array_def txn_defs split: option.split)

lemma image_filter_neq [simp]: "f ` {x \<in> S. f x \<noteq> k} = f ` S - {k}"
  by auto

lemma keeps_delete_allow: "ok.keeps (delete_allow_rows sid)"
proof (rule ok.keepsI)
  fix db assume "db_ok db"
  then show "db_ok (snd (delete_allow_rows sid db))"
    by (auto simp: delete_allow_rows_def txn_defs db_ok_defs distinct_map_filter)
qed (simp_all add: delete_allow_rows_def txn_defs)

lemma keeps_delete_server_row: "ok.keeps (delete_server_row sid)"
proof (rule ok.keepsI)
  fix db assume ok: "db_ok db"
  show "db_ok (snd (delete_server_row sid db))"
  proof (cases "sid \<in> server_ids db")
    case True
    then show ?thesis using ok by (auto simp: delete_server_row_def txn_defs key_lookups db_ok_defs distinct_map_filter)
  next
    case False
    have "filter (\<lambda>s. ps_server_id s \<noteq> sid) (db_servers db) = db_servers db"
      "filter (\<lambda>v. pv_server_id v \<noteq> sid) (db_services db) = db_services db"
      "filter (\<lambda>b. pi_server_id b \<noteq> sid) (db_bot_balances db) = db_bot_balances db"
      using False ok by (auto simp: filter_id_conv db_ok_defs)
    then show ?thesis using ok by (simp add: delete_server_row_def txn_defs)
  qed
qed (simp_all add: delete_server_row_def txn_defs)

lemma keeps_delete_user_row: "ok.keeps (delete_user_row uid)"
proof (rule ok.keepsI)
  fix db assume ok: "db_ok db"
  show "db_ok (snd (delete_user_row uid db))"
  proof (cases "uid \<in> user_ids db")
    case True
    then show ?thesis using ok by (auto simp: delete_user_row_def txn_defs key_lookups db_ok_defs distinct_map_filter)
  next
    case False
    have "filter (\<lambda>s. pu_user_id s \<noteq> uid) (db_users db) = db_users db"
      "filter (\<lambda>b. pi_user_id b \<noteq> uid) (db_bot_balances db) = db_bot_balances db"
      using False ok by (auto simp: filter_id_conv db_ok_defs)
    then show ?thesis using ok by (simp add: delete_user_row_def txn_defs)
  qed
qed (simp_all add: delete_user_row_def txn_defs)

text \<open>Updates of columns outside the keys.\<close>

lemma same_keys:
  assumes "map K xs = map K ys" "x \<in> set xs"
  obtains y where "y \<in> set ys" "K y = K x"
proof -
  have "K x \<in> K ` set ys" using assms by (metis image_eqI list.set_map)
  then show ?thesis using that by auto
qed

lemma db_ok_same_balance_keys:
  assumes "db_ok db"
    and k: "map (\<lambda>b. (pb_user_id b, pb_server_id b, pb_symbol b)) bs =
      map (\<lambda>b. (pb_user_id b, pb_server_id b, pb_symbol b)) (db_balances db)"
  shows "db_ok (db\<lparr>db_balances := bs\<rparr>)"
proof -
  have "\<exists>b' \<in> set (db_balances db). pb_user_id b' = pb_user_id b \<and> pb_server_id b' = pb_server_id b" if "b \<in> set bs" for b
    using same_keys [OF k that] by (metis prod.inject)
  then have "\<forall>b \<in> set bs. pb_server_id b \<in> server_ids db \<and> pb_user_id b \<in> user_ids db"
    using assms(1) unfolding db_ok_def references_hold_def by metis
  then show ?thesis using assms by (simp add: db_ok_defs)
qed

lemma db_ok_same_bot_keys:
  assumes "db_ok db"
    and k: "map (\<lambda>b. (pi_user_id b, pi_server_id b)) bs = map (\<lambda>b. (pi_user_id b, pi_server_id b)) (db_bot_balances db)"
  shows "db_ok (db\<lparr>db_bot_balances := bs\<rparr>)"
proof -
  have "\<exists>b' \<in> set (db_bot_balances db). pi_user_id b' = pi_user_id b \<and> pi_server_id b' = pi_server_id b" if "b \<in> set bs" for b
    using same_keys [OF k that] by (metis prod.inject)
  then have "\<forall>b \<in> set bs. pi_server_id b \<in> server_ids db \<and> pi_user_id b \<in> user_ids db"
    using assms(1) unfolding db_ok_def references_hold_def by metis
  then show ?thesis using assms by (simp add: db_ok_defs)
qed

lemma keeps_set_balance: "ok.keeps (t_update (set_balance uid sid symbol balance))"
proof (rule ok.keepsI)
  fix db assume ok: "db_ok db"
  show "db_ok (snd (t_update (set_balance uid sid symbol balance) db))"
    using db_ok_same_balance_keys [OF ok] by (simp add: t_update_def set_balance_def)
qed (simp_all add: t_update_def set_balance_def)

lemma keeps_update_servers:
  assumes "\<And>s. ps_server_id (f s) = ps_server_id s" "\<And>s. ps_server_name (f s) = ps_server_name s"
    and "\<And>s. ps_admin_id (f s) = ps_admin_id s"
  shows "ok.keeps (t_update (\<lambda>db. db\<lparr>db_servers := map f (db_servers db)\<rparr>))"
proof (rule ok.keepsI)
  fix db assume ok: "db_ok db"
  show "db_ok (snd (t_update (\<lambda>db. db\<lparr>db_servers := map f (db_servers db)\<rparr>) db))"
    using ok by (simp add: db_ok_defs t_update_def assms comp_def image_image)
qed (simp_all add: t_update_def)

lemma keeps_delete_balances: "ok.keeps (t_update (\<lambda>db. db\<lparr>db_balances := filter P (db_balances db)\<rparr>))"
  by (rule ok.keepsI) (auto simp: t_update_def db_ok_defs distinct_map_filter)

lemma keeps_delete_services: "ok.keeps (t_update (\<lambda>db. db\<lparr>db_services := filter P (db_services db)\<rparr>))"
  by (rule ok.keepsI) (auto simp: t_update_def db_ok_defs distinct_map_filter)

lemma keeps_upsert_bot:
  "ok.keeps (t_bind (t_select (bot_balance_of uid sid)) (\<lambda>old.
        if old \<noteq> None then
          t_update (\<lambda>db. db\<lparr>db_bot_balances :=
            map (\<lambda>b. if pi_user_id b = uid \<and> pi_server_id b = sid then b\<lparr>pi_balance := balance\<rparr> else b) (db_bot_balances db)\<rparr>)
        else
          t_bind (t_select (user_with_id uid)) (\<lambda>u.
          t_bind (t_select (server_with_id sid)) (\<lambda>s.
          t_bind (t_check (u \<noteq> None \<and> s \<noteq> None) Foreign_Key_Violation) (\<lambda>_.
          t_update (\<lambda>db. db\<lparr>db_bot_balances := db_bot_balances db @
            [\<lparr>pi_user_id = uid, pi_server_id = sid, pi_balance = balance\<rparr>]\<rparr>))))))"
    (is "ok.keeps ?m")
proof (rule ok.keepsI)
  fix db assume ok: "db_ok db"
  let ?f = "\<lambda>b. if pi_user_id b = uid \<and> pi_server_id b = sid then b\<lparr>pi_balance := balance\<rparr> else b"
  show "db_ok (snd (?m db))"
  proof (cases "bot_balance_of uid sid db")
    case None
    then have "\<forall>b \<in> set (db_bot_balances db). \<not> (pi_user_id b = uid \<and> pi_server_id b = sid)"
      by (auto simp: bot_balance_of_def find_None_iff)
    then show ?thesis using ok None
      by (auto simp: txn_defs key_lookups db_ok_defs dest: find_key_Some)
  next
    case (Some v)
    then have "snd (?m db) = db\<lparr>db_bot_balances := map ?f (db_bot_balances db)\<rparr>" by (simp add: txn_defs)
    then show ?thesis using db_ok_same_bot_keys [OF ok, of "map ?f (db_bot_balances db)"] by simp
  qed
qed (auto simp: txn_defs)

section \<open>Every operation keeps them\<close>

lemma keeps_create_server:
  "ok.keeps (t_bind (insert_server_row pg name admin descr arr usd) (\<lambda>sid.
        t_bind (t_each (insert_allow_row sid) uids) (\<lambda>_.
        t_bind (t_each (\<lambda>v. insert_service_row (si_machine_id v) sid (si_service_type v) (si_port v)) services) (\<lambda>_.
        t_return sid))))"
  by (intro ok.keeps_bind ok.keeps_each keeps_insert_server keeps_insert_allow keeps_insert_service ok.keeps_return)

lemma keeps_ensure_usd: "ok.keeps (ensure_usd_loop sid balance uids)"
proof (induction uids)
  case (Cons uid uids)
  have "ok.keeps (if present then t_return () else insert_balance_row uid sid ''USD'' balance)" for present
    by (simp add: keeps_insert_balance)
  then show ?case
    unfolding ensure_usd_loop.simps by (intro ok.keeps_bind ok.keeps_select Cons.IH ok.keeps_return)
qed simp

lemma create_server_ok: "db_ok db \<Longrightarrow> db_ok (snd (create_server_with_services pg name admin descr symbols uids services usd db))"
  unfolding create_server_with_services_def by (rule ok.run_txn_inv [OF keeps_create_server])

lemma configure_server_ok:
  assumes "db_ok db"
  shows "db_ok (snd (configure_server pg name caller descr symbols uids db))"
  unfolding configure_server_def
proof (rule ok.run_txn_inv [OF _ assms], intro ok.keeps_bind ok.keeps_select)
  fix so :: "pg_server option"
  show "ok.keeps (case so of None \<Rightarrow> t_return False
        | Some s \<Rightarrow>
            if ps_admin_id s \<noteq> caller then t_return False
            else
              t_bind (cast_array pg (build_pg_array symbols)) (\<lambda>tickers.
              t_bind (t_check (fits tickers descr) String_Too_Long) (\<lambda>_.
              t_bind (t_update (\<lambda>db. db\<lparr>db_servers :=
                map (\<lambda>r. if ps_server_id r = ps_server_id s
                         then r\<lparr>ps_description := descr, ps_active_tickers := tickers\<rparr> else r) (db_servers db)\<rparr>)) (\<lambda>_.
              t_bind (delete_allow_rows (ps_server_id s)) (\<lambda>_.
              t_bind (t_each (insert_allow_row (ps_server_id s)) uids) (\<lambda>_.
              t_return True))))))"
    by (cases so) (auto intro!: ok.keeps_bind ok.keeps_each keeps_update_servers keeps_delete_allow keeps_insert_allow)
qed

lemma delete_server_ok:
  assumes "db_ok db"
  shows "db_ok (snd (delete_server pg name db))"
  unfolding delete_server_def
proof (rule ok.run_txn_inv [OF _ assms], intro ok.keeps_bind ok.keeps_select)
  fix so :: "pg_server option"
  show "ok.keeps (case so of None \<Rightarrow> t_return False
        | Some s \<Rightarrow>
            t_bind (delete_allow_rows (ps_server_id s)) (\<lambda>_.
            t_bind (t_update (\<lambda>db. db\<lparr>db_balances := filter (\<lambda>b. pb_server_id b \<noteq> ps_server_id s) (db_balances db)\<rparr>)) (\<lambda>_.
            t_bind (t_update (\<lambda>db. db\<lparr>db_services := filter (\<lambda>v. pv_server_id v \<noteq> ps_server_id s) (db_services db)\<rparr>)) (\<lambda>_.
            t_bind (delete_server_row (ps_server_id s)) (\<lambda>_.
            t_return True)))))"
    by (cases so) (auto intro!: ok.keeps_bind keeps_delete_allow keeps_delete_balances keeps_delete_services keeps_delete_server_row)
qed

lemma ensure_usd_ok:
  assumes "db_ok db"
  shows "db_ok (snd (ensure_initial_usd_balances pg name amount db))"
proof -
  let ?body = "t_bind (t_select (server_named name)) (\<lambda>so.
         case so of
           None \<Rightarrow> t_return None
         | Some s \<Rightarrow>
             t_bind (t_select db_has_initial_usd) (\<lambda>has.
             t_bind (t_select (members_of s)) (\<lambda>uids.
             t_bind (ensure_usd_loop (ps_server_id s) ((if has then ps_initial_usd s else amount) * 100 * 100) uids) (\<lambda>n.
             t_return (Some n)))))"
  have "ok.keeps ?body"
    by (intro ok.keeps_bind ok.keeps_select) (auto intro!: ok.keeps_bind keeps_ensure_usd split: option.split)
  from ok.run_txn_inv [OF this assms, of pg "''Error ensuring initial USD balances: ''"] show ?thesis
    by (auto simp: ensure_initial_usd_balances_def split: prod.splits sum.splits option.splits)
qed

section \<open>Reachable databases\<close>

inductive db_reachable :: "pg_env \<Rightarrow> core_db \<Rightarrow> bool" for pg where
  start: "db_users db = [] \<Longrightarrow> db_servers db = [] \<Longrightarrow> db_allowlist db = [] \<Longrightarrow> db_balances db = [] \<Longrightarrow>
    db_bot_balances db = [] \<Longrightarrow> db_services db = [] \<Longrightarrow> db_reachable pg db"
| faults: "db_reachable pg db \<Longrightarrow> db_reachable pg (db\<lparr>db_faults := fs\<rparr>)"
| create_user: "db_reachable pg db \<Longrightarrow> create_user pg username password db = (r, db') \<Longrightarrow> db_reachable pg db'"
| create_server: "db_reachable pg db \<Longrightarrow>
    create_server_with_services pg name admin descr symbols uids services usd db = (rs, db') \<Longrightarrow> db_reachable pg db'"
| configure_server: "db_reachable pg db \<Longrightarrow> configure_server pg name caller descr symbols uids db = (rb, db') \<Longrightarrow>
    db_reachable pg db'"
| delete_server: "db_reachable pg db \<Longrightarrow> delete_server pg name db = (rb, db') \<Longrightarrow> db_reachable pg db'"
| insert_service: "db_reachable pg db \<Longrightarrow> insert_service pg mid sid st port db = (ru, db') \<Longrightarrow> db_reachable pg db'"
| insert_balance: "db_reachable pg db \<Longrightarrow> insert_balance pg uid sid symbol balance db = (ru, db') \<Longrightarrow> db_reachable pg db'"
| update_balance: "db_reachable pg db \<Longrightarrow> db_update_balance pg uid sid symbol balance db = (ru, db') \<Longrightarrow> db_reachable pg db'"
| upsert_bot: "db_reachable pg db \<Longrightarrow> upsert_init_bot_portfolio_balance pg uid sid balance db = (ru, db') \<Longrightarrow>
    db_reachable pg db'"
| ensure_usd: "db_reachable pg db \<Longrightarrow> ensure_initial_usd_balances pg name amount db = (ri, db') \<Longrightarrow> db_reachable pg db'"
| delete_uat: "db_reachable pg db \<Longrightarrow> delete_uat_data pg uids sids db = (ru, db') \<Longrightarrow> db_reachable pg db'"

lemma create_user_ok: "db_ok db \<Longrightarrow> db_ok (snd (create_user pg username password db))"
  unfolding create_user_def
  by (rule ok.run_txn_inv) (intro ok.keeps_bind keeps_insert_user ok.keeps_return)

lemma delete_uat_ok:
  assumes "db_ok db"
  shows "db_ok (snd (delete_uat_data pg uids sids db))"
proof -
  have "ok.keeps (t_bind (t_each delete_allow_rows sids) (\<lambda>_.
         t_bind (t_each (\<lambda>uid. t_update (\<lambda>db. db\<lparr>db_balances := filter (\<lambda>b. pb_user_id b \<noteq> uid) (db_balances db)\<rparr>)) uids) (\<lambda>_.
         t_bind (t_each delete_server_row sids) (\<lambda>_.
         t_each delete_user_row uids))))"
    by (intro ok.keeps_bind ok.keeps_each keeps_delete_allow keeps_delete_balances keeps_delete_server_row keeps_delete_user_row)
  from ok.run_txn_inv [OF this assms] show ?thesis using assms by (simp add: delete_uat_data_def)
qed

lemma snd_ok: "f db = (r, db') \<Longrightarrow> (\<And>db. db_ok db \<Longrightarrow> db_ok (snd (f db))) \<Longrightarrow> db_ok db \<Longrightarrow> db_ok db'"
  by (metis snd_conv)

lemma simple_ops_ok:
  "db_ok db \<Longrightarrow> db_ok (snd (insert_service pg mid sid st port db))"
  "db_ok db \<Longrightarrow> db_ok (snd (insert_balance pg uid sid symbol balance db))"
  "db_ok db \<Longrightarrow> db_ok (snd (db_update_balance pg uid sid symbol balance db))"
  "db_ok db \<Longrightarrow> db_ok (snd (upsert_init_bot_portfolio_balance pg uid sid balance db))"
  unfolding insert_service_def insert_balance_def db_update_balance_def upsert_init_bot_portfolio_balance_def
  by (erule ok.run_txn_inv [OF keeps_insert_service] ok.run_txn_inv [OF keeps_insert_balance]
      ok.run_txn_inv [OF keeps_set_balance] ok.run_txn_inv [OF keeps_upsert_bot])+

lemma reachable_db_ok: "db_reachable pg db \<Longrightarrow> db_ok db"
proof (induction rule: db_reachable.induct)
  case (start db)
  then show ?case by (simp add: db_ok_defs)
next
  case (faults db fs)
  then show ?case by (simp add: ok.inv_faults)
qed (erule snd_ok, erule create_user_ok create_server_ok configure_server_ok delete_server_ok ensure_usd_ok
      delete_uat_ok simple_ops_ok, assumption)+

definition demo_db :: core_db where
  "demo_db = snd (create_user demo_pg ''BOB'' ''b'' (snd (create_user demo_pg ''ALICE'' ''a'' empty_db)))"

lemma demo_db_reachable: "db_reachable demo_pg demo_db"
proof -
  have "db_reachable demo_pg empty_db" by (rule db_reachable.start) (simp_all add: empty_db_def)
  then have "db_reachable demo_pg (snd (create_user demo_pg ''ALICE'' ''a'' empty_db))"
    by (rule db_reachable.create_user) (rule prod.collapse [symmetric])
  then show ?thesis unfolding demo_db_def by (rule db_reachable.create_user) (rule prod.collapse [symmetric])
qed

lemma demo_db_eq:
  "demo_db = empty_db\<lparr>db_users := [\<lparr>pu_user_id = 1, pu_username = ''ALICE'', pu_password = ''a''\<rparr>,
     \<lparr>pu_user_id = 2, pu_username = ''BOB'', pu_password = ''b''\<rparr>], db_next_user_id := 3\<rparr>"
  by (simp add: demo_db_def create_user_def run_txn_def insert_user_row_def txn_defs empty_db_def user_named_def Let_def)

end
