(* ===== verification/DbServers.thy ===== *)
theory DbServers
  imports DbProperties
begin

text \<open>
  What the operations on servers do: creating one and reading it back, changing it, deleting it, and
  the initial balances of its members.
\<close>

section \<open>Without faults\<close>

lemma no_faults: "db_faults db = [] \<Longrightarrow> db\<lparr>db_faults := []\<rparr> = db"
  by simp

lemma run_txn_commits:
  assumes "db_faults db = []" "m db = (Inr v, db')"
  shows "run_txn pg prefix m db = (Inr v, db')"
  using assms by (simp add: run_txn_def Let_def no_faults)

lemma run_txn_no_fault:
  "db_faults db = [] \<Longrightarrow> run_txn pg prefix m db =
     (case m db of (Inr v, db') \<Rightarrow> (Inr v, db') | (Inl e, db') \<Rightarrow> (Inl (prefix @ pg_what pg e), rolled_back db db'))"
  by (simp add: run_txn_def Let_def no_faults)

definition tables :: "core_db \<Rightarrow> core_db" where
  "tables db = db\<lparr>db_next_user_id := 0, db_next_server_id := 0, db_faults := []\<rparr>"

text \<open>An operation that fails leaves the tables alone.\<close>

lemma run_txn_atomic: "run_txn pg prefix m db = (Inl e, db') \<Longrightarrow> tables db' = tables db"
  by (auto simp: run_txn_def Let_def tables_def rolled_back_def split: list.splits bool.splits sum.splits prod.splits)

lemma t_bind_Inr: "t_bind m f db = (Inr v, db'') \<longleftrightarrow> (\<exists>u db'. m db = (Inr u, db') \<and> f u db' = (Inr v, db''))"
  by (auto simp: t_bind_def split: prod.splits sum.splits)

lemma find_key_snoc:
  "f y \<notin> f ` set xs \<Longrightarrow> find (\<lambda>x. f x = k) (xs @ [y]) = (if k = f y then Some y else find (\<lambda>x. f x = k) xs)"
  by (induction xs) auto

lemma ok_references:
  assumes "db_ok db"
  shows "a \<in> set (db_allowlist db) \<Longrightarrow> pa_server_id a \<in> server_ids db"
    and "v \<in> set (db_services db) \<Longrightarrow> pv_server_id v \<in> server_ids db"
    and "db_next_server_id db \<notin> server_ids db"
  using assms by (auto simp: db_ok_def references_hold_def sequences_ahead_def)

lemma find_unique:
  assumes "distinct (map f xs)" "x \<in> set xs"
  shows "find (\<lambda>y. f y = f x) xs = Some x"
  using assms by (induction xs) (auto simp: image_iff)

section \<open>Creating\<close>

lemma insert_allow_rows:
  assumes "distinct uids" "set uids \<subseteq> user_ids db" "sid \<in> server_ids db" "\<forall>uid \<in> set uids. \<not> allowed sid uid db"
  shows "t_each (insert_allow_row sid) uids db =
    (Inr (), db\<lparr>db_allowlist := db_allowlist db @ map (\<lambda>uid. \<lparr>pa_server_id = sid, pa_user_id = uid\<rparr>) uids\<rparr>)"
  using assms
proof (induction uids arbitrary: db)
  case Nil
  then show ?case by (simp add: t_return_def)
next
  case (Cons uid uids)
  let ?db = "db\<lparr>db_allowlist := db_allowlist db @ [\<lparr>pa_server_id = sid, pa_user_id = uid\<rparr>]\<rparr>"
  have "server_with_id sid db \<noteq> None" "user_with_id uid db \<noteq> None"
    using Cons.prems(2,3) by (simp_all add: key_lookups)
  then have i: "insert_allow_row sid uid db = (Inr (), ?db)"
    using Cons.prems(4) by (simp add: insert_allow_row_def txn_defs)
  have "\<forall>u \<in> set uids. \<not> allowed sid u ?db" using Cons.prems(1,4) by (auto simp: allowed_def)
  from Cons.IH [OF _ _ _ this] Cons.prems(1-3) i show ?case by (simp add: t_bind_def)
qed

definition service_rows :: "int \<Rightarrow> service_insert_row list \<Rightarrow> pg_service list" where
  "service_rows sid vs =
     map (\<lambda>v. \<lparr>pv_server_id = sid, pv_machine_id = si_machine_id v, pv_service_type = si_service_type v, pv_port = si_port v\<rparr>) vs"

definition services_fit :: "core_db \<Rightarrow> service_insert_row list \<Rightarrow> bool" where
  "services_fit db vs \<longleftrightarrow>
     distinct (map (\<lambda>v. (si_machine_id v, si_port v)) vs) \<and>
     (\<forall>v \<in> set vs. si_machine_id v \<in> pm_machine_id ` set (db_machines db) \<and> 1 \<le> si_port v \<and> si_port v \<le> 65535)"

lemma insert_service_rows:
  assumes "services_fit db vs" "sid \<in> server_ids db"
    and "\<forall>v \<in> set (db_services db). pv_server_id v = sid \<longrightarrow> (\<forall>w \<in> set vs. (si_machine_id w, si_port w) \<noteq> (pv_machine_id v, pv_port v))"
  shows "t_each (\<lambda>v. insert_service_row (si_machine_id v) sid (si_service_type v) (si_port v)) vs db =
    (Inr (), db\<lparr>db_services := db_services db @ service_rows sid vs\<rparr>)"
  using assms
proof (induction vs arbitrary: db)
  case Nil
  then show ?case by (simp add: t_return_def service_rows_def)
next
  case (Cons v vs)
  let ?row = "\<lparr>pv_server_id = sid, pv_machine_id = si_machine_id v, pv_service_type = si_service_type v, pv_port = si_port v\<rparr>"
  let ?db = "db\<lparr>db_services := db_services db @ [?row]\<rparr>"
  have "server_with_id sid db \<noteq> None" "machine_with_id (si_machine_id v) db \<noteq> None"
    using Cons.prems(1,2) by (auto simp: key_lookups services_fit_def)
  then have i: "insert_service_row (si_machine_id v) sid (si_service_type v) (si_port v) db = (Inr (), ?db)"
    using Cons.prems(1,3) by (auto simp: insert_service_row_def txn_defs services_fit_def)
  have fit: "services_fit ?db vs" using Cons.prems(1) by (simp add: services_fit_def)
  have "\<forall>w \<in> set vs. (si_machine_id w, si_port w) \<noteq> (si_machine_id v, si_port v)"
    using Cons.prems(1) by (auto simp: services_fit_def image_iff)
  then have "\<forall>r \<in> set (db_services ?db). pv_server_id r = sid \<longrightarrow> (\<forall>w \<in> set vs. (si_machine_id w, si_port w) \<noteq> (pv_machine_id r, pv_port r))"
    using Cons.prems(3) by auto
  from Cons.IH [OF fit _ this] Cons.prems(2) i show ?case by (simp add: t_bind_def service_rows_def)
qed

definition new_server_row :: "core_db \<Rightarrow> string \<Rightarrow> int \<Rightarrow> string \<Rightarrow> string list \<Rightarrow> int \<Rightarrow> pg_server" where
  "new_server_row db name admin descr tickers usd =
     \<lparr>ps_server_id = db_next_server_id db, ps_server_name = name, ps_admin_id = admin, ps_active_tickers = tickers,
      ps_description = descr, ps_initial_usd = (if db_has_initial_usd db then usd else 100000)\<rparr>"

text \<open>What PostgreSQL documents for arrays of plain names: it reads the literal and prints it the same way.\<close>

definition arrays_agree :: "pg_env \<Rightarrow> string list \<Rightarrow> bool" where
  "arrays_agree pg ts \<longleftrightarrow> pg_array_in pg (build_pg_array ts) = Some ts \<and> pg_array_out pg ts = build_pg_array ts"

lemma create_server_effect:
  assumes "db_ok db" "db_faults db = []" "name \<notin> ps_server_name ` set (db_servers db)" "admin \<in> user_ids db"
    and "arrays_agree pg tickers" "fits tickers descr" "distinct uids" "set uids \<subseteq> user_ids db" "services_fit db vs"
  shows "create_server_with_services pg name admin descr tickers uids vs usd db =
    (let sid = db_next_server_id db in
     (Inr sid, db\<lparr>db_next_server_id := sid + 1, db_servers := db_servers db @ [new_server_row db name admin descr tickers usd],
        db_allowlist := db_allowlist db @ map (\<lambda>uid. \<lparr>pa_server_id = sid, pa_user_id = uid\<rparr>) uids,
        db_services := db_services db @ service_rows sid vs\<rparr>))"
proof -
  let ?sid = "db_next_server_id db"
  let ?db1 = "db\<lparr>db_next_server_id := ?sid + 1, db_servers := db_servers db @ [new_server_row db name admin descr tickers usd]\<rparr>"
  let ?db2 = "?db1\<lparr>db_allowlist := db_allowlist db @ map (\<lambda>uid. \<lparr>pa_server_id = ?sid, pa_user_id = uid\<rparr>) uids\<rparr>"
  have fresh: "?sid \<notin> server_ids db" using assms(1) by (rule ok_references)
  have 1: "insert_server_row pg name admin descr (build_pg_array tickers) usd db = (Inr ?sid, ?db1)"
    using assms(3-6)
    by (simp add: insert_server_row_def cast_array_def arrays_agree_def txn_defs key_lookups new_server_row_def)
  have "\<forall>a \<in> set (db_allowlist db). pa_server_id a \<noteq> ?sid" using ok_references(1) [OF assms(1)] fresh by metis
  then have "\<forall>uid \<in> set uids. \<not> allowed ?sid uid ?db1" by (simp add: allowed_def)
  then have 2: "t_each (insert_allow_row ?sid) uids ?db1 = (Inr (), ?db2)"
    using insert_allow_rows [of uids ?db1 ?sid] assms(7,8) by (simp add: new_server_row_def)
  have "\<forall>v \<in> set (db_services db). pv_server_id v \<noteq> ?sid" using ok_references(2) [OF assms(1)] fresh by metis
  then have 3: "t_each (\<lambda>v. insert_service_row (si_machine_id v) ?sid (si_service_type v) (si_port v)) vs ?db2 =
      (Inr (), ?db2\<lparr>db_services := db_services db @ service_rows ?sid vs\<rparr>)"
    using insert_service_rows [of ?db2 vs ?sid] assms(9) by (simp add: new_server_row_def services_fit_def)
  show ?thesis
    unfolding create_server_with_services_def Let_def
    by (rule run_txn_commits [OF assms(2)]) (simp add: t_bind_def 1 2 3 t_return_def)
qed


lemma demo_arrays: "arrays_agree demo_pg [''GME'', ''IBM'']"
  by (simp add: arrays_agree_def demo_pg_def parse_build plain_def)


definition demo_server_db :: core_db where
  "demo_server_db = snd (create_server_with_services demo_pg ''x'' 1 ''demo'' [''GME'', ''IBM''] [2] [] 500 demo_db)"

lemma demo_server_reachable: "db_reachable demo_pg demo_server_db"
  unfolding demo_server_db_def by (rule db_reachable.create_server [OF demo_db_reachable]) (rule prod.collapse [symmetric])

definition demo_server_row :: pg_server where
  "demo_server_row =
     \<lparr>ps_server_id = 1, ps_server_name = ''x'', ps_admin_id = 1, ps_active_tickers = [''GME'', ''IBM''], ps_description = ''demo'',
      ps_initial_usd = 500\<rparr>"

lemma demo_server_db_eq:
  "demo_server_db = demo_db\<lparr>db_next_server_id := 2, db_servers := [demo_server_row],
     db_allowlist := [\<lparr>pa_server_id = 1, pa_user_id = 2\<rparr>]\<rparr>"
proof -
  have "create_server_with_services demo_pg ''x'' 1 ''demo'' [''GME'', ''IBM''] [2] [] 500 demo_db =
    (let sid = db_next_server_id demo_db in
     (Inr sid, demo_db\<lparr>db_next_server_id := sid + 1, db_servers := db_servers demo_db @ [new_server_row demo_db ''x'' 1 ''demo'' [''GME'', ''IBM''] 500],
        db_allowlist := db_allowlist demo_db @ map (\<lambda>uid. \<lparr>pa_server_id = sid, pa_user_id = uid\<rparr>) [2],
        db_services := db_services demo_db @ service_rows sid []\<rparr>))"
    by (rule create_server_effect [OF reachable_db_ok [OF demo_db_reachable]])
      (simp_all add: demo_arrays demo_db_eq empty_db_def fits_def services_fit_def)
  then show ?thesis
    by (simp add: demo_server_db_def demo_server_row_def new_server_row_def service_rows_def demo_db_eq empty_db_def)
qed

lemma demo_server_facts:
  "db_faults demo_server_db = []" "server_named ''x'' demo_server_db = Some demo_server_row" "db_has_initial_usd demo_server_db"
  by (simp_all add: demo_server_db_eq demo_db_eq empty_db_def server_named_def demo_server_row_def)

section \<open>Deleting and changing\<close>

text \<open>Deleting a server succeeds whatever refers to it, because its rows go in the order the references
  demand, and removes exactly the rows of that server from every table.\<close>

theorem deleted_server_leaves_no_trace:
  assumes "db_faults db = []" "server_named name db = Some s"
  shows "delete_server pg name db =
    (Inr True, db\<lparr>db_servers := filter (\<lambda>r. ps_server_id r \<noteq> ps_server_id s) (db_servers db),
       db_allowlist := filter (\<lambda>a. pa_server_id a \<noteq> ps_server_id s) (db_allowlist db),
       db_balances := filter (\<lambda>b. pb_server_id b \<noteq> ps_server_id s) (db_balances db),
       db_services := filter (\<lambda>v. pv_server_id v \<noteq> ps_server_id s) (db_services db),
       db_bot_balances := filter (\<lambda>b. pi_server_id b \<noteq> ps_server_id s) (db_bot_balances db)\<rparr>)"
  using assms
  by (simp add: delete_server_def run_txn_no_fault t_bind_def t_select_def t_update_def t_check_def t_return_def
      delete_allow_rows_def delete_server_row_def)

theorem deleted_server_leaves_no_trace_witness:
  "\<exists>db'. delete_server demo_pg ''x'' demo_server_db = (Inr True, db') \<and> db_servers db' = [] \<and> db_allowlist db' = [] \<and>
     db_users db' = db_users demo_server_db"
  using deleted_server_leaves_no_trace [OF demo_server_facts(1,2)]
  by (simp add: demo_server_db_eq demo_server_row_def)

lemma configure_server_cases:
  assumes "db_faults db = []" "configure_server pg name caller descr symbols uids db = (Inr b, db')"
  shows "(\<not> b \<and> db' = db \<and> (\<forall>s. server_named name db = Some s \<longrightarrow> ps_admin_id s \<noteq> caller)) \<or>
    (b \<and> (\<exists>s tickers db1. server_named name db = Some s \<and> ps_admin_id s = caller \<and>
       pg_array_in pg (build_pg_array symbols) = Some tickers \<and>
       db1 = db\<lparr>db_servers := map (\<lambda>r. if ps_server_id r = ps_server_id s
                         then r\<lparr>ps_description := descr, ps_active_tickers := tickers\<rparr> else r) (db_servers db),
         db_allowlist := filter (\<lambda>a. pa_server_id a \<noteq> ps_server_id s) (db_allowlist db)\<rparr> \<and>
       t_each (insert_allow_row (ps_server_id s)) uids db1 = (Inr (), db')))"
proof (cases "server_named name db")
  case None
  then show ?thesis using assms by (simp add: configure_server_def run_txn_no_fault txn_defs)
next
  case (Some s)
  show ?thesis
  proof (cases "ps_admin_id s = caller")
    case False
    then show ?thesis using assms Some by (auto simp: configure_server_def run_txn_no_fault txn_defs)
  next
    case True
    then show ?thesis
      using assms Some
      by (auto simp: configure_server_def run_txn_no_fault txn_defs cast_array_def delete_allow_rows_def
          split: option.splits prod.splits sum.splits if_splits)
  qed
qed

lemma insert_allow_rows_effect:
  assumes "t_each (insert_allow_row sid) uids db = (Inr (), db')"
  shows "db' = db\<lparr>db_allowlist := db_allowlist db @ map (\<lambda>uid. \<lparr>pa_server_id = sid, pa_user_id = uid\<rparr>) uids\<rparr>"
  using assms
proof (induction uids arbitrary: db)
  case (Cons uid uids)
  obtain db1 where 1: "insert_allow_row sid uid db = (Inr (), db1)" "t_each (insert_allow_row sid) uids db1 = (Inr (), db')"
    using Cons.prems by (auto simp: t_bind_Inr)
  have "db1 = db\<lparr>db_allowlist := db_allowlist db @ [\<lparr>pa_server_id = sid, pa_user_id = uid\<rparr>]\<rparr>"
    using 1(1) by (auto simp: insert_allow_row_def txn_defs split: if_splits)
  then show ?case using Cons.IH [OF 1(2)] by simp
qed (simp add: t_return_def)

text \<open>A server is changed by its administrator only: for any other caller the answer is false and nothing
  changes. For the administrator the allowlist becomes the one given, those of all other servers stay, and so
  do all balances: a member or a ticker that is new to the server gets no row in the balances.\<close>

theorem server_is_changed_by_its_admin_only:
  assumes "db_faults db = []" "configure_server pg name caller descr symbols uids db = (Inr b, db')"
  shows "(b \<longleftrightarrow> (\<exists>s. server_named name db = Some s \<and> ps_admin_id s = caller)) \<and>
    db_balances db' = db_balances db \<and>
    (if b then \<exists>s. server_named name db = Some s \<and> allowlist_of (ps_server_id s) db' = uids \<and>
         (\<forall>sid. sid \<noteq> ps_server_id s \<longrightarrow> allowlist_of sid db' = allowlist_of sid db)
     else db' = db)"
proof -
  consider "\<not> b" "db' = db" "\<forall>s. server_named name db = Some s \<longrightarrow> ps_admin_id s \<noteq> caller"
    | s tickers db1 where "b" "server_named name db = Some s" "ps_admin_id s = caller"
      "db1 = db\<lparr>db_servers := map (\<lambda>r. if ps_server_id r = ps_server_id s
                         then r\<lparr>ps_description := descr, ps_active_tickers := tickers\<rparr> else r) (db_servers db),
         db_allowlist := filter (\<lambda>a. pa_server_id a \<noteq> ps_server_id s) (db_allowlist db)\<rparr>"
      "t_each (insert_allow_row (ps_server_id s)) uids db1 = (Inr (), db')"
    using configure_server_cases [OF assms] by blast
  then show ?thesis
  proof cases
    case 1
    then show ?thesis by auto
  next
    case (2 s tickers db1)
    have db': "db_balances db' = db_balances db"
      "db_allowlist db' = filter (\<lambda>a. pa_server_id a \<noteq> ps_server_id s) (db_allowlist db) @
        map (\<lambda>uid. \<lparr>pa_server_id = ps_server_id s, pa_user_id = uid\<rparr>) uids"
      using insert_allow_rows_effect [OF 2(5)] 2(4) by simp_all
    have "allowlist_of (ps_server_id s) db' = uids" by (simp add: allowlist_of_def db'(2) comp_def)
    moreover have "allowlist_of sid db' = allowlist_of sid db" if "sid \<noteq> ps_server_id s" for sid
    proof -
      have "filter (\<lambda>a. pa_server_id a \<noteq> ps_server_id s \<and> pa_server_id a = sid) (db_allowlist db) =
          filter (\<lambda>a. pa_server_id a = sid) (db_allowlist db)"
        using that by (intro filter_cong) auto
      then show ?thesis using that by (simp add: allowlist_of_def db'(2) comp_def)
    qed
    ultimately show ?thesis using 2(1-3) db'(1) by auto
  qed
qed

text \<open>A member that tries to change the server is refused.\<close>

theorem server_is_changed_by_its_admin_only_witness:
  "configure_server demo_pg ''x'' 2 ''mine'' [''IBM''] [] demo_server_db = (Inr False, demo_server_db)"
proof -
  obtain db' where c: "configure_server demo_pg ''x'' 2 ''mine'' [''IBM''] [] demo_server_db = (Inr False, db')"
    using demo_server_facts by (simp add: configure_server_def run_txn_no_fault txn_defs demo_server_row_def)
  then show ?thesis using server_is_changed_by_its_admin_only [OF demo_server_facts(1) c] by simp
qed

section \<open>Initial balances\<close>

definition usd_row :: "int \<Rightarrow> int \<Rightarrow> int \<Rightarrow> pg_balance" where
  "usd_row sid balance uid = \<lparr>pb_user_id = uid, pb_server_id = sid, pb_symbol = ''USD'', pb_balance = balance\<rparr>"

lemma ensure_usd_loop_effect:
  assumes "distinct uids" "set uids \<subseteq> user_ids db" "sid \<in> server_ids db"
  shows "ensure_usd_loop sid balance uids db =
    (let new = filter (\<lambda>uid. \<not> has_balance uid sid ''USD'' db) uids in
     (Inr (int (length new)), db\<lparr>db_balances := db_balances db @ map (usd_row sid balance) new\<rparr>))"
  using assms
proof (induction uids arbitrary: db)
  case Nil
  then show ?case by (simp add: t_return_def)
next
  case (Cons uid uids)
  show ?case
  proof (cases "has_balance uid sid ''USD'' db")
    case True
    then show ?thesis using Cons.IH [of db] Cons.prems by (simp add: txn_defs Let_def)
  next
    case False
    let ?db = "db\<lparr>db_balances := db_balances db @ [usd_row sid balance uid]\<rparr>"
    have i: "insert_balance_row uid sid ''USD'' balance db = (Inr (), ?db)"
      using False Cons.prems(2,3) by (simp add: insert_balance_row_def txn_defs key_lookups usd_row_def)
    have h: "has_balance u sid ''USD'' ?db = has_balance u sid ''USD'' db" if "u \<in> set uids" for u
      using that Cons.prems(1) by (auto simp: has_balance_def balance_key_def usd_row_def)
    have "filter (\<lambda>u. \<not> has_balance u sid ''USD'' ?db) uids = filter (\<lambda>u. \<not> has_balance u sid ''USD'' db) uids"
      using h by (intro filter_cong) auto
    then show ?thesis using Cons.IH [of ?db] Cons.prems False i by (simp add: txn_defs Let_def)
  qed
qed

lemma members_ok:
  assumes "db_ok db" "server_named name db = Some s"
  shows "distinct (members_of s db)" "set (members_of s db) \<subseteq> user_ids db" "ps_server_id s \<in> server_ids db"
proof -
  have s: "s \<in> set (db_servers db)" using assms(2) by (auto simp: server_named_def find_Some_iff)
  then show "ps_server_id s \<in> server_ids db" by simp
  have k: "distinct (map (\<lambda>a. (pa_server_id a, pa_user_id a)) (db_allowlist db))"
    and r: "\<forall>a \<in> set (db_allowlist db). pa_user_id a \<in> user_ids db" "ps_admin_id s \<in> user_ids db"
    using assms(1) s by (auto simp: db_ok_def keys_distinct_def references_hold_def)
  have "distinct (allowlist_of sid db)" for sid
    using k by (auto simp: allowlist_of_def distinct_map inj_on_def)
  then show "distinct (members_of s db)" by (simp add: members_of_def Let_def)
  show "set (members_of s db) \<subseteq> user_ids db" using r by (auto simp: members_of_def allowlist_of_def Let_def)
qed

lemma ensure_usd_effect:
  assumes "db_ok db" "db_faults db = []" "server_named name db = Some s"
  shows "ensure_initial_usd_balances pg name amount db =
    (let new = filter (\<lambda>uid. \<not> has_balance uid (ps_server_id s) ''USD'' db) (members_of s db);
         usd = (if db_has_initial_usd db then ps_initial_usd s else amount) in
     (Inr (int (length new)), db\<lparr>db_balances := db_balances db @ map (usd_row (ps_server_id s) (usd * 10000)) new\<rparr>))"
proof -
  note loop = ensure_usd_loop_effect [OF members_ok [OF assms(1,3)]]
  show ?thesis
    using assms(2,3) by (simp add: ensure_initial_usd_balances_def run_txn_no_fault txn_defs loop Let_def mult.commute)
qed



end
