(* ===== verification/TimeSeries.thy ===== *)
theory TimeSeries
  imports CoreDb Fifo "HOL-Library.List_Lexorder" "HOL-Library.Char_ord" "HOL-Library.Product_Lexorder"
    "HOL-Library.Multiset"
begin

text \<open>
  The QuestDB side of \<open>libs/database/database_client.h\<close>: the writer thread, which turns queued tasks
  into rows of the line protocol and flushes them, and the queries over the tables of a server.

  A table is the name of its designated timestamp column, its column names, its deduplication keys and
  its rows; a column a row has no value for is null. A row that arrives over the line protocol creates
  a missing table with the timestamp column \<open>timestamp\<close> and adds missing columns. QuestDB keeps the rows
  of a table in the order of their timestamps. Rows that were sent are in flight until QuestDB ingests
  them, in whatever order; only then do queries see them. The order in which a query without
  \<open>ORDER BY\<close> returns the rows is an argument of the query. Server names are plain identifiers.
\<close>

section \<open>Texts of the enumerations\<close>

fun side_to_string :: "side \<Rightarrow> string" where
  "side_to_string Bid = ''BID''"
| "side_to_string Ask = ''ASK''"

fun order_type_to_string :: "order_type \<Rightarrow> string" where
  "order_type_to_string Limit = ''LIMIT''"
| "order_type_to_string Market = ''MARKET''"

fun tif_to_string :: "time_in_force \<Rightarrow> string" where
  "tif_to_string Day = ''DAY''"
| "tif_to_string Gtc = ''GTC''"

fun status_to_string :: "exec_type_or_order_status \<Rightarrow> string" where
  "status_to_string Status_new = ''NEW''"
| "status_to_string Status_partially_filled = ''PARTIALLY_FILLED''"
| "status_to_string Status_filled = ''FILLED''"
| "status_to_string Status_canceled = ''CANCELED''"
| "status_to_string Status_pending_cancel = ''PENDING_CANCEL''"
| "status_to_string Status_rejected = ''REJECTED''"

section \<open>Rows\<close>

datatype write_task =
    Order_Insertion_Task int new_order_single bool
  | Cancel_Request_Insertion_Task cancel_order_request bool
  | Execution_Insertion_Task execution_report
  | Trade_Insertion_Task trade_container
  | Cancel_Response_Insertion_Task cancel_order_response

datatype q_value = Q_Int int | Q_Str string | Q_Bool bool

record q_row =
  qr_table :: string
  qr_values :: "(string \<times> q_value) list"
  qr_micros :: int

definition order_row :: "string \<Rightarrow> int \<Rightarrow> int \<Rightarrow> new_order_single \<Rightarrow> bool \<Rightarrow> q_row" where
  "order_row server_name now internal_order_id r is_order_valid =
     \<lparr>qr_table = ''orders_'' @ server_name,
      qr_values =
        [(''symbol'', Q_Str (nos_symbol r)), (''side'', Q_Str (side_to_string (nos_side r))),
         (''ord_type'', Q_Str (order_type_to_string (nos_ord_type r))),
         (''time_in_force'', Q_Str (tif_to_string (nos_time_in_force r))),
         (''order_status'', Q_Str (if is_order_valid then ''NEW'' else ''REJECTED'')),
         (''sender_comp_id'', Q_Str (nos_sender_comp_id r)), (''order_id'', Q_Int internal_order_id),
         (''cl_order_id'', Q_Int (nos_cl_ord_id r)), (''order_qty'', Q_Int (nos_order_qty r)),
         (''filled_qty'', Q_Int 0), (''price'', Q_Int (case nos_price r of None \<Rightarrow> 0 | Some p \<Rightarrow> p))],
      qr_micros = now\<rparr>"

definition cancel_request_row :: "string \<Rightarrow> int \<Rightarrow> cancel_order_request \<Rightarrow> bool \<Rightarrow> q_row" where
  "cancel_request_row server_name now r is_request_valid =
     \<lparr>qr_table = ''orders_'' @ server_name,
      qr_values =
        [(''symbol'', Q_Str (cor_symbol r)), (''side'', Q_Str (side_to_string (cor_side r))),
         (''order_status'', Q_Str (if is_request_valid then ''PENDING_CANCEL'' else ''REJECTED_CANCEL'')),
         (''sender_comp_id'', Q_Str (cor_sender_comp_id r)),
         (''order_id'', Q_Int (case cor_order_id r of None \<Rightarrow> - 1 | Some i \<Rightarrow> i)),
         (''cl_order_id'', Q_Int (cor_orig_cl_ord_id r)), (''order_qty'', Q_Int (cor_order_qty r)), (''filled_qty'', Q_Int 0)],
      qr_micros = now\<rparr>"

definition execution_row :: "string \<Rightarrow> int \<Rightarrow> execution_report \<Rightarrow> q_row result" where
  "execution_row server_name now r =
     rbind (i32 (er_leaves_qty r + er_cum_qty r)) (\<lambda>order_qty.
       Inr \<lparr>qr_table = ''orders_'' @ server_name,
         qr_values =
           [(''symbol'', Q_Str (er_symbol r)), (''side'', Q_Str (side_to_string (er_side r))),
            (''order_status'', Q_Str (status_to_string (er_ord_status r))),
            (''time_in_force'', Q_Str (tif_to_string (er_time_in_force r))),
            (''sender_comp_id'', Q_Str (er_sender_comp_id r)), (''order_id'', Q_Int (er_order_id r)),
            (''cl_order_id'', Q_Int (er_cl_order_id r)), (''order_qty'', Q_Int order_qty), (''filled_qty'', Q_Int (er_cum_qty r)),
            (''price'', Q_Int (case er_price r of None \<Rightarrow> 0 | Some p \<Rightarrow> p))],
         qr_micros = now\<rparr>)"

definition trade_row :: "string \<Rightarrow> int \<Rightarrow> trade_container \<Rightarrow> q_row" where
  "trade_row server_name now t =
     \<lparr>qr_table = ''trades_'' @ server_name,
      qr_values =
        [(''symbol'', Q_Str (tc_ticker t)), (''price'', Q_Int (tc_price t)), (''quantity'', Q_Int (tc_quantity t)),
         (''trade_id'', Q_Str (tc_trade_id t)), (''taker_id'', Q_Str (tc_taker_id t)), (''maker_id'', Q_Str (tc_maker_id t)),
         (''taker_order_id'', Q_Int (tc_taker_order_id t)), (''maker_order_id'', Q_Int (tc_maker_order_id t)),
         (''is_taker_buyer'', Q_Bool (tc_is_taker_buyer t))],
      qr_micros = now\<rparr>"

text \<open>The answer to a cancel request goes to a table that does not carry the name of the server.\<close>

definition cancel_response_row :: "int \<Rightarrow> cancel_order_response \<Rightarrow> q_row" where
  "cancel_response_row now r =
     \<lparr>qr_table = ''orders'',
      qr_values = [(''order_status'', Q_Str (if crs_success r then ''CANCELLED'' else ''REJECTED_CANCEL'')),
        (''order_id'', Q_Int (crs_order_id r))],
      qr_micros = now\<rparr>"

text \<open>The row the calls on the line sender's buffer build for a task.\<close>

fun task_row :: "string \<Rightarrow> int \<Rightarrow> write_task \<Rightarrow> q_row result" where
  "task_row sn now (Order_Insertion_Task i r v) = Inr (order_row sn now i r v)"
| "task_row sn now (Cancel_Request_Insertion_Task r v) = Inr (cancel_request_row sn now r v)"
| "task_row sn now (Execution_Insertion_Task r) = execution_row sn now r"
| "task_row sn now (Trade_Insertion_Task t) = Inr (trade_row sn now t)"
| "task_row sn now (Cancel_Response_Insertion_Task r) = Inr (cancel_response_row now r)"

text \<open>
  \<open>append\<close>: the calls may throw, which the function catches, and then the row is lost. Whether they do is
  up to the library and is the argument \<open>throws\<close>. The overflow of \<open>execution_row\<close> is not an exception.
\<close>

definition append_task :: "string \<Rightarrow> bool \<Rightarrow> int \<Rightarrow> write_task \<Rightarrow> q_row list result" where
  "append_task sn throws now t = rbind (task_row sn now t) (\<lambda>r. Inr (if throws then [] else [r]))"

section \<open>The tables\<close>

record q_table =
  qt_ts_column :: string
  qt_columns :: "string list"
  qt_dedup :: "string list"
  qt_rows :: "(int \<times> (string \<times> q_value) list) list"

record quest_db =
  qs_tables :: "string \<rightharpoonup> q_table"
  qs_faults :: "bool list"

definition same_key :: "string list \<Rightarrow> int \<times> (string \<times> q_value) list \<Rightarrow> int \<times> (string \<times> q_value) list \<Rightarrow> bool" where
  "same_key keys a b \<longleftrightarrow> fst a = fst b \<and> (\<forall>k \<in> set keys. map_of (snd a) k = map_of (snd b) k)"

text \<open>A row goes behind the rows with its timestamp or an earlier one.\<close>

definition insert_by_time :: "int \<times> 'v \<Rightarrow> (int \<times> 'v) list \<Rightarrow> (int \<times> 'v) list" where
  "insert_by_time row rows =
     takeWhile (\<lambda>x. fst x \<le> fst row) rows @ row # dropWhile (\<lambda>x. fst x \<le> fst row) rows"

text \<open>With deduplication a row replaces those with its timestamp and keys.\<close>

definition add_row :: "q_row \<Rightarrow> q_table \<Rightarrow> q_table" where
  "add_row r t =
     (let row = (qr_micros r, qr_values r);
          old = (if qt_dedup t = [] then qt_rows t else filter (\<lambda>x. \<not> same_key (qt_dedup t) x row) (qt_rows t))
      in t\<lparr>qt_columns := qt_columns t @ filter (\<lambda>c. c \<notin> set (qt_columns t) \<and> c \<noteq> qt_ts_column t) (map fst (qr_values r)),
           qt_rows := insert_by_time row old\<rparr>)"

lemma mset_insert_by_time [simp]: "mset (insert_by_time row rows) = add_mset row (mset rows)"
  by (simp add: insert_by_time_def) (metis mset_append takeWhile_dropWhile_id)

lemma length_insert_by_time [simp]: "length (insert_by_time row rows) = Suc (length rows)"
  by (metis mset_insert_by_time size_add_mset size_mset)

lemma sorted_insert_by_time:
  "sorted (map fst rows) \<Longrightarrow> sorted (map fst (insert_by_time row rows))"
proof (induction rows)
  case (Cons x rows)
  then show ?case by (cases "fst x \<le> fst row") (auto simp: insert_by_time_def dest: set_takeWhileD set_dropWhileD)
qed (simp add: insert_by_time_def)

definition ingest_row :: "q_row \<Rightarrow> quest_db \<Rightarrow> quest_db" where
  "ingest_row r q =
     q\<lparr>qs_tables := (qs_tables q)(qr_table r \<mapsto>
        add_row r (case qs_tables q (qr_table r) of
          None \<Rightarrow> \<lparr>qt_ts_column = ''timestamp'', qt_columns = [], qt_dedup = [], qt_rows = []\<rparr>
        | Some t \<Rightarrow> t))\<rparr>"

section \<open>The writer\<close>

record async_writer =
  aw_queue :: "write_task list"
  aw_buffer :: "q_row list"
  aw_last_flush :: int
  aw_flush_threshold :: nat
  aw_flush_interval :: int

fun append_all :: "string \<Rightarrow> (nat \<Rightarrow> bool) \<Rightarrow> (nat \<Rightarrow> int) \<Rightarrow> nat \<Rightarrow> write_task list \<Rightarrow> q_row list result" where
  "append_all sn throws clock k [] = Inr []"
| "append_all sn throws clock k (t # ts) =
     rbind (append_task sn (throws k) (clock k) t) (\<lambda>r.
       rbind (append_all sn throws clock (Suc k) ts) (\<lambda>rs. Inr (r @ rs)))"

definition flush_due :: "int \<Rightarrow> async_writer \<Rightarrow> bool" where
  "flush_due now w \<longleftrightarrow>
     (length (aw_buffer w) > 0 \<and> now - aw_last_flush w > aw_flush_interval w) \<or> length (aw_buffer w) \<ge> aw_flush_threshold w"

text \<open>
  One round of \<open>writer_loop\<close>: what is queued is appended, then flushed if due; the answer is the rows the
  flush sent. A flush that throws is not caught in the thread and ends the process. \<open>throws\<close> and
  \<open>clock\<close> give for each task of the round whether its append throws and the time it reads.
\<close>

definition writer_iteration ::
  "string \<Rightarrow> (nat \<Rightarrow> bool) \<Rightarrow> (nat \<Rightarrow> int) \<Rightarrow> int \<Rightarrow> bool \<Rightarrow> async_writer \<Rightarrow> (async_writer \<times> q_row list) result" where
  "writer_iteration sn throws clock now sender_ok w =
     rbind (append_all sn throws clock 0 (aw_queue w)) (\<lambda>rows.
     let w1 = w\<lparr>aw_queue := [], aw_buffer := aw_buffer w @ rows\<rparr> in
     if flush_due now w1 then
       if sender_ok then Inr (w1\<lparr>aw_buffer := [], aw_last_flush := now\<rparr>, aw_buffer w1)
       else Inl Terminated
     else Inr (w1, []))"

text \<open>The destructor drains the queue and flushes what is left; a failure is swallowed.\<close>

definition writer_shutdown ::
  "string \<Rightarrow> (nat \<Rightarrow> bool) \<Rightarrow> (nat \<Rightarrow> int) \<Rightarrow> bool \<Rightarrow> async_writer \<Rightarrow> (async_writer \<times> q_row list) result" where
  "writer_shutdown sn throws clock sender_ok w =
     rbind (append_all sn throws clock 0 (aw_queue w)) (\<lambda>rows.
     let w1 = w\<lparr>aw_queue := [], aw_buffer := aw_buffer w @ rows\<rparr> in
     if aw_buffer w1 \<noteq> [] \<and> sender_ok then Inr (w1\<lparr>aw_buffer := []\<rparr>, aw_buffer w1)
     else Inr (w1, []))"

definition enqueue_task :: "write_task \<Rightarrow> async_writer \<Rightarrow> async_writer" where
  "enqueue_task t w = w\<lparr>aw_queue := enqueue (aw_queue w) t\<rparr>"

definition insert_order :: "int \<Rightarrow> new_order_single \<Rightarrow> bool \<Rightarrow> async_writer \<Rightarrow> async_writer" where
  "insert_order i r v = enqueue_task (Order_Insertion_Task i r v)"

definition insert_cancel_request :: "cancel_order_request \<Rightarrow> bool \<Rightarrow> async_writer \<Rightarrow> async_writer" where
  "insert_cancel_request r v = enqueue_task (Cancel_Request_Insertion_Task r v)"

definition insert_execution :: "execution_report \<Rightarrow> async_writer \<Rightarrow> async_writer" where
  "insert_execution r = enqueue_task (Execution_Insertion_Task r)"

definition insert_trade :: "trade_container \<Rightarrow> async_writer \<Rightarrow> async_writer" where
  "insert_trade t = enqueue_task (Trade_Insertion_Task t)"

definition insert_cancel_response :: "cancel_order_response \<Rightarrow> async_writer \<Rightarrow> async_writer" where
  "insert_cancel_response r = enqueue_task (Cancel_Response_Insertion_Task r)"

section \<open>Queries\<close>

definition run_quest ::
  "pg_env \<Rightarrow> string \<Rightarrow> (quest_db \<Rightarrow> sql_error + 'a \<times> quest_db) \<Rightarrow> quest_db \<Rightarrow> (string + 'a) \<times> quest_db" where
  "run_quest pg prefix body q =
     (case qs_faults q of
        True # fs \<Rightarrow> (Inl (prefix @ pg_what pg Connection_Lost), q\<lparr>qs_faults := fs\<rparr>)
      | fs \<Rightarrow>
          let q1 = q\<lparr>qs_faults := tl fs\<rparr> in
          case body q1 of
            Inr (v, q2) \<Rightarrow> (Inr v, q2)
          | Inl e \<Rightarrow> (Inl (prefix @ pg_what pg e), q1))"

text \<open>\<open>SELECT\<close> of some columns of a table.\<close>

definition select_rows :: "string \<Rightarrow> string list \<Rightarrow> quest_db \<Rightarrow> sql_error + (int \<times> (string \<times> q_value) list) list" where
  "select_rows table columns q =
     (case qs_tables q table of
        None \<Rightarrow> Inl Undefined_Table
      | Some t \<Rightarrow>
          if set columns \<subseteq> insert (qt_ts_column t) (set (qt_columns t)) then Inr (qt_rows t) else Inl Undefined_Column)"

definition as_int :: "string \<Rightarrow> (string \<times> q_value) list \<Rightarrow> int" where
  "as_int c row = (case map_of row c of Some (Q_Int i) \<Rightarrow> i | _ \<Rightarrow> 0)"

definition as_text :: "string \<Rightarrow> (string \<times> q_value) list \<Rightarrow> string" where
  "as_text c row = (case map_of row c of Some (Q_Str s) \<Rightarrow> s | _ \<Rightarrow> [])"

definition as_bool :: "string \<Rightarrow> (string \<times> q_value) list \<Rightarrow> bool" where
  "as_bool c row = (case map_of row c of Some (Q_Bool b) \<Rightarrow> b | _ \<Rightarrow> False)"

record historical_trade_row =
  ht_trade_id :: string
  ht_symbol :: string
  ht_price :: int
  ht_quantity :: int
  ht_ts_ms :: int

text \<open>
  The historical trades of a symbol from a time on. The query names the timestamp column \<open>timestamp\<close>.
\<close>

definition query_trades_after ::
  "pg_env \<Rightarrow> string \<Rightarrow> string \<Rightarrow> int \<Rightarrow> quest_db \<Rightarrow> ((string + historical_trade_row list) \<times> quest_db) result" where
  "query_trades_after pg server_name symbol after_ts_ms q =
     rbind (i64 (after_ts_ms * 1000)) (\<lambda>after_ts_micros.
       Inr (run_quest pg ''Error querying trades: '' (\<lambda>q.
         case select_rows (''trades_'' @ server_name) [''trade_id'', ''symbol'', ''price'', ''quantity'', ''timestamp''] q of
           Inl e \<Rightarrow> Inl e
         | Inr rows \<Rightarrow>
             Inr (map (\<lambda>(ts, row). \<lparr>ht_trade_id = as_text ''trade_id'' row, ht_symbol = as_text ''symbol'' row,
                     ht_price = as_int ''price'' row, ht_quantity = as_int ''quantity'' row, ht_ts_ms = sgn ts * (\<bar>ts\<bar> div 1000)\<rparr>)
                   (sort_key (\<lambda>(ts, row). (ts, as_text ''trade_id'' row))
                     (filter (\<lambda>(ts, row). as_text ''symbol'' row = symbol \<and> after_ts_micros \<le> ts) rows)), q)) q))"

record q_order_row =
  qo_order_id :: int
  qo_cl_order_id :: int
  qo_sender_comp_id :: string
  qo_symbol :: string
  qo_side :: string
  qo_order_qty :: int
  qo_filled_qty :: int
  qo_ord_type :: string
  qo_price :: int
  qo_time_in_force :: string
  qo_order_status :: string

definition order_row_of :: "(string \<times> q_value) list \<Rightarrow> q_order_row" where
  "order_row_of r =
     \<lparr>qo_order_id = as_int ''order_id'' r, qo_cl_order_id = as_int ''cl_order_id'' r,
      qo_sender_comp_id = as_text ''sender_comp_id'' r, qo_symbol = as_text ''symbol'' r, qo_side = as_text ''side'' r,
      qo_order_qty = as_int ''order_qty'' r, qo_filled_qty = as_int ''filled_qty'' r, qo_ord_type = as_text ''ord_type'' r,
      qo_price = as_int ''price'' r, qo_time_in_force = as_text ''time_in_force'' r, qo_order_status = as_text ''order_status'' r\<rparr>"

text \<open>
  The queries of all orders and all trades have no \<open>ORDER BY\<close>: \<open>scan\<close> is the order in which the database
  returns the rows.
\<close>

type_synonym row_scan = "(int \<times> (string \<times> q_value) list) list \<Rightarrow> (int \<times> (string \<times> q_value) list) list"

definition query_orders ::
  "row_scan \<Rightarrow> pg_env \<Rightarrow> string \<Rightarrow> quest_db \<Rightarrow> (string + q_order_row list) \<times> quest_db" where
  "query_orders scan pg server_name =
     run_quest pg ''Error querying orders: '' (\<lambda>q.
       case select_rows (''orders_'' @ server_name)
           [''order_id'', ''cl_order_id'', ''sender_comp_id'', ''symbol'', ''side'', ''order_qty'', ''filled_qty'',
            ''ord_type'', ''price'', ''time_in_force'', ''order_status''] q of
         Inl e \<Rightarrow> Inl e
       | Inr rows \<Rightarrow> Inr (map (order_row_of \<circ> snd) (scan rows), q))"

definition trade_of_row :: "(string \<times> q_value) list \<Rightarrow> trade_container" where
  "trade_of_row r =
     \<lparr>tc_ticker = as_text ''symbol'' r, tc_price = as_int ''price'' r, tc_quantity = as_int ''quantity'' r,
      tc_trade_id = as_text ''trade_id'' r, tc_taker_id = as_text ''taker_id'' r, tc_maker_id = as_text ''maker_id'' r,
      tc_taker_order_id = as_int ''taker_order_id'' r, tc_maker_order_id = as_int ''maker_order_id'' r,
      tc_is_taker_buyer = as_bool ''is_taker_buyer'' r\<rparr>"

definition query_trades ::
  "row_scan \<Rightarrow> pg_env \<Rightarrow> string \<Rightarrow> quest_db \<Rightarrow> (string + trade_container list) \<times> quest_db" where
  "query_trades scan pg server_name =
     run_quest pg ''Error querying trades: '' (\<lambda>q.
       case select_rows (''trades_'' @ server_name)
           [''price'', ''quantity'', ''symbol'', ''trade_id'', ''taker_id'', ''maker_id'', ''taker_order_id'',
            ''maker_order_id'', ''is_taker_buyer''] q of
         Inl e \<Rightarrow> Inl e
       | Inr rows \<Rightarrow> Inr (map (trade_of_row \<circ> snd) (scan rows), q))"

section \<open>Definition of the tables\<close>

definition create_table :: "string \<Rightarrow> q_table \<Rightarrow> quest_db \<Rightarrow> quest_db" where
  "create_table name t q =
     (if qs_tables q name = None then q\<lparr>qs_tables := (qs_tables q)(name \<mapsto> t)\<rparr> else q)"

definition trades_table :: q_table where
  "trades_table =
     \<lparr>qt_ts_column = ''ts'',
      qt_columns = [''price'', ''quantity'', ''symbol'', ''trade_id'', ''taker_id'', ''maker_id'', ''taker_order_id'',
        ''maker_order_id'', ''is_taker_buyer''],
      qt_dedup = [''trade_id''], qt_rows = []\<rparr>"

definition orders_table :: q_table where
  "orders_table =
     \<lparr>qt_ts_column = ''ts'',
      qt_columns = [''order_id'', ''cl_order_id'', ''sender_comp_id'', ''symbol'', ''side'', ''order_qty'', ''filled_qty'',
        ''ord_type'', ''price'', ''time_in_force'', ''order_status''],
      qt_dedup = [''order_id''], qt_rows = []\<rparr>"

definition create_quest_tables :: "pg_env \<Rightarrow> string \<Rightarrow> quest_db \<Rightarrow> (string + unit) \<times> quest_db" where
  "create_quest_tables pg server_name =
     run_quest pg (''Error creating orders and trades table for server '' @ server_name @ '': '')
       (\<lambda>q. Inr ((), create_table (''orders_'' @ server_name) orders_table
                      (create_table (''trades_'' @ server_name) trades_table q)))"

definition drop_quest_tables :: "pg_env \<Rightarrow> string \<Rightarrow> quest_db \<Rightarrow> (string + unit) \<times> quest_db" where
  "drop_quest_tables pg server_name =
     run_quest pg (''Error dropping quest db table for server '' @ server_name @ '': '')
       (\<lambda>q. Inr ((), q\<lparr>qs_tables := (qs_tables q)(''orders_'' @ server_name := None, ''trades_'' @ server_name := None)\<rparr>))"

definition truncate_table :: "pg_env \<Rightarrow> string \<Rightarrow> string \<Rightarrow> string \<Rightarrow> quest_db \<Rightarrow> (string + unit) \<times> quest_db" where
  "truncate_table pg prefix table server_name q =
     (case create_quest_tables pg server_name q of
        (Inl e, q') \<Rightarrow> (Inl e, q')
      | (Inr _, q') \<Rightarrow>
          run_quest pg prefix (\<lambda>q. case qs_tables q table of
             None \<Rightarrow> Inl Undefined_Table
           | Some t \<Rightarrow> Inr ((), q\<lparr>qs_tables := (qs_tables q)(table \<mapsto> t\<lparr>qt_rows := []\<rparr>)\<rparr>)) q')"

definition truncate_orders :: "pg_env \<Rightarrow> string \<Rightarrow> quest_db \<Rightarrow> (string + unit) \<times> quest_db" where
  "truncate_orders pg server_name = truncate_table pg ''Error truncating orders: '' (''orders_'' @ server_name) server_name"

definition truncate_trades :: "pg_env \<Rightarrow> string \<Rightarrow> quest_db \<Rightarrow> (string + unit) \<times> quest_db" where
  "truncate_trades pg server_name = truncate_table pg ''Error truncating trades: '' (''trades_'' @ server_name) server_name"

section \<open>Runs of the writer\<close>

text \<open>
  The services enqueue while the writer thread runs and QuestDB ingests. A run carries the tasks
  enqueued so far, those of them whose append did not throw, and the rows in flight; QuestDB may
  ingest any of these next.
\<close>

fun appended :: "(nat \<Rightarrow> bool) \<Rightarrow> nat \<Rightarrow> write_task list \<Rightarrow> write_task list" where
  "appended throws k [] = []"
| "appended throws k (t # ts) = (if throws k then [] else [t]) @ appended throws (Suc k) ts"

text \<open>Some of the elements of a list, in the same order.\<close>

inductive selection :: "'a list \<Rightarrow> 'a list \<Rightarrow> bool" where
  none: "selection [] []"
| skip: "selection xs ys \<Longrightarrow> selection xs (y # ys)"
| take: "selection xs ys \<Longrightarrow> selection (x # xs) (x # ys)"

lemma selection_append: "selection xs ys \<Longrightarrow> selection xs' ys' \<Longrightarrow> selection (xs @ xs') (ys @ ys')"
  by (induction rule: selection.induct) (auto intro: selection.intros)

inductive aw_run ::
  "string \<Rightarrow> quest_db \<Rightarrow> write_task list \<Rightarrow> write_task list \<Rightarrow> q_row list \<Rightarrow> async_writer \<Rightarrow> quest_db \<Rightarrow> bool"
  for sn q0 where
  start: "aw_queue w = [] \<Longrightarrow> aw_buffer w = [] \<Longrightarrow> aw_run sn q0 [] [] [] w q0"
| task: "aw_run sn q0 ts kept flight w q \<Longrightarrow> aw_run sn q0 (ts @ [t]) kept flight (enqueue_task t w) q"
| iterate: "aw_run sn q0 ts kept flight w q \<Longrightarrow> writer_iteration sn throws clock now True w = Inr (w', rows) \<Longrightarrow>
    aw_run sn q0 ts (kept @ appended throws 0 (aw_queue w)) (flight @ rows) w' q"
| ingest: "aw_run sn q0 ts kept (xs @ r # ys) w q \<Longrightarrow> aw_run sn q0 ts kept (xs @ ys) w (ingest_row r q)"

definition row_of_task :: "string \<Rightarrow> write_task \<Rightarrow> q_row \<Rightarrow> bool" where
  "row_of_task sn t r \<longleftrightarrow> (\<exists>now. task_row sn now t = Inr r)"

lemma append_all_rows:
  "append_all sn throws clock k ts = Inr rows \<Longrightarrow> list_all2 (row_of_task sn) (appended throws k ts) rows"
  by (induction ts arbitrary: k rows) (auto simp: append_task_def result_simps row_of_task_def)

lemma appended_selection: "selection (appended throws k ts) ts"
  by (induction ts arbitrary: k) (auto intro: selection.intros)

text \<open>
  Where the rows are: the rows of the tasks that were appended are, each once, ingested, in flight or
  still in the buffer.
\<close>

definition written ::
  "string \<Rightarrow> quest_db \<Rightarrow> write_task list \<Rightarrow> write_task list \<Rightarrow> q_row list \<Rightarrow> async_writer \<Rightarrow> quest_db \<Rightarrow> q_row list \<Rightarrow> bool" where
  "written sn q0 ts kept flight w q ingested \<longleftrightarrow>
     (\<exists>ts'. ts = ts' @ aw_queue w \<and> selection kept ts') \<and>
     (\<exists>rows. list_all2 (row_of_task sn) kept rows \<and> mset rows = mset ingested + mset flight + mset (aw_buffer w)) \<and>
     q = fold ingest_row ingested q0"

lemma written_iteration:
  assumes "written sn q0 ts kept flight w q ingested" "writer_iteration sn throws clock now True w = Inr (w', rows)"
  shows "written sn q0 ts (kept @ appended throws 0 (aw_queue w)) (flight @ rows) w' q ingested"
proof -
  obtain ts' old where ts: "ts = ts' @ aw_queue w" "selection kept ts'"
    and old: "list_all2 (row_of_task sn) kept old" "mset old = mset ingested + mset flight + mset (aw_buffer w)"
    and q: "q = fold ingest_row ingested q0"
    using assms(1) by (auto simp: written_def)
  obtain fresh where f: "append_all sn throws clock 0 (aw_queue w) = Inr fresh"
    and w': "aw_queue w' = []" "mset rows + mset (aw_buffer w') = mset (aw_buffer w) + mset fresh"
    using assms(2) by (auto simp: writer_iteration_def result_simps Let_def split: if_splits)
  have "selection (kept @ appended throws 0 (aw_queue w)) ts"
    unfolding ts(1) using ts(2) appended_selection by (rule selection_append)
  moreover have "list_all2 (row_of_task sn) (kept @ appended throws 0 (aw_queue w)) (old @ fresh)"
    using old(1) append_all_rows [OF f] by (rule list_all2_appendI)
  moreover have "mset (old @ fresh) = mset ingested + mset (flight @ rows) + mset (aw_buffer w')"
    using old(2) w'(2) by (simp add: ac_simps)
  ultimately show ?thesis using q w'(1) by (auto simp: written_def)
qed

lemma aw_run_written: "aw_run sn q0 ts kept flight w q \<Longrightarrow> \<exists>ingested. written sn q0 ts kept flight w q ingested"
proof (induction rule: aw_run.induct)
  case (start w)
  then show ?case by (intro exI [of _ "[]"]) (simp add: written_def selection.none)
next
  case (task ts kept flight w q t)
  then show ?case by (auto simp: written_def enqueue_task_def enqueue_def)
next
  case (iterate ts kept flight w q throws clock now w' rows)
  then show ?case using written_iteration by blast
next
  case (ingest ts kept xs r ys w q)
  then obtain ingested where "written sn q0 ts kept (xs @ r # ys) w q ingested" by blast
  then have "written sn q0 ts kept (xs @ ys) w (ingest_row r q) (ingested @ [r])"
    by (auto simp: written_def ac_simps)
  then show ?case by blast
qed

section \<open>What is read back\<close>

lemma quest_no_faults: "qs_faults q = [] \<Longrightarrow> q\<lparr>qs_faults := []\<rparr> = q"
  by simp

lemma ingest_other: "qr_table r \<noteq> name \<Longrightarrow> qs_tables (ingest_row r q) name = qs_tables q name"
  by (simp add: ingest_row_def)

lemma ingest_existing:
  "qs_tables q (qr_table r) = Some t \<Longrightarrow> qs_tables (ingest_row r q) (qr_table r) = Some (add_row r t)"
  by (simp add: ingest_row_def)

lemma fold_ingest:
  "qs_tables q name = Some t \<Longrightarrow>
   qs_tables (fold ingest_row rs q) name = Some (fold add_row (filter (\<lambda>r. qr_table r = name) rs) t)"
proof (induction rs arbitrary: q t)
  case (Cons r rs)
  show ?case
  proof (cases "qr_table r = name")
    case True
    then show ?thesis using Cons.IH [of "ingest_row r q" "add_row r t"] ingest_existing [of q r t] Cons.prems by simp
  next
    case False
    then show ?thesis using Cons.IH [of "ingest_row r q" t] ingest_other [OF False, of q] Cons.prems by simp
  qed
qed simp

lemma fold_add_row_schema:
  "qt_ts_column (fold add_row rs t) = qt_ts_column t \<and> qt_dedup (fold add_row rs t) = qt_dedup t \<and>
   set (qt_columns t) \<subseteq> set (qt_columns (fold add_row rs t))"
proof (induction rs arbitrary: t)
  case (Cons r rs)
  have "qt_ts_column (add_row r t) = qt_ts_column t" "qt_dedup (add_row r t) = qt_dedup t"
    "set (qt_columns t) \<subseteq> set (qt_columns (add_row r t))"
    by (auto simp: add_row_def Let_def)
  then show ?case using Cons.IH [of "add_row r t"] by auto
qed simp

definition trades_of :: "write_task list \<Rightarrow> trade_container list" where
  "trades_of ts = List.map_filter (\<lambda>t. case t of Trade_Insertion_Task tr \<Rightarrow> Some tr | _ \<Rightarrow> None) ts"

lemma trades_of_Cons: "trades_of (t # ts) = (case t of Trade_Insertion_Task tr \<Rightarrow> tr # trades_of ts | _ \<Rightarrow> trades_of ts)"
  by (simp add: trades_of_def List.map_filter_simps split: write_task.split)

lemma table_of_task:
  "row_of_task sn t r \<Longrightarrow> qr_table r = ''trades_'' @ sn \<longleftrightarrow> (\<exists>tr. t = Trade_Insertion_Task tr)"
  by (cases t) (auto simp: row_of_task_def order_row_def cancel_request_row_def execution_row_def trade_row_def
      cancel_response_row_def result_simps)

lemma row_of_trade: "row_of_task sn (Trade_Insertion_Task tr) r \<Longrightarrow> \<exists>now. r = trade_row sn now tr"
  by (auto simp: row_of_task_def)

lemma trade_of_trade_row [simp]: "trade_of_row (qr_values (trade_row sn now tr)) = tr"
  by (simp add: trade_of_row_def trade_row_def as_text_def as_int_def as_bool_def)

lemma trade_rows:
  "list_all2 (row_of_task sn) ts rs \<Longrightarrow>
   map (trade_of_row \<circ> qr_values) (filter (\<lambda>r. qr_table r = ''trades_'' @ sn) rs) = trades_of ts \<and>
   (\<forall>r \<in> set (filter (\<lambda>r. qr_table r = ''trades_'' @ sn) rs). \<exists>now tr. r = trade_row sn now tr)"
proof (induction rule: list_all2_induct)
  case Nil
  then show ?case by (simp add: trades_of_def List.map_filter_simps)
next
  case (Cons t ts r rs)
  show ?case
  proof (cases "qr_table r = ''trades_'' @ sn")
    case True
    then obtain tr where t: "t = Trade_Insertion_Task tr" using table_of_task [OF Cons.hyps(1)] by blast
    then obtain now where "r = trade_row sn now tr" using row_of_trade Cons.hyps(1) by blast
    then show ?thesis using Cons.IH True t by (auto simp: trades_of_Cons)
  next
    case False
    then have "trades_of (t # ts) = trades_of ts"
      using table_of_task [OF Cons.hyps(1)] by (cases t) (simp_all add: trades_of_Cons)
    then show ?thesis using Cons.IH False by simp
  qed
qed

text \<open>Rows with different trade ids never replace each other.\<close>

lemma fold_add_trade_rows:
  assumes "qt_dedup t = [''trade_id'']"
    and "distinct (map (\<lambda>x. map_of (snd x) ''trade_id'') (qt_rows t) @ map (\<lambda>r. map_of (qr_values r) ''trade_id'') rs)"
  shows "mset (qt_rows (fold add_row rs t)) = mset (qt_rows t) + mset (map (\<lambda>r. (qr_micros r, qr_values r)) rs)"
  using assms
proof (induction rs arbitrary: t)
  case (Cons r rs)
  let ?row = "(qr_micros r, qr_values r)"
  have "\<forall>x \<in> set (qt_rows t). \<not> same_key (qt_dedup t) x ?row"
    using Cons.prems by (auto simp: same_key_def image_iff)
  then have r: "mset (qt_rows (add_row r t)) = add_mset ?row (mset (qt_rows t))" "qt_dedup (add_row r t) = [''trade_id'']"
    using Cons.prems(1) by (auto simp: add_row_def Let_def)
  have "distinct (map (\<lambda>x. map_of (snd x) ''trade_id'') (?row # qt_rows t) @ map (\<lambda>r. map_of (qr_values r) ''trade_id'') rs)"
    using Cons.prems(2) by auto
  moreover have "mset (map (\<lambda>x. map_of (snd x) ''trade_id'') (?row # qt_rows t)) =
      mset (map (\<lambda>x. map_of (snd x) ''trade_id'') (qt_rows (add_row r t)))"
    using r(1) by (simp only: mset_map mset.simps)
  ultimately have "distinct (map (\<lambda>x. map_of (snd x) ''trade_id'') (qt_rows (add_row r t)) @ map (\<lambda>r. map_of (qr_values r) ''trade_id'') rs)"
    using mset_eq_imp_distinct_iff mset_eq_setD by (metis distinct_append)
  from Cons.IH [OF r(2) this] show ?case using r(1) by simp
qed simp

lemma trade_id_of_row: "\<exists>now tr. r = trade_row sn now tr \<Longrightarrow>
    map_of (qr_values r) ''trade_id'' = Some (Q_Str (tc_trade_id (trade_of_row (qr_values r))))"
  by (auto simp: trade_row_def trade_of_row_def as_text_def)

lemma mset_filter_map_eq: "mset xs = mset ys \<Longrightarrow> mset (map f (filter P xs)) = mset (map f (filter P ys))"
  by (simp add: mset_filter)

text \<open>The rows of the server's trades among some rows, as trades.\<close>

definition trades_among :: "string \<Rightarrow> q_row list \<Rightarrow> trade_container list" where
  "trades_among sn rows = map (trade_of_row \<circ> qr_values) (filter (\<lambda>r. qr_table r = ''trades_'' @ sn) rows)"

lemma written_trades:
  assumes "written sn q0 ts kept flight w q ingested"
  shows "mset (trades_among sn ingested) + mset (trades_among sn (flight @ aw_buffer w)) = mset (trades_of kept)"
    and "\<forall>r \<in> set ingested. qr_table r = ''trades_'' @ sn \<longrightarrow> (\<exists>now tr. r = trade_row sn now tr)"
proof -
  obtain rows where r: "list_all2 (row_of_task sn) kept rows"
    and m: "mset rows = mset (ingested @ flight @ aw_buffer w)"
    using assms by (auto simp: written_def)
  note t = trade_rows [OF r]
  have "mset (trades_of kept) = mset (trades_among sn (ingested @ flight @ aw_buffer w))"
    using t mset_filter_map_eq [OF m] unfolding trades_among_def by metis
  then show "mset (trades_among sn ingested) + mset (trades_among sn (flight @ aw_buffer w)) = mset (trades_of kept)"
    by (simp add: trades_among_def)
  have "set ingested \<subseteq> set rows" using mset_eq_setD [OF m] by auto
  then show "\<forall>r \<in> set ingested. qr_table r = ''trades_'' @ sn \<longrightarrow> (\<exists>now tr. r = trade_row sn now tr)"
    using t by auto
qed

lemma trades_table_after_run:
  assumes "written sn q0 ts kept flight w q ingested" "qs_tables q0 (''trades_'' @ sn) = Some trades_table"
    and "distinct (map tc_trade_id (trades_of kept))"
  obtains t where "qs_tables q (''trades_'' @ sn) = Some t"
    "mset (map (trade_of_row \<circ> snd) (qt_rows t)) = mset (trades_among sn ingested)"
    "set (qt_columns trades_table) \<subseteq> set (qt_columns t)"
proof -
  let ?rs = "filter (\<lambda>r. qr_table r = ''trades_'' @ sn) ingested"
  note tr = written_trades [OF assms(1)]
  have e: "map_of (qr_values r) ''trade_id'' = Some (Q_Str (tc_trade_id (trade_of_row (qr_values r))))" if "r \<in> set ?rs" for r
    by (rule trade_id_of_row [where sn = sn]) (use tr(2) that in simp)
  have "mset (map tc_trade_id (trades_among sn ingested @ trades_among sn (flight @ aw_buffer w))) =
      mset (map tc_trade_id (trades_of kept))"
    using tr(1) by (metis mset_append mset_map)
  then have "distinct (map tc_trade_id (trades_among sn ingested))"
    using assms(3) mset_eq_imp_distinct_iff by (metis distinct_append map_append)
  moreover have "map (\<lambda>r. map_of (qr_values r) ''trade_id'') ?rs = map (Some \<circ> Q_Str) (map tc_trade_id (trades_among sn ingested))"
    unfolding trades_among_def map_map by (intro map_cong) (simp_all add: e)
  ultimately have d: "distinct (map (\<lambda>r. map_of (qr_values r) ''trade_id'') ?rs)"
    by (simp add: distinct_map inj_on_def)
  have "mset (qt_rows (fold add_row ?rs trades_table)) = mset (map (\<lambda>r. (qr_micros r, qr_values r)) ?rs)"
    using fold_add_trade_rows [of trades_table ?rs] d by (simp add: trades_table_def)
  from arg_cong [OF this, of "image_mset (trade_of_row \<circ> snd)"]
  have "mset (map (trade_of_row \<circ> snd) (qt_rows (fold add_row ?rs trades_table))) =
      mset (map (trade_of_row \<circ> snd) (map (\<lambda>r. (qr_micros r, qr_values r)) ?rs))"
    by (simp only: mset_map)
  also have "\<dots> = mset (trades_among sn ingested)" by (simp add: trades_among_def comp_def)
  finally have "mset (map (trade_of_row \<circ> snd) (qt_rows (fold add_row ?rs trades_table))) = mset (trades_among sn ingested)" .
  moreover have "qs_tables q (''trades_'' @ sn) = Some (fold add_row ?rs trades_table)"
    using fold_ingest [OF assms(2), of ingested] assms(1) by (simp add: written_def)
  ultimately show ?thesis
    using that fold_add_row_schema [of ?rs trades_table] by blast
qed

text \<open>C32 (roundtrip). Every trade handed to the database client is in one place: at any time, however the insertions, the
  rounds of the writer and the ingestion by QuestDB interleaved and in whatever order the rows come
  back, the trades a query of the server returns, together with those in flight and in the writer's buffer,
  are exactly the trades whose append did not throw, each once; and these are, in order, among the
  tasks the writer has taken from its queue. A trade whose append throws is lost, as the exception is
  swallowed. Once nothing is queued, buffered or in flight, and no append threw, the query returns
  exactly the inserted trades.\<close>

theorem inserted_trades_are_read_back:
  assumes "aw_run sn q0 ts kept flight w q" "qs_tables q0 (''trades_'' @ sn) = Some trades_table"
    and "distinct (map tc_trade_id (trades_of kept))" "qs_faults q = []" "\<forall>rows. mset (scan rows) = mset rows"
  shows "\<exists>result ts'. fst (query_trades scan pg sn q) = Inr result \<and>
    mset result + mset (trades_among sn (flight @ aw_buffer w)) = mset (trades_of kept) \<and>
    ts = ts' @ aw_queue w \<and> selection kept ts'"
proof -
  obtain ingested where w: "written sn q0 ts kept flight w q ingested" using aw_run_written [OF assms(1)] by blast
  then obtain ts' where ts': "ts = ts' @ aw_queue w" "selection kept ts'" by (auto simp: written_def)
  obtain t where t: "qs_tables q (''trades_'' @ sn) = Some t"
    "mset (map (trade_of_row \<circ> snd) (qt_rows t)) = mset (trades_among sn ingested)"
    "set (qt_columns trades_table) \<subseteq> set (qt_columns t)"
    using trades_table_after_run [OF w assms(2,3)] .
  have "fst (query_trades scan pg sn q) = Inr (map (trade_of_row \<circ> snd) (scan (qt_rows t)))"
    using assms(4) t(1,3) by (auto simp: query_trades_def run_quest_def Let_def select_rows_def trades_table_def)
  moreover have "mset (map (trade_of_row \<circ> snd) (scan (qt_rows t))) = mset (trades_among sn ingested)"
    using t(2) assms(5) by simp
  ultimately show ?thesis using written_trades(1) [OF w] ts' by metis
qed

definition demo_writer :: async_writer where
  "demo_writer = \<lparr>aw_queue = [], aw_buffer = [], aw_last_flush = 0, aw_flush_threshold = 1, aw_flush_interval = 100\<rparr>"

definition demo_quest :: quest_db where
  "demo_quest = snd (create_quest_tables demo_pg ''x'' \<lparr>qs_tables = Map.empty, qs_faults = []\<rparr>)"

definition demo_tc :: trade_container where
  "demo_tc =
     \<lparr>tc_ticker = ''GME'', tc_price = 1000, tc_quantity = 300, tc_trade_id = ''t1'', tc_taker_id = ''bob'', tc_maker_id = ''al'',
      tc_taker_order_id = 2, tc_maker_order_id = 1, tc_is_taker_buyer = True\<rparr>"

definition demo_tc2 :: trade_container where
  "demo_tc2 = demo_tc\<lparr>tc_trade_id := ''t2'', tc_price := 1001\<rparr>"

definition demo_tc3 :: trade_container where
  "demo_tc3 = demo_tc\<lparr>tc_trade_id := ''t3''\<rparr>"

abbreviation demo_tasks :: "write_task list" where
  "demo_tasks \<equiv> [Trade_Insertion_Task demo_tc, Trade_Insertion_Task demo_tc2, Trade_Insertion_Task demo_tc3]"

text \<open>Three trades of which the second throws; the other two are ingested, the last one first.\<close>

lemma demo_aw_run:
  "\<exists>w q. aw_run ''x'' demo_quest demo_tasks [Trade_Insertion_Task demo_tc, Trade_Insertion_Task demo_tc3] [] w q \<and>
     aw_queue w = [] \<and> aw_buffer w = [] \<and> qs_faults q = []"
proof -
  let ?r1 = "trade_row ''x'' 0 demo_tc" and ?r3 = "trade_row ''x'' 2 demo_tc3"
  let ?w = "demo_writer\<lparr>aw_last_flush := 9\<rparr>"
  have "aw_run ''x'' demo_quest [] [] [] demo_writer demo_quest" by (rule aw_run.start) (simp_all add: demo_writer_def)
  from aw_run.task [OF aw_run.task [OF aw_run.task [OF this]]]
  have r: "aw_run ''x'' demo_quest demo_tasks [] []
      (insert_trade demo_tc3 (insert_trade demo_tc2 (insert_trade demo_tc demo_writer))) demo_quest"
    by (simp add: insert_trade_def)
  have i: "writer_iteration ''x'' (\<lambda>k. k = 1) int 9 True
      (insert_trade demo_tc3 (insert_trade demo_tc2 (insert_trade demo_tc demo_writer))) = Inr (?w, [?r1, ?r3])"
    by (simp add: writer_iteration_def append_task_def Let_def flush_due_def insert_trade_def enqueue_task_def enqueue_def
        demo_writer_def)
  from aw_run.iterate [OF r i] have "aw_run ''x'' demo_quest demo_tasks
      [Trade_Insertion_Task demo_tc, Trade_Insertion_Task demo_tc3] ([?r1] @ ?r3 # []) ?w demo_quest"
    by (simp add: insert_trade_def enqueue_task_def enqueue_def demo_writer_def)
  from aw_run.ingest [OF this] have "aw_run ''x'' demo_quest demo_tasks
      [Trade_Insertion_Task demo_tc, Trade_Insertion_Task demo_tc3] ([] @ ?r1 # []) ?w (ingest_row ?r3 demo_quest)"
    by simp
  from aw_run.ingest [OF this] have "aw_run ''x'' demo_quest demo_tasks
      [Trade_Insertion_Task demo_tc, Trade_Insertion_Task demo_tc3] [] ?w (ingest_row ?r1 (ingest_row ?r3 demo_quest))"
    by simp
  moreover have "qs_faults (ingest_row ?r1 (ingest_row ?r3 demo_quest)) = []"
    by (simp add: ingest_row_def demo_quest_def create_quest_tables_def run_quest_def Let_def create_table_def)
  ultimately show ?thesis by (intro exI conjI) (assumption | simp add: demo_writer_def)+
qed

lemma demo_quest_table: "qs_tables demo_quest (''trades_'' @ ''x'') = Some trades_table"
  by (simp add: demo_quest_def create_quest_tables_def run_quest_def Let_def create_table_def)

theorem inserted_trades_are_read_back_witness:
  "\<exists>w q result. aw_run ''x'' demo_quest demo_tasks [Trade_Insertion_Task demo_tc, Trade_Insertion_Task demo_tc3] [] w q \<and>
     fst (query_trades rev demo_pg ''x'' q) = Inr result \<and> mset result = {#demo_tc, demo_tc3#}"
proof -
  obtain w q where r: "aw_run ''x'' demo_quest demo_tasks [Trade_Insertion_Task demo_tc, Trade_Insertion_Task demo_tc3] [] w q"
    "aw_buffer w = []" "qs_faults q = []"
    using demo_aw_run by blast
  have t: "trades_of [Trade_Insertion_Task demo_tc, Trade_Insertion_Task demo_tc3] = [demo_tc, demo_tc3]"
    by (simp add: trades_of_def List.map_filter_simps)
  have d: "distinct (map tc_trade_id (trades_of [Trade_Insertion_Task demo_tc, Trade_Insertion_Task demo_tc3]))"
    unfolding t by (simp add: demo_tc_def demo_tc3_def)
  have "\<forall>rows. mset (rev rows) = mset rows" by simp
  from inserted_trades_are_read_back [OF r(1) demo_quest_table d r(3) this, of demo_pg]
  show ?thesis using r(1,2) t by (auto simp: trades_among_def)
qed

text \<open>C33 (error). The history of a symbol cannot be queried for a server whose tables the client created itself: the
  tables name their timestamp \<open>ts\<close>, the query asks for \<open>timestamp\<close>, and no row that is inserted later
  adds that column.\<close>

theorem history_query_fails_on_created_tables:
  assumes "aw_run sn q0 ts kept flight w q" "qs_tables q0 (''trades_'' @ sn) = Some trades_table" "qs_faults q = []"
    and "in_i64 (after * 1000)"
  shows "\<exists>q'. query_trades_after pg sn symbol after q =
    Inr (Inl (''Error querying trades: '' @ pg_what pg Undefined_Column), q')"
proof -
  obtain ingested where w: "written sn q0 ts kept flight w q ingested" using aw_run_written [OF assms(1)] by blast
  let ?rs = "filter (\<lambda>r. qr_table r = ''trades_'' @ sn) ingested"
  have r: "\<forall>r \<in> set ?rs. \<exists>now tr. r = trade_row sn now tr" using written_trades(2) [OF w] by auto
  have "set (qt_columns (fold add_row rows t)) \<subseteq> set (qt_columns trades_table)"
    if "\<forall>r \<in> set rows. \<exists>now tr. r = trade_row sn now tr" "set (qt_columns t) \<subseteq> set (qt_columns trades_table)" for rows t
    using that
  proof (induction rows arbitrary: t)
    case (Cons r rows)
    have "set (qt_columns (add_row r t)) \<subseteq> set (qt_columns trades_table)"
      using Cons.prems by (auto simp: add_row_def Let_def trade_row_def trades_table_def)
    then show ?case using Cons.IH Cons.prems(1) by simp
  qed simp
  then have c: "set (qt_columns (fold add_row ?rs trades_table)) \<subseteq> set (qt_columns trades_table)" using r by blast
  have "qs_tables q (''trades_'' @ sn) = Some (fold add_row ?rs trades_table)"
    using fold_ingest [OF assms(2), of ingested] w by (simp add: written_def)
  moreover have "''timestamp'' \<notin> insert (qt_ts_column (fold add_row ?rs trades_table)) (set (qt_columns (fold add_row ?rs trades_table)))"
    using c fold_add_row_schema [of ?rs trades_table] by (auto simp: trades_table_def)
  ultimately have s: "select_rows (''trades_'' @ sn) [''trade_id'', ''symbol'', ''price'', ''quantity'', ''timestamp''] q = Inl Undefined_Column"
    by (simp add: select_rows_def)
  show ?thesis
    using s assms(3,4) by (simp add: query_trades_after_def run_quest_def Let_def quest_no_faults)
qed

theorem history_query_fails_on_created_tables_witness:
  "\<exists>w q q'. aw_run ''x'' demo_quest demo_tasks [Trade_Insertion_Task demo_tc, Trade_Insertion_Task demo_tc3] [] w q \<and>
     query_trades_after demo_pg ''x'' ''GME'' 0 q = Inr (Inl (''Error querying trades: '' @ ''failed''), q')"
proof -
  obtain w q where r: "aw_run ''x'' demo_quest demo_tasks [Trade_Insertion_Task demo_tc, Trade_Insertion_Task demo_tc3] [] w q"
    "qs_faults q = []"
    using demo_aw_run by blast
  have "in_i64 (0 * 1000)" by (simp add: in_i64_def)
  from history_query_fails_on_created_tables [OF r(1) demo_quest_table r(2) this, of demo_pg "''GME''"] r(1)
  show ?thesis by (auto simp: demo_pg_def)
qed

end
