(* ===== verification/OmDatabase.thy ===== *)
theory OmDatabase
  imports DbServers TimeSeries OmProperties
begin

text \<open>
  The order manager on its database: \<open>DatabaseClientWrapper\<close> of
  \<open>services/order_manager/src/database_client_wrapper.h\<close> implements the database interface of the order
  manager with the client library, and the balances it persists are what the next start loads.
\<close>

section \<open>The wrapper\<close>

record om_storage =
  os_core :: core_db
  os_writer :: async_writer

fun wrapper_call :: "pg_env \<Rightarrow> db_call \<Rightarrow> om_storage \<Rightarrow> om_storage" where
  "wrapper_call pg (Insert_Order i c v) d = d\<lparr>os_writer := insert_order i c v (os_writer d)\<rparr>"
| "wrapper_call pg (Insert_Cancel_Request c v) d = d\<lparr>os_writer := insert_cancel_request c v (os_writer d)\<rparr>"
| "wrapper_call pg (Insert_Trade t) d = d\<lparr>os_writer := insert_trade t (os_writer d)\<rparr>"
| "wrapper_call pg (Insert_Cancel_Response r) d = d\<lparr>os_writer := insert_cancel_response r (os_writer d)\<rparr>"
| "wrapper_call pg (Update_Balance uid sid symbol balance) d =
     d\<lparr>os_core := snd (db_update_balance pg uid sid symbol balance (os_core d))\<rparr>"

definition wrapper_balance_infos :: "user_balance_info list \<Rightarrow> db_user_balance_info list" where
  "wrapper_balance_infos us =
     map (\<lambda>u. \<lparr>dbu_user_id = ub_user_id u, dbu_username = ub_username u, dbu_balances = ub_balances u\<rparr>) us"

definition wrapper_get_all :: "pg_env \<Rightarrow> string \<Rightarrow> core_db \<Rightarrow> db_user_balance_info list option \<times> core_db" where
  "wrapper_get_all pg server_name db =
     (case get_all_users_balances_for_server pg server_name db of
        (Inl e, db') \<Rightarrow> (None, db')
      | (Inr us, db') \<Rightarrow> (Some (wrapper_balance_infos us), db'))"

definition wrapper_get_server :: "pg_env \<Rightarrow> string \<Rightarrow> core_db \<Rightarrow> int option \<times> core_db" where
  "wrapper_get_server pg server_name db =
     (case get_server pg server_name db of
        (Inr (Some s), db') \<Rightarrow> (Some (sr_server_id s), db')
      | (_, db') \<Rightarrow> (None, db'))"

section \<open>Balances in the database\<close>

definition stored :: "int \<Rightarrow> int \<Rightarrow> string \<Rightarrow> core_db \<Rightarrow> int option" where
  "stored uid sid symbol db = map_option pb_balance (find (balance_key uid sid symbol) (db_balances db))"

lemma stored_None: "stored uid sid symbol db = None \<longleftrightarrow> \<not> has_balance uid sid symbol db"
  by (auto simp: stored_def has_balance_def find_None_iff)

lemma balance_key_set:
  "balance_key u s x (if balance_key uid sid symbol b then b\<lparr>pb_balance := v\<rparr> else b) = balance_key u s x b"
  by (auto simp: balance_key_def)

lemma stored_set_balance:
  "stored u s x (set_balance uid sid symbol v db) =
     (if (u, s, x) = (uid, sid, symbol) then map_option (\<lambda>_. v) (stored uid sid symbol db) else stored u s x db)"
proof -
  have "find (balance_key u s x) (map (\<lambda>b. if balance_key uid sid symbol b then b\<lparr>pb_balance := v\<rparr> else b) bs) =
      map_option (\<lambda>b. if balance_key uid sid symbol b then b\<lparr>pb_balance := v\<rparr> else b) (find (balance_key u s x) bs)" for bs
    by (induction bs) (simp_all add: balance_key_set)
  then have f: "stored u s x (set_balance uid sid symbol v db) =
      map_option (\<lambda>b. pb_balance (if balance_key uid sid symbol b then b\<lparr>pb_balance := v\<rparr> else b))
        (find (balance_key u s x) (db_balances db))"
    by (simp add: stored_def set_balance_def option.map_comp comp_def)
  show ?thesis
  proof (cases "find (balance_key u s x) (db_balances db)")
    case None
    then show ?thesis using f by (auto simp: stored_def)
  next
    case (Some b)
    then have "balance_key uid sid symbol b \<longleftrightarrow> (u, s, x) = (uid, sid, symbol)"
      by (auto simp: find_Some_iff balance_key_def)
    then show ?thesis using f Some by (auto simp: stored_def)
  qed
qed

lemma has_balance_set_balance [simp]: "has_balance u s x (set_balance uid sid symbol v db) = has_balance u s x db"
  using stored_None [of u s x] stored_set_balance [of u s x uid sid symbol v db]
  by (metis (no_types, lifting) map_option_is_None prod.inject)

lemma db_update_balance_effect:
  "db_faults db = [] \<Longrightarrow> db_update_balance pg uid sid symbol v db = (Inr (), set_balance uid sid symbol v db)"
  by (simp add: db_update_balance_def run_txn_no_fault t_update_def)

lemma faults_set_balance [simp]: "db_faults (set_balance uid sid symbol v db) = db_faults db"
  by (simp add: set_balance_def)

section \<open>A trade is persisted where there is a row\<close>

definition party_balances :: "('s, 'c, 'd) order_manager \<Rightarrow> string \<Rightarrow> string \<Rightarrow> (int \<times> int \<times> int) result" where
  "party_balances om party symbol =
     rbind (opt_at Out_Of_Range (om_username_user_id_map om party)) (\<lambda>uid.
     rbind (get_balance (om_balances om) party USD_SYMBOL) (\<lambda>usd.
     rbind (get_balance (om_balances om) party symbol) (\<lambda>q. Inr (uid, usd, q))))"

lemma persist_party_storage:
  assumes "persist_party e party symbol om = Inr om'" "om_db e = wrapper_call pg" "db_faults (os_core (om_database om)) = []"
  shows "\<exists>uid usd q. party_balances om party symbol = Inr (uid, usd, q) \<and>
    om' = om\<lparr>om_database := (om_database om)\<lparr>os_core := set_balance uid (om_server_id om) symbol q
      (set_balance uid (om_server_id om) USD_SYMBOL usd (os_core (om_database om)))\<rparr>\<rparr>"
  using assms
  by (auto simp: persist_party_def party_balances_def result_simps db_exec_def db_update_balance_effect)

lemma get_balance_amount: "get_balance m b t = Inr v \<Longrightarrow> v = amount m b t"
  by (auto simp: get_balance_def broker_owns_ticker_def amount_def result_simps Let_def split: option.splits if_splits)

lemma stored_in_rows: "map_of (balances_of uid sid db) symbol = stored uid sid symbol db"
proof -
  have "map_of (map (\<lambda>b. (pb_symbol b, pb_balance b)) (filter (\<lambda>b. pb_user_id b = uid \<and> pb_server_id b = sid) bs)) symbol =
      map_option pb_balance (find (balance_key uid sid symbol) bs)" for bs
    by (induction bs) (auto simp: balance_key_def)
  then show ?thesis by (simp add: balances_of_def stored_def)
qed

lemma party_balances_amounts:
  assumes "party_balances om party symbol = Inr (uid, usd, q)"
  shows "om_username_user_id_map om party = Some uid \<and> usd = amount (om_balances om) party USD_SYMBOL \<and>
    q = amount (om_balances om) party symbol"
  using assms by (auto simp: party_balances_def result_simps dest: get_balance_amount)

lemma stored_after_party:
  "stored u s x (set_balance uid sid symbol q (set_balance uid sid USD_SYMBOL usd db)) =
     (if (u, s) = (uid, sid) \<and> x \<in> {USD_SYMBOL, symbol}
      then map_option (\<lambda>_. if x = symbol then q else usd) (stored u s x db) else stored u s x db)"
  by (auto simp: stored_set_balance option.map_comp comp_def)

text \<open>C24 (functional). When the order manager persists a trade, the USD and ticker balances of both parties in the database
  become the current ones exactly where the database has a row for them; where there is none the update
  reports success and stores nothing, so the next start does not know the balance. No other balance of
  the database changes, and the trade is queued for the trades table.\<close>

theorem trade_is_persisted_only_where_a_row_exists:
  assumes "update_database e (Trade_Container t) v om = Inr om'" "om_db e = wrapper_call pg"
    and "db_faults (os_core (om_database om)) = []"
    and "\<forall>a b u. om_username_user_id_map om a = Some u \<and> om_username_user_id_map om b = Some u \<longrightarrow> a = b"
  shows "let db = os_core (om_database om); db' = os_core (om_database om'); sid = om_server_id om in
    (\<forall>p \<in> {trade_buyer t, trade_seller t}. \<exists>uid. om_username_user_id_map om p = Some uid \<and>
       (\<forall>x \<in> {USD_SYMBOL, tc_ticker t}. \<exists>rows. fst (read_balances pg uid sid db') = Inr rows \<and>
          map_of rows x = (if has_balance uid sid x db then Some (amount (om_balances om) p x) else None))) \<and>
    (\<forall>u s x. (\<forall>p \<in> {trade_buyer t, trade_seller t}. om_username_user_id_map om p \<noteq> Some u) \<or> s \<noteq> sid \<or> x \<notin> {USD_SYMBOL, tc_ticker t} \<longrightarrow>
       stored u s x db' = stored u s x db) \<and>
    os_writer (om_database om') = insert_trade t (os_writer (om_database om))"
proof -
  let ?db = "os_core (om_database om)" and ?sid = "om_server_id om" and ?x = "tc_ticker t"
  let ?om1 = "db_exec e (Insert_Trade t) om"
  obtain om2 where p1: "persist_party e (trade_buyer t) ?x ?om1 = Inr om2" and p2: "persist_party e (trade_seller t) ?x om2 = Inr om'"
    using assms(1) by (auto simp: result_simps)
  have om1: "os_core (om_database ?om1) = ?db" "os_writer (om_database ?om1) = insert_trade t (os_writer (om_database om))"
    "om_username_user_id_map ?om1 = om_username_user_id_map om" "om_balances ?om1 = om_balances om" "om_server_id ?om1 = ?sid"
    using assms(2) by (simp_all add: db_exec_def)
  obtain bid busd bq where b: "party_balances ?om1 (trade_buyer t) ?x = Inr (bid, busd, bq)"
    "om2 = ?om1\<lparr>om_database := (om_database ?om1)\<lparr>os_core := set_balance bid ?sid ?x bq (set_balance bid ?sid USD_SYMBOL busd ?db)\<rparr>\<rparr>"
    using persist_party_storage [OF p1 assms(2)] assms(3) om1(1,5) by auto
  let ?db1 = "set_balance bid ?sid ?x bq (set_balance bid ?sid USD_SYMBOL busd ?db)"
  have om2: "os_core (om_database om2) = ?db1" "os_writer (om_database om2) = insert_trade t (os_writer (om_database om))"
    "om_username_user_id_map om2 = om_username_user_id_map om" "om_balances om2 = om_balances om" "om_server_id om2 = ?sid"
    using b(2) om1 by simp_all
  have "db_faults (os_core (om_database om2)) = []" using om2(1) assms(3) by simp
  then obtain sid' susd sq where c: "party_balances om2 (trade_seller t) ?x = Inr (sid', susd, sq)"
    "om' = om2\<lparr>om_database := (om_database om2)\<lparr>os_core := set_balance sid' ?sid ?x sq (set_balance sid' ?sid USD_SYMBOL susd ?db1)\<rparr>\<rparr>"
    using persist_party_storage [OF p2 assms(2)] om2(1,5) by auto
  let ?db2 = "set_balance sid' ?sid ?x sq (set_balance sid' ?sid USD_SYMBOL susd ?db1)"
  have om': "os_core (om_database om') = ?db2" "os_writer (om_database om') = insert_trade t (os_writer (om_database om))"
    using c(2) om2(2) by simp_all
  have bb: "om_username_user_id_map om (trade_buyer t) = Some bid" "busd = amount (om_balances om) (trade_buyer t) USD_SYMBOL"
    "bq = amount (om_balances om) (trade_buyer t) ?x"
    using party_balances_amounts [OF b(1)] om1(3,4) by simp_all
  have ss: "om_username_user_id_map om (trade_seller t) = Some sid'" "susd = amount (om_balances om) (trade_seller t) USD_SYMBOL"
    "sq = amount (om_balances om) (trade_seller t) ?x"
    using party_balances_amounts [OF c(1)] om2(3,4) by simp_all
  have same: "sid' = bid \<Longrightarrow> trade_seller t = trade_buyer t" using assms(4) bb(1) ss(1) by metis
  have nr: "stored u ?sid x ?db = (if has_balance u ?sid x ?db then Some (the (stored u ?sid x ?db)) else None)" for u x
    using stored_None [of u ?sid x ?db] by (cases "stored u ?sid x ?db") auto
  have rows: "fst (read_balances pg u ?sid ?db2) = Inr (balances_of u ?sid ?db2)" for u
    using assms(3) by (simp add: read_balances_def run_txn_no_fault t_select_def)
  have sb: "stored bid ?sid x ?db2 = (if has_balance bid ?sid x ?db then Some (amount (om_balances om) (trade_buyer t) x) else None)"
    if "x \<in> {USD_SYMBOL, ?x}" for x
    using that same bb(2,3) ss(2,3) nr [of bid x] by (auto simp: stored_after_party)
  have sv: "stored sid' ?sid x ?db2 = (if has_balance sid' ?sid x ?db then Some (amount (om_balances om) (trade_seller t) x) else None)"
    if "x \<in> {USD_SYMBOL, ?x}" for x
    using that same bb(2,3) ss(2,3) nr [of sid' x] by (auto simp: stored_after_party)
  have other: "stored u s x ?db2 = stored u s x ?db"
    if "(\<forall>p \<in> {trade_buyer t, trade_seller t}. om_username_user_id_map om p \<noteq> Some u) \<or> s \<noteq> ?sid \<or> x \<notin> {USD_SYMBOL, ?x}" for u s x
    using that bb(1) ss(1) by (auto simp: stored_after_party)
  show ?thesis
    unfolding Let_def om' using bb(1) ss(1) sb sv other rows stored_in_rows by auto
qed

section \<open>A member without a row\<close>

definition demo_store :: om_storage where
  "demo_store =
     \<lparr>os_core = empty_db\<lparr>db_users := [\<lparr>pu_user_id = 7, pu_username = ''ALICE'', pu_password = ''a''\<rparr>,
          \<lparr>pu_user_id = 8, pu_username = ''BOB'', pu_password = ''b''\<rparr>],
        db_balances := map (\<lambda>(u, x, v). \<lparr>pb_user_id = u, pb_server_id = 1, pb_symbol = x, pb_balance = v\<rparr>)
          [(7, ''USD'', 1000), (7, ''GME'', 50), (8, ''USD'', 2000)]\<rparr>,
      os_writer = demo_writer\<rparr>"

definition demo_store_env :: "(unit, unit, om_storage, unit) om_env" where
  "demo_store_env =
     \<lparr>om_server_name = ''x'', om_exec_id = (\<lambda>_. ''e''), om_ser = (\<lambda>_. ()), om_par = (\<lambda>_. None), om_inbound_send = (\<lambda>_ _ s. (True, s)),
      om_inbound_dequeue = (\<lambda>_ s. (None, s)), om_client_send = (\<lambda>_ _ c. (True, c)), om_client_dequeue = (\<lambda>_ c. (None, c)),
      om_client_wait = (\<lambda>_ c. (None, c)), om_client_connect = (\<lambda>_ _ _ c. (None, c)), om_db = wrapper_call demo_pg\<rparr>"

definition demo_store_om :: "(unit, unit, om_storage) order_manager" where
  "demo_store_om = (make_order_manager [''GME''] () () () demo_store)\<lparr>
     om_balances := [''ALICE'' \<mapsto> [''USD'' \<mapsto> 1300, ''GME'' \<mapsto> 47], ''BOB'' \<mapsto> [''USD'' \<mapsto> 1700, ''GME'' \<mapsto> 3]],
     om_username_user_id_map := [''ALICE'' \<mapsto> 7, ''BOB'' \<mapsto> 8], om_server_id := 1\<rparr>"

definition demo_store_trade :: trade_container where
  "demo_store_trade = demo_tc\<lparr>tc_taker_id := ''BOB'', tc_maker_id := ''ALICE''\<rparr>"

text \<open>BOB buys GME on a server where he has no row for it: his USD is persisted, his shares are not.\<close>

theorem trade_is_persisted_only_where_a_row_exists_witness:
  "\<exists>om' rows. update_database demo_store_env (Trade_Container demo_store_trade) None demo_store_om = Inr om' \<and>
     fst (read_balances demo_pg 8 1 (os_core (om_database om'))) = Inr rows \<and> map_of rows ''USD'' = Some 1700 \<and>
     map_of rows ''GME'' = None \<and> amount (om_balances demo_store_om) ''BOB'' ''GME'' = 3"
proof -
  let ?om = demo_store_om
  have "succeeds (update_database demo_store_env (Trade_Container demo_store_trade) None ?om)" by code_simp
  then obtain om' where om': "update_database demo_store_env (Trade_Container demo_store_trade) None ?om = Inr om'"
    by (auto simp: succeeds_iff)
  have env: "om_db demo_store_env = wrapper_call demo_pg" by (simp add: demo_store_env_def)
  have f: "db_faults (os_core (om_database ?om)) = []"
    by (simp add: demo_store_om_def make_order_manager_def demo_store_def empty_db_def)
  have i: "\<forall>a b u. om_username_user_id_map ?om a = Some u \<and> om_username_user_id_map ?om b = Some u \<longrightarrow> a = b"
    by (simp add: demo_store_om_def split: if_splits)
  have h: "has_balance 8 1 ''USD'' (os_core (om_database ?om))" "\<not> has_balance 8 1 ''GME'' (os_core (om_database ?om))"
    by (simp_all add: demo_store_om_def make_order_manager_def demo_store_def empty_db_def has_balance_def balance_key_def)
  have t: "trade_buyer demo_store_trade = ''BOB''" "tc_ticker demo_store_trade = ''GME''" "om_server_id ?om = 1" "USD_SYMBOL = ''USD''"
    "om_username_user_id_map ?om ''BOB'' = Some 8"
    by (simp_all add: demo_store_trade_def demo_tc_def trade_buyer_def demo_store_om_def USD_SYMBOL_def)
  have a: "amount (om_balances ?om) ''BOB'' ''USD'' = 1700" "amount (om_balances ?om) ''BOB'' ''GME'' = 3"
    by (simp_all add: demo_store_om_def amount_def)
  from trade_is_persisted_only_where_a_row_exists [OF om' env f i] have
    "\<forall>x \<in> {''USD'', ''GME''}. \<exists>rows. fst (read_balances demo_pg 8 1 (os_core (om_database om'))) = Inr rows \<and>
      map_of rows x = (if has_balance 8 1 x (os_core (om_database ?om)) then Some (amount (om_balances ?om) ''BOB'' x) else None)"
    unfolding Let_def t by (simp add: t)
  then show ?thesis using om' h a by auto
qed

end
