(* ===== verification/Http.thy ===== *)
theory Http
  imports DbServers TimeSeries FloatOps "HOL-Library.AList"
begin

text \<open>
  What the handlers of the backend service (\<open>services/backend_service\<close>) work with: JSON values as
  Boost.JSON has them, HTTP requests and responses, the state behind a handler, and early returns.

  A handler reads and writes the two databases and talks to the deployment server. It ends with an
  object that becomes the body of the response; \<open>res["error"] = ...; return res\<close> in the middle of a
  handler is \<open>Inl (Respond res)\<close>, an operation without defined behaviour or an exception that nothing
  in the handler catches is \<open>Inl (Fails e)\<close>. URL and JSON parsing, the network and the order in which
  an unordered container is iterated are arguments, collected in \<open>backend_env\<close>.
\<close>

section \<open>JSON\<close>

datatype bj =
    Bj_Null
  | Bj_Bool bool
  | Bj_Int int
  | Bj_Uint int
  | Bj_Double rat
  | Bj_String string
  | Bj_Array "bj list"
  | Bj_Object "(string \<times> bj) list"

text \<open>An object keeps the order of insertion; assigning to a key that exists replaces its value in place.\<close>

type_synonym bj_object = "(string \<times> bj) list"

definition bj_set_all :: "(string \<times> bj) list \<Rightarrow> bj_object \<Rightarrow> bj_object" where
  "bj_set_all kvs obj = fold (\<lambda>(k, v). AList.update k v) kvs obj"

definition bj_strings :: "bj list \<Rightarrow> string list" where
  "bj_strings vs = List.map_filter (\<lambda>v. case v of Bj_String s \<Rightarrow> Some s | _ \<Rightarrow> None) vs"

definition bj_names :: "string list \<Rightarrow> bj" where
  "bj_names ss = Bj_Array (map Bj_String ss)"

section \<open>Requests and responses\<close>

datatype http_verb = Verb_options | Verb_get | Verb_post | Verb_other

record http_request =
  hr_method :: http_verb
  hr_target :: string
  hr_authorization :: "string option"
  hr_body :: string

record http_response =
  hs_status :: nat
  hs_body :: string

type_synonym url_params = "(string \<times> string) list"

record 'd backend =
  be_core :: core_db
  be_quest :: quest_db
  be_net :: 'd

record 'd backend_env =
  bk_pg :: pg_env
  bk_url :: "string \<Rightarrow> (string \<times> url_params) option"
  bk_parse :: "string \<Rightarrow> string + bj"
  bk_serialize :: "bj \<Rightarrow> string"
  bk_post :: "string \<Rightarrow> int \<Rightarrow> string \<Rightarrow> string \<Rightarrow> 'd \<Rightarrow> (string + nat \<times> string) \<times> 'd"
  bk_order_ids :: "int list \<Rightarrow> int list"
  bk_order_symbols :: "string list \<Rightarrow> string list"

section \<open>Handlers\<close>

datatype halt = Respond bj_object | Fails cpp_error

type_synonym ('d, 'a) handler = "'d backend \<Rightarrow> (halt + 'a) \<times> 'd backend"

definition h_return :: "'a \<Rightarrow> ('d, 'a) handler" where
  "h_return v s = (Inr v, s)"

definition h_lift :: "halt + 'a \<Rightarrow> ('d, 'a) handler" where
  "h_lift r s = (r, s)"

definition h_bind :: "('d, 'a) handler \<Rightarrow> ('a \<Rightarrow> ('d, 'b) handler) \<Rightarrow> ('d, 'b) handler" where
  "h_bind m f s = (case m s of (Inl h, s') \<Rightarrow> (Inl h, s') | (Inr v, s') \<Rightarrow> f v s')"

fun h_each :: "('a \<Rightarrow> ('d, unit) handler) \<Rightarrow> 'a list \<Rightarrow> ('d, unit) handler" where
  "h_each f [] = h_return ()"
| "h_each f (x # xs) = h_bind (f x) (\<lambda>_. h_each f xs)"

text \<open>A call of the database client whose error is turned into a response.\<close>

definition h_core :: "(string \<Rightarrow> bj_object) \<Rightarrow> 'a db_op \<Rightarrow> ('d, 'a) handler" where
  "h_core on_error op s =
     (case op (be_core s) of
        (Inl e, db) \<Rightarrow> (Inl (Respond (on_error e)), s\<lparr>be_core := db\<rparr>)
      | (Inr v, db) \<Rightarrow> (Inr v, s\<lparr>be_core := db\<rparr>))"

text \<open>A call whose outcome the handler inspects itself.\<close>

definition h_attempt :: "'a db_op \<Rightarrow> ('d, string + 'a) handler" where
  "h_attempt op s = (case op (be_core s) of (r, db) \<Rightarrow> (Inr r, s\<lparr>be_core := db\<rparr>))"

definition h_quest :: "(quest_db \<Rightarrow> (string + 'a) \<times> quest_db) \<Rightarrow> ('d, string + 'a) handler" where
  "h_quest op s = (case op (be_quest s) of (r, q) \<Rightarrow> (Inr r, s\<lparr>be_quest := q\<rparr>))"

definition error_text :: "string \<Rightarrow> bj_object" where
  "error_text e = [(''error'', Bj_String e)]"

definition internal_error :: "string \<Rightarrow> bj_object" where
  "internal_error e = error_text ''Internal server error''"

definition auth_error :: "string \<Rightarrow> bj_object" where
  "auth_error e = [(''auth_error'', Bj_String e)]"

definition reject :: "string \<Rightarrow> halt + 'a" where
  "reject e = Inl (Respond (error_text e))"

definition h_reject :: "string \<Rightarrow> ('d, 'a) handler" where
  "h_reject e = h_lift (reject e)"

text \<open>The same sequencing for the parts of a handler that touch no state.\<close>

definition cbind :: "halt + 'a \<Rightarrow> ('a \<Rightarrow> halt + 'b) \<Rightarrow> halt + 'b" where
  "cbind m f = (case m of Inl h \<Rightarrow> Inl h | Inr v \<Rightarrow> f v)"

fun cfold :: "('a \<Rightarrow> 'b \<Rightarrow> halt + 'b) \<Rightarrow> 'a list \<Rightarrow> 'b \<Rightarrow> halt + 'b" where
  "cfold f [] b = Inr b"
| "cfold f (x # xs) b = cbind (f x b) (cfold f xs)"

definition of_cpp :: "'a result \<Rightarrow> halt + 'a" where
  "of_cpp r = (case r of Inl e \<Rightarrow> Inl (Fails e) | Inr v \<Rightarrow> Inr v)"

section \<open>Inversion\<close>

named_theorems handler_simps "inversion of handlers"

lemma h_return_apply [simp]: "h_return v s = (Inr v, s)"
  by (simp add: h_return_def)

lemma h_lift_apply [simp]: "h_lift r s = (r, s)"
  by (simp add: h_lift_def)

lemma h_bind_Inr [handler_simps]:
  "h_bind m f s = (Inr v, s') \<longleftrightarrow> (\<exists>u s1. m s = (Inr u, s1) \<and> f u s1 = (Inr v, s'))"
  by (auto simp: h_bind_def split: prod.splits sum.splits)

lemma h_bindE:
  assumes "h_bind m f s = (Inr v, s')"
  obtains u s1 where "m s = (Inr u, s1)" "f u s1 = (Inr v, s')"
  using assms by (auto simp: h_bind_Inr)

lemma h_core_Inr [handler_simps]:
  "h_core on_error op s = (Inr v, s') \<longleftrightarrow> (\<exists>db. op (be_core s) = (Inr v, db) \<and> s' = s\<lparr>be_core := db\<rparr>)"
  by (auto simp: h_core_def split: prod.splits sum.splits)

lemma h_attempt_Inr [handler_simps]:
  "h_attempt op s = (Inr r, s') \<longleftrightarrow> (\<exists>db. op (be_core s) = (r, db) \<and> s' = s\<lparr>be_core := db\<rparr>)"
  by (auto simp: h_attempt_def split: prod.splits)

lemma h_quest_Inr [handler_simps]:
  "h_quest op s = (Inr r, s') \<longleftrightarrow> (\<exists>q. op (be_quest s) = (r, q) \<and> s' = s\<lparr>be_quest := q\<rparr>)"
  by (auto simp: h_quest_def split: prod.splits)

lemma reject_not_Inr [simp]: "reject e \<noteq> Inr v"
  by (simp add: reject_def)

lemma h_reject_not_Inr [simp]: "h_reject e s \<noteq> (Inr v, s')"
  by (simp add: h_reject_def)

lemma cbind_Inr [handler_simps]: "cbind m f = Inr v \<longleftrightarrow> (\<exists>u. m = Inr u \<and> f u = Inr v)"
  by (cases m) (auto simp: cbind_def)

lemma of_cpp_Inr [handler_simps]: "of_cpp r = Inr v \<longleftrightarrow> r = Inr v"
  by (cases r) (auto simp: of_cpp_def)

section \<open>What a handler keeps\<close>

text \<open>
  A predicate on the tables is kept by everything that goes to QuestDB or the network only, and by every
  handler made of calls that keep it.
\<close>

locale handler_kept =
  fixes good :: "core_db \<Rightarrow> bool"
begin

definition keeps_op :: "'a db_op \<Rightarrow> bool" where
  "keeps_op op \<longleftrightarrow> (\<forall>db. good db \<longrightarrow> good (snd (op db)))"

definition holds :: "('d backend \<Rightarrow> 'r \<times> 'd backend) \<Rightarrow> bool" where
  "holds m \<longleftrightarrow> (\<forall>s. good (be_core s) \<longrightarrow> good (be_core (snd (m s))))"

lemma holds_pair [simp]: "holds (Pair r)"
  by (simp add: holds_def)

lemma holds_return [simp]: "holds (h_return v)"
  by (simp add: holds_def)

lemma holds_lift [simp]: "holds (h_lift r)"
  by (simp add: holds_def)

lemma holds_reject [simp]: "holds (h_reject e)"
  by (simp add: h_reject_def)

lemma holds_if: "holds m \<Longrightarrow> holds m' \<Longrightarrow> holds (if b then m else m')"
  by simp

lemma holds_bind: "holds m \<Longrightarrow> (\<And>v. holds (f v)) \<Longrightarrow> holds (h_bind m f)"
  by (force simp: holds_def h_bind_def split: prod.split sum.split)

lemma holds_each: "(\<And>x. holds (f x)) \<Longrightarrow> holds (h_each f xs)"
  by (induction xs) (simp_all add: holds_bind)

lemma holds_core: "keeps_op op \<Longrightarrow> holds (h_core f op)"
  by (force simp: holds_def keeps_op_def h_core_def split: prod.split sum.split)

lemma holds_attempt: "keeps_op op \<Longrightarrow> holds (h_attempt op)"
  by (force simp: holds_def keeps_op_def h_attempt_def split: prod.split)

lemma holds_quest [simp]: "holds (h_quest op)"
  by (simp add: holds_def h_quest_def split: prod.split)

lemma holds_same_core: "(\<And>s. be_core (snd (m s)) = be_core s) \<Longrightarrow> holds m"
  by (simp add: holds_def)

end

text \<open>A predicate that the fault schedule cannot break is also kept by reading.\<close>

locale handler_invariant = handler_kept +
  assumes good_faults: "good db \<Longrightarrow> good (db\<lparr>db_faults := fs\<rparr>)"
begin

lemma keeps_select: "keeps_op (run_txn pg prefix (t_select f))"
  by (auto simp: keeps_op_def run_txn_def t_select_def good_faults Let_def split: list.splits bool.splits)

end

end
