(* ===== verification/BackendQueries.thy ===== *)
theory BackendQueries
  imports Http
begin

text \<open>
  The \<open>GET\<close> routes of \<open>request_handler.cpp\<close>, from \<open>handle_login\<close> to \<open>handle_account_details\<close>, and
  \<open>authenticate_admin\<close>.
\<close>

section \<open>Names\<close>

definition kServerNameMaxLength :: nat where
  "kServerNameMaxLength = 11"

definition kDefaultInitialTickerPriceUsd :: int where
  "kDefaultInitialTickerPriceUsd = 100"

definition is_alnum :: "char \<Rightarrow> bool" where
  "is_alnum c \<longleftrightarrow> (let n = (of_char c :: nat) in 48 \<le> n \<and> n \<le> 57 \<or> 65 \<le> n \<and> n \<le> 90 \<or> 97 \<le> n \<and> n \<le> 122)"

definition is_server_name_valid :: "string \<Rightarrow> bool" where
  "is_server_name_valid server_name \<longleftrightarrow>
     server_name \<noteq> [] \<and> length server_name \<le> kServerNameMaxLength \<and> (\<forall>c \<in> set server_name. is_alnum c)"

section \<open>Accounts\<close>

definition success_reply :: "bool \<Rightarrow> string \<Rightarrow> bj_object" where
  "success_reply ok err_msg = [(''success'', Bj_Bool ok), (''err_msg'', Bj_String err_msg)]"

definition credentials :: "url_params \<Rightarrow> (string \<times> string) option" where
  "credentials params =
     (case (map_of params ''user_name'', map_of params ''password'') of
        (Some user_name, Some password) \<Rightarrow> Some (user_name, password)
      | _ \<Rightarrow> None)"

definition handle_login :: "'d backend_env \<Rightarrow> url_params \<Rightarrow> ('d, bj_object) handler" where
  "handle_login env params =
     (case credentials params of
        None \<Rightarrow> h_return (success_reply False ''Missing user_name or password'')
      | Some (user_name, password) \<Rightarrow>
          h_bind (h_core (\<lambda>_. success_reply False ''Internal server error'') (authenticate_user (bk_pg env) user_name password)) (\<lambda>r.
          h_return (if r \<noteq> None then success_reply True [] else success_reply False ''Invalid username or password'')))"

definition handle_signup :: "'d backend_env \<Rightarrow> url_params \<Rightarrow> ('d, bj_object) handler" where
  "handle_signup env params =
     (case credentials params of
        None \<Rightarrow> h_return (success_reply False ''Missing user_name or password'')
      | Some (user_name, password) \<Rightarrow>
          h_bind (h_core (\<lambda>_. success_reply False ''Username already exists'') (create_user (bk_pg env) user_name password)) (\<lambda>_.
          h_return (success_reply True [])))"

section \<open>Servers\<close>

definition active_server_json :: "server_row \<Rightarrow> (string \<times> int) option \<Rightarrow> bj" where
  "active_server_json srv endpoint =
     Bj_Object [(''server_id'', Bj_Int (sr_server_id srv)), (''server_name'', Bj_String (sr_server_name srv)),
       (''admin_name'', Bj_String (sr_admin_name srv)), (''description'', Bj_String (sr_description srv)),
       (''mdp_ip'', Bj_String (case endpoint of Some (ip, _) \<Rightarrow> ip | None \<Rightarrow> [])),
       (''mdp_port'', Bj_Int (case endpoint of Some (_, port) \<Rightarrow> port | None \<Rightarrow> 0)),
       (''active_symbols'', bj_names (sr_active_tickers srv))]"

fun active_servers_loop :: "'d backend_env \<Rightarrow> server_row list \<Rightarrow> ('d, bj list) handler" where
  "active_servers_loop env [] = h_return []"
| "active_servers_loop env (srv # srvs) =
     h_bind (h_core internal_error (get_service_endpoint (bk_pg env) (sr_server_name srv) Mdp_Service)) (\<lambda>endpoint.
     h_bind (active_servers_loop env srvs) (\<lambda>arr.
     h_return (active_server_json srv endpoint # arr)))"

definition handle_active_servers :: "'d backend_env \<Rightarrow> ('d, bj_object) handler" where
  "handle_active_servers env =
     h_bind (h_core internal_error (get_active_servers (bk_pg env))) (\<lambda>srvs.
     h_bind (active_servers_loop env srvs) (\<lambda>arr.
     h_return [(''servers'', Bj_Array arr)]))"

definition handle_server_mdp_endpoint :: "'d backend_env \<Rightarrow> url_params \<Rightarrow> ('d, bj_object) handler" where
  "handle_server_mdp_endpoint env params =
     (case map_of params ''server_name'' of
        None \<Rightarrow> h_reject ''Missing server_name''
      | Some server_name \<Rightarrow>
          h_bind (h_core internal_error (get_service_endpoint (bk_pg env) server_name Mdp_Service)) (\<lambda>endpoint.
          case endpoint of
            None \<Rightarrow> h_reject ''MDP endpoint not found''
          | Some (ip, port) \<Rightarrow>
              h_return [(''server_name'', Bj_String server_name), (''mdp_ip'', Bj_String ip), (''mdp_port'', Bj_Int port)]))"

definition handle_active_symbols :: "'d backend_env \<Rightarrow> url_params \<Rightarrow> ('d, bj_object) handler" where
  "handle_active_symbols env params =
     (case map_of params ''server_name'' of
        None \<Rightarrow> h_reject ''Missing server_name''
      | Some server_name \<Rightarrow>
          h_bind (h_core internal_error (get_server_active_symbols (bk_pg env) server_name)) (\<lambda>symbols.
          h_return [(''symbols'', bj_names symbols)]))"

text \<open>
  Balances are shown as doubles: USD in hundredths of a cent is divided by ten thousand, everything else by
  a hundred.
\<close>

definition balance_multiplier :: int where
  "balance_multiplier = 100"

definition balance_divisor :: "string \<Rightarrow> int" where
  "balance_divisor symbol = (if symbol = ''USD'' then balance_multiplier * balance_multiplier else balance_multiplier)"

definition scaled_balance :: "string \<times> int \<Rightarrow> rat" where
  "scaled_balance b = dbl_div (dbl (of_int (snd b))) (of_int (balance_divisor (fst b)))"

definition balances_json :: "(string \<times> int) list \<Rightarrow> bj" where
  "balances_json bs =
     Bj_Array (map (\<lambda>b. Bj_Object [(''symbol'', Bj_String (fst b)), (''balance'', Bj_Double (scaled_balance b))]) bs)"

definition user_server_json :: "user_server_row \<Rightarrow> bj" where
  "user_server_json srv =
     Bj_Object [(''server_id'', Bj_Int (us_server_id srv)), (''server_name'', Bj_String (us_server_name srv)),
       (''role'', Bj_String (us_role srv)), (''description'', Bj_String (us_description srv)),
       (''initial_usd'', Bj_Int (us_initial_usd srv)), (''active_symbols'', bj_names (us_active_tickers srv)),
       (''balances'', balances_json (us_balances srv))]"

text \<open>An empty list is an answer for a user who exists, and an error for any other name.\<close>

definition handle_user_servers :: "'d backend_env \<Rightarrow> url_params \<Rightarrow> ('d, bj_object) handler" where
  "handle_user_servers env params =
     (case map_of params ''user_name'' of
        None \<Rightarrow> h_reject ''Missing user_name''
      | Some user_name \<Rightarrow>
          h_bind (h_core internal_error (get_user_servers (bk_pg env) user_name)) (\<lambda>rows.
          h_bind (if rows \<noteq> [] then h_return True
                  else h_bind (h_attempt (get_user (bk_pg env) user_name)) (\<lambda>r.
                       h_return (case r of Inr (Some _) \<Rightarrow> True | _ \<Rightarrow> False))) (\<lambda>known.
          h_return (if known then [(''servers'', Bj_Array (map user_server_json rows))]
                    else [(''error'', Bj_String ''User not found''), (''servers'', Bj_Array [])]))))"

section \<open>Trades\<close>

definition h_trades :: "'d backend_env \<Rightarrow> string \<Rightarrow> string \<Rightarrow> int \<Rightarrow> ('d, string + historical_trade_row list) handler" where
  "h_trades env server_name symbol after_ts_ms s =
     (case query_trades_after (bk_pg env) server_name symbol after_ts_ms (be_quest s) of
        Inl e \<Rightarrow> (Inl (Fails e), s)
      | Inr (r, q) \<Rightarrow> (Inr r, s\<lparr>be_quest := q\<rparr>))"

definition historical_trade_json :: "historical_trade_row \<Rightarrow> bj" where
  "historical_trade_json t =
     Bj_Object [(''trade_id'', Bj_String (ht_trade_id t)), (''ticker'', Bj_String (ht_symbol t)),
       (''price'', Bj_Double (dbl_div (of_int (ht_price t)) 100)), (''quantity'', Bj_Double (dbl_div (of_int (ht_quantity t)) 100)),
       (''create_timestamp'', Bj_Int (ht_ts_ms t))]"

definition handle_historical_trades :: "'d backend_env \<Rightarrow> url_params \<Rightarrow> ('d, bj_object) handler" where
  "handle_historical_trades env params =
     (case (map_of params ''server'', map_of params ''symbol'') of
        (Some server_name, Some symbol) \<Rightarrow>
          (case map_of params ''after_ts_ms'' of
             None \<Rightarrow> h_reject ''No after_ts_ms specified''
           | Some text \<Rightarrow>
               (case stoll text of
                  Inl _ \<Rightarrow> h_reject ''Invalid after_ts_ms''
                | Inr after_ts_ms \<Rightarrow>
                    h_bind (h_trades env server_name symbol after_ts_ms) (\<lambda>r.
                    case r of
                      Inl e \<Rightarrow> h_lift (Inl (Respond (internal_error e)))
                    | Inr rows \<Rightarrow> h_return [(''trades'', Bj_Array (map historical_trade_json rows))])))
      | _ \<Rightarrow> h_reject ''Missing server or symbol'')"

section \<open>Account details\<close>

text \<open>The total adds the scaled balances of all symbols, one double addition each.\<close>

definition total_value :: "(string \<times> int) list \<Rightarrow> rat" where
  "total_value bs = foldl (\<lambda>tv b. dbl_add tv (scaled_balance b)) 0 bs"

definition profit :: "rat \<Rightarrow> int \<Rightarrow> rat" where
  "profit tv initial_usd = dbl_sub tv (of_int initial_usd)"

definition profit_pct :: "rat \<Rightarrow> int \<Rightarrow> rat" where
  "profit_pct tv initial_usd =
     (if initial_usd \<noteq> 0 then dbl_mul (dbl_div (profit tv initial_usd) (of_int initial_usd)) 100 else 0)"

definition account_details_json :: "account_details_row \<Rightarrow> bj_object" where
  "account_details_json d =
     [(''server'', Bj_Object [(''server_id'', Bj_Int (ad_server_id d)), (''server_name'', Bj_String (ad_server_name d)),
         (''description'', Bj_String (ad_description d)), (''admin_name'', Bj_String (ad_admin_name d)),
         (''initial_usd'', Bj_Int (ad_initial_usd d)), (''active_symbols'', bj_names (ad_active_tickers d))]),
      (''role'', Bj_String (ad_role d)),
      (''balances'', balances_json (ad_balances d)),
      (''total_value'', Bj_Double (total_value (ad_balances d))),
      (''initial_usd'', Bj_Int (ad_initial_usd d))] @
     (case ad_initial_bot_portfolio_balance d of
        None \<Rightarrow> []
      | Some b \<Rightarrow> [(''initial_bot_portfolio_balance'', Bj_Double (dbl_div (dbl (of_int b)) (of_int (balance_multiplier * balance_multiplier))))]) @
     [(''pnl'', Bj_Double (profit (total_value (ad_balances d)) (ad_initial_usd d))),
      (''pnl_pct'', Bj_Double (profit_pct (total_value (ad_balances d)) (ad_initial_usd d)))]"

definition handle_account_details :: "'d backend_env \<Rightarrow> url_params \<Rightarrow> ('d, bj_object) handler" where
  "handle_account_details env params =
     (case (map_of params ''user_name'', map_of params ''server_name'') of
        (Some user_name, Some server_name) \<Rightarrow>
          h_bind (h_core internal_error (get_account_details (bk_pg env) user_name server_name)) (\<lambda>r.
          case r of
            None \<Rightarrow> h_reject ''User is not a member of this server''
          | Some d \<Rightarrow> h_return (account_details_json d))
      | _ \<Rightarrow> h_reject ''Missing user_name or server_name'')"

section \<open>Authorization\<close>

text \<open>The caller is whoever the header names: there is no password or token.\<close>

definition authenticate_admin :: "'d backend_env \<Rightarrow> http_request \<Rightarrow> ('d, int) handler" where
  "authenticate_admin env req =
     (case hr_authorization req of
        None \<Rightarrow> h_return (- 1)
      | Some header \<Rightarrow>
          if take 7 header \<noteq> ''Bearer '' then h_return (- 1)
          else h_bind (h_attempt (get_user (bk_pg env) (drop 7 header))) (\<lambda>r.
               h_return (case r of Inr (Some u) \<Rightarrow> ur_user_id u | _ \<Rightarrow> - 1)))"

text \<open>The common opening of the \<open>POST\<close> handlers: the caller, then the body as an object, then the name.\<close>

definition authorized_body :: "'d backend_env \<Rightarrow> http_request \<Rightarrow> ('d, int \<times> bj_object) handler" where
  "authorized_body env req =
     h_bind (authenticate_admin env req) (\<lambda>caller_id.
     if caller_id < 0 then h_lift (Inl (Respond (auth_error ''Unauthorized: valid Authorization header required'')))
     else case bk_parse env (hr_body req) of
            Inl _ \<Rightarrow> h_reject ''Invalid JSON body''
          | Inr (Bj_Object body) \<Rightarrow> h_return (caller_id, body)
          | Inr _ \<Rightarrow> h_reject ''Body must be a JSON object'')"

definition body_string :: "string \<Rightarrow> bj_object \<Rightarrow> string option" where
  "body_string key body = (case map_of body key of Some (Bj_String s) \<Rightarrow> Some s | _ \<Rightarrow> None)"

definition body_names :: "string \<Rightarrow> bj_object \<Rightarrow> string list option" where
  "body_names key body = (case map_of body key of Some (Bj_Array vs) \<Rightarrow> Some (bj_strings vs) | _ \<Rightarrow> None)"

section \<open>Reading changes nothing\<close>

text \<open>Every \<open>GET\<close> route but the one that signs a user up keeps every property of the tables.\<close>

context handler_invariant
begin

lemma keeps_queries:
  "keeps_op (authenticate_user pg user_name password)" "keeps_op (get_user pg user_name)"
  "keeps_op (get_active_servers pg)" "keeps_op (get_server pg server_name)"
  "keeps_op (get_server_active_symbols pg server_name)" "keeps_op (get_user_servers pg user_name)"
  "keeps_op (get_account_details pg user_name server_name)" "keeps_op (query_machines pg)"
  "keeps_op (query_services pg machine_name)" "keeps_op (get_service_endpoint pg server_name service)"
  unfolding authenticate_user_def get_user_def get_active_servers_def get_server_def get_server_active_symbols_def
    get_user_servers_def get_account_details_def query_machines_def query_services_def get_service_endpoint_def
  by (rule keeps_select)+

lemma holds_trades: "holds (h_trades env server_name symbol after)"
  by (rule holds_same_core) (auto simp: h_trades_def split: sum.split prod.split)

lemma holds_active_servers_loop: "holds (active_servers_loop env srvs)"
  by (induction srvs) (auto intro!: holds_bind holds_core keeps_queries)

lemma holds_authenticate: "holds (authenticate_admin env req)"
  by (auto simp: authenticate_admin_def intro!: holds_bind holds_attempt keeps_queries split: option.split)

lemma holds_authorized_body: "holds (authorized_body env req)"
  by (auto simp: authorized_body_def intro!: holds_bind holds_authenticate split: sum.split bj.split)

lemma holds_queries:
  "holds (handle_login env params)" "holds (handle_active_servers env)" "holds (handle_server_mdp_endpoint env params)"
  "holds (handle_active_symbols env params)" "holds (handle_user_servers env params)"
  "holds (handle_historical_trades env params)" "holds (handle_account_details env params)"
  by (auto simp: handle_login_def handle_active_servers_def handle_server_mdp_endpoint_def handle_active_symbols_def
      handle_user_servers_def handle_historical_trades_def handle_account_details_def
      intro!: holds_bind holds_core holds_attempt holds_trades holds_active_servers_loop keeps_queries
      split: option.split sum.split)

end

end
