(* ===== verification/BackendPlan.thy ===== *)
theory BackendPlan
  imports BackendQueries
begin

text \<open>
  The part of \<open>handle_create_server\<close> in \<open>request_handler.cpp\<close> that reads the body of the request: fields
  and defaults, the groups of simulated traders and the parameters of the oracle. It touches no state; the
  first thing wrong is the answer.
\<close>

section \<open>Numbers\<close>

definition int_max :: int where
  "int_max = 2147483647"

definition parse_int_value :: "bj \<Rightarrow> string \<Rightarrow> int \<Rightarrow> halt + int" where
  "parse_int_value v field_name default_value =
     (let in_range = (\<lambda>parsed. if parsed < 0 \<or> int_max < parsed
            then reject (field_name @ '' must be between 0 and '' @ show_int int_max) else Inr parsed) in
      case v of
        Bj_Null \<Rightarrow> Inr default_value
      | Bj_Int i \<Rightarrow> in_range i
      | Bj_Uint u \<Rightarrow> if int_max < u then reject (field_name @ '' must be <= '' @ show_int int_max) else in_range u
      | Bj_Double d \<Rightarrow>
          if of_int \<lfloor>d\<rfloor> \<noteq> d then reject (field_name @ '' must be an integer'')
          else cbind (of_cpp (i64 \<lfloor>d\<rfloor>)) in_range
      | _ \<Rightarrow> reject (field_name @ '' must be an integer''))"

definition parse_double_value :: "bj \<Rightarrow> string \<Rightarrow> rat \<Rightarrow> halt + rat" where
  "parse_double_value v field_name default_value =
     (let non_negative = (\<lambda>d. if d < 0 then reject (field_name @ '' must be non-negative'') else Inr d) in
      case v of
        Bj_Null \<Rightarrow> Inr default_value
      | Bj_Double d \<Rightarrow> non_negative d
      | Bj_Int i \<Rightarrow> non_negative (dbl (of_int i))
      | Bj_Uint u \<Rightarrow> Inr (dbl (of_int u))
      | _ \<Rightarrow> reject (field_name @ '' must be numeric''))"

definition parse_numeric_value :: "bj \<Rightarrow> string \<Rightarrow> rat \<Rightarrow> halt + rat" where
  "parse_numeric_value v field_name default_value =
     (case v of
        Bj_Null \<Rightarrow> Inr default_value
      | Bj_Double d \<Rightarrow> Inr d
      | Bj_Int i \<Rightarrow> Inr (dbl (of_int i))
      | Bj_Uint u \<Rightarrow> Inr (dbl (of_int u))
      | _ \<Rightarrow> reject (field_name @ '' must be numeric''))"

text \<open>A field that may be missing.\<close>

definition optional :: "string \<Rightarrow> bj_object \<Rightarrow> 'a \<Rightarrow> (bj \<Rightarrow> halt + 'a) \<Rightarrow> halt + 'a" where
  "optional key obj default_value parse = (case map_of obj key of None \<Rightarrow> Inr default_value | Some v \<Rightarrow> parse v)"

section \<open>Groups of traders\<close>

record bot_group =
  bg_group_tag :: string
  bg_count :: int
  bg_initial_usd :: int
  bg_initial_inventory :: rat
  bg_inventory_by_symbol :: "(string \<times> rat) list"
  bg_deploy_params :: bj_object
  bg_user_ids :: "int list"
  bg_usernames :: "string list"

record bot_create_config =
  bc_service_name :: string
  bc_groups :: "bot_group list"

text \<open>The arguments of \<open>parse_bot_config\<close> that differ between the three kinds of trader.\<close>

record bot_spec =
  bs_bot_key :: string
  bs_username_prefix :: string
  bs_service_name :: string
  bs_count_key :: string
  bs_default_count :: int
  bs_initial_usd :: int
  bs_initial_inventory :: rat
  bs_param_defaults :: "(string \<times> rat) list"

definition group_tag :: "int \<Rightarrow> string" where
  "group_tag group_index = ''grp'' @ show_int (group_index + 1)"

definition group_field :: "bot_spec \<Rightarrow> int \<Rightarrow> string \<Rightarrow> string" where
  "group_field b group_index field_name = bs_bot_key b @ ''.groups['' @ show_int group_index @ ''].'' @ field_name"

definition default_deploy_params :: "bot_spec \<Rightarrow> string \<Rightarrow> int \<Rightarrow> bj_object" where
  "default_deploy_params b tag n =
     bj_set_all ([(bs_count_key b, Bj_Int n), (''cfg_prefix'', Bj_String (bs_username_prefix b @ ''_'' @ tag)),
         (''initial_inventory'', Bj_Double (bs_initial_inventory b))] @
       map (\<lambda>(key, d). (key, Bj_Double d)) (bs_param_defaults b)) []"

definition empty_group :: "bot_spec \<Rightarrow> bot_group" where
  "empty_group b =
     \<lparr>bg_group_tag = ''grp1'', bg_count = 0, bg_initial_usd = bs_initial_usd b,
      bg_initial_inventory = bs_initial_inventory b, bg_inventory_by_symbol = [],
      bg_deploy_params = default_deploy_params b ''grp1'' 0, bg_user_ids = [], bg_usernames = []\<rparr>"

text \<open>Every symbol but USD starts with the inventory of the group; an object of the request overrides it.\<close>

definition stock_symbols :: "string list \<Rightarrow> string list" where
  "stock_symbols symbols = filter (\<lambda>symbol. symbol \<noteq> ''USD'') symbols"

definition base_inventory :: "string list \<Rightarrow> rat \<Rightarrow> (string \<times> rat) list" where
  "base_inventory symbols inventory = map (\<lambda>symbol. (symbol, inventory)) (remdups (stock_symbols symbols))"

definition parse_inventory ::
  "string list \<Rightarrow> bot_spec \<Rightarrow> int \<Rightarrow> rat \<Rightarrow> bj_object \<Rightarrow> halt + (string \<times> rat) list" where
  "parse_inventory symbols b group_index inventory obj =
     optional ''inventory_by_symbol'' obj (base_inventory symbols inventory) (\<lambda>v.
       case v of
         Bj_Object kvs \<Rightarrow>
           cfold (\<lambda>(key, val) m.
             if key \<notin> set symbols
             then reject (group_field b group_index ''inventory_by_symbol has unknown symbol: '' @ key)
             else cbind (parse_double_value val (group_field b group_index ''inventory_by_symbol.'' @ key) inventory)
                    (\<lambda>d. Inr (AList.update key d m))) kvs (base_inventory symbols inventory)
       | _ \<Rightarrow> reject (group_field b group_index ''inventory_by_symbol must be an object''))"

definition parse_params :: "bot_spec \<Rightarrow> int \<Rightarrow> bj_object \<Rightarrow> bj_object \<Rightarrow> halt + bj_object" where
  "parse_params b group_index obj params =
     optional ''params'' obj params (\<lambda>v.
       case v of
         Bj_Object params_obj \<Rightarrow>
           cfold (\<lambda>(key, default_value) ps.
             cbind (optional key params_obj default_value
                     (\<lambda>x. parse_double_value x (group_field b group_index ''params.'' @ key) default_value))
               (\<lambda>d. Inr (AList.update key (Bj_Double d) ps))) (bs_param_defaults b) params
       | _ \<Rightarrow> reject (group_field b group_index ''params must be an object''))"

definition parse_bot_group :: "string list \<Rightarrow> bot_spec \<Rightarrow> bj_object \<Rightarrow> int \<Rightarrow> halt + bot_group" where
  "parse_bot_group symbols b obj group_index =
     cbind (optional ''count'' obj (bs_default_count b)
       (\<lambda>v. parse_int_value v (group_field b group_index ''count'') (bs_default_count b))) (\<lambda>n.
     cbind (optional ''initial_usd'' obj (bs_initial_usd b)
       (\<lambda>v. parse_int_value v (group_field b group_index ''initial_usd'') (bs_initial_usd b))) (\<lambda>usd.
     cbind (optional ''initial_inventory'' obj (bs_initial_inventory b)
       (\<lambda>v. parse_double_value v (group_field b group_index ''initial_inventory'') (bs_initial_inventory b))) (\<lambda>inventory.
     cbind (parse_inventory symbols b group_index inventory obj) (\<lambda>by_symbol.
     let first_inventory =
           (case stock_symbols symbols of
              [] \<Rightarrow> inventory
            | symbol # _ \<Rightarrow> (case map_of by_symbol symbol of Some d \<Rightarrow> d | None \<Rightarrow> 0));
         params = bj_set_all [(bs_count_key b, Bj_Int n), (''initial_inventory'', Bj_Double first_inventory)]
                    (default_deploy_params b (group_tag group_index) (bs_default_count b)) in
     cbind (parse_params b group_index obj params) (\<lambda>deploy_params.
     Inr \<lparr>bg_group_tag = group_tag group_index, bg_count = n, bg_initial_usd = usd,
          bg_initial_inventory = first_inventory, bg_inventory_by_symbol = by_symbol,
          bg_deploy_params = deploy_params, bg_user_ids = [], bg_usernames = []\<rparr>)))))"

fun parse_groups :: "string list \<Rightarrow> bot_spec \<Rightarrow> bj list \<Rightarrow> int \<Rightarrow> halt + bot_group list" where
  "parse_groups symbols b [] idx = Inr []"
| "parse_groups symbols b (v # vs) idx =
     (case v of
        Bj_Object obj \<Rightarrow>
          cbind (parse_bot_group symbols b obj idx) (\<lambda>g.
          cbind (parse_groups symbols b vs (idx + 1)) (\<lambda>gs. Inr (g # gs)))
      | _ \<Rightarrow> reject (bs_bot_key b @ ''.groups['' @ show_int idx @ ''] must be an object''))"

definition parse_bot_config :: "string list \<Rightarrow> bj_object option \<Rightarrow> bot_spec \<Rightarrow> halt + bot_create_config" where
  "parse_bot_config symbols bots_obj b =
     (let config = (\<lambda>gs. \<lparr>bc_service_name = bs_service_name b, bc_groups = gs\<rparr>) in
      case Option.bind bots_obj (\<lambda>bots. map_of bots (bs_bot_key b)) of
        Some (Bj_Object type_obj) \<Rightarrow>
          (case map_of type_obj ''groups'' of
             Some (Bj_Array vs) \<Rightarrow>
               cbind (parse_groups symbols b vs 0) (\<lambda>gs. Inr (config (if gs = [] then [empty_group b] else gs)))
           | _ \<Rightarrow> cbind (parse_bot_group symbols b type_obj 0) (\<lambda>g. Inr (config [g])))
      | _ \<Rightarrow> Inr (config [empty_group b]))"

definition mm_spec :: "int \<Rightarrow> bot_spec" where
  "mm_spec initial_usd =
     \<lparr>bs_bot_key = ''mm'', bs_username_prefix = ''market_maker'', bs_service_name = ''mm'',
      bs_count_key = ''num_market_makers'', bs_default_count = 4, bs_initial_usd = initial_usd, bs_initial_inventory = 300,
      bs_param_defaults = [(''lot_size'', 1), (''gamma'', dbl (6 / 10)), (''k'', 8), (''terminal_time'', 30)]\<rparr>"

definition nt_spec :: "int \<Rightarrow> bot_spec" where
  "nt_spec initial_usd =
     \<lparr>bs_bot_key = ''nt'', bs_username_prefix = ''noise_trader'', bs_service_name = ''nt'',
      bs_count_key = ''num_noise_traders'', bs_default_count = 0, bs_initial_usd = initial_usd, bs_initial_inventory = 20,
      bs_param_defaults = [(''lambda_eps'', dbl (6 / 10)), (''bernoulli'', 1 / 2), (''pareto_scale'', 1 / 2), (''pareto_shape'', 4)]\<rparr>"

definition it_spec :: bot_spec where
  "it_spec =
     \<lparr>bs_bot_key = ''it'', bs_username_prefix = ''informed_trader'', bs_service_name = ''it'',
      bs_count_key = ''num_informed_traders'', bs_default_count = 0, bs_initial_usd = 1500000, bs_initial_inventory = 150,
      bs_param_defaults = [(''epsilon'', dbl (12 / 100)), (''trade_qty'', 5), (''max_inventory'', 1200)]\<rparr>"

section \<open>Oracle\<close>

record oracle_deploy_config =
  oc_mu :: rat
  oc_sigma :: rat
  oc_jump_intensity :: rat
  oc_jump_mean :: rat
  oc_jump_std :: rat
  oc_update_interval_ms :: int

definition default_oracle_deploy_config :: oracle_deploy_config where
  "default_oracle_deploy_config =
     \<lparr>oc_mu = 0, oc_sigma = dbl (3 / 1000), oc_jump_intensity = dbl (6 / 100), oc_jump_mean = 0, oc_jump_std = dbl (1 / 100),
      oc_update_interval_ms = 60000\<rparr>"

definition parse_oracle :: "bj_object \<Rightarrow> halt + oracle_deploy_config" where
  "parse_oracle body =
     (let d = default_oracle_deploy_config in
      case map_of body ''oracle'' of
        None \<Rightarrow> Inr d
      | Some (Bj_Object obj) \<Rightarrow>
          cbind (optional ''mu'' obj (oc_mu d) (\<lambda>v. parse_numeric_value v ''oracle.mu'' (oc_mu d))) (\<lambda>mu.
          cbind (optional ''sigma'' obj (oc_sigma d) (\<lambda>v. parse_double_value v ''oracle.sigma'' (oc_sigma d))) (\<lambda>sigma.
          cbind (optional ''jump_intensity'' obj (oc_jump_intensity d)
            (\<lambda>v. parse_double_value v ''oracle.jump_intensity'' (oc_jump_intensity d))) (\<lambda>jump_intensity.
          cbind (optional ''jump_mean'' obj (oc_jump_mean d)
            (\<lambda>v. parse_numeric_value v ''oracle.jump_mean'' (oc_jump_mean d))) (\<lambda>jump_mean.
          cbind (optional ''jump_std'' obj (oc_jump_std d)
            (\<lambda>v. parse_double_value v ''oracle.jump_std'' (oc_jump_std d))) (\<lambda>jump_std.
          cbind (optional ''update_interval_ms'' obj (oc_update_interval_ms d) (\<lambda>v.
            cbind (parse_int_value v ''oracle.update_interval_ms'' (oc_update_interval_ms d)) (\<lambda>n.
            if n \<le> 0 then reject ''oracle.update_interval_ms must be positive'' else Inr n))) (\<lambda>update_interval_ms.
          Inr \<lparr>oc_mu = mu, oc_sigma = sigma, oc_jump_intensity = jump_intensity, oc_jump_mean = jump_mean,
               oc_jump_std = jump_std, oc_update_interval_ms = update_interval_ms\<rparr>))))))
      | Some _ \<Rightarrow> reject ''oracle must be an object'')"

section \<open>The request\<close>

record create_plan =
  cp_server_name :: string
  cp_description :: string
  cp_initial_usd :: int
  cp_symbols :: "string list"
  cp_allowlist_names :: "string list"
  cp_bot_configs :: "bot_create_config list"
  cp_oracle :: oracle_deploy_config

definition parse_initial_usd :: "bj_object \<Rightarrow> halt + int" where
  "parse_initial_usd body =
     optional ''initial_usd'' body 100000 (\<lambda>v.
       case v of
         Bj_Int raw \<Rightarrow>
           if raw < 0 \<or> int_max < raw then reject ''initial_usd must be between 0 and 2147483647'' else Inr raw
       | _ \<Rightarrow> reject ''initial_usd must be an integer'')"

definition parse_bots :: "string list \<Rightarrow> int \<Rightarrow> bj_object \<Rightarrow> halt + bot_create_config list" where
  "parse_bots symbols initial_usd body =
     cbind (optional ''bots'' body None (\<lambda>v.
       case v of Bj_Object bots \<Rightarrow> Inr (Some bots) | _ \<Rightarrow> reject ''bots must be an object'')) (\<lambda>bots_obj.
     cbind (parse_bot_config symbols bots_obj (mm_spec initial_usd)) (\<lambda>mm.
     cbind (parse_bot_config symbols bots_obj (nt_spec initial_usd)) (\<lambda>nt.
     cbind (parse_bot_config symbols bots_obj it_spec) (\<lambda>it.
     Inr [mm, nt, it]))))"

definition parse_create_request :: "bj_object \<Rightarrow> halt + create_plan" where
  "parse_create_request body =
     (case body_string ''server_name'' body of
        None \<Rightarrow> reject ''Missing or invalid server_name''
      | Some server_name \<Rightarrow>
          if \<not> is_server_name_valid server_name
          then reject ''server_name must be 1-11 characters using only A-Z, a-z, and 0-9''
          else
            let description = (case body_string ''description'' body of Some d \<Rightarrow> d | None \<Rightarrow> []);
                symbols = (case body_names ''active_symbols'' body of Some ss \<Rightarrow> ss | None \<Rightarrow> []);
                allowlist_names = (case body_names ''allowlist'' body of Some ns \<Rightarrow> ns | None \<Rightarrow> []) in
            cbind (parse_initial_usd body) (\<lambda>initial_usd.
            if symbols = [] then reject ''active_symbols must contain at least one symbol''
            else if allowlist_names = [] then reject ''allowlist must contain at least one user''
            else
              cbind (parse_bots symbols initial_usd body) (\<lambda>bot_configs.
              cbind (parse_oracle body) (\<lambda>oracle_cfg.
              Inr \<lparr>cp_server_name = server_name, cp_description = description, cp_initial_usd = initial_usd,
                   cp_symbols = symbols, cp_allowlist_names = allowlist_names, cp_bot_configs = bot_configs,
                   cp_oracle = oracle_cfg\<rparr>))))"

section \<open>What a plan holds\<close>

lemma parse_int_value_range:
  assumes "parse_int_value v field_name d = Inr n" "0 \<le> d" "d \<le> int_max"
  shows "0 \<le> n \<and> n \<le> int_max"
  using assms
  by (auto simp: parse_int_value_def Let_def handler_simps int_max_def reject_def i64_eq_Inr split: bj.splits if_splits)

lemma parse_double_value_nonneg:
  assumes "parse_double_value v field_name d = Inr x" "0 \<le> d"
  shows "0 \<le> x \<or> (\<exists>u. v = Bj_Uint u)"
  using assms by (auto simp: parse_double_value_def Let_def reject_def split: bj.splits if_splits)

lemma plan_fields:
  assumes "parse_create_request body = Inr p"
  shows "is_server_name_valid (cp_server_name p)" "body_string ''server_name'' body = Some (cp_server_name p)"
    "0 \<le> cp_initial_usd p" "cp_initial_usd p \<le> int_max" "cp_symbols p \<noteq> []" "cp_allowlist_names p \<noteq> []"
    "body_names ''active_symbols'' body = Some (cp_symbols p)" "body_names ''allowlist'' body = Some (cp_allowlist_names p)"
proof -
  have usd: "0 \<le> n \<and> n \<le> int_max" if "parse_initial_usd body = Inr n" for n
    using that by (auto simp: parse_initial_usd_def optional_def reject_def int_max_def split: option.splits bj.splits if_splits)
  show "is_server_name_valid (cp_server_name p)" "body_string ''server_name'' body = Some (cp_server_name p)"
    "0 \<le> cp_initial_usd p" "cp_initial_usd p \<le> int_max" "cp_symbols p \<noteq> []" "cp_allowlist_names p \<noteq> []"
    "body_names ''active_symbols'' body = Some (cp_symbols p)" "body_names ''allowlist'' body = Some (cp_allowlist_names p)"
    using assms usd
    by (auto simp: parse_create_request_def Let_def handler_simps split: option.splits if_splits)
qed

end
