(* ===== verification/BackendCreate.thy ===== *)
theory BackendCreate
  imports BackendPlan
begin

text \<open>
  The part of \<open>handle_create_server\<close> in \<open>request_handler.cpp\<close> that acts: users for the simulated traders,
  the ids of the members, ports, the rows of the new server, the balances of its members, and the calls
  of the deployment server. Every step that fails ends the request with its error and leaves what the
  steps before it did.
\<close>

section \<open>Users of the traders\<close>

definition kBotPassword :: string where
  "kBotPassword = ''eduxpassword''"

text \<open>Names are numbered through all groups of a kind, from 1 on.\<close>

fun make_bots :: "'d backend_env \<Rightarrow> string \<Rightarrow> nat \<Rightarrow> int \<Rightarrow> ('d, (string \<times> int) list \<times> int) handler" where
  "make_bots env service_name 0 running_index = h_return ([], running_index)"
| "make_bots env service_name (Suc n) running_index =
     (let username = service_name @ show_int running_index in
      h_bind (h_lift (of_cpp (i32 (running_index + 1)))) (\<lambda>next_index.
      h_bind (h_core error_text (get_user (bk_pg env) username)) (\<lambda>u.
      h_bind (case u of
                Some r \<Rightarrow> h_return (ur_user_id r)
              | None \<Rightarrow> h_bind (h_core error_text (create_user (bk_pg env) username kBotPassword)) (\<lambda>r. h_return (ur_user_id r))) (\<lambda>uid.
      h_bind (make_bots env service_name n next_index) (\<lambda>(bots, k).
      h_return ((username, uid) # bots, k))))))"

fun make_group_bots :: "'d backend_env \<Rightarrow> string \<Rightarrow> bot_group list \<Rightarrow> int \<Rightarrow> ('d, bot_group list) handler" where
  "make_group_bots env service_name [] running_index = h_return []"
| "make_group_bots env service_name (g # gs) running_index =
     h_bind (make_bots env service_name (nat (bg_count g)) running_index) (\<lambda>(bots, k).
     h_bind (make_group_bots env service_name gs k) (\<lambda>gs'.
     h_return (g\<lparr>bg_usernames := bg_usernames g @ map fst bots, bg_user_ids := bg_user_ids g @ map snd bots\<rparr> # gs')))"

fun make_all_bots :: "'d backend_env \<Rightarrow> bot_create_config list \<Rightarrow> ('d, bot_create_config list) handler" where
  "make_all_bots env [] = h_return []"
| "make_all_bots env (c # cs) =
     h_bind (make_group_bots env (bc_service_name c) (bc_groups c) 1) (\<lambda>gs.
     h_bind (make_all_bots env cs) (\<lambda>cs'.
     h_return (c\<lparr>bc_groups := gs\<rparr> # cs')))"

definition all_groups :: "bot_create_config list \<Rightarrow> bot_group list" where
  "all_groups cs = concat (map bc_groups cs)"

definition add_names :: "string list \<Rightarrow> string list \<Rightarrow> string list" where
  "add_names names new = foldl (\<lambda>ns u. if u \<in> set ns then ns else ns @ [u]) names new"

definition all_allowlist_names :: "create_plan \<Rightarrow> bot_create_config list \<Rightarrow> string list" where
  "all_allowlist_names p bots = add_names (cp_allowlist_names p) (concat (map bg_usernames (all_groups bots)))"

section \<open>Ports\<close>

definition kMinUnreservedPort :: int where
  "kMinUnreservedPort = 10001"

text \<open>
  The loop of \<open>take_next_available_port\<close> ends because there are only finitely many ports in use. In a
  database that respects its schema they are at most 65535, so the candidate stays far from the limit of
  \<open>int\<close>.
\<close>

function next_port :: "int list \<Rightarrow> int \<Rightarrow> int" where
  "next_port used_ports candidate = (if candidate \<in> set used_ports then next_port used_ports (candidate + 1) else candidate)"
  by pat_completeness auto
termination
proof (relation "measure (\<lambda>(used, c). card {p \<in> set used. c \<le> p})")
  fix used :: "int list" and c
  assume "c \<in> set used"
  then have "{p \<in> set used. c + 1 \<le> p} \<subset> {p \<in> set used. c \<le> p}" by force
  then show "((used, c + 1), (used, c)) \<in> measure (\<lambda>(used, c). card {p \<in> set used. c \<le> p})"
    by (auto intro!: psubset_card_mono)
qed simp

declare next_port.simps [simp del]

definition take_next_available_port :: "int list \<times> int \<Rightarrow> int \<times> (int list \<times> int)" where
  "take_next_available_port s =
     (let assigned_port = next_port (fst s) (snd s) in (assigned_port, (assigned_port # fst s, assigned_port + 1)))"

record service_ports =
  pp_mdp :: int
  pp_me :: int
  pp_oms :: int
  pp_gateway :: int
  pp_oracle :: int

definition take_ports :: "int list \<Rightarrow> service_ports" where
  "take_ports used_ports =
     (let (mdp_port, s1) = take_next_available_port (used_ports, kMinUnreservedPort);
          (me_port, s2) = take_next_available_port s1;
          (oms_port, s3) = take_next_available_port s2;
          (gateway_port, s4) = take_next_available_port s3;
          (oracle_port, s5) = take_next_available_port s4
      in \<lparr>pp_mdp = mdp_port, pp_me = me_port, pp_oms = oms_port, pp_gateway = gateway_port, pp_oracle = oracle_port\<rparr>)"

definition service_insert_rows :: "int \<Rightarrow> service_ports \<Rightarrow> service_insert_row list" where
  "service_insert_rows machine_id ports =
     [\<lparr>si_machine_id = machine_id, si_service_type = Mdp_Service, si_port = pp_mdp ports\<rparr>,
      \<lparr>si_machine_id = machine_id, si_service_type = Me_Service, si_port = pp_me ports\<rparr>,
      \<lparr>si_machine_id = machine_id, si_service_type = Oms_Service, si_port = pp_oms ports\<rparr>,
      \<lparr>si_machine_id = machine_id, si_service_type = Gateway_Service, si_port = pp_gateway ports\<rparr>,
      \<lparr>si_machine_id = machine_id, si_service_type = Oracle_Service, si_port = pp_oracle ports\<rparr>]"

section \<open>Balances\<close>

definition initial_usd_by_user_id :: "int list \<Rightarrow> int \<Rightarrow> int \<Rightarrow> bot_group list \<Rightarrow> (int \<times> int) list" where
  "initial_usd_by_user_id ids caller_id initial_usd groups =
     fold (\<lambda>(uid, usd). AList.update uid usd)
       (map (\<lambda>uid. (uid, initial_usd)) (ids @ [caller_id]) @
        concat (map (\<lambda>g. map (\<lambda>uid. (uid, bg_initial_usd g)) (bg_user_ids g)) groups)) []"

definition give_usd :: "'d backend_env \<Rightarrow> int \<Rightarrow> (int \<times> int) list \<Rightarrow> ('d, unit) handler" where
  "give_usd env server_id usd_map =
     h_each (\<lambda>uid. h_core error_text (insert_balance (bk_pg env) uid server_id ''USD''
               ((case map_of usd_map uid of Some usd \<Rightarrow> usd | None \<Rightarrow> 0) * (balance_multiplier * balance_multiplier))))
       (bk_order_ids env (map fst usd_map))"

definition bot_user_ids :: "bot_group list \<Rightarrow> int list" where
  "bot_user_ids groups = concat (map bg_user_ids groups)"

definition non_bot_user_ids :: "int list \<Rightarrow> int \<Rightarrow> bot_group list \<Rightarrow> int list" where
  "non_bot_user_ids ids caller_id groups =
     filter (\<lambda>uid. uid \<notin> set (bot_user_ids groups)) (remdups (ids @ [caller_id]))"

definition give_nothing :: "'d backend_env \<Rightarrow> int \<Rightarrow> string list \<Rightarrow> int list \<Rightarrow> ('d, unit) handler" where
  "give_nothing env server_id symbols uids =
     h_each (\<lambda>uid. h_each (\<lambda>symbol. h_core error_text (insert_balance (bk_pg env) uid server_id symbol 0))
               (bk_order_symbols env (remdups (stock_symbols symbols))))
       (bk_order_ids env uids)"

definition llround :: "rat \<Rightarrow> int result" where
  "llround x = i64 \<lfloor>std_round x\<rfloor>"

definition inventory_of :: "bot_group \<Rightarrow> string \<Rightarrow> rat" where
  "inventory_of g symbol =
     (case map_of (bg_inventory_by_symbol g) symbol of Some d \<Rightarrow> d | None \<Rightarrow> bg_initial_inventory g)"

fun give_stock :: "'d backend_env \<Rightarrow> int \<Rightarrow> bot_group \<Rightarrow> int \<Rightarrow> string list \<Rightarrow> int \<Rightarrow> ('d, int) handler" where
  "give_stock env server_id g uid [] portfolio = h_return portfolio"
| "give_stock env server_id g uid (symbol # symbols) portfolio =
     (if symbol = ''USD'' then give_stock env server_id g uid symbols portfolio
      else
        h_bind (h_lift (of_cpp (llround (dbl_mul (inventory_of g symbol) (of_int balance_multiplier))))) (\<lambda>inventory_scaled.
        h_bind (h_core error_text (insert_balance (bk_pg env) uid server_id symbol inventory_scaled)) (\<lambda>_.
        h_bind (h_lift (of_cpp (rbind (i64 (inventory_scaled * kDefaultInitialTickerPriceUsd)) (\<lambda>x.
                                rbind (i64 (x * balance_multiplier)) (\<lambda>y. i64 (portfolio + y)))))) (\<lambda>portfolio'.
        give_stock env server_id g uid symbols portfolio'))))"

definition give_bot :: "'d backend_env \<Rightarrow> int \<Rightarrow> string list \<Rightarrow> bot_group \<Rightarrow> int \<Rightarrow> ('d, unit) handler" where
  "give_bot env server_id symbols g uid =
     h_bind (give_stock env server_id g uid symbols (bg_initial_usd g * (balance_multiplier * balance_multiplier))) (\<lambda>portfolio.
     h_core error_text (upsert_init_bot_portfolio_balance (bk_pg env) uid server_id portfolio))"

definition give_bots :: "'d backend_env \<Rightarrow> int \<Rightarrow> string list \<Rightarrow> bot_group list \<Rightarrow> ('d, unit) handler" where
  "give_bots env server_id symbols groups =
     h_each (\<lambda>g. h_each (give_bot env server_id symbols g) (bg_user_ids g)) groups"

definition give_balances ::
  "'d backend_env \<Rightarrow> int \<Rightarrow> int list \<Rightarrow> int \<Rightarrow> create_plan \<Rightarrow> bot_group list \<Rightarrow> ('d, unit) handler" where
  "give_balances env server_id ids caller_id p groups =
     h_bind (give_usd env server_id (initial_usd_by_user_id ids caller_id (cp_initial_usd p) groups)) (\<lambda>_.
     h_bind (give_nothing env server_id (cp_symbols p) (non_bot_user_ids ids caller_id groups)) (\<lambda>_.
     give_bots env server_id (cp_symbols p) groups))"

section \<open>Deployment\<close>

definition deployment_port :: int where
  "deployment_port = 10000"

definition join_csv :: "string list \<Rightarrow> string" where
  "join_csv = join_commas"

text \<open>
  One exchange with the deployment server: what it throws, a status other than 200, a body that is not an
  object, and one whose \<open>status\<close> is not the expected word are the four ways to fail.
\<close>

definition deployment_call ::
  "'d backend_env \<Rightarrow> string \<Rightarrow> string \<Rightarrow> bj_object \<Rightarrow> string \<Rightarrow> string \<Rightarrow> string \<Rightarrow> ('d, unit) handler" where
  "deployment_call env ip target payload subject failure expected s =
     (let address = ip @ '':'' @ show_int deployment_port;
          thrown = (\<lambda>what. reject (''Error calling deployment_server '' @ address @ '' for '' @ subject @ '': '' @ what)) in
      case bk_post env ip deployment_port target (bk_serialize env (Bj_Object payload)) (be_net s) of
        (r, d) \<Rightarrow>
          (case r of
             Inl what \<Rightarrow> thrown what
           | Inr (status, body) \<Rightarrow>
               if status \<noteq> 200
               then reject (''deployment_server '' @ address @ '' returned status '' @ show_int (int status) @ '' for '' @ subject @ '': '' @ body)
               else (case bk_parse env body of
                       Inl what \<Rightarrow> thrown what
                     | Inr (Bj_Object obj) \<Rightarrow>
                         if body_string ''status'' obj = Some expected then Inr () else reject (failure @ '': '' @ body)
                     | Inr _ \<Rightarrow> reject (''Invalid response body from deployment_server for '' @ subject @ '': '' @ body)),
           s\<lparr>be_net := d\<rparr>))"

definition deploy_service ::
  "'d backend_env \<Rightarrow> string \<Rightarrow> string \<Rightarrow> string \<Rightarrow> bj_object \<Rightarrow> ('d, unit) handler" where
  "deploy_service env machine_ip server_name service_name params =
     deployment_call env machine_ip ''/deploy''
       [(''service_name'', Bj_String service_name), (''server_name'', Bj_String server_name), (''params'', Bj_Object params)]
       service_name (''Deployment failed for '' @ service_name) ''deployed''"

definition oracle_params :: "create_plan \<Rightarrow> service_ports \<Rightarrow> bj_object" where
  "oracle_params p ports =
     [(''active_symbols'', Bj_String (join_csv (cp_symbols p))), (''oracle_ws_port'', Bj_Int (pp_oracle ports)),
      (''mu'', Bj_Double (oc_mu (cp_oracle p))), (''sigma'', Bj_Double (oc_sigma (cp_oracle p))),
      (''jump_intensity'', Bj_Double (oc_jump_intensity (cp_oracle p))), (''jump_mean'', Bj_Double (oc_jump_mean (cp_oracle p))),
      (''jump_std'', Bj_Double (oc_jump_std (cp_oracle p))),
      (''update_interval_ms'', Bj_Int (oc_update_interval_ms (cp_oracle p)))]"

definition bot_params :: "create_plan \<Rightarrow> string \<Rightarrow> service_ports \<Rightarrow> string \<Rightarrow> bot_group \<Rightarrow> bj_object" where
  "bot_params p machine_ip ports service_name g =
     bj_set_all
       ([(''gateway_host'', Bj_String machine_ip), (''gateway_port'', Bj_Int (pp_gateway ports)),
         (''active_symbols'', Bj_String (join_csv (cp_symbols p))), (''group_tag'', Bj_String (bg_group_tag g))] @
        (if service_name \<in> {''mm'', ''nt'', ''it''}
         then [(''mdp_ws_host'', Bj_String machine_ip), (''mdp_ws_port'', Bj_Int (pp_mdp ports))] else []) @
        (if service_name = ''it''
         then [(''oracle_ws_host'', Bj_String machine_ip), (''oracle_ws_port'', Bj_Int (pp_oracle ports))] else []) @
        [(''sender_comp_ids'', bj_names (bg_usernames g))])
       (bg_deploy_params g)"

definition deploy_bots ::
  "'d backend_env \<Rightarrow> create_plan \<Rightarrow> string \<Rightarrow> service_ports \<Rightarrow> bot_create_config list \<Rightarrow> ('d, unit) handler" where
  "deploy_bots env p machine_ip ports bots =
     h_each (\<lambda>c. h_each (\<lambda>g.
       if bg_count g \<le> 0 then h_return ()
       else deploy_service env machine_ip (cp_server_name p) (bc_service_name c)
              (bot_params p machine_ip ports (bc_service_name c) g)) (bc_groups c)) bots"

definition deploy_services ::
  "'d backend_env \<Rightarrow> create_plan \<Rightarrow> string \<Rightarrow> service_ports \<Rightarrow> string list \<Rightarrow> bot_create_config list \<Rightarrow> ('d, unit) handler" where
  "deploy_services env p machine_ip ports names bots =
     (let deploy = deploy_service env machine_ip (cp_server_name p);
          active_symbols = (''active_symbols'', Bj_String (join_csv (cp_symbols p))) in
      h_bind (deploy ''mdp'' [(''host'', Bj_String machine_ip), (''ws_port'', Bj_Int (pp_mdp ports)), active_symbols]) (\<lambda>_.
      h_bind (deploy ''me'' [(''matching_engine_host'', Bj_String machine_ip), (''matching_engine_port'', Bj_Int (pp_me ports)),
        active_symbols]) (\<lambda>_.
      h_bind (deploy ''oms'' [(''order_manager_host'', Bj_String machine_ip), (''order_manager_port'', Bj_Int (pp_oms ports)),
        active_symbols, (''downstream_matching_engine_host'', Bj_String machine_ip),
        (''downstream_matching_engine_port'', Bj_Int (pp_me ports))]) (\<lambda>_.
      h_bind (deploy ''gateway'' [(''downstream_order_manager_host'', Bj_String machine_ip),
        (''downstream_order_manager_port'', Bj_Int (pp_oms ports)), (''fix_server_port'', Bj_Int (pp_gateway ports)),
        (''whitelist'', Bj_String (join_csv names))]) (\<lambda>_.
      h_bind (deploy ''oracle'' (oracle_params p ports)) (\<lambda>_.
      deploy_bots env p machine_ip ports bots))))))"

section \<open>The handler\<close>

definition create_reply :: "create_plan \<Rightarrow> int \<Rightarrow> int \<Rightarrow> string list \<Rightarrow> bj_object" where
  "create_reply p server_id caller_id names =
     [(''success'', Bj_Bool True), (''server_id'', Bj_Int server_id), (''server_name'', Bj_String (cp_server_name p)),
      (''admin_id'', Bj_Int caller_id), (''description'', Bj_String (cp_description p)),
      (''initial_usd'', Bj_Int (cp_initial_usd p)), (''active_symbols'', bj_names (cp_symbols p)), (''allowlist'', bj_names names)]"

definition warn_on :: "string + unit \<Rightarrow> bj_object \<Rightarrow> bj_object" where
  "warn_on r res = (case r of Inl e \<Rightarrow> (''warning'', Bj_String e) # res | Inr _ \<Rightarrow> res)"

definition create_rows ::
  "'d backend_env \<Rightarrow> create_plan \<Rightarrow> int \<Rightarrow> int list \<Rightarrow> pg_machine \<Rightarrow> service_ports \<Rightarrow> bot_create_config list \<Rightarrow> ('d, int) handler" where
  "create_rows env p caller_id ids machine ports bots =
     h_bind (h_core error_text (create_server_with_services (bk_pg env) (cp_server_name p) caller_id (cp_description p)
       (cp_symbols p) ids (service_insert_rows (pm_machine_id machine) ports) (cp_initial_usd p))) (\<lambda>server_id.
     h_bind (give_balances env server_id ids caller_id p (all_groups bots)) (\<lambda>_.
     h_return server_id))"

definition install_server ::
  "'d backend_env \<Rightarrow> int \<Rightarrow> create_plan \<Rightarrow> bot_create_config list \<Rightarrow> string list \<Rightarrow> int list \<Rightarrow> pg_machine \<Rightarrow> ('d, bj_object) handler" where
  "install_server env caller_id p bots names ids machine =
     h_bind (h_core error_text (query_services (bk_pg env) (pm_machine_name machine))) (\<lambda>services.
     let ports = take_ports (map sv_port services) in
     h_bind (create_rows env p caller_id ids machine ports bots) (\<lambda>server_id.
     h_bind (deploy_services env p (pm_ip machine) ports names bots) (\<lambda>_.
     h_bind (h_quest (create_quest_tables (bk_pg env) (cp_server_name p))) (\<lambda>r.
     h_return (warn_on r (create_reply p server_id caller_id names))))))"

definition perform_create :: "'d backend_env \<Rightarrow> int \<Rightarrow> create_plan \<Rightarrow> ('d, bj_object) handler" where
  "perform_create env caller_id p =
     h_bind (make_all_bots env (cp_bot_configs p)) (\<lambda>bots.
     let names = all_allowlist_names p bots in
     h_bind (h_core error_text (resolve_user_ids (bk_pg env) names)) (\<lambda>ids.
     h_bind (h_core error_text (query_machines (bk_pg env))) (\<lambda>machines.
     case machines of
       [] \<Rightarrow> h_reject ''No available machines found''
     | machine # _ \<Rightarrow> install_server env caller_id p bots names ids machine)))"

definition handle_create_server :: "'d backend_env \<Rightarrow> http_request \<Rightarrow> ('d, bj_object) handler" where
  "handle_create_server env req =
     h_bind (authorized_body env req) (\<lambda>(caller_id, body).
     h_bind (h_lift (parse_create_request body)) (\<lambda>p.
     perform_create env caller_id p))"

end
