(* ===== verification/Backend.thy ===== *)
theory Backend
  imports BackendCreate
begin

text \<open>
  The rest of \<open>request_handler.cpp\<close>: changing and removing a server, and \<open>handle\<close>, which routes a request
  and chooses the status of the response; and the session of \<open>main.cpp\<close> around it.
\<close>

section \<open>Changing a server\<close>

text \<open>Both handlers open with the server the body names and refuse everyone but its administrator.\<close>

definition administered_server ::
  "'d backend_env \<Rightarrow> http_request \<Rightarrow> ('d, int \<times> bj_object \<times> string \<times> server_row) handler" where
  "administered_server env req =
     h_bind (authorized_body env req) (\<lambda>(caller_id, body).
     case body_string ''server_name'' body of
       None \<Rightarrow> h_reject ''Missing or invalid server_name''
     | Some server_name \<Rightarrow>
         h_bind (h_core internal_error (get_server (bk_pg env) server_name)) (\<lambda>srv.
         case srv of
           None \<Rightarrow> h_reject (''Server not found: '' @ server_name)
         | Some row \<Rightarrow>
             if sr_admin_id row \<noteq> caller_id
             then h_lift (Inl (Respond (auth_error ''Forbidden: you are not the admin of this server'')))
             else h_return (caller_id, body, server_name, row)))"

text \<open>
  Description and symbols that are missing stay as they are. A missing allowlist is the empty list, which
  replaces the one the server has.
\<close>

definition handle_configure_server :: "'d backend_env \<Rightarrow> http_request \<Rightarrow> ('d, bj_object) handler" where
  "handle_configure_server env req =
     h_bind (administered_server env req) (\<lambda>(caller_id, body, server_name, srv).
     let description = (case body_string ''description'' body of Some d \<Rightarrow> d | None \<Rightarrow> sr_description srv);
         symbols = (case body_names ''active_symbols'' body of Some ss \<Rightarrow> ss | None \<Rightarrow> sr_active_tickers srv);
         allowlist_names = (case body_names ''allowlist'' body of Some ns \<Rightarrow> ns | None \<Rightarrow> []) in
     h_bind (h_core error_text (resolve_user_ids (bk_pg env) allowlist_names)) (\<lambda>ids.
     h_bind (h_core error_text (configure_server (bk_pg env) server_name caller_id description symbols ids)) (\<lambda>_.
     h_return [(''success'', Bj_Bool True), (''server_name'', Bj_String server_name), (''description'', Bj_String description),
       (''active_symbols'', bj_names symbols), (''allowlist'', bj_names allowlist_names)])))"

section \<open>Removing a server\<close>

definition remove_call :: "'d backend_env \<Rightarrow> string \<Rightarrow> string \<Rightarrow> string \<Rightarrow> ('d, unit) handler" where
  "remove_call env server_name ip service_type =
     deployment_call env ip ''/remove_server''
       [(''service_type'', Bj_String service_type), (''server_name'', Bj_String server_name)]
       (''remove '' @ service_type) (''Remove failed for '' @ service_type) ''removed''"

definition endpoint_of :: "'d backend_env \<Rightarrow> string \<Rightarrow> string \<Rightarrow> service \<Rightarrow> ('d, string \<times> int) handler" where
  "endpoint_of env server_name service_type service_enum =
     h_bind (h_core error_text (get_service_endpoint (bk_pg env) server_name service_enum)) (\<lambda>endpoint.
     case endpoint of
       None \<Rightarrow> h_reject (''Service endpoint not found for '' @ service_type @ '' on server '' @ server_name)
     | Some e \<Rightarrow> h_return e)"

definition remove_service :: "'d backend_env \<Rightarrow> string \<Rightarrow> string \<Rightarrow> service \<Rightarrow> ('d, unit) handler" where
  "remove_service env server_name service_type service_enum =
     h_bind (endpoint_of env server_name service_type service_enum) (\<lambda>(ip, port).
     remove_call env server_name ip service_type)"

definition remove_services :: "'d backend_env \<Rightarrow> string \<Rightarrow> string \<Rightarrow> ('d, unit) handler" where
  "remove_services env server_name deployment_server_ip =
     h_bind (h_each (\<lambda>(service_type, service_enum). remove_service env server_name service_type service_enum)
       [(''mdp'', Mdp_Service), (''me'', Me_Service), (''oms'', Oms_Service), (''gateway'', Gateway_Service)]) (\<lambda>_.
     h_each (remove_call env server_name deployment_server_ip) [''mm'', ''nt'', ''it'', ''oracle''])"

definition handle_remove_server :: "'d backend_env \<Rightarrow> http_request \<Rightarrow> ('d, bj_object) handler" where
  "handle_remove_server env req =
     h_bind (administered_server env req) (\<lambda>(caller_id, body, server_name, srv).
     h_bind (endpoint_of env server_name ''gateway'' Gateway_Service) (\<lambda>(deployment_server_ip, port).
     h_bind (remove_services env server_name deployment_server_ip) (\<lambda>_.
     h_bind (h_quest (drop_quest_tables (bk_pg env) server_name)) (\<lambda>r.
     h_bind (h_core (\<lambda>e. warn_on r (error_text e)) (delete_server (bk_pg env) server_name)) (\<lambda>deleted.
     if \<not> deleted then h_lift (Inl (Respond (warn_on r (error_text (''Server not found: '' @ server_name)))))
     else h_return (warn_on r [(''success'', Bj_Bool True), (''server_name'', Bj_String server_name)]))))))"

section \<open>Routing\<close>

definition status_ok :: "bj_object \<Rightarrow> nat" where
  "status_ok res = 200"

definition status_or_bad :: "bj_object \<Rightarrow> nat" where
  "status_or_bad res = (if map_of res ''error'' \<noteq> None then 400 else 200)"

definition status_of_post :: "bj_object \<Rightarrow> nat" where
  "status_of_post res = (if map_of res ''auth_error'' \<noteq> None then 401 else status_or_bad res)"

definition answer ::
  "(bj_object \<Rightarrow> nat) \<Rightarrow> ('d, bj_object) handler \<Rightarrow> 'd backend \<Rightarrow> (cpp_error + nat \<times> bj_object) \<times> 'd backend" where
  "answer status_of m s =
     (case m s of
        (Inr res, s') \<Rightarrow> (Inr (status_of res, res), s')
      | (Inl (Respond res), s') \<Rightarrow> (Inr (status_of res, res), s')
      | (Inl (Fails e), s') \<Rightarrow> (Inl e, s'))"

definition route_get ::
  "'d backend_env \<Rightarrow> string \<Rightarrow> url_params \<Rightarrow> 'd backend \<Rightarrow> (cpp_error + nat \<times> bj_object) \<times> 'd backend" where
  "route_get env path params =
     (if path = ''/login'' then answer status_ok (handle_login env params)
      else if path = ''/signup'' then answer status_ok (handle_signup env params)
      else if path = ''/active_servers'' then answer status_ok (handle_active_servers env)
      else if path = ''/active_symbols'' then answer status_ok (handle_active_symbols env params)
      else if path = ''/user_servers'' then answer status_ok (handle_user_servers env params)
      else if path = ''/get_account_details'' then answer status_ok (handle_account_details env params)
      else if path = ''/get_historical_trades'' then answer status_ok (handle_historical_trades env params)
      else if path = ''/server_mdp_endpoint'' then answer status_or_bad (handle_server_mdp_endpoint env params)
      else answer (\<lambda>_. 404) (h_return (error_text ''Unknown endpoint'')))"

definition route_post ::
  "'d backend_env \<Rightarrow> string \<Rightarrow> http_request \<Rightarrow> 'd backend \<Rightarrow> (cpp_error + nat \<times> bj_object) \<times> 'd backend" where
  "route_post env path req =
     (if path = ''/create_server'' then answer status_of_post (handle_create_server env req)
      else if path = ''/configure_server'' then answer status_of_post (handle_configure_server env req)
      else if path = ''/remove_server'' then answer status_of_post (handle_remove_server env req)
      else answer (\<lambda>_. 404) (h_return (error_text ''Unknown endpoint'')))"

definition route ::
  "'d backend_env \<Rightarrow> string \<Rightarrow> url_params \<Rightarrow> http_request \<Rightarrow> 'd backend \<Rightarrow> (cpp_error + nat \<times> bj_object) \<times> 'd backend" where
  "route env path params req =
     (case hr_method req of
        Verb_get \<Rightarrow> route_get env path params
      | Verb_post \<Rightarrow> route_post env path req
      | _ \<Rightarrow> answer (\<lambda>_. 405) (h_return (error_text ''Method not allowed'')))"

text \<open>A target that is no URL makes \<open>url_view\<close> throw.\<close>

definition handle :: "'d backend_env \<Rightarrow> http_request \<Rightarrow> 'd backend \<Rightarrow> (cpp_error + http_response) \<times> 'd backend" where
  "handle env req s =
     (if hr_method req = Verb_options then (Inr \<lparr>hs_status = 204, hs_body = []\<rparr>, s)
      else case bk_url env (hr_target req) of
             None \<Rightarrow> (Inl Runtime_Error, s)
           | Some (path, params) \<Rightarrow>
               (case route env path params req s of
                  (Inl e, s') \<Rightarrow> (Inl e, s')
                | (Inr (status, res), s') \<Rightarrow>
                    (Inr \<lparr>hs_status = status, hs_body = bk_serialize env (Bj_Object res)\<rparr>, s')))"

text \<open>A session that ends in an exception writes no response.\<close>

definition handle_session ::
  "'d backend_env \<Rightarrow> http_request \<Rightarrow> 'd backend \<Rightarrow> (cpp_error + http_response option) \<times> 'd backend" where
  "handle_session env req s =
     (case handle env req s of
        (Inr response, s') \<Rightarrow> (Inr (Some response), s')
      | (Inl Runtime_Error, s') \<Rightarrow> (Inr None, s')
      | (Inl e, s') \<Rightarrow> (Inl e, s'))"

end
