(* ===== verification/BackendInvariant.thy ===== *)
theory BackendInvariant
  imports Backend
begin

text \<open>
  What requests keep of the databases, through the interface of handlers: the schema holds after any
  sequence of requests; the later steps of creating a server leave its rows alone and only add balances.
\<close>

section \<open>Handlers made of calls\<close>

context handler_kept
begin

lemma holds_deployment_call: "holds (deployment_call env ip target payload subject failure expected)"
  by (rule holds_same_core) (simp add: deployment_call_def Let_def split: prod.split)

lemma holds_deploy_service: "holds (deploy_service env ip name service_name params)"
  by (simp add: deploy_service_def holds_deployment_call)

lemma holds_deploy_services: "holds (deploy_services env p ip ports names bots)"
  by (auto simp: deploy_services_def deploy_bots_def Let_def intro!: holds_bind holds_each holds_deploy_service)

lemma holds_answer: "holds m \<Longrightarrow> holds (answer status_of m)"
  by (force simp: holds_def answer_def split: prod.split sum.split halt.split)

text \<open>What one element of a loop establishes and the others keep holds at the end of the loop.\<close>

lemma each_establishes:
  assumes "h_each f xs s = (Inr u, s')" "x \<in> set xs" "\<And>y. holds (f y)"
    and "\<And>s1 v s2. f x s1 = (Inr v, s2) \<Longrightarrow> good (be_core s2)"
  shows "good (be_core s')"
  using assms(1,2)
proof (induction xs arbitrary: s)
  case (Cons y ys)
  obtain v s1 where 1: "f y s = (Inr v, s1)" "h_each f ys s1 = (Inr u, s')" using Cons.prems(1) by (auto simp: handler_simps)
  show ?case
  proof (cases "x \<in> set ys")
    case True
    then show ?thesis using Cons.IH [OF 1(2)] by simp
  next
    case False
    then have "good (be_core s1)" using Cons.prems(2) assms(4) 1(1) by auto
    moreover have "holds (h_each f ys)" using assms(3) by (rule holds_each)
    ultimately show ?thesis using 1(2) by (simp add: holds_def) (metis snd_conv)
  qed
qed simp

end

context handler_invariant
begin

lemma keeps_resolve: "keeps_op (resolve_user_ids pg names)"
proof (induction names)
  case Nil
  then show ?case by (simp add: keeps_op_def)
next
  case (Cons n ns)
  show ?case
    using Cons keeps_queries(2) [of pg n]
    by (force simp: keeps_op_def split: prod.split sum.split option.split)
qed

lemma holds_administered: "holds (administered_server env req)"
  by (auto simp: administered_server_def intro!: holds_bind holds_authorized_body holds_core keeps_queries
      split: option.split prod.split)

lemma holds_endpoint_of: "holds (endpoint_of env server_name service_type service_enum)"
  by (auto simp: endpoint_of_def intro!: holds_bind holds_core keeps_queries split: option.split)

lemma holds_remove_services: "holds (remove_services env server_name ip)"
  by (auto simp: remove_services_def remove_service_def remove_call_def
      intro!: holds_bind holds_endpoint_of holds_deployment_call split: prod.split)

end

section \<open>The schema\<close>

interpretation sch: handler_invariant "db_reachable pg" for pg
  by unfold_locales (rule db_reachable.faults)

lemma keeps_schema:
  "sch.keeps_op pg (create_user pg username password)"
  "sch.keeps_op pg (create_server_with_services pg name admin descr symbols uids services usd)"
  "sch.keeps_op pg (configure_server pg name caller descr symbols uids)"
  "sch.keeps_op pg (delete_server pg name)"
  "sch.keeps_op pg (insert_balance pg uid sid symbol balance)"
  "sch.keeps_op pg (upsert_init_bot_portfolio_balance pg uid sid balance)"
  unfolding sch.keeps_op_def
  using db_reachable.create_user db_reachable.create_server db_reachable.configure_server db_reachable.delete_server
    db_reachable.insert_balance db_reachable.upsert_bot
  by (metis prod.collapse)+

lemma sch_make_bots: "sch.holds (bk_pg env) (make_bots env service_name n k)"
  by (induction n arbitrary: k)
    (auto simp: Let_def intro!: sch.holds_bind sch.holds_core sch.keeps_queries keeps_schema split: option.split prod.split)

lemma sch_make_group_bots: "sch.holds (bk_pg env) (make_group_bots env service_name gs k)"
  by (induction gs arbitrary: k) (auto intro!: sch.holds_bind sch_make_bots split: prod.split)

lemma sch_make_all_bots: "sch.holds (bk_pg env) (make_all_bots env cs)"
  by (induction cs) (auto intro!: sch.holds_bind sch_make_group_bots)

lemma sch_give_stock: "sch.holds (bk_pg env) (give_stock env sid g uid symbols portfolio)"
  by (induction symbols arbitrary: portfolio) (auto intro!: sch.holds_bind sch.holds_core keeps_schema)

lemma sch_give_balances: "sch.holds (bk_pg env) (give_balances env sid ids caller p gs)"
  by (auto simp: give_balances_def give_usd_def give_nothing_def give_bots_def give_bot_def
      intro!: sch.holds_bind sch.holds_each sch.holds_core keeps_schema sch_give_stock)

lemma sch_create: "sch.holds (bk_pg env) (handle_create_server env req)"
  by (auto simp: handle_create_server_def perform_create_def install_server_def create_rows_def Let_def
      intro!: sch.holds_bind sch.holds_core sch.holds_authorized_body sch.keeps_resolve sch.keeps_queries keeps_schema
        sch_make_all_bots sch_give_balances sch.holds_deploy_services
      split: list.split prod.split)

lemma sch_configure: "sch.holds (bk_pg env) (handle_configure_server env req)"
  by (auto simp: handle_configure_server_def Let_def
      intro!: sch.holds_bind sch.holds_core sch.holds_administered sch.keeps_resolve keeps_schema split: prod.split)

lemma sch_remove: "sch.holds (bk_pg env) (handle_remove_server env req)"
  by (auto simp: handle_remove_server_def
      intro!: sch.holds_bind sch.holds_core sch.holds_administered sch.holds_endpoint_of sch.holds_remove_services keeps_schema
      split: prod.split)

lemma sch_signup: "sch.holds (bk_pg env) (handle_signup env params)"
  by (auto simp: handle_signup_def intro!: sch.holds_bind sch.holds_core keeps_schema split: option.split)

lemma sch_route: "sch.holds (bk_pg env) (route env path params req)"
proof -
  have "sch.holds (bk_pg env) (route_get env path params)"
    unfolding route_get_def by (intro sch.holds_if sch.holds_answer sch.holds_queries sch_signup sch.holds_return)
  moreover have "sch.holds (bk_pg env) (route_post env path req)"
    unfolding route_post_def by (intro sch.holds_if sch.holds_answer sch_create sch_configure sch_remove sch.holds_return)
  ultimately show ?thesis by (auto simp: route_def intro!: sch.holds_answer split: http_verb.split)
qed

lemma sch_session:
  fixes env :: "'d backend_env"
  shows "sch.holds (bk_pg env) (handle_session env req)"
proof -
  have "sch.holds (bk_pg env) (handle env req)"
    unfolding sch.holds_def
  proof (intro allI impI)
    fix s :: "'d backend"
    assume "db_reachable (bk_pg env) (be_core s)"
    then have "db_reachable (bk_pg env) (be_core (snd (route env path params req s)))" for path params
      using sch_route [of env path params req] by (simp add: sch.holds_def)
    then show "db_reachable (bk_pg env) (be_core (snd (handle env req s)))"
      using \<open>db_reachable (bk_pg env) (be_core s)\<close>
      by (simp add: handle_def case_prod_unfold split: option.split sum.split)
  qed
  then show ?thesis by (simp add: sch.holds_def handle_session_def case_prod_unfold split: sum.split cpp_error.split)
qed

lemma sch_sessions:
  "db_reachable (bk_pg env) (be_core s) \<Longrightarrow>
   db_reachable (bk_pg env) (be_core (fold (\<lambda>req s. snd (handle_session env req s)) reqs s))"
  by (induction reqs arbitrary: s) (use sch_session in \<open>auto simp: sch.holds_def\<close>)

end
