(* ===== verification/BackendRows.thy ===== *)
theory BackendRows
  imports BackendInvariant OmDatabase
begin

text \<open>
  Which rows creating a server leaves in the database, step by step: the interface of handlers is
  interpreted once for everything but the balances, which the steps after the server's own rows do not
  touch, and once for a row of the balances, which stays where it is.
\<close>

section \<open>Rows of a balance\<close>

definition balance_row :: "int \<Rightarrow> int \<Rightarrow> string \<Rightarrow> int \<Rightarrow> pg_balance" where
  "balance_row uid sid symbol balance =
     \<lparr>pb_user_id = uid, pb_server_id = sid, pb_symbol = symbol, pb_balance = balance\<rparr>"

definition apart_from_balances :: "core_db \<Rightarrow> core_db" where
  "apart_from_balances db = db\<lparr>db_balances := [], db_bot_balances := [], db_faults := []\<rparr>"

lemma insert_balance_Inr:
  assumes "insert_balance pg uid sid symbol balance db = (Inr u, db')"
  shows "\<not> has_balance uid sid symbol db" "db_balances db' = db_balances db @ [balance_row uid sid symbol balance]"
  using assms
  by (auto simp: insert_balance_def insert_balance_row_def run_txn_def Let_def txn_defs balance_row_def has_balance_def
      split: list.splits bool.splits if_splits)

interpretation frame: handler_invariant "\<lambda>db. apart_from_balances db = R" for R
  by unfold_locales (simp add: apart_from_balances_def)

interpretation rows: handler_invariant "\<lambda>db. r \<in> set (db_balances db)" for r
  by unfold_locales simp

lemma insert_balance_frame:
  "apart_from_balances (snd (insert_balance pg uid sid symbol balance db)) = apart_from_balances db"
  "set (db_balances db) \<subseteq> set (db_balances (snd (insert_balance pg uid sid symbol balance db)))"
  by (auto simp: insert_balance_def insert_balance_row_def run_txn_def Let_def txn_defs apart_from_balances_def rolled_back_def
      split: list.split bool.split)

lemma upsert_frame:
  "apart_from_balances (snd (upsert_init_bot_portfolio_balance pg uid sid balance db)) = apart_from_balances db"
  "db_balances (snd (upsert_init_bot_portfolio_balance pg uid sid balance db)) = db_balances db"
  by (auto simp: upsert_init_bot_portfolio_balance_def run_txn_def Let_def txn_defs apart_from_balances_def rolled_back_def
      split: list.split bool.split)

lemma keeps_frame:
  "frame.keeps_op R (insert_balance pg uid sid symbol balance)"
  "frame.keeps_op R (upsert_init_bot_portfolio_balance pg uid sid balance)"
  by (simp_all add: frame.keeps_op_def insert_balance_frame upsert_frame)

lemma keeps_rows:
  "rows.keeps_op r (insert_balance pg uid sid symbol balance)"
  "rows.keeps_op r (upsert_init_bot_portfolio_balance pg uid sid balance)"
  using insert_balance_frame(2) by (simp_all add: rows.keeps_op_def upsert_frame subset_iff)

lemma frame_give_stock: "frame.holds R (give_stock env sid g uid symbols portfolio)"
  by (induction symbols arbitrary: portfolio) (auto intro!: frame.holds_bind frame.holds_core keeps_frame)

lemma rows_give_stock: "rows.holds r (give_stock env sid g uid symbols portfolio)"
  by (induction symbols arbitrary: portfolio) (auto intro!: rows.holds_bind rows.holds_core keeps_rows)

lemma frame_give:
  "frame.holds R (give_usd env sid m)" "frame.holds R (give_nothing env sid symbols uids)"
  "frame.holds R (give_bots env sid symbols gs)"
  by (auto simp: give_usd_def give_nothing_def give_bots_def give_bot_def
      intro!: frame.holds_bind frame.holds_each frame.holds_core keeps_frame frame_give_stock)

lemma rows_give:
  "rows.holds r (give_usd env sid m)" "rows.holds r (give_nothing env sid symbols uids)"
  "rows.holds r (give_bot env sid symbols g uid)" "rows.holds r (give_bots env sid symbols gs)"
  by (auto simp: give_usd_def give_nothing_def give_bots_def give_bot_def
      intro!: rows.holds_bind rows.holds_each rows.holds_core keeps_rows rows_give_stock)

lemma frame_give_balances: "frame.holds R (give_balances env sid ids caller p gs)"
  by (auto simp: give_balances_def intro!: frame.holds_bind frame_give)

section \<open>Balances of a new server\<close>

lemma each_visits:
  assumes "h_each f xs s = (Inr u, s')" "x \<in> set xs"
  shows "\<exists>s1 v s2. f x s1 = (Inr v, s2)"
  using assms by (induction xs arbitrary: s) (auto simp: h_bind_Inr)

lemma inserted_row:
  "h_core f (insert_balance pg uid sid symbol balance) s = (Inr v, s') \<Longrightarrow>
   balance_row uid sid symbol balance \<in> set (db_balances (be_core s'))"
  by (auto simp: handler_simps insert_balance_Inr)

lemma rows_later: "rows.holds r m \<Longrightarrow> m s = (v, s') \<Longrightarrow> r \<in> set (db_balances (be_core s)) \<Longrightarrow> r \<in> set (db_balances (be_core s'))"
  by (metis rows.holds_def snd_conv)

lemma give_usd_row:
  assumes "give_usd env sid m s = (Inr u, s')" "uid \<in> set (bk_order_ids env (map fst m))" "map_of m uid = Some usd"
  shows "balance_row uid sid ''USD'' (usd * 10000) \<in> set (db_balances (be_core s'))"
proof (rule rows.each_establishes [OF assms(1) [unfolded give_usd_def] assms(2)])
  show "rows.holds r (h_core error_text (insert_balance (bk_pg env) y sid ''USD'' b))" for r y b
    by (intro rows.holds_core keeps_rows)
qed (use assms(3) in \<open>auto dest!: inserted_row simp: balance_multiplier_def\<close>)

lemma give_nothing_row:
  assumes "give_nothing env sid symbols uids s = (Inr u, s')" "uid \<in> set (bk_order_ids env uids)"
    and "symbol \<in> set (bk_order_symbols env (remdups (stock_symbols symbols)))"
  shows "balance_row uid sid symbol 0 \<in> set (db_balances (be_core s'))"
proof (rule rows.each_establishes [OF assms(1) [unfolded give_nothing_def] assms(2)])
  have one: "rows.holds r (h_core error_text (insert_balance (bk_pg env) y sid x 0))" for r y x
    by (intro rows.holds_core keeps_rows)
  then show "rows.holds r (h_each (\<lambda>x. h_core error_text (insert_balance (bk_pg env) y sid x 0))
      (bk_order_symbols env (remdups (stock_symbols symbols))))" for r y
    by (intro rows.holds_each)
  fix s1 v s2
  assume "h_each (\<lambda>x. h_core error_text (insert_balance (bk_pg env) uid sid x 0))
      (bk_order_symbols env (remdups (stock_symbols symbols))) s1 = (Inr v, s2)"
  from rows.each_establishes [OF this assms(3) one] show "balance_row uid sid symbol 0 \<in> set (db_balances (be_core s2))"
    by (auto dest: inserted_row)
qed

lemma give_stock_row:
  assumes "give_stock env sid g uid symbols portfolio s = (Inr v, s')" "symbol \<in> set (stock_symbols symbols)"
  shows "\<exists>b. llround (dbl_mul (inventory_of g symbol) 100) = Inr b \<and> balance_row uid sid symbol b \<in> set (db_balances (be_core s'))"
  using assms
proof (induction symbols arbitrary: portfolio s)
  case (Cons x xs)
  show ?case
  proof (cases "x = ''USD''")
    case True
    then show ?thesis using Cons by (simp add: stock_symbols_def)
  next
    case False
    then obtain b s1 pf where 1: "llround (dbl_mul (inventory_of g x) 100) = Inr b"
      "h_core error_text (insert_balance (bk_pg env) uid sid x b) s = (Inr (), s1)"
      "give_stock env sid g uid xs pf s1 = (Inr v, s')"
      using Cons.prems(1) by (auto simp: handler_simps balance_multiplier_def)
    show ?thesis
    proof (cases "symbol \<in> set (stock_symbols xs)")
      case True
      then show ?thesis using Cons.IH [OF 1(3)] by simp
    next
      case notin: False
      then have "symbol = x" using Cons.prems(2) False by (auto simp: stock_symbols_def)
      then show ?thesis using 1(1) rows_later [OF rows_give_stock 1(3) inserted_row [OF 1(2)]] by auto
    qed
  qed
qed (simp add: stock_symbols_def)

text \<open>A symbol that occurs twice is refused by the key of the balances.\<close>

lemma give_stock_distinct:
  assumes "give_stock env sid g uid symbols portfolio s = (Inr v, s')"
  shows "distinct (stock_symbols symbols) \<and> (\<forall>x \<in> set (stock_symbols symbols). \<not> has_balance uid sid x (be_core s))"
  using assms
proof (induction symbols arbitrary: portfolio s)
  case (Cons x xs)
  show ?case
  proof (cases "x = ''USD''")
    case True
    then show ?thesis using Cons by (simp add: stock_symbols_def)
  next
    case False
    then obtain b s1 pf where 1: "h_core error_text (insert_balance (bk_pg env) uid sid x b) s = (Inr (), s1)"
      "give_stock env sid g uid xs pf s1 = (Inr v, s')"
      using Cons.prems(1) by (auto simp: handler_simps)
    have "\<not> has_balance uid sid x (be_core s)" using 1(1) by (auto simp: handler_simps dest: insert_balance_Inr)
    moreover have "has_balance uid sid x (be_core s1)"
      using inserted_row [OF 1(1)] by (force simp: has_balance_def balance_key_def balance_row_def)
    moreover have "has_balance uid sid y (be_core s1)" if "has_balance uid sid y (be_core s)" for y
      using that rows_later [OF rows.holds_core [OF keeps_rows(1)] 1(1)] by (auto simp: has_balance_def)
    ultimately show ?thesis using Cons.IH [OF 1(2)] False by (auto simp: stock_symbols_def)
  qed
qed (simp add: stock_symbols_def)

lemma give_bots_row:
  assumes "give_bots env sid symbols gs s = (Inr u, s')" "g \<in> set gs" "uid \<in> set (bg_user_ids g)" "symbol \<in> set (stock_symbols symbols)"
  shows "\<exists>b. llround (dbl_mul (inventory_of g symbol) 100) = Inr b \<and> balance_row uid sid symbol b \<in> set (db_balances (be_core s'))"
proof -
  let ?f = "\<lambda>g. h_each (give_bot env sid symbols g) (bg_user_ids g)"
  have bot: "\<exists>b. llround (dbl_mul (inventory_of g symbol) 100) = Inr b \<and> balance_row uid sid symbol b \<in> set (db_balances (be_core s2))"
    if b: "give_bot env sid symbols g uid s1 = (Inr v, s2)" for s1 v s2
  proof -
    obtain pf s3 where 1: "give_stock env sid g uid symbols (bg_initial_usd g * (balance_multiplier * balance_multiplier)) s1 = (Inr pf, s3)"
      and 2: "h_core error_text (upsert_init_bot_portfolio_balance (bk_pg env) uid sid pf) s3 = (Inr v, s2)"
      using b by (auto simp: give_bot_def h_bind_Inr)
    then show ?thesis
      using give_stock_row [OF 1 assms(4)] rows_later [OF rows.holds_core [OF keeps_rows(2)] 2] by blast
  qed
  obtain s1 v s2 where "?f g s1 = (Inr v, s2)" using each_visits [OF assms(1) [unfolded give_bots_def] assms(2)] by blast
  from each_visits [OF this assms(3)] obtain b where b: "llround (dbl_mul (inventory_of g symbol) 100) = Inr b" using bot by blast
  have "balance_row uid sid symbol b \<in> set (db_balances (be_core s'))"
  proof (rule rows.each_establishes [OF assms(1) [unfolded give_bots_def] assms(2)])
    show "rows.holds r (?f y)" for r y by (intro rows.holds_each rows_give)
    fix s1 v s2
    assume "?f g s1 = (Inr v, s2)"
    then show "balance_row uid sid symbol b \<in> set (db_balances (be_core s2))"
      by (rule rows.each_establishes [OF _ assms(3)]) (use bot b rows_give in auto)
  qed
  with b show ?thesis by blast
qed

text \<open>Assigning the pairs of a list one after the other: where all pairs of a key agree, their value is found.\<close>

lemma map_of_fold_update:
  "map_of (fold (\<lambda>(k, v). AList.update k v) kvs m) = map_of m ++ map_of (rev kvs)"
  by (induction kvs arbitrary: m) (auto simp: update_conv map_add_def fun_eq_iff split: option.split)

lemma map_of_agree:
  assumes "(k, v) \<in> set kvs" "\<forall>(k', v') \<in> set kvs. k' = k \<longrightarrow> v' = v"
  shows "map_of kvs k = Some v"
proof -
  obtain v' where "map_of kvs k = Some v'" using assms(1) by (metis weak_map_of_SomeI)
  then show ?thesis using assms(2) by (force dest: map_of_SomeD)
qed

lemma usd_map_dom:
  assumes "uid \<in> set (ids @ [caller])"
  shows "uid \<in> set (map fst (initial_usd_by_user_id ids caller usd gs))"
    and "uid \<notin> set (bot_user_ids gs) \<Longrightarrow> map_of (initial_usd_by_user_id ids caller usd gs) uid = Some usd"
    and "\<exists>v. map_of (initial_usd_by_user_id ids caller usd gs) uid = Some v"
proof -
  let ?kvs = "map (\<lambda>uid. (uid, usd)) (ids @ [caller]) @ concat (map (\<lambda>g. map (\<lambda>uid. (uid, bg_initial_usd g)) (bg_user_ids g)) gs)"
  have m: "map_of (initial_usd_by_user_id ids caller usd gs) = map_of (rev ?kvs)"
    by (simp only: initial_usd_by_user_id_def map_of_fold_update) simp
  have u: "(uid, usd) \<in> set (rev ?kvs)" using assms by auto
  then show ex: "\<exists>v. map_of (initial_usd_by_user_id ids caller usd gs) uid = Some v"
    unfolding m by (metis weak_map_of_SomeI)
  then show "uid \<in> set (map fst (initial_usd_by_user_id ids caller usd gs))"
    by (force dest: map_of_SomeD)
  assume "uid \<notin> set (bot_user_ids gs)"
  then have "\<forall>(k', v') \<in> set (rev ?kvs). k' = uid \<longrightarrow> v' = usd" by (auto simp: bot_user_ids_def)
  then show "map_of (initial_usd_by_user_id ids caller usd gs) uid = Some usd"
    unfolding m using u by (intro map_of_agree)
qed

definition unordered :: "'d backend_env \<Rightarrow> bool" where
  "unordered env \<longleftrightarrow> (\<forall>xs. set (bk_order_ids env xs) = set xs) \<and> (\<forall>xs. set (bk_order_symbols env xs) = set xs)"

lemma give_balances_rows:
  assumes "give_balances env sid ids caller p gs s = (Inr u, s')" "unordered env" "uid \<in> set (ids @ [caller])"
  shows "\<exists>usd. balance_row uid sid ''USD'' usd \<in> set (db_balances (be_core s')) \<and>
      (uid \<notin> set (bot_user_ids gs) \<longrightarrow> usd = cp_initial_usd p * 10000)"
    and "symbol \<in> set (stock_symbols (cp_symbols p)) \<Longrightarrow>
      \<exists>b. balance_row uid sid symbol b \<in> set (db_balances (be_core s')) \<and>
        (if uid \<in> set (bot_user_ids gs)
         then \<exists>g \<in> set gs. uid \<in> set (bg_user_ids g) \<and> llround (dbl_mul (inventory_of g symbol) 100) = Inr b
         else b = 0)"
proof -
  let ?m = "initial_usd_by_user_id ids caller (cp_initial_usd p) gs"
  obtain s1 s2 where 1: "give_usd env sid ?m s = (Inr (), s1)"
    and 2: "give_nothing env sid (cp_symbols p) (non_bot_user_ids ids caller gs) s1 = (Inr (), s2)"
    and 3: "give_bots env sid (cp_symbols p) gs s2 = (Inr u, s')"
    using assms(1) by (auto simp: give_balances_def handler_simps)
  have later: "r \<in> set (db_balances (be_core s1)) \<Longrightarrow> r \<in> set (db_balances (be_core s'))" for r
    using rows_later [OF rows_give(2) 2] rows_later [OF rows_give(4) 3] by blast
  obtain usd where usd: "map_of ?m uid = Some usd" using usd_map_dom(3) [OF assms(3)] by blast
  have "uid \<in> set (bk_order_ids env (map fst ?m))"
    using usd_map_dom(1) [OF assms(3)] assms(2) by (simp add: unordered_def)
  from later [OF give_usd_row [OF 1 this usd]] usd
  show "\<exists>usd. balance_row uid sid ''USD'' usd \<in> set (db_balances (be_core s')) \<and>
      (uid \<notin> set (bot_user_ids gs) \<longrightarrow> usd = cp_initial_usd p * 10000)"
    using usd_map_dom(2) [OF assms(3)] by (metis option.inject)
  assume x: "symbol \<in> set (stock_symbols (cp_symbols p))"
  show "\<exists>b. balance_row uid sid symbol b \<in> set (db_balances (be_core s')) \<and>
        (if uid \<in> set (bot_user_ids gs)
         then \<exists>g \<in> set gs. uid \<in> set (bg_user_ids g) \<and> llround (dbl_mul (inventory_of g symbol) 100) = Inr b
         else b = 0)"
  proof (cases "uid \<in> set (bot_user_ids gs)")
    case True
    then obtain g where g: "g \<in> set gs" "uid \<in> set (bg_user_ids g)" by (auto simp: bot_user_ids_def)
    have "\<exists>b. llround (dbl_mul (inventory_of g symbol) 100) = Inr b \<and> balance_row uid sid symbol b \<in> set (db_balances (be_core s'))"
      by (rule give_bots_row [OF 3 g x])
    then show ?thesis using True g by auto
  next
    case False
    have "balance_row uid sid symbol 0 \<in> set (db_balances (be_core s2))"
      by (rule give_nothing_row [OF 2]) (use assms(2,3) False x in \<open>auto simp: unordered_def non_bot_user_ids_def\<close>)
    then show ?thesis using False rows_later [OF rows_give(4) 3] by auto
  qed
qed

section \<open>Members of a new server\<close>

lemma insert_service_rows_effect:
  assumes "t_each (\<lambda>v. insert_service_row (si_machine_id v) sid (si_service_type v) (si_port v)) vs db = (Inr u, db')"
  shows "db' = db\<lparr>db_services := db_services db @ service_rows sid vs\<rparr>"
  using assms
proof (induction vs arbitrary: db)
  case (Cons v vs)
  obtain db1 where 1: "insert_service_row (si_machine_id v) sid (si_service_type v) (si_port v) db = (Inr (), db1)"
    "t_each (\<lambda>v. insert_service_row (si_machine_id v) sid (si_service_type v) (si_port v)) vs db1 = (Inr u, db')"
    using Cons.prems by (auto simp: t_bind_Inr)
  have "db1 = db\<lparr>db_services := db_services db @ service_rows sid [v]\<rparr>"
    using 1(1) by (auto simp: insert_service_row_def service_rows_def txn_defs split: if_splits)
  then show ?case using Cons.IH [OF 1(2)] by (simp add: service_rows_def)
qed (simp add: t_return_def service_rows_def)

lemma find_append_None: "find P xs = None \<Longrightarrow> find P (xs @ ys) = find P ys"
  by (induction xs) (auto split: if_splits)

lemma create_server_Inr:
  assumes "create_server_with_services pg name admin descr symbols uids vs usd db = (Inr sid, db')" "db_ok db"
  shows "\<exists>srv. server_named name db' = Some srv \<and> ps_server_id srv = sid \<and> ps_admin_id srv = admin"
    and "allowlist_of sid db' = uids" "db_users db' = db_users db"
proof -
  let ?db = "db\<lparr>db_faults := tl (db_faults db)\<rparr>"
  let ?row = "\<lambda>tickers. new_server_row db name admin descr tickers usd"
  obtain tickers where new: "server_named name db = None" "sid = db_next_server_id db"
    and db': "db' = ?db\<lparr>db_next_server_id := sid + 1, db_servers := db_servers db @ [?row tickers],
      db_allowlist := db_allowlist db @ map (\<lambda>uid. \<lparr>pa_server_id = sid, pa_user_id = uid\<rparr>) uids,
      db_services := db_services db @ service_rows sid vs\<rparr>"
  proof -
    obtain db1 db2 where 1: "insert_server_row pg name admin descr (build_pg_array symbols) usd ?db = (Inr sid, db1)"
      "t_each (insert_allow_row sid) uids db1 = (Inr (), db2)"
      "t_each (\<lambda>v. insert_service_row (si_machine_id v) sid (si_service_type v) (si_port v)) vs db2 = (Inr (), db')"
      using assms(1)
      by (auto simp: create_server_with_services_def run_txn_def Let_def t_bind_Inr t_return_def
          split: list.splits bool.splits prod.splits sum.splits)
    obtain tickers where "server_named name db = None" "sid = db_next_server_id db"
      "db1 = ?db\<lparr>db_next_server_id := sid + 1, db_servers := db_servers db @ [?row tickers]\<rparr>"
      using 1(1)
      by (auto simp: insert_server_row_def cast_array_def txn_defs new_server_row_def server_named_def
          split: if_splits option.splits)
    then show thesis
      using insert_allow_rows_effect [OF 1(2)] insert_service_rows_effect [OF 1(3)] by (intro that) simp_all
  qed
  show "\<exists>srv. server_named name db' = Some srv \<and> ps_server_id srv = sid \<and> ps_admin_id srv = admin"
    using new by (simp add: db' server_named_def find_append_None new_server_row_def)
  have "\<forall>a \<in> set (db_allowlist db). pa_server_id a \<noteq> sid" using ok_references(1,3) [OF assms(2)] new(2) by metis
  then show "allowlist_of sid db' = uids" by (simp add: db' allowlist_of_def comp_def filter_empty_conv)
  show "db_users db' = db_users db" by (simp add: db')
qed

lemma get_user_Inr:
  "get_user pg name db = (Inr r, db') \<Longrightarrow> r = map_option user_row_of (user_named name db) \<and> db_users db' = db_users db"
  by (auto simp: get_user_def run_txn_def Let_def t_select_def user_named_def split: list.splits bool.splits)

lemma resolve_Inr:
  assumes "resolve_user_ids pg names db = (Inr ids, db')" "n \<in> set names"
  shows "\<exists>u. user_named n db = Some u \<and> pu_user_id u \<in> set ids"
  using assms
proof (induction names arbitrary: db ids)
  case (Cons m ms)
  obtain r db1 ids1 where 1: "get_user pg m db = (Inr (Some r), db1)" "resolve_user_ids pg ms db1 = (Inr ids1, db')"
    "ids = ur_user_id r # ids1"
    using Cons.prems(1) by (auto split: prod.splits sum.splits option.splits)
  have "user_named m db1 = user_named m db" for m using get_user_Inr [OF 1(1)] by (simp add: user_named_def)
  then show ?case
    using Cons.IH [OF 1(2)] Cons.prems(2) get_user_Inr [OF 1(1)] 1(3)
    by (cases "user_named m db") (auto simp: user_row_of_def)
qed simp

lemma resolve_users: "resolve_user_ids pg names db = (r, db') \<Longrightarrow> db_users db' = db_users db"
proof (induction names arbitrary: db r)
  case (Cons m ms)
  have "db_users (snd (get_user pg m db)) = db_users db"
    by (auto simp: get_user_def run_txn_def Let_def t_select_def split: list.split bool.split)
  then show ?case using Cons by (auto split: prod.splits sum.splits option.splits)
qed simp

lemma select_users:
  "query_machines pg db = (r1, db') \<Longrightarrow> db_users db' = db_users db"
  "query_services pg m db = (r2, db') \<Longrightarrow> db_users db' = db_users db"
  by (auto simp: query_machines_def query_services_def run_txn_def Let_def t_select_def split: list.splits bool.splits)

lemma add_names_superset: "set names \<subseteq> set (add_names names new)"
proof (induction new arbitrary: names)
  case (Cons u us)
  have "set names \<subseteq> set (if u \<in> set names then names else names @ [u])" by auto
  also have "\<dots> \<subseteq> set (add_names (if u \<in> set names then names else names @ [u]) us)" by (rule Cons)
  finally show ?case by (simp add: add_names_def)
qed (simp add: add_names_def)

section \<open>Users of the traders\<close>

interpretation named: handler_invariant "\<lambda>db. user_named n db = Some u" for n u
  by unfold_locales (simp add: user_named_def)

lemma find_append_Some: "find P xs = Some x \<Longrightarrow> find P (xs @ ys) = Some x"
  by (induction xs) (auto split: if_splits)

lemma keeps_named: "named.keeps_op n u (create_user pg name password)"
  unfolding named.keeps_op_def
  by (auto simp: create_user_def insert_user_row_def run_txn_def Let_def txn_defs user_named_def
      find_append_Some rolled_back_def split: list.split bool.split)

lemma named_make_bots: "named.holds n u (make_bots env service_name m k)"
  by (induction m arbitrary: k)
    (auto simp: Let_def intro!: named.holds_bind named.holds_core named.keeps_queries keeps_named split: option.split prod.split)

lemma named_make_group_bots: "named.holds n u (make_group_bots env service_name gs k)"
  by (induction gs arbitrary: k) (auto intro!: named.holds_bind named_make_bots split: prod.split)

lemma named_make_all_bots: "named.holds n u (make_all_bots env cs)"
  by (induction cs) (auto intro!: named.holds_bind named_make_group_bots)

lemma named_later:
  "named.holds n u m \<Longrightarrow> m s = (v, s') \<Longrightarrow> user_named n (be_core s) = Some u \<Longrightarrow> user_named n (be_core s') = Some u"
  by (metis named.holds_def snd_conv)

lemma create_user_Inr:
  "create_user pg name password db = (Inr r, db') \<Longrightarrow> \<exists>u. user_named name db' = Some u \<and> pu_user_id u = ur_user_id r"
  by (auto simp: create_user_def insert_user_row_def run_txn_def Let_def txn_defs user_named_def find_append_None
      split: list.splits bool.splits if_splits)

lemma make_bots_Suc:
  assumes "make_bots env service_name (Suc m) k s = (Inr (bots, k'), s')"
  obtains u bots' s1 where "user_named (service_name @ show_int k) (be_core s1) = Some u"
    "make_bots env service_name m (k + 1) s1 = (Inr (bots', k'), s')" "bots = (service_name @ show_int k, pu_user_id u) # bots'"
proof -
  let ?n = "service_name @ show_int k"
  obtain r uid s1 s2 bots' where 1: "h_core error_text (get_user (bk_pg env) ?n) s = (Inr r, s1)"
    and 2: "(case r of Some r \<Rightarrow> h_return (ur_user_id r)
        | None \<Rightarrow> h_bind (h_core error_text (create_user (bk_pg env) ?n kBotPassword)) (\<lambda>r. h_return (ur_user_id r))) s1 = (Inr uid, s2)"
    and 3: "make_bots env service_name m (k + 1) s2 = (Inr (bots', k'), s')" "bots = (?n, uid) # bots'"
    using assms by (auto simp: Let_def h_bind_Inr of_cpp_Inr i32_eq_Inr split: prod.splits)
  have "\<exists>u. user_named ?n (be_core s2) = Some u \<and> pu_user_id u = uid"
  proof (cases r)
    case None
    then show ?thesis using 2 by (auto simp: handler_simps dest: create_user_Inr)
  next
    case (Some r')
    have "user_named ?n (be_core s1) = user_named ?n (be_core s)"
      using 1 by (auto simp: handler_simps user_named_def dest: get_user_Inr)
    moreover have "r = map_option user_row_of (user_named ?n (be_core s))" "uid = ur_user_id r'" "s2 = s1"
      using 1 2 Some by (auto simp: handler_simps dest: get_user_Inr)
    ultimately show ?thesis using Some by (cases "user_named ?n (be_core s)") (auto simp: user_row_of_def)
  qed
  with 3 show thesis by (auto intro: that)
qed

lemma make_bots_users:
  assumes "make_bots env service_name m k s = (Inr (bots, k'), s')"
  shows "k' = k + int m \<and> (\<forall>uid \<in> snd ` set bots. \<exists>i u. k \<le> i \<and> i < k' \<and>
    user_named (service_name @ show_int i) (be_core s') = Some u \<and> pu_user_id u = uid)"
  using assms
proof (induction m arbitrary: k s bots)
  case (Suc m)
  obtain u bots' s1 where 1: "user_named (service_name @ show_int k) (be_core s1) = Some u"
    "make_bots env service_name m (k + 1) s1 = (Inr (bots', k'), s')" "bots = (service_name @ show_int k, pu_user_id u) # bots'"
    by (rule make_bots_Suc [OF Suc.prems])
  have u: "user_named (service_name @ show_int k) (be_core s') = Some u" by (rule named_later [OF named_make_bots 1(2,1)])
  have IH: "k' = k + 1 + int m" "\<forall>uid \<in> snd ` set bots'. \<exists>i u. k + 1 \<le> i \<and> i < k' \<and>
      user_named (service_name @ show_int i) (be_core s') = Some u \<and> pu_user_id u = uid"
    using Suc.IH [OF 1(2)] by blast+
  have "\<exists>i u. k \<le> i \<and> i < k' \<and> user_named (service_name @ show_int i) (be_core s') = Some u \<and> pu_user_id u = uid"
    if "uid \<in> snd ` set bots" for uid
  proof (cases "uid = pu_user_id u")
    case True
    then show ?thesis using u IH(1) by (intro exI [of _ k] exI [of _ u]) simp
  next
    case False
    then have "uid \<in> snd ` set bots'" using that 1(3) by auto
    with IH(2) obtain i v where "k + 1 \<le> i" "i < k'" "user_named (service_name @ show_int i) (be_core s') = Some v" "pu_user_id v = uid"
      by blast
    then show ?thesis by (intro exI [of _ i] exI [of _ v]) simp
  qed
  then show ?case using IH(1) by simp
qed simp

definition trader_name :: "string \<Rightarrow> bot_group list \<Rightarrow> int \<Rightarrow> string \<Rightarrow> bool" where
  "trader_name service_name gs k n \<longleftrightarrow>
     (\<exists>i. k \<le> i \<and> i < k + int (sum_list (map (nat \<circ> bg_count) gs)) \<and> n = service_name @ show_int i)"

definition is_trader :: "create_plan \<Rightarrow> core_db \<Rightarrow> int \<Rightarrow> bool" where
  "is_trader p db uid \<longleftrightarrow>
     (\<exists>c \<in> set (cp_bot_configs p). \<exists>n u. trader_name (bc_service_name c) (bc_groups c) 1 n \<and> user_named n db = Some u \<and> pu_user_id u = uid)"

lemma make_group_bots_users:
  assumes "make_group_bots env service_name gs k s = (Inr gs', s')" "\<forall>g \<in> set gs. bg_user_ids g = []" "uid \<in> set (bot_user_ids gs')"
  shows "\<exists>n u. trader_name service_name gs k n \<and> user_named n (be_core s') = Some u \<and> pu_user_id u = uid"
  using assms
proof (induction gs arbitrary: k s gs')
  case (Cons g gs)
  obtain bots k1 s1 gs1 where 1: "make_bots env service_name (nat (bg_count g)) k s = (Inr (bots, k1), s1)"
    and 2: "make_group_bots env service_name gs k1 s1 = (Inr gs1, s')"
    and 3: "gs' = g\<lparr>bg_usernames := bg_usernames g @ map fst bots, bg_user_ids := bg_user_ids g @ map snd bots\<rparr> # gs1"
    using Cons.prems(1) by (auto simp: h_bind_Inr split: prod.splits)
  have k1: "k1 = k + int (nat (bg_count g))" using make_bots_users [OF 1] by blast
  show ?case
  proof (cases "uid \<in> set (bot_user_ids gs1)")
    case True
    then obtain n u where "trader_name service_name gs k1 n" "user_named n (be_core s') = Some u" "pu_user_id u = uid"
      using Cons.IH [OF 2] Cons.prems(2) by auto
    moreover have "trader_name service_name (g # gs) k n" if n: "trader_name service_name gs k1 n" for n
    proof -
      obtain i where "k1 \<le> i" "i < k1 + int (sum_list (map (nat \<circ> bg_count) gs))" "n = service_name @ show_int i"
        using n by (auto simp: trader_name_def)
      then show ?thesis unfolding trader_name_def using k1 by (intro exI [of _ i]) (simp split: if_splits)
    qed
    ultimately show ?thesis by blast
  next
    case False
    then have "uid \<in> snd ` set bots" using Cons.prems(2,3) 3 by (auto simp: bot_user_ids_def)
    then obtain i u where "k \<le> i" "i < k1" "user_named (service_name @ show_int i) (be_core s1) = Some u" "pu_user_id u = uid"
      using make_bots_users [OF 1] by blast
    moreover have "trader_name service_name (g # gs) k (service_name @ show_int i)"
      unfolding trader_name_def using calculation(1,2) k1 by (intro exI [of _ i]) simp
    ultimately show ?thesis using named_later [OF named_make_group_bots 2] by blast
  qed
qed (simp add: bot_user_ids_def)

lemma make_all_bots_users:
  assumes "make_all_bots env cs s = (Inr cs', s')" "\<forall>g \<in> set (all_groups cs). bg_user_ids g = []" "uid \<in> set (bot_user_ids (all_groups cs'))"
  shows "\<exists>c \<in> set cs. \<exists>n u. trader_name (bc_service_name c) (bc_groups c) 1 n \<and> user_named n (be_core s') = Some u \<and> pu_user_id u = uid"
  using assms
proof (induction cs arbitrary: s cs')
  case (Cons c cs)
  obtain gs s1 cs1 where 1: "make_group_bots env (bc_service_name c) (bc_groups c) 1 s = (Inr gs, s1)"
    and 2: "make_all_bots env cs s1 = (Inr cs1, s')" and 3: "cs' = c\<lparr>bc_groups := gs\<rparr> # cs1"
    using Cons.prems(1) by (auto simp: h_bind_Inr)
  show ?case
  proof (cases "uid \<in> set (bot_user_ids (all_groups cs1))")
    case True
    then show ?thesis using Cons.IH [OF 2] Cons.prems(2) by (auto simp: all_groups_def)
  next
    case False
    then have "uid \<in> set (bot_user_ids gs)" using Cons.prems(3) 3 by (auto simp: bot_user_ids_def all_groups_def)
    then obtain n u where "trader_name (bc_service_name c) (bc_groups c) 1 n" "user_named n (be_core s1) = Some u" "pu_user_id u = uid"
      using make_group_bots_users [OF 1, of uid] Cons.prems(2) by (auto simp: all_groups_def)
    then show ?thesis using named_later [OF named_make_all_bots 2] by auto
  qed
qed (simp add: bot_user_ids_def all_groups_def)

end
