(* ===== verification/BackendProperties.thy ===== *)
theory BackendProperties
  imports BackendRows
begin

text \<open>
  What the backend promises: the schema after any requests, who may change a server, what a created
  server holds for the order manager that runs on it, and which ports its services get.
\<close>

section \<open>A created server\<close>

lemma parse_bot_group_ids: "parse_bot_group symbols b obj i = Inr g \<Longrightarrow> bg_user_ids g = []"
  by (auto simp: parse_bot_group_def Let_def cbind_Inr)

lemma parse_groups_ids: "parse_groups symbols b vs i = Inr gs \<Longrightarrow> g \<in> set gs \<Longrightarrow> bg_user_ids g = []"
  by (induction vs arbitrary: i gs) (auto simp: cbind_Inr dest: parse_bot_group_ids split: bj.splits)

lemma parse_bot_config_ids:
  assumes "parse_bot_config symbols bots b = Inr c" "g \<in> set (bc_groups c)"
  shows "bg_user_ids g = []"
proof -
  have "bg_user_ids (empty_group b) = []" by (simp add: empty_group_def)
  then show ?thesis
    using assms
    by (auto simp: parse_bot_config_def Let_def cbind_Inr dest: parse_groups_ids parse_bot_group_ids
        split: option.splits bj.splits if_splits)
qed

lemma plan_groups:
  assumes "parse_create_request body = Inr p" "g \<in> set (all_groups (cp_bot_configs p))"
  shows "bg_user_ids g = []"
proof -
  obtain symbols usd where "parse_bots symbols usd body = Inr (cp_bot_configs p)"
    using assms(1) by (auto simp: parse_create_request_def Let_def cbind_Inr split: option.splits if_splits)
  then obtain bots mm nt it where "cp_bot_configs p = [mm, nt, it]" "parse_bot_config symbols bots (mm_spec usd) = Inr mm"
    "parse_bot_config symbols bots (nt_spec usd) = Inr nt" "parse_bot_config symbols bots it_spec = Inr it"
    unfolding parse_bots_def cbind_Inr by (metis sum.inject(2))
  then show ?thesis using assms(2) by (auto simp: all_groups_def dest: parse_bot_config_ids)
qed

lemma stored_row:
  assumes "db_ok db" "balance_row uid sid x b \<in> set (db_balances db)"
  shows "stored uid sid x db = Some b"
proof -
  let ?key = "\<lambda>b. (pb_user_id b, pb_server_id b, pb_symbol b)"
  have "distinct (map ?key (db_balances db))" using assms(1) by (simp add: db_ok_def keys_distinct_def)
  from find_unique [OF this assms(2)] show ?thesis
    by (simp add: stored_def balance_key_def [abs_def] balance_row_def)
qed

lemma frame_fields:
  assumes "apart_from_balances db = apart_from_balances db'"
  shows "db_servers db = db_servers db'" "db_allowlist db = db_allowlist db'" "db_users db = db_users db'"
  using arg_cong [OF assms, of db_servers] arg_cong [OF assms, of db_allowlist] arg_cong [OF assms, of db_users]
  by (simp_all add: apart_from_balances_def)

definition caller_of :: "http_request \<Rightarrow> core_db \<Rightarrow> pg_user option" where
  "caller_of req db =
     (case hr_authorization req of
        Some header \<Rightarrow> if take 7 header = ''Bearer '' then user_named (drop 7 header) db else None
      | None \<Rightarrow> None)"

lemma authorized_body_Inr:
  assumes "authorized_body env req s = (Inr (caller, body), s')"
  shows "\<exists>u. caller_of req (be_core s) = Some u \<and> pu_user_id u = caller" "bk_parse env (hr_body req) = Inr (Bj_Object body)"
proof -
  obtain s1 where 1: "authenticate_admin env req s = (Inr caller, s1)" "0 \<le> caller" "bk_parse env (hr_body req) = Inr (Bj_Object body)"
    using assms by (auto simp: authorized_body_def h_bind_Inr split: if_splits sum.splits bj.splits)
  obtain header r db where h: "hr_authorization req = Some header" "take 7 header = ''Bearer ''"
    "get_user (bk_pg env) (drop 7 header) (be_core s) = (r, db)" "caller = (case r of Inr (Some u) \<Rightarrow> ur_user_id u | _ \<Rightarrow> - 1)"
    using 1(1,2) by (auto simp: authenticate_admin_def handler_simps split: option.splits if_splits)
  obtain u where "r = Inr (Some u)" "caller = ur_user_id u" using h(4) 1(2) by (auto split: sum.splits option.splits)
  then show "\<exists>u. caller_of req (be_core s) = Some u \<and> pu_user_id u = caller"
    using h get_user_Inr [of "bk_pg env" "drop 7 header" "be_core s"]
    by (cases "user_named (drop 7 header) (be_core s)") (auto simp: caller_of_def user_row_of_def)
  show "bk_parse env (hr_body req) = Inr (Bj_Object body)" by (rule 1(3))
qed

definition new_balances :: "create_plan \<Rightarrow> pg_server \<Rightarrow> core_db \<Rightarrow> int \<Rightarrow> bool" where
  "new_balances p srv db uid \<longleftrightarrow>
     (let amount = (\<lambda>x. stored uid (ps_server_id srv) x db) in
      amount ''USD'' \<noteq> None \<and> (\<forall>x \<in> set (cp_symbols p). amount x \<noteq> None) \<and>
      (\<not> is_trader p db uid \<longrightarrow>
         amount ''USD'' = Some (cp_initial_usd p * 10000) \<and> (\<forall>x \<in> set (stock_symbols (cp_symbols p)). amount x = Some 0)))"

interpretation same: handler_kept "\<lambda>db. db = D" for D .

lemma install_server_Inr:
  assumes "install_server env caller p bots names ids machine s = (Inr res, s')"
  obtains services ports sid s1 s2 where
    "query_services (bk_pg env) (pm_machine_name machine) (be_core s) = (Inr services, be_core s1)"
    "create_rows env p caller ids machine ports bots s1 = (Inr sid, s2)" "be_core s' = be_core s2"
proof -
  obtain services s1 sid s2 s3 where 1: "h_core error_text (query_services (bk_pg env) (pm_machine_name machine)) s = (Inr services, s1)"
    "create_rows env p caller ids machine (take_ports (map sv_port services)) bots s1 = (Inr sid, s2)"
    "deploy_services env p (pm_ip machine) (take_ports (map sv_port services)) names bots s2 = (Inr (), s3)"
    "be_core s' = be_core s3"
    using assms by (auto simp: install_server_def Let_def handler_simps)
  have "be_core s3 = be_core s2"
    using same.holds_deploy_services [of "be_core s2" env p "pm_ip machine"] 1(3) by (simp add: same.holds_def) (metis snd_conv)
  with 1 show thesis by (intro that) (auto simp: handler_simps)
qed

lemma sch_later: "sch.holds pg m \<Longrightarrow> m t = (v, t') \<Longrightarrow> db_reachable pg (be_core t) \<Longrightarrow> db_reachable pg (be_core t')"
  by (metis sch.holds_def snd_conv)

text \<open>The states between the steps of a creation that succeeds, and the users they have in common.\<close>

lemma perform_create_Inr:
  assumes "perform_create env caller p s = (Inr res, s')" "db_reachable (bk_pg env) (be_core s)"
  obtains bots ids vs sid s1 db s2 s3 where "make_all_bots env (cp_bot_configs p) s = (Inr bots, s1)"
    "\<forall>n \<in> set (cp_allowlist_names p). \<exists>u. user_named n (be_core s1) = Some u \<and> pu_user_id u \<in> set ids"
    "db_reachable (bk_pg env) db" "db_users db = db_users (be_core s1)"
    "create_server_with_services (bk_pg env) (cp_server_name p) caller (cp_description p) (cp_symbols p) ids vs
       (cp_initial_usd p) db = (Inr sid, be_core s2)"
    "give_balances env sid ids caller p (all_groups bots) s2 = (Inr (), s3)" "be_core s' = be_core s3"
proof -
  let ?pg = "bk_pg env"
  obtain bots ids s1 s2 s3 ms where 1: "make_all_bots env (cp_bot_configs p) s = (Inr bots, s1)"
    and 2: "h_core error_text (resolve_user_ids ?pg (all_allowlist_names p bots)) s1 = (Inr ids, s2)"
    and 3: "h_core error_text (query_machines ?pg) s2 = (Inr ms, s3)"
    and inst: "(case ms of [] \<Rightarrow> h_reject ''No available machines found''
      | machine # _ \<Rightarrow> install_server env caller p bots (all_allowlist_names p bots) ids machine) s3 = (Inr res, s')"
    using assms(1) unfolding perform_create_def Let_def h_bind_Inr by blast
  obtain machine where "install_server env caller p bots (all_allowlist_names p bots) ids machine s3 = (Inr res, s')"
    using inst by (cases ms) auto
  then obtain services ports sid s4 s5 where 4: "query_services ?pg (pm_machine_name machine) (be_core s3) = (Inr services, be_core s4)"
    and rows: "create_rows env p caller ids machine ports bots s4 = (Inr sid, s5)" and core: "be_core s' = be_core s5"
    by (rule install_server_Inr)
  obtain s6 where c: "h_core error_text (create_server_with_services ?pg (cp_server_name p) caller (cp_description p)
       (cp_symbols p) ids (service_insert_rows (pm_machine_id machine) ports) (cp_initial_usd p)) s4 = (Inr sid, s6)"
    and 6: "give_balances env sid ids caller p (all_groups bots) s6 = (Inr (), s5)"
    using rows by (auto simp: create_rows_def h_bind_Inr)
  then have 5: "create_server_with_services ?pg (cp_server_name p) caller (cp_description p)
       (cp_symbols p) ids (service_insert_rows (pm_machine_id machine) ports) (cp_initial_usd p) (be_core s4) = (Inr sid, be_core s6)"
    by (auto simp: h_core_Inr)
  have "db_reachable ?pg (be_core s1)" by (rule sch_later [OF sch_make_all_bots 1 assms(2)])
  then have "db_reachable ?pg (be_core s2)" by (rule sch_later [OF sch.holds_core [OF sch.keeps_resolve] 2])
  then have "db_reachable ?pg (be_core s3)" by (rule sch_later [OF sch.holds_core [OF sch.keeps_queries(8)] 3])
  then have r4: "db_reachable ?pg (be_core s4)" using sch.keeps_queries(9) 4 unfolding sch.keeps_op_def by (metis snd_conv)
  have users: "db_users (be_core s4) = db_users (be_core s1)"
    using 2 3 4 by (auto simp: handler_simps dest!: resolve_users select_users)
  have "set (cp_allowlist_names p) \<subseteq> set (all_allowlist_names p bots)"
    unfolding all_allowlist_names_def by (rule add_names_superset)
  then have names: "\<forall>n \<in> set (cp_allowlist_names p). \<exists>u. user_named n (be_core s1) = Some u \<and> pu_user_id u \<in> set ids"
    using 2 by (auto simp: handler_simps dest: resolve_Inr)
  show thesis by (rule that [OF 1 names r4 users 5 6 core])
qed

lemma perform_create_effect:
  assumes "db_reachable (bk_pg env) (be_core s)" "unordered env" "perform_create env caller p s = (Inr res, s')"
    and "\<forall>g \<in> set (all_groups (cp_bot_configs p)). bg_user_ids g = []"
  shows "\<exists>srv. server_named (cp_server_name p) (be_core s') = Some srv \<and> ps_admin_id srv = caller \<and>
    (\<forall>n \<in> set (cp_allowlist_names p). \<exists>u. user_named n (be_core s') = Some u \<and> pu_user_id u \<in> set (members_of srv (be_core s'))) \<and>
    (\<forall>uid \<in> set (members_of srv (be_core s')). new_balances p srv (be_core s') uid)"
proof -
  obtain bots ids vs sid s1 db s2 s3 where 1: "make_all_bots env (cp_bot_configs p) s = (Inr bots, s1)"
    "\<forall>n \<in> set (cp_allowlist_names p). \<exists>u. user_named n (be_core s1) = Some u \<and> pu_user_id u \<in> set ids"
    and db: "db_reachable (bk_pg env) db" "db_users db = db_users (be_core s1)"
    and c: "create_server_with_services (bk_pg env) (cp_server_name p) caller (cp_description p) (cp_symbols p) ids vs
       (cp_initial_usd p) db = (Inr sid, be_core s2)"
    and g: "give_balances env sid ids caller p (all_groups bots) s2 = (Inr (), s3)" and core: "be_core s' = be_core s3"
    by (rule perform_create_Inr [OF assms(3,1)])
  note cr = create_server_Inr [OF c reachable_db_ok [OF db(1)]]
  have "apart_from_balances (be_core s3) = apart_from_balances (be_core s2)"
    using frame_give_balances [of "apart_from_balances (be_core s2)" env sid ids caller p "all_groups bots"] g
    unfolding frame.holds_def by (metis snd_conv)
  note same = frame_fields [OF this]
  have users: "user_named n (be_core s') = user_named n (be_core s1)" for n
    using same(3) cr(3) db(2) core by (simp add: user_named_def)
  obtain srv where srv: "server_named (cp_server_name p) (be_core s') = Some srv" "ps_server_id srv = sid" "ps_admin_id srv = caller"
    using cr(1) same(1) core by (auto simp: server_named_def)
  have "allowlist_of sid (be_core s') = ids" using cr(2) same(2) core by (simp add: allowlist_of_def)
  then have members: "set (members_of srv (be_core s')) = set (ids @ [caller])"
    using srv by (auto simp: members_of_def Let_def)
  have "db_reachable (bk_pg env) (be_core s2)" by (rule db_reachable.create_server [OF db(1) c])
  then have ok: "db_ok (be_core s')" using sch_later [OF sch_give_balances g] core by (simp add: reachable_db_ok)
  have trader: "is_trader p (be_core s') uid" if "uid \<in> set (bot_user_ids (all_groups bots))" for uid
    using make_all_bots_users [OF 1(1) assms(4) that] users by (auto simp: is_trader_def)
  have "new_balances p srv (be_core s') uid" if "uid \<in> set (ids @ [caller])" for uid
  proof -
    note r = give_balances_rows [OF g assms(2) that]
    have usd: "\<exists>a. stored uid sid ''USD'' (be_core s') = Some a \<and> (\<not> is_trader p (be_core s') uid \<longrightarrow> a = cp_initial_usd p * 10000)"
      using r(1) trader stored_row [OF ok] core by metis
    have "\<exists>a. stored uid sid x (be_core s') = Some a \<and> (\<not> is_trader p (be_core s') uid \<longrightarrow> a = 0)"
      if "x \<in> set (stock_symbols (cp_symbols p))" for x
      using r(2) [OF that] trader stored_row [OF ok] core by metis
    then show ?thesis using usd srv(2) by (force simp: new_balances_def Let_def stock_symbols_def)
  qed
  then show ?thesis using srv members 1(2) users by auto
qed

text \<open>C27 (functional). A request that creates a server leaves the order manager everything it needs: the server exists under
  its name with the caller as administrator, everyone on the allowlist of the request is a member, and
  every member has a row for USD and for each symbol, so that the balances of every later trade can be
  stored. Members who are not simulated traders start with the initial amount and nothing else.\<close>

theorem created_server_has_its_balances:
  assumes "db_reachable (bk_pg env) (be_core s)" "unordered env" "handle_create_server env req s = (Inr res, s')"
  shows "\<exists>caller body p srv. caller_of req (be_core s) = Some caller \<and>
    bk_parse env (hr_body req) = Inr (Bj_Object body) \<and> parse_create_request body = Inr p \<and>
    server_named (cp_server_name p) (be_core s') = Some srv \<and> ps_admin_id srv = pu_user_id caller \<and>
    (\<forall>n \<in> set (cp_allowlist_names p). \<exists>u. user_named n (be_core s') = Some u \<and> pu_user_id u \<in> set (members_of srv (be_core s'))) \<and>
    (\<forall>uid \<in> set (members_of srv (be_core s')). new_balances p srv (be_core s') uid)"
proof -
  obtain caller body p s1 where 1: "authorized_body env req s = (Inr (caller, body), s1)" "parse_create_request body = Inr p"
    "perform_create env caller p s1 = (Inr res, s')"
    using assms(3) by (auto simp: handle_create_server_def h_bind_Inr)
  have "db_reachable (bk_pg env) (be_core s1)" by (rule sch_later [OF sch.holds_authorized_body 1(1) assms(1)])
  from perform_create_effect [OF this assms(2) 1(3)] show ?thesis
    using authorized_body_Inr [OF 1(1)] plan_groups [OF 1(2)] 1(2) by metis
qed

end
