(* ===== verification/BackendAccess.thy ===== *)
theory BackendAccess
  imports BackendProperties
begin

text \<open>
  Who may change a server, what a change without an allowlist does, and the ports of new services.
\<close>

section \<open>The administrator\<close>

lemma select_no_fault:
  "db_faults db = [] \<Longrightarrow> run_txn pg prefix (t_select f) db = (Inr (f db), db)"
  by (simp add: run_txn_no_fault t_select_def)

lemma h_core_select:
  "db_faults (be_core s) = [] \<Longrightarrow> h_core g (run_txn pg prefix (t_select f)) s = (Inr (f (be_core s)), s)"
  by (simp add: h_core_def select_no_fault)

definition server_in_body :: "'d backend_env \<Rightarrow> http_request \<Rightarrow> string option" where
  "server_in_body env req =
     (case bk_parse env (hr_body req) of Inr (Bj_Object body) \<Rightarrow> body_string ''server_name'' body | _ \<Rightarrow> None)"

definition administers :: "'d backend_env \<Rightarrow> http_request \<Rightarrow> core_db \<Rightarrow> bool" where
  "administers env req db \<longleftrightarrow>
     (\<exists>u name srv. caller_of req db = Some u \<and> server_in_body env req = Some name \<and> server_named name db = Some srv \<and>
        ps_admin_id srv = pu_user_id u)"

lemma authenticate_no_fault:
  assumes "db_faults (be_core s) = []"
  shows "authenticate_admin env req s = (Inr (case caller_of req (be_core s) of Some u \<Rightarrow> pu_user_id u | None \<Rightarrow> - 1), s)"
  using assms
  by (auto simp: authenticate_admin_def caller_of_def h_bind_def h_attempt_def get_user_def select_no_fault user_row_of_def
      split: option.split)

lemma authorized_no_fault:
  assumes "db_faults (be_core s) = []"
  shows "(\<exists>u body. authorized_body env req s = (Inr (pu_user_id u, body), s) \<and> caller_of req (be_core s) = Some u \<and>
      bk_parse env (hr_body req) = Inr (Bj_Object body)) \<or>
    (\<exists>res. authorized_body env req s = (Inl (Respond res), s) \<and> status_of_post res \<in> {400, 401})"
  using authenticate_no_fault [OF assms, of env req]
  by (cases "caller_of req (be_core s)"; cases "bk_parse env (hr_body req)")
    (auto simp: authorized_body_def h_bind_def status_of_post_def status_or_bad_def auth_error_def error_text_def
      h_reject_def reject_def split: bj.split)

lemma not_administered:
  assumes "db_faults (be_core s) = []" "\<not> administers env req (be_core s)"
  shows "\<exists>res. administered_server env req s = (Inl (Respond res), s) \<and> status_of_post res \<in> {400, 401}"
proof -
  consider u body where "authorized_body env req s = (Inr (pu_user_id u, body), s)" "caller_of req (be_core s) = Some u"
      "bk_parse env (hr_body req) = Inr (Bj_Object body)"
    | res where "authorized_body env req s = (Inl (Respond res), s)" "status_of_post res \<in> {400, 401}"
    using authorized_no_fault [OF assms(1)] by blast
  then show ?thesis
  proof cases
    case (1 u body)
    then show ?thesis
      using assms
      by (auto simp: administered_server_def h_bind_def get_server_def h_core_select administers_def server_in_body_def
          server_row_of_def status_of_post_def status_or_bad_def auth_error_def error_text_def h_reject_def reject_def
          split: option.split Option.bind_splits)
  qed (simp add: administered_server_def h_bind_def)
qed

text \<open>C28 (safety). Only its administrator changes or removes a server: a request in any other name, or in no name, for a server
  that exists or not, is refused with status 400 or 401 and has no effect on the databases or the
  deployment server.\<close>

theorem only_the_admin_changes_a_server:
  assumes "hr_method req = Verb_post" "bk_url env (hr_target req) = Some (path, params)"
    and "path \<in> {''/configure_server'', ''/remove_server''}"
    and "db_faults (be_core s) = []" "\<not> administers env req (be_core s)"
  shows "\<exists>response. handle_session env req s = (Inr (Some response), s) \<and> hs_status response \<in> {400, 401}"
proof -
  obtain res where r: "administered_server env req s = (Inl (Respond res), s)" "status_of_post res \<in> {400, 401}"
    using not_administered [OF assms(4,5)] by blast
  have "route env path params req s = (Inr (status_of_post res, res), s)"
    using assms(1,3) r(1)
    by (auto simp: route_def route_post_def answer_def handle_configure_server_def handle_remove_server_def h_bind_def)
  then show ?thesis using assms(1,2) r(2) by (simp add: handle_session_def handle_def)
qed

lemma administered_Inr:
  assumes "db_faults (be_core s) = []" "administered_server env req s = (Inr (caller, body, name, row), s')"
  shows "s' = s" "bk_parse env (hr_body req) = Inr (Bj_Object body)" "body_string ''server_name'' body = Some name"
    "\<exists>srv. server_named name (be_core s) = Some srv \<and> ps_admin_id srv = caller"
proof -
  obtain u body0 where 1: "authorized_body env req s = (Inr (pu_user_id u, body0), s)" "caller_of req (be_core s) = Some u"
      "bk_parse env (hr_body req) = Inr (Bj_Object body0)"
    using authorized_no_fault [OF assms(1), of env req] assms(2) by (auto simp: administered_server_def h_bind_def)
  have "s' = s \<and> body0 = body \<and> caller = pu_user_id u \<and> body_string ''server_name'' body0 = Some name \<and>
      (\<exists>srv. server_named name (be_core s) = Some srv \<and> ps_admin_id srv = caller)"
    using assms 1(1)
    by (auto simp: administered_server_def h_bind_def get_server_def h_core_select server_row_of_def h_reject_def reject_def
        split: option.splits if_splits Option.bind_splits)
  then show "s' = s" "bk_parse env (hr_body req) = Inr (Bj_Object body)" "body_string ''server_name'' body = Some name"
    "\<exists>srv. server_named name (be_core s) = Some srv \<and> ps_admin_id srv = caller"
    using 1(3) by auto
qed

lemma find_map_same: "(\<And>x. P (f x) = P x) \<Longrightarrow> find P (map f xs) = map_option f (find P xs)"
  by (induction xs) auto

text \<open>C29 (error). A request that changes a server and does not mention the allowlist does not keep it, as its comment announces:
  when it succeeds the allowlist is empty and the administrator is the only member left.\<close>

theorem missing_allowlist_removes_all_members:
  assumes "db_faults (be_core s) = []" "handle_configure_server env req s = (Inr res, s')"
    and "bk_parse env (hr_body req) = Inr (Bj_Object body)" "body_names ''allowlist'' body = None"
  shows "\<exists>name srv srv'. body_string ''server_name'' body = Some name \<and> server_named name (be_core s) = Some srv \<and>
    server_named name (be_core s') = Some srv' \<and> ps_server_id srv' = ps_server_id srv \<and>
    allowlist_of (ps_server_id srv) (be_core s') = [] \<and> members_of srv' (be_core s') = [ps_admin_id srv]"
proof -
  obtain caller body' name row s1 where 1: "administered_server env req s = (Inr (caller, body', name, row), s1)"
    and 2: "(let description = (case body_string ''description'' body' of Some d \<Rightarrow> d | None \<Rightarrow> sr_description row);
         symbols = (case body_names ''active_symbols'' body' of Some ss \<Rightarrow> ss | None \<Rightarrow> sr_active_tickers row);
         allowlist_names = (case body_names ''allowlist'' body' of Some ns \<Rightarrow> ns | None \<Rightarrow> []) in
     h_bind (h_core error_text (resolve_user_ids (bk_pg env) allowlist_names)) (\<lambda>ids.
     h_bind (h_core error_text (configure_server (bk_pg env) name caller description symbols ids)) (\<lambda>_.
     h_return [(''success'', Bj_Bool True), (''server_name'', Bj_String name), (''description'', Bj_String description),
       (''active_symbols'', bj_names symbols), (''allowlist'', bj_names allowlist_names)]))) s1 = (Inr res, s')"
    using assms(2) unfolding handle_configure_server_def h_bind_Inr [of "administered_server env req"] by auto
  note a = administered_Inr [OF assms(1) 1]
  have body: "body' = body" using a(2) assms(3) by simp
  obtain srv where srv: "server_named name (be_core s) = Some srv" "ps_admin_id srv = caller" using a(4) by blast
  obtain descr symbols b where c: "configure_server (bk_pg env) name caller descr symbols [] (be_core s) = (Inr b, be_core s')"
    using 2 body assms(4) a(1) by (auto simp: Let_def handler_simps)
  let ?f = "\<lambda>t r. if ps_server_id r = ps_server_id srv then r\<lparr>ps_description := descr, ps_active_tickers := t\<rparr> else r"
  obtain t where "(be_core s)\<lparr>db_servers := map (?f t) (db_servers (be_core s)),
      db_allowlist := filter (\<lambda>a. pa_server_id a \<noteq> ps_server_id srv) (db_allowlist (be_core s))\<rparr> = be_core s'"
    using configure_server_cases [OF assms(1) c] srv by (auto simp: t_return_def)
  note db' = this [symmetric]
  have "server_named name (be_core s') = Some (?f t srv)"
    using srv(1) by (simp add: db' server_named_def find_map_same [of "\<lambda>r. ps_server_name r = name" "?f t"])
  moreover have al: "allowlist_of (ps_server_id srv) (be_core s') = []" by (auto simp: db' allowlist_of_def filter_empty_conv)
  ultimately show ?thesis
    using srv a(3) body by (intro exI [of _ name] exI [of _ srv] exI [of _ "?f t srv"]) (simp add: members_of_def)
qed

section \<open>Ports\<close>

lemma next_port_free: "next_port used c \<notin> set used" "c \<le> next_port used c"
  "c \<le> q \<Longrightarrow> q < next_port used c \<Longrightarrow> q \<in> set used"
proof (induction used c rule: next_port.induct)
  case (1 used c)
  {
    case 1
    then show ?case using "1.IH" by (subst next_port.simps) simp
  next
    case 2
    then show ?case using "1.IH"(2) by (subst next_port.simps) auto
  next
    case 3
    then show ?case using "1.IH"(3) by (cases "q = c") (subst (asm) next_port.simps, auto split: if_splits)+
  }
qed

text \<open>C30 (bounds). The five services of a new server get distinct ports that no service on the machine uses, the lowest free
  ones from 10001 on: none is skipped, and none is beyond 10005 plus the number of services.\<close>

theorem new_services_get_the_lowest_free_ports:
  fixes used :: "int list"
  shows "let ps = map si_port (service_insert_rows machine_id (take_ports used)) in
    sorted_wrt (<) ps \<and> set ps \<inter> set used = {} \<and> set ps \<subseteq> {10001..10005 + int (length used)} \<and>
    {10001..last ps} \<subseteq> set used \<union> set ps"
proof -
  define p1 p2 p3 p4 p5 where ps: "p1 = next_port used 10001" "p2 = next_port (p1 # used) (p1 + 1)"
    "p3 = next_port (p2 # p1 # used) (p2 + 1)" "p4 = next_port (p3 # p2 # p1 # used) (p3 + 1)"
    "p5 = next_port (p4 # p3 # p2 # p1 # used) (p4 + 1)"
  have eq: "map si_port (service_insert_rows machine_id (take_ports used)) = [p1, p2, p3, p4, p5]"
    by (simp add: service_insert_rows_def take_ports_def take_next_available_port_def Let_def kMinUnreservedPort_def ps)
  have order: "10001 \<le> p1" "p1 < p2" "p2 < p3" "p3 < p4" "p4 < p5"
    using next_port_free(2) [of 10001 used] next_port_free(2) [of "p1 + 1" "p1 # used"]
      next_port_free(2) [of "p2 + 1" "p2 # p1 # used"] next_port_free(2) [of "p3 + 1" "p3 # p2 # p1 # used"]
      next_port_free(2) [of "p4 + 1" "p4 # p3 # p2 # p1 # used"] by (simp_all add: ps)
  have free: "{p1, p2, p3, p4, p5} \<inter> set used = {}"
    using next_port_free(1) [of used 10001] next_port_free(1) [of "p1 # used" "p1 + 1"]
      next_port_free(1) [of "p2 # p1 # used" "p2 + 1"] next_port_free(1) [of "p3 # p2 # p1 # used" "p3 + 1"]
      next_port_free(1) [of "p4 # p3 # p2 # p1 # used" "p4 + 1"] by (simp add: ps)
  have "q \<in> set used \<union> {p1, p2, p3, p4, p5}" if q: "10001 \<le> q" "q \<le> p5" for q
  proof -
    consider "q < p1" | "q = p1" | "p1 + 1 \<le> q" "q < p2" | "q = p2" | "p2 + 1 \<le> q" "q < p3" | "q = p3"
      | "p3 + 1 \<le> q" "q < p4" | "q = p4" | "p4 + 1 \<le> q" "q < p5" | "q = p5" using q(2) by linarith
    moreover note next_port_free(3) [of 10001 q used, folded ps] next_port_free(3) [of "p1 + 1" q "p1 # used", folded ps]
      next_port_free(3) [of "p2 + 1" q "p2 # p1 # used", folded ps] next_port_free(3) [of "p3 + 1" q "p3 # p2 # p1 # used", folded ps]
      next_port_free(3) [of "p4 + 1" q "p4 # p3 # p2 # p1 # used", folded ps]
    ultimately show ?thesis using q(1) by cases auto
  qed
  then have all: "{10001..p5} \<subseteq> set used \<union> {p1, p2, p3, p4, p5}"
    by (meson atLeastAtMost_iff subsetI)
  have "int (card {10001..p5}) \<le> int (length used) + 5"
  proof -
    have "card {10001..p5} \<le> card (set (used @ [p1, p2, p3, p4, p5]))" by (rule card_mono) (use all in auto)
    also have "\<dots> \<le> length (used @ [p1, p2, p3, p4, p5])" by (rule card_length)
    finally show ?thesis by (simp add: nat_le_iff)
  qed
  then have "p5 \<le> 10005 + int (length used)" using order by simp
  then show ?thesis using order free all by (auto simp: eq Let_def)
qed

end
