(* ===== verification/BackendDemo.thy ===== *)
theory BackendDemo
  imports BackendAccess
begin

text \<open>
  One backend with a small database and a deployment server that accepts everything, on which the
  theorems about requests are applied.
\<close>

definition demo_body :: bj_object where
  "demo_body =
     [(''server_name'', Bj_String ''y''), (''active_symbols'', bj_names [''GME'']), (''allowlist'', bj_names [''BOB'']),
      (''initial_usd'', Bj_Int 500)]"

definition demo_backend_env :: "unit backend_env" where
  "demo_backend_env =
     \<lparr>bk_pg = demo_pg, bk_url = (\<lambda>target. Some (target, [])),
      bk_parse = (\<lambda>s. if s = ''create'' then Inr (Bj_Object demo_body)
                     else if s = ''change'' then Inr (Bj_Object [(''server_name'', Bj_String ''x'')])
                     else Inr (Bj_Object [(''status'', Bj_String ''deployed'')])),
      bk_serialize = (\<lambda>_. ''{}''), bk_post = (\<lambda>_ _ _ _ d. (Inr (200, ''ok''), d)),
      bk_order_ids = rev, bk_order_symbols = rev\<rparr>"

definition demo_backend :: "core_db \<Rightarrow> unit backend" where
  "demo_backend db = \<lparr>be_core = db, be_quest = \<lparr>qs_tables = Map.empty, qs_faults = []\<rparr>, be_net = ()\<rparr>"

definition demo_request :: "string \<Rightarrow> string \<Rightarrow> string \<Rightarrow> http_request" where
  "demo_request target user_name body =
     \<lparr>hr_method = Verb_post, hr_target = target, hr_authorization = Some (''Bearer '' @ user_name), hr_body = body\<rparr>"


definition demo_plan :: create_plan where
  "demo_plan =
     \<lparr>cp_server_name = ''y'', cp_description = [], cp_initial_usd = 500, cp_symbols = [''GME''], cp_allowlist_names = [''BOB''],
      cp_bot_configs = [\<lparr>bc_service_name = ''mm'', bc_groups = [empty_group (mm_spec 500)]\<rparr>,
        \<lparr>bc_service_name = ''nt'', bc_groups = [empty_group (nt_spec 500)]\<rparr>, \<lparr>bc_service_name = ''it'', bc_groups = [empty_group it_spec]\<rparr>],
      cp_oracle = default_oracle_deploy_config\<rparr>"

lemma demo_plan: "parse_create_request demo_body = Inr demo_plan"
  by (simp add: parse_create_request_def demo_body_def body_string_def is_server_name_valid_def kServerNameMaxLength_def
      is_alnum_def body_names_def bj_names_def bj_strings_def parse_initial_usd_def optional_def int_max_def cbind_def
      parse_bots_def parse_bot_config_def parse_oracle_def Let_def map_filter_simps demo_plan_def mm_spec_def nt_spec_def it_spec_def)

lemma demo_deploy: "deploy_service demo_backend_env ip name service_name params s = (Inr (), s)"
  by (simp add: deploy_service_def deployment_call_def demo_backend_env_def Let_def body_string_def)

lemma demo_deploy_services: "deploy_services demo_backend_env demo_plan ip ports names bots s = (Inr (), s)"
proof -
  have each: "h_each f xs s = (Inr (), s)" if "\<And>x s. f x s = (Inr (), s)" for f :: "'x \<Rightarrow> (unit, unit) handler" and xs s
    using that by (induction xs) (simp_all add: h_bind_def)
  show ?thesis by (simp add: deploy_services_def deploy_bots_def Let_def h_bind_def demo_deploy each)
qed

lemma demo_bots: "make_all_bots demo_backend_env (cp_bot_configs demo_plan) s = (Inr (cp_bot_configs demo_plan), s)"
  by (simp add: demo_plan_def h_bind_def empty_group_def)

lemma demo_names: "all_allowlist_names demo_plan (cp_bot_configs demo_plan) = [''BOB'']"
  by (simp add: all_allowlist_names_def all_groups_def demo_plan_def empty_group_def add_names_def)

lemma demo_pg_of: "bk_pg demo_backend_env = demo_pg"
  by (simp add: demo_backend_env_def)

lemma demo_resolve: "resolve_user_ids demo_pg [''BOB''] demo_db = (Inr [2], demo_db)"
  by (simp add: get_user_def run_txn_def t_select_def demo_db_eq empty_db_def user_named_def user_row_of_def)

lemma demo_ports: "take_ports [] = \<lparr>pp_mdp = 10001, pp_me = 10002, pp_oms = 10003, pp_gateway = 10004, pp_oracle = 10005\<rparr>"
  by (simp add: take_ports_def take_next_available_port_def next_port.simps kMinUnreservedPort_def)

definition demo_machine :: pg_machine where
  "demo_machine = \<lparr>pm_machine_id = 1, pm_machine_name = ''localhost'', pm_ip = ''127.0.0.1''\<rparr>"

lemma demo_new_db:
  "create_server_with_services demo_pg ''y'' 1 [] [''GME''] [2] (service_insert_rows 1 (take_ports [])) 500 demo_db =
     (Inr 1, demo_db\<lparr>db_next_server_id := 2, db_servers := [new_server_row demo_db ''y'' 1 [] [''GME''] 500],
        db_allowlist := [\<lparr>pa_server_id = 1, pa_user_id = 2\<rparr>],
        db_services := service_rows 1 (service_insert_rows 1 (take_ports []))\<rparr>)"
proof -
  have "arrays_agree demo_pg [''GME'']"
    using parse_build [of "[''GME'']"] by (simp add: arrays_agree_def demo_pg_def plain_def)
  moreover have "services_fit demo_db (service_insert_rows 1 (take_ports []))"
    by (simp add: services_fit_def service_insert_rows_def demo_ports demo_db_eq empty_db_def)
  ultimately have "create_server_with_services demo_pg ''y'' 1 [] [''GME''] [2] (service_insert_rows 1 (take_ports [])) 500 demo_db =
    (let sid = db_next_server_id demo_db in
     (Inr sid, demo_db\<lparr>db_next_server_id := sid + 1,
        db_servers := db_servers demo_db @ [new_server_row demo_db ''y'' 1 [] [''GME''] 500],
        db_allowlist := db_allowlist demo_db @ map (\<lambda>uid. \<lparr>pa_server_id = sid, pa_user_id = uid\<rparr>) [2],
        db_services := db_services demo_db @ service_rows sid (service_insert_rows 1 (take_ports []))\<rparr>))"
    by (intro create_server_effect reachable_db_ok [OF demo_db_reachable]) (simp_all add: demo_db_eq empty_db_def fits_def)
  then show ?thesis by (simp add: Let_def demo_db_eq empty_db_def)
qed

lemma demo_rows:
  "\<exists>s1. create_rows demo_backend_env demo_plan 1 [2] demo_machine (take_ports []) (cp_bot_configs demo_plan) (demo_backend demo_db) = (Inr 1, s1)"
proof -
  let ?db = "demo_db\<lparr>db_next_server_id := 2, db_servers := [new_server_row demo_db ''y'' 1 [] [''GME''] 500],
        db_allowlist := [\<lparr>pa_server_id = 1, pa_user_id = 2\<rparr>],
        db_services := service_rows 1 (service_insert_rows 1 (take_ports []))\<rparr>"
  have ins: "h_core error_text (insert_balance demo_pg uid 1 x b) (demo_backend (?db\<lparr>db_balances := bs\<rparr>)) =
      (Inr (), demo_backend (?db\<lparr>db_balances := bs @ [balance_row uid 1 x b]\<rparr>))"
    if "uid = 1 \<or> uid = 2" "length x \<le> 10" "\<forall>r \<in> set bs. \<not> balance_key uid 1 x r" for uid x b bs
    using that
    by (auto simp: h_core_def insert_balance_def run_txn_def Let_def insert_balance_row_def txn_defs has_balance_def
        user_with_id_def server_with_id_def demo_db_eq empty_db_def new_server_row_def balance_row_def demo_backend_def)
  have c: "h_core error_text (create_server_with_services demo_pg ''y'' 1 [] [''GME''] [2] (service_insert_rows 1 (take_ports [])) 500)
      (demo_backend demo_db) = (Inr 1, demo_backend (?db\<lparr>db_balances := []\<rparr>))"
    by (simp add: h_core_def demo_backend_def demo_new_db) (simp add: demo_db_eq empty_db_def)
  have groups: "all_groups (cp_bot_configs demo_plan) = [empty_group (mm_spec 500), empty_group (nt_spec 500), empty_group it_spec]"
    by (simp add: all_groups_def demo_plan_def)
  have plan: "cp_server_name demo_plan = ''y''" "cp_description demo_plan = []" "cp_symbols demo_plan = [''GME'']"
    "cp_initial_usd demo_plan = 500" "pm_machine_id demo_machine = 1" by (simp_all add: demo_plan_def demo_machine_def)
  have orders: "bk_order_ids demo_backend_env = rev" "bk_order_symbols demo_backend_env = rev" by (simp_all add: demo_backend_env_def)
  have keys: "balance_key u s x (balance_row u' s' x' b) \<longleftrightarrow> u' = u \<and> s' = s \<and> x' = x" for u s x u' s' x' b
    by (simp add: balance_key_def balance_row_def)
  show ?thesis
    unfolding create_rows_def h_bind_def demo_pg_of plan c
    by (simp add: give_balances_def give_usd_def give_nothing_def give_bots_def h_bind_def demo_pg_of plan groups orders ins keys
        initial_usd_by_user_id_def non_bot_user_ids_def bot_user_ids_def empty_group_def stock_symbols_def)
qed

lemma demo_install:
  "\<exists>res s'. install_server demo_backend_env 1 demo_plan (cp_bot_configs demo_plan) [''BOB''] [2] demo_machine (demo_backend demo_db) = (Inr res, s')"
proof -
  have q: "h_core error_text (query_services demo_pg (pm_machine_name demo_machine)) (demo_backend demo_db) = (Inr [], demo_backend demo_db)"
    by (simp add: h_core_def query_services_def run_txn_def t_select_def demo_backend_def demo_db_eq empty_db_def List.map_filter_def)
  have groups: "bot_user_ids (all_groups (cp_bot_configs demo_plan)) = []"
    by (simp add: bot_user_ids_def all_groups_def demo_plan_def empty_group_def)
  obtain s1 where r: "create_rows demo_backend_env demo_plan 1 [2] demo_machine (take_ports []) (cp_bot_configs demo_plan) (demo_backend demo_db) = (Inr 1, s1)"
    using demo_rows by blast
  show ?thesis
    unfolding install_server_def h_bind_def demo_pg_of q
    by (simp add: Let_def r demo_deploy_services h_quest_def split: prod.split)
qed

lemma demo_create: "\<exists>res s'. handle_create_server demo_backend_env (demo_request ''/create_server'' ''ALICE'' ''create'') (demo_backend demo_db) = (Inr res, s')"
proof -
  let ?req = "demo_request ''/create_server'' ''ALICE'' ''create''"
  have "caller_of ?req demo_db = Some \<lparr>pu_user_id = 1, pu_username = ''ALICE'', pu_password = ''a''\<rparr>"
    by (simp add: caller_of_def demo_request_def user_named_def demo_db_eq)
  then have a: "authorized_body demo_backend_env ?req (demo_backend demo_db) = (Inr (1, demo_body), demo_backend demo_db)"
    using authenticate_no_fault [of "demo_backend demo_db" demo_backend_env ?req]
    by (simp add: authorized_body_def h_bind_def demo_backend_def demo_db_eq empty_db_def)
      (simp add: demo_backend_env_def demo_request_def)
  have m: "h_core error_text (query_machines demo_pg) (demo_backend demo_db) = (Inr [demo_machine], demo_backend demo_db)"
    by (simp add: h_core_def query_machines_def run_txn_def t_select_def demo_backend_def demo_db_eq empty_db_def demo_machine_def)
  have r: "h_core error_text (resolve_user_ids demo_pg [''BOB'']) (demo_backend demo_db) = (Inr [2], demo_backend demo_db)"
    by (simp add: h_core_def demo_backend_def demo_resolve del: resolve_user_ids.simps)
  show ?thesis
    unfolding handle_create_server_def h_bind_def a
    using demo_install by (simp add: demo_plan perform_create_def Let_def h_bind_def demo_bots demo_names demo_pg_of r m)
qed

theorem created_server_has_its_balances_witness:
  "\<exists>res s' srv. handle_create_server demo_backend_env (demo_request ''/create_server'' ''ALICE'' ''create'') (demo_backend demo_db) = (Inr res, s') \<and>
     server_named ''y'' (be_core s') = Some srv \<and> ps_admin_id srv = 1 \<and>
     (\<forall>uid \<in> set (members_of srv (be_core s')). new_balances demo_plan srv (be_core s') uid)"
proof -
  let ?req = "demo_request ''/create_server'' ''ALICE'' ''create''"
  obtain res s' where c: "handle_create_server demo_backend_env ?req (demo_backend demo_db) = (Inr res, s')"
    using demo_create by blast
  have "db_reachable (bk_pg demo_backend_env) (be_core (demo_backend demo_db))"
    by (simp add: demo_pg_of demo_backend_def demo_db_reachable)
  moreover have "unordered demo_backend_env" by (simp add: unordered_def demo_backend_env_def)
  ultimately obtain caller body p srv where 1: "caller_of ?req (be_core (demo_backend demo_db)) = Some caller"
    "bk_parse demo_backend_env (hr_body ?req) = Inr (Bj_Object body)" "parse_create_request body = Inr p"
    "server_named (cp_server_name p) (be_core s') = Some srv" "ps_admin_id srv = pu_user_id caller"
    "\<forall>uid \<in> set (members_of srv (be_core s')). new_balances p srv (be_core s') uid"
    using created_server_has_its_balances [OF _ _ c] by blast
  have "body = demo_body" using 1(2) by (simp add: demo_backend_env_def demo_request_def)
  then have "p = demo_plan" using 1(3) demo_plan by simp
  moreover have "pu_user_id caller = 1"
    using 1(1) by (simp add: caller_of_def demo_request_def user_named_def demo_db_eq demo_backend_def) (metis pg_user.select_convs(1))
  ultimately show ?thesis using c 1(4-6) by (intro exI conjI) (auto simp: demo_plan_def)
qed
section \<open>Access\<close>

lemma demo_change_callers:
  "caller_of (demo_request target ''ALICE'' ''change'') demo_server_db = Some \<lparr>pu_user_id = 1, pu_username = ''ALICE'', pu_password = ''a''\<rparr>"
  "caller_of (demo_request target ''BOB'' ''change'') demo_server_db = Some \<lparr>pu_user_id = 2, pu_username = ''BOB'', pu_password = ''b''\<rparr>"
  "bk_parse demo_backend_env (hr_body (demo_request target user_name ''change'')) = Inr (Bj_Object [(''server_name'', Bj_String ''x'')])"
  by (simp_all add: caller_of_def demo_request_def user_named_def demo_server_db_eq demo_db_eq demo_backend_env_def)

theorem only_the_admin_changes_a_server_witness:
  "\<not> administers demo_backend_env (demo_request ''/remove_server'' ''BOB'' ''change'') demo_server_db \<and>
   (\<exists>response. handle_session demo_backend_env (demo_request ''/remove_server'' ''BOB'' ''change'') (demo_backend demo_server_db) =
      (Inr (Some response), demo_backend demo_server_db) \<and> hs_status response \<in> {400, 401})"
proof -
  let ?req = "demo_request ''/remove_server'' ''BOB'' ''change''"
  have a: "\<not> administers demo_backend_env ?req demo_server_db"
    using demo_server_facts(2) by (auto simp: administers_def server_in_body_def demo_change_callers body_string_def demo_server_row_def)
  have core: "be_core (demo_backend demo_server_db) = demo_server_db" by (simp add: demo_backend_def)
  have "\<exists>response. handle_session demo_backend_env ?req (demo_backend demo_server_db) =
      (Inr (Some response), demo_backend demo_server_db) \<and> hs_status response \<in> {400, 401}"
    by (rule only_the_admin_changes_a_server [of _ _ "''/remove_server''" "[]"])
      (use a demo_server_facts(1) in \<open>simp_all add: core\<close>, simp_all add: demo_request_def demo_backend_env_def)
  with a show ?thesis by blast
qed

lemma demo_configure:
  "\<exists>res s'. handle_configure_server demo_backend_env (demo_request ''/configure_server'' ''ALICE'' ''change'') (demo_backend demo_server_db) = (Inr res, s')"
proof -
  let ?req = "demo_request ''/configure_server'' ''ALICE'' ''change''"
  let ?s = "demo_backend demo_server_db"
  have f: "db_faults (be_core ?s) = []" using demo_server_facts(1) by (simp add: demo_backend_def)
  have core: "be_core ?s = demo_server_db" by (simp add: demo_backend_def)
  obtain row where row: "server_row_of demo_pg demo_server_db demo_server_row = Some row" "sr_admin_id row = 1"
    "sr_active_tickers row = [''GME'', ''IBM'']" "sr_description row = ''demo''"
    using demo_arrays
    by (simp add: server_row_of_def user_with_id_def demo_server_db_eq demo_db_eq demo_server_row_def tickers_of_def
        arrays_agree_def parse_build plain_def)
  have a: "authorized_body demo_backend_env ?req ?s = (Inr (1, [(''server_name'', Bj_String ''x'')]), ?s)"
    using authenticate_no_fault [OF f, of demo_backend_env ?req]
    by (simp add: authorized_body_def h_bind_def core demo_change_callers)
  have g: "h_core internal_error (get_server demo_pg ''x'') ?s = (Inr (Some row), ?s)"
    using f by (simp add: get_server_def h_core_select core demo_server_facts(2) row(1))
  have adm: "administered_server demo_backend_env ?req ?s = (Inr (1, [(''server_name'', Bj_String ''x'')], ''x'', row), ?s)"
    unfolding administered_server_def h_bind_def a by (simp add: body_string_def demo_pg_of h_bind_def g row(2))
  have "\<exists>db'. configure_server demo_pg ''x'' 1 ''demo'' [''GME'', ''IBM''] [] demo_server_db = (Inr True, db')"
    using demo_server_facts demo_arrays
    by (simp add: configure_server_def run_txn_no_fault txn_defs cast_array_def arrays_agree_def fits_def demo_server_row_def
        delete_allow_rows_def)
  then obtain db' where "configure_server demo_pg ''x'' 1 ''demo'' [''GME'', ''IBM''] [] demo_server_db = (Inr True, db')" by blast
  then have c: "h_core error_text (configure_server demo_pg ''x'' 1 ''demo'' [''GME'', ''IBM''] []) ?s = (Inr True, demo_backend db')"
    by (simp add: h_core_def demo_backend_def)
  have n: "h_core error_text (resolve_user_ids demo_pg []) ?s = (Inr [], ?s)" by (simp add: h_core_def)
  show ?thesis
    unfolding handle_configure_server_def h_bind_def adm
    by (simp add: Let_def h_bind_def body_string_def body_names_def row demo_pg_of n c)
qed

theorem missing_allowlist_removes_all_members_witness:
  "\<exists>res s' srv'. handle_configure_server demo_backend_env (demo_request ''/configure_server'' ''ALICE'' ''change'') (demo_backend demo_server_db) = (Inr res, s') \<and>
     allowlist_of 1 demo_server_db = [2] \<and> allowlist_of 1 (be_core s') = [] \<and>
     server_named ''x'' (be_core s') = Some srv' \<and> members_of srv' (be_core s') = [1]"
proof -
  let ?req = "demo_request ''/configure_server'' ''ALICE'' ''change''"
  obtain res s' where c: "handle_configure_server demo_backend_env ?req (demo_backend demo_server_db) = (Inr res, s')"
    using demo_configure by blast
  have core: "be_core (demo_backend demo_server_db) = demo_server_db" by (simp add: demo_backend_def)
  have n: "body_names ''allowlist'' [(''server_name'', Bj_String ''x'')] = None" by (simp add: body_names_def)
  obtain name srv srv' where "body_string ''server_name'' [(''server_name'', Bj_String ''x'')] = Some name"
    "server_named name demo_server_db = Some srv" "server_named name (be_core s') = Some srv'"
    "allowlist_of (ps_server_id srv) (be_core s') = []" "members_of srv' (be_core s') = [ps_admin_id srv]"
    using missing_allowlist_removes_all_members [OF _ c demo_change_callers(3) n] demo_server_facts(1) by (auto simp: core)
  then show ?thesis
    using c demo_server_facts(2)
    by (intro exI [of _ res] exI [of _ s'] exI [of _ srv'])
      (auto simp: body_string_def demo_server_row_def allowlist_of_def demo_server_db_eq)
qed

end
