(* ===== verification/UatSeeder.thy ===== *)
theory UatSeeder
  imports BackendCreate
begin

text \<open>
  The test data of \<open>services/backend_service/uat_seeder.h\<close>: \<open>seed\<close>, which fills both databases when the
  backend starts in UAT mode, and \<open>cleanup\<close>, which is to remove what \<open>seed\<close> wrote when it stops.

  The clock and the draws of the random walk are arguments, one \<open>uat_draw\<close> for each trade of a symbol.
  \<open>opened\<close> and \<open>flushed\<close> say whether the QuestDB connection opens and the flush succeeds; an exception
  of either is caught. \<open>SERVER_NAME\<close> is the constant the backend is compiled with.
\<close>

section \<open>State\<close>

record uat_state =
  ua_core :: core_db
  ua_quest :: quest_db
  ua_user_ids :: "int list"
  ua_server_ids :: "int list"

section \<open>Users, server and balances\<close>

definition uat_users :: "(string \<times> string) list" where
  "uat_users = [(''uat_admin'', ''uat_pass''), (''uat_trader1'', ''uat_pass''), (''uat_trader2'', ''uat_pass'')]"

definition uat_symbols :: "string list" where
  "uat_symbols = [''AAPL'', ''GOOGL'', ''TSLA'']"

text \<open>The dash of the description is one character of three bytes.\<close>

definition uat_description :: string where
  "uat_description = ''UAT Test Server '' @ [CHR 0xE2, CHR 0x80, CHR 0x94] @ '' auto-generated for frontend testing''"

text \<open>A user that cannot be created is looked up; the ids found so far stay recorded if that fails too.\<close>

fun seed_users :: "pg_env \<Rightarrow> (string \<times> string) list \<Rightarrow> int list \<Rightarrow> core_db \<Rightarrow> bool \<times> int list \<times> core_db" where
  "seed_users pg [] ids db = (True, ids, db)"
| "seed_users pg (u # us) ids db =
     (case create_user pg (fst u) (snd u) db of
        (Inr r, db1) \<Rightarrow> seed_users pg us (ids @ [ur_user_id r]) db1
      | (Inl _, db1) \<Rightarrow>
          (case get_user pg (fst u) db1 of
             (Inr (Some r), db2) \<Rightarrow> seed_users pg us (ids @ [ur_user_id r]) db2
           | (_, db2) \<Rightarrow> (False, ids, db2)))"

definition seed_server :: "pg_env \<Rightarrow> int \<Rightarrow> int list \<Rightarrow> core_db \<Rightarrow> int option \<times> core_db" where
  "seed_server pg admin_id allowlist db =
     (case create_server pg ''UAT_Server'' admin_id uat_description uat_symbols allowlist 100000 db of
        (Inr sid, db1) \<Rightarrow> (Some sid, db1)
      | (Inl _, db1) \<Rightarrow>
          (case get_server pg ''UAT_Server'' db1 of
             (Inr (Some srv), db2) \<Rightarrow> (Some (sr_server_id srv), db2)
           | (_, db2) \<Rightarrow> (None, db2)))"

definition uat_balances :: "int \<Rightarrow> int \<Rightarrow> int \<Rightarrow> (int \<times> string \<times> int) list" where
  "uat_balances admin_id trader1_id trader2_id =
     [(admin_id, ''USD'', 100000), (admin_id, ''AAPL'', 50), (admin_id, ''GOOGL'', 30), (admin_id, ''TSLA'', 20),
      (trader1_id, ''USD'', 85000), (trader1_id, ''AAPL'', 100), (trader1_id, ''GOOGL'', 0), (trader1_id, ''TSLA'', 40),
      (trader2_id, ''USD'', 90000), (trader2_id, ''AAPL'', 0), (trader2_id, ''GOOGL'', 60), (trader2_id, ''TSLA'', 15)]"

text \<open>Every balance, of shares too, is multiplied by ten thousand; a failed insertion is only reported.\<close>

fun seed_balances :: "pg_env \<Rightarrow> int \<Rightarrow> (int \<times> string \<times> int) list \<Rightarrow> core_db \<Rightarrow> core_db" where
  "seed_balances pg server_id [] db = db"
| "seed_balances pg server_id (b # bs) db =
     seed_balances pg server_id bs
       (snd (insert_balance pg (fst b) server_id (fst (snd b))
          (snd (snd b) * (balance_multiplier * balance_multiplier)) db))"

section \<open>Trades\<close>

record symbol_config =
  sc_sym :: string
  sc_base_price :: rat
  sc_volatility :: rat
  sc_min_price :: int

record uat_draw =
  ud_step :: rat
  ud_jitter :: int
  ud_quantity :: int

definition sym_cfg :: "symbol_config list" where
  "sym_cfg =
     [\<lparr>sc_sym = ''AAPL'', sc_base_price = 17000, sc_volatility = 30, sc_min_price = 15000\<rparr>,
      \<lparr>sc_sym = ''GOOGL'', sc_base_price = 280000, sc_volatility = 400, sc_min_price = 250000\<rparr>,
      \<lparr>sc_sym = ''TSLA'', sc_base_price = 22000, sc_volatility = 80, sc_min_price = 18000\<rparr>]"

definition two_hours_us :: int where
  "two_hours_us = 2 * 60 * 60 * 1000000"

definition n_trades :: nat where
  "n_trades = 200"

definition step_us :: int where
  "step_us = two_hours_us div int n_trades"

definition uat_trade_row :: "string \<Rightarrow> int \<Rightarrow> int \<Rightarrow> int \<Rightarrow> int \<Rightarrow> int \<Rightarrow> q_row" where
  "uat_trade_row symbol price quantity trade_id i ts_us =
     \<lparr>qr_table = ''trades'',
      qr_values =
        [(''symbol'', Q_Str symbol), (''price'', Q_Int price), (''quantity'', Q_Int quantity), (''trade_id'', Q_Int trade_id),
         (''taker_id'', Q_Int 1), (''maker_id'', Q_Int 2), (''taker_order_id'', Q_Int (i + 1)),
         (''maker_order_id'', Q_Int (i + 1000)), (''is_taker_buyer'', Q_Bool (even i))],
      qr_micros = ts_us\<rparr>"

text \<open>The loop over the trades of one symbol, with the number of trades still to come.\<close>

fun random_walk :: "symbol_config \<Rightarrow> (nat \<Rightarrow> uat_draw) \<Rightarrow> nat \<Rightarrow> nat \<Rightarrow> int \<Rightarrow> rat \<Rightarrow> int \<Rightarrow> q_row list result" where
  "random_walk sc draws i 0 trade_id price ts_us = Inr []"
| "random_walk sc draws i (Suc n) trade_id price ts_us =
     (let price' = max (of_int (sc_min_price sc)) (dbl_add price (ud_step (draws i))) in
      rbind (i64 (step_us + ud_jitter (draws i))) (\<lambda>dt.
      rbind (i64 (ts_us + dt)) (\<lambda>ts'.
      rbind (llround price') (\<lambda>p.
      rbind (random_walk sc draws (Suc i) n (trade_id + 1) price' ts') (\<lambda>rows.
      Inr (uat_trade_row (sc_sym sc) p (ud_quantity (draws i)) trade_id (int i) ts' # rows))))))"

fun walk_symbols :: "string list \<Rightarrow> (symbol_config \<Rightarrow> nat \<Rightarrow> uat_draw) \<Rightarrow> int \<Rightarrow> symbol_config list \<Rightarrow> int \<Rightarrow> q_row list result" where
  "walk_symbols symbols draws now_us [] trade_id = Inr []"
| "walk_symbols symbols draws now_us (sc # scs) trade_id =
     (if sc_sym sc \<notin> set symbols then walk_symbols symbols draws now_us scs trade_id
      else
        rbind (i64 (now_us - two_hours_us)) (\<lambda>ts_us.
        rbind (random_walk sc (draws sc) 0 n_trades trade_id (sc_base_price sc) ts_us) (\<lambda>rows.
        rbind (walk_symbols symbols draws now_us scs (trade_id + int n_trades)) (\<lambda>more.
        Inr (rows @ more)))))"

definition seed_trades ::
  "bool \<Rightarrow> bool \<Rightarrow> int \<Rightarrow> (symbol_config \<Rightarrow> nat \<Rightarrow> uat_draw) \<Rightarrow> string list \<Rightarrow> quest_db \<Rightarrow> quest_db result" where
  "seed_trades opened flushed now_us draws symbols q =
     (if \<not> opened then Inr q
      else
        rbind (walk_symbols symbols draws now_us sym_cfg 10000) (\<lambda>rows.
        Inr (if flushed then fold ingest_row rows q else q)))"

section \<open>Seeding and cleaning up\<close>

definition seed ::
  "pg_env \<Rightarrow> bool \<Rightarrow> bool \<Rightarrow> int \<Rightarrow> (symbol_config \<Rightarrow> nat \<Rightarrow> uat_draw) \<Rightarrow> uat_state \<Rightarrow> (bool \<times> uat_state) result" where
  "seed pg opened flushed now_us draws s =
     (case seed_users pg uat_users (ua_user_ids s) (ua_core s) of
        (False, ids, db) \<Rightarrow> Inr (False, s\<lparr>ua_core := db, ua_user_ids := ids\<rparr>)
      | (True, ids, db) \<Rightarrow>
          (case seed_server pg (ids ! 0) [ids ! 1, ids ! 2] db of
             (None, db1) \<Rightarrow> Inr (False, s\<lparr>ua_core := db1, ua_user_ids := ids\<rparr>)
           | (Some server_id, db1) \<Rightarrow>
               rbind (seed_trades opened flushed now_us draws uat_symbols (ua_quest s)) (\<lambda>q.
               Inr (True, s\<lparr>ua_core := seed_balances pg server_id (uat_balances (ids ! 0) (ids ! 1) (ids ! 2)) db1,
                            ua_quest := q, ua_user_ids := ids, ua_server_ids := ua_server_ids s @ [server_id]\<rparr>))))"

definition cleanup :: "pg_env \<Rightarrow> string \<Rightarrow> uat_state \<Rightarrow> uat_state" where
  "cleanup pg SERVER_NAME s =
     \<lparr>ua_core = snd (delete_uat_data pg (ua_user_ids s) (ua_server_ids s) (ua_core s)),
      ua_quest = snd (truncate_orders pg SERVER_NAME (snd (truncate_trades pg SERVER_NAME (ua_quest s)))),
      ua_user_ids = [], ua_server_ids = []\<rparr>"

section \<open>Seeding an empty corner\<close>

lemma create_user_effect:
  assumes "db_faults db = []" "name \<notin> pu_username ` set (db_users db)"
  shows "create_user pg name password db =
    (Inr \<lparr>ur_user_id = db_next_user_id db, ur_username = name\<rparr>,
     db\<lparr>db_next_user_id := db_next_user_id db + 1,
        db_users := db_users db @ [\<lparr>pu_user_id = db_next_user_id db, pu_username = name, pu_password = password\<rparr>]\<rparr>)"
  unfolding create_user_def
  by (rule run_txn_commits [OF assms(1)]) (simp add: insert_user_row_def txn_defs key_lookups assms(2))

definition seeded_users :: "core_db \<Rightarrow> core_db" where
  "seeded_users db =
     db\<lparr>db_next_user_id := db_next_user_id db + 3,
        db_users := db_users db @
          [\<lparr>pu_user_id = db_next_user_id db, pu_username = ''uat_admin'', pu_password = ''uat_pass''\<rparr>,
           \<lparr>pu_user_id = db_next_user_id db + 1, pu_username = ''uat_trader1'', pu_password = ''uat_pass''\<rparr>,
           \<lparr>pu_user_id = db_next_user_id db + 2, pu_username = ''uat_trader2'', pu_password = ''uat_pass''\<rparr>]\<rparr>"

definition uat_names_free :: "core_db \<Rightarrow> bool" where
  "uat_names_free db \<longleftrightarrow>
     (\<forall>u \<in> set uat_users. fst u \<notin> pu_username ` set (db_users db)) \<and> ''UAT_Server'' \<notin> ps_server_name ` set (db_servers db)"

lemma seed_users_effect:
  assumes "db_faults db = []" "uat_names_free db"
  shows "seed_users pg uat_users [] db =
    (True, [db_next_user_id db, db_next_user_id db + 1, db_next_user_id db + 2], seeded_users db)"
  using assms by (simp add: uat_users_def create_user_effect uat_names_free_def seeded_users_def)

lemma seeded_users_ok:
  assumes "db_ok db" "db_faults db = []" "uat_names_free db"
  shows "db_ok (seeded_users db)"
proof -
  let ?db1 = "snd (create_user demo_pg ''uat_admin'' ''uat_pass'' db)"
  let ?db2 = "snd (create_user demo_pg ''uat_trader1'' ''uat_pass'' ?db1)"
  have "db_ok ?db2" by (intro create_user_ok assms(1))
  moreover have "seeded_users db = snd (create_user demo_pg ''uat_trader2'' ''uat_pass'' ?db2)"
    using assms(2,3) by (simp add: create_user_effect uat_names_free_def uat_users_def seeded_users_def)
  ultimately show ?thesis using create_user_ok by metis
qed

lemma old_rows:
  assumes "db_ok db"
  shows "u \<in> set (db_users db) \<Longrightarrow> pu_user_id u < db_next_user_id db"
    and "s \<in> set (db_servers db) \<Longrightarrow> ps_server_id s < db_next_server_id db \<and> ps_admin_id s < db_next_user_id db"
    and "a \<in> set (db_allowlist db) \<Longrightarrow> pa_server_id a < db_next_server_id db \<and> pa_user_id a < db_next_user_id db"
    and "b \<in> set (db_balances db) \<Longrightarrow> pb_server_id b < db_next_server_id db \<and> pb_user_id b < db_next_user_id db"
    and "i \<in> set (db_bot_balances db) \<Longrightarrow> pi_server_id i < db_next_server_id db \<and> pi_user_id i < db_next_user_id db"
    and "v \<in> set (db_services db) \<Longrightarrow> pv_server_id v < db_next_server_id db"
proof -
  have r: "references_hold db" and "sequences_ahead db" using assms by (simp_all add: db_ok_def)
  then have n: "uid \<in> user_ids db \<Longrightarrow> uid < db_next_user_id db" "sid \<in> server_ids db \<Longrightarrow> sid < db_next_server_id db" for uid sid
    by (auto simp: sequences_ahead_def)
  show "u \<in> set (db_users db) \<Longrightarrow> pu_user_id u < db_next_user_id db" by (simp add: n)
  show "s \<in> set (db_servers db) \<Longrightarrow> ps_server_id s < db_next_server_id db \<and> ps_admin_id s < db_next_user_id db"
    "a \<in> set (db_allowlist db) \<Longrightarrow> pa_server_id a < db_next_server_id db \<and> pa_user_id a < db_next_user_id db"
    "b \<in> set (db_balances db) \<Longrightarrow> pb_server_id b < db_next_server_id db \<and> pb_user_id b < db_next_user_id db"
    "i \<in> set (db_bot_balances db) \<Longrightarrow> pi_server_id i < db_next_server_id db \<and> pi_user_id i < db_next_user_id db"
    "v \<in> set (db_services db) \<Longrightarrow> pv_server_id v < db_next_server_id db"
    using r n unfolding references_hold_def by simp_all
qed

lemma seed_balances_effect:
  assumes "db_faults db = []" "\<forall>b \<in> set bs. fst b \<in> user_ids db \<and> length (fst (snd b)) \<le> 10 \<and> \<not> has_balance (fst b) sid (fst (snd b)) db"
    and "sid \<in> server_ids db" "distinct (map (\<lambda>b. (fst b, fst (snd b))) bs)"
  shows "seed_balances pg sid bs db = db\<lparr>db_balances := db_balances db @
    map (\<lambda>b. \<lparr>pb_user_id = fst b, pb_server_id = sid, pb_symbol = fst (snd b), pb_balance = snd (snd b) * 10000\<rparr>) bs\<rparr>"
  using assms
proof (induction bs arbitrary: db)
  case (Cons b bs)
  let ?row = "\<lparr>pb_user_id = fst b, pb_server_id = sid, pb_symbol = fst (snd b), pb_balance = snd (snd b) * 10000\<rparr>"
  let ?key = "\<lambda>b :: int \<times> string \<times> int. (fst b, fst (snd b))"
  let ?db = "db\<lparr>db_balances := db_balances db @ [?row]\<rparr>"
  have 1: "insert_balance pg (fst b) sid (fst (snd b)) (snd (snd b) * 10000) db = (Inr (), ?db)"
    unfolding insert_balance_def
    by (rule run_txn_commits [OF Cons.prems(1)])
      (use Cons.prems(2,3) in \<open>simp add: insert_balance_row_def txn_defs key_lookups\<close>)
  have new: "has_balance (fst x) sid (fst (snd x)) ?db \<longleftrightarrow>
      has_balance (fst x) sid (fst (snd x)) db \<or> (fst x, fst (snd x)) = (fst b, fst (snd b))"
    for x :: "int \<times> string \<times> int"
    by (auto simp: has_balance_def balance_key_def)
  have k: "?key b \<notin> ?key ` set bs" "distinct (map ?key bs)"
    using Cons.prems(4) by (simp_all only: list.map distinct.simps set_map simp_thms)
  have 2: "?key x \<noteq> ?key b" if "x \<in> set bs" for x using imageI [OF that, of ?key] k(1) by metis
  have "\<forall>x \<in> set bs. fst x \<in> user_ids ?db \<and> length (fst (snd x)) \<le> 10 \<and> \<not> has_balance (fst x) sid (fst (snd x)) ?db"
    using Cons.prems(2) new 2 by simp
  then have "seed_balances pg sid bs ?db = ?db\<lparr>db_balances := db_balances ?db @
      map (\<lambda>b. \<lparr>pb_user_id = fst b, pb_server_id = sid, pb_symbol = fst (snd b), pb_balance = snd (snd b) * 10000\<rparr>) bs\<rparr>"
    using Cons.prems(1,3) k(2) by (intro Cons.IH) simp_all
  then show ?case by (simp add: 1 balance_multiplier_def)
qed simp

text \<open>What a run of \<open>seed\<close> leaves in PostgreSQL when none of its names is taken.\<close>

abbreviation new_uids :: "core_db \<Rightarrow> int list" where
  "new_uids db \<equiv> [db_next_user_id db, db_next_user_id db + 1, db_next_user_id db + 2]"

definition seeded_server :: "core_db \<Rightarrow> core_db" where
  "seeded_server db =
     (seeded_users db)\<lparr>db_next_server_id := db_next_server_id db + 1,
        db_servers := db_servers db @
          [new_server_row db ''UAT_Server'' (db_next_user_id db) uat_description uat_symbols 100000],
        db_allowlist := db_allowlist db @
          map (\<lambda>uid. \<lparr>pa_server_id = db_next_server_id db, pa_user_id = uid\<rparr>) [db_next_user_id db + 1, db_next_user_id db + 2]\<rparr>"

definition seeded :: "core_db \<Rightarrow> core_db" where
  "seeded db =
     (seeded_server db)\<lparr>db_balances := db_balances db @
        map (\<lambda>b. \<lparr>pb_user_id = fst b, pb_server_id = db_next_server_id db, pb_symbol = fst (snd b), pb_balance = snd (snd b) * 10000\<rparr>)
          (uat_balances (db_next_user_id db) (db_next_user_id db + 1) (db_next_user_id db + 2))\<rparr>"

lemma seed_server_effect:
  assumes "db_ok db" "db_faults db = []" "uat_names_free db" "arrays_agree pg uat_symbols"
  shows "seed_server pg (db_next_user_id db) [db_next_user_id db + 1, db_next_user_id db + 2] (seeded_users db) =
    (Some (db_next_server_id db), seeded_server db)"
proof -
  have "create_server pg ''UAT_Server'' (db_next_user_id db) uat_description uat_symbols
      [db_next_user_id db + 1, db_next_user_id db + 2] 100000 (seeded_users db) = (Inr (db_next_server_id db), seeded_server db)"
    unfolding create_server_def using assms(2-4)
    by (subst create_server_effect [OF seeded_users_ok [OF assms(1-3)]])
      (simp_all add: seeded_users_def seeded_server_def uat_names_free_def fits_def uat_symbols_def uat_description_def
        services_fit_def service_rows_def new_server_row_def Let_def)
  then show ?thesis by (simp add: seed_server_def)
qed

lemma seed_all_balances:
  assumes "db_ok db" "db_faults db = []"
  shows "seed_balances pg (db_next_server_id db)
      (uat_balances (db_next_user_id db) (db_next_user_id db + 1) (db_next_user_id db + 2)) (seeded_server db) = seeded db"
proof -
  have "\<not> has_balance uid (db_next_server_id db) symbol (seeded_server db)" for uid symbol
    using old_rows(4) [OF assms(1)]
    by (force simp: has_balance_def balance_key_def seeded_server_def seeded_users_def)
  then show ?thesis
    by (subst seed_balances_effect)
      (auto simp: seeded_def assms(2) uat_balances_def seeded_server_def seeded_users_def new_server_row_def)
qed

lemma delete_seeded:
  assumes "db_ok db" "db_faults db = []"
  shows "snd (delete_uat_data pg (new_uids db) [db_next_server_id db] (seeded db)) =
    db\<lparr>db_next_user_id := db_next_user_id db + 3, db_next_server_id := db_next_server_id db + 1\<rparr>"
proof -
  let ?n = "db_next_user_id db" and ?sid = "db_next_server_id db"
  note old = old_rows [OF assms(1)]
  have keep:
    "filter (\<lambda>a. pa_server_id a \<noteq> ?sid) (db_allowlist db) = db_allowlist db"
    "filter (\<lambda>x. ps_server_id x \<noteq> ?sid) (db_servers db) = db_servers db"
    "filter (\<lambda>v. pv_server_id v \<noteq> ?sid) (db_services db) = db_services db"
    "filter (\<lambda>b. pi_server_id b \<noteq> ?sid) (db_bot_balances db) = db_bot_balances db"
    "filter (\<lambda>b. pb_user_id b \<noteq> ?n \<and> pb_user_id b \<noteq> ?n + 1 \<and> pb_user_id b \<noteq> ?n + 2) (db_balances db) = db_balances db"
    "\<And>k. 0 \<le> k \<Longrightarrow> filter (\<lambda>u. pu_user_id u \<noteq> ?n + k) (db_users db) = db_users db"
    "\<And>k. 0 \<le> k \<Longrightarrow> filter (\<lambda>b. pi_user_id b \<noteq> ?n + k) (db_bot_balances db) = db_bot_balances db"
    unfolding filter_id_conv using old by force+
  have gone:
    "\<not> (\<exists>a \<in> set (db_allowlist db). pa_server_id a = ?sid)" "\<not> (\<exists>b \<in> set (db_balances db). pb_server_id b = ?sid)"
    "\<And>k. 0 \<le> k \<Longrightarrow> \<not> (\<exists>a \<in> set (db_allowlist db). pa_user_id a = ?n + k)"
    "\<And>k. 0 \<le> k \<Longrightarrow> \<not> (\<exists>b \<in> set (db_balances db). pb_user_id b = ?n + k)"
    "\<And>k. 0 \<le> k \<Longrightarrow> \<not> (\<exists>x \<in> set (db_servers db). ps_admin_id x = ?n + k)"
    using old by force+
  show ?thesis
    using keep(6,7) [of 0] gone(3-5) [of 0]
    by (auto simp: delete_uat_data_def run_txn_no_fault assms(2) seeded_def seeded_server_def seeded_users_def uat_balances_def
        delete_allow_rows_def delete_server_row_def delete_user_row_def txn_defs new_server_row_def keep gone dest: old(4))
qed

section \<open>The random walk\<close>

text \<open>
  An assumption on the draws: the jitter lies in its interval, as the uniform distribution gives it; and the
  step of the price, drawn from a normal distribution with standard deviation at most 400, is below a
  million, which the standard does not promise but a draw of 2500 deviations would be needed to miss. Prices
  then stay far below the limit of the conversion, whatever the rounding of the additions.
\<close>

definition draws_fit :: "(symbol_config \<Rightarrow> nat \<Rightarrow> uat_draw) \<Rightarrow> bool" where
  "draws_fit draws \<longleftrightarrow>
     (\<forall>sc i. \<bar>ud_step (draws sc i)\<bar> \<le> 1000000 \<and> 0 \<le> ud_jitter (draws sc i) \<and> ud_jitter (draws sc i) \<le> step_us div 4)"

definition clock_fits :: "int \<Rightarrow> bool" where
  "clock_fits now_us \<longleftrightarrow> two_hours_us \<le> now_us \<and> now_us \<le> 2 ^ 62"

lemma dbl_add_bound:
  assumes "0 \<le> p" "p \<le> 1000000000" "\<bar>d\<bar> \<le> 1000000"
  shows "dbl_add p d \<le> p + 2000000"
proof -
  have "\<bar>round_double (p + d) - (p + d)\<bar> \<le> \<bar>p + d\<bar> / 2 ^ 53" by (rule round_double_error)
  moreover have "\<bar>p + d\<bar> / 2 ^ 53 \<le> 1" using assms by simp
  ultimately show ?thesis using assms(3) unfolding dbl_add_def by linarith
qed

lemma llround_small:
  assumes "0 \<le> p" "p \<le> 1000000000"
  shows "\<exists>k. llround p = Inr k"
proof -
  have "0 \<le> \<lfloor>std_round p\<rfloor>" "\<lfloor>std_round p\<rfloor> \<le> 1000000001" using assms by (auto simp: std_round_def floor_le_iff)
  then show ?thesis by (simp add: llround_def in_i64_def)
qed

lemma random_walk_returns:
  assumes "\<And>i. \<bar>ud_step (draws i)\<bar> \<le> 1000000 \<and> 0 \<le> ud_jitter (draws i) \<and> ud_jitter (draws i) \<le> step_us div 4"
    and "0 \<le> price" "price + of_nat n * 2000000 \<le> 1000000000"
    and "0 \<le> sc_min_price sc" "of_int (sc_min_price sc) + (of_nat n :: rat) * 2000000 \<le> 1000000000"
    and "0 \<le> ts" "ts + int n * 50000000 \<le> 9000000000000000000"
  shows "\<exists>rows. random_walk sc draws i n tid price ts = Inr rows \<and> length rows = n \<and> (\<forall>r \<in> set rows. qr_table r = ''trades'')"
  using assms(2-7)
proof (induction n arbitrary: i tid price ts)
  case (Suc n)
  let ?p = "max (of_int (sc_min_price sc)) (dbl_add price (ud_step (draws i)))"
  let ?dt = "step_us + ud_jitter (draws i)"
  have dt: "0 \<le> ?dt" "?dt \<le> 50000000"
    using assms(1) [of i] by (auto simp: step_us_def two_hours_us_def n_trades_def)
  have "dbl_add price (ud_step (draws i)) \<le> price + 2000000"
    using assms(1) [of i] Suc.prems(1,2) by (intro dbl_add_bound) (auto simp: algebra_simps)
  then have p: "0 \<le> ?p" "?p + of_nat n * 2000000 \<le> 1000000000"
    using Suc.prems(2-4) by (auto simp: algebra_simps max_def)
  have "0 \<le> (of_nat n :: rat) * 2000000" by simp
  then have "?p \<le> 1000000000" using p(2) by linarith
  then obtain k where k: "llround ?p = Inr k" using llround_small p(1) by blast
  obtain rows where "random_walk sc draws (Suc i) n (tid + 1) ?p (ts + ?dt) = Inr rows" "length rows = n"
    "\<forall>r \<in> set rows. qr_table r = ''trades''"
    using Suc.IH [of ?p "ts + ?dt" "Suc i" "tid + 1"] p dt Suc.prems by (auto simp: algebra_simps)
  moreover have "in_i64 ?dt" "in_i64 (ts + ?dt)" using dt Suc.prems(5,6) by (auto simp: in_i64_def)
  ultimately show ?case using k by (simp add: Let_def uat_trade_row_def)
qed simp

lemma symbol_walk_returns:
  assumes "draws_fit draws" "clock_fits now_us" "sc \<in> set sym_cfg"
  shows "\<exists>rows. random_walk sc (draws sc) 0 n_trades tid (sc_base_price sc) (now_us - two_hours_us) = Inr rows \<and>
    length rows = n_trades \<and> (\<forall>r \<in> set rows. qr_table r = ''trades'')"
  using assms
  by (intro random_walk_returns) (auto simp: draws_fit_def clock_fits_def sym_cfg_def n_trades_def two_hours_us_def)

lemma walk_symbols_returns:
  assumes "draws_fit draws" "clock_fits now_us" "set scs \<subseteq> set sym_cfg"
  shows "\<exists>rows. walk_symbols uat_symbols draws now_us scs tid = Inr rows \<and> length rows = length scs * n_trades \<and>
    (\<forall>r \<in> set rows. qr_table r = ''trades'')"
  using assms(3)
proof (induction scs arbitrary: tid)
  case (Cons sc scs)
  have "sc_sym sc \<in> set uat_symbols" using Cons.prems by (auto simp: sym_cfg_def uat_symbols_def)
  moreover have "in_i64 (now_us - two_hours_us)" using assms(2) by (simp add: in_i64_def clock_fits_def two_hours_us_def)
  moreover obtain rows where "random_walk sc (draws sc) 0 n_trades tid (sc_base_price sc) (now_us - two_hours_us) = Inr rows"
    "length rows = n_trades" "\<forall>r \<in> set rows. qr_table r = ''trades''"
    using symbol_walk_returns [OF assms(1,2)] Cons.prems by (meson list.set_intros(1) subsetD)
  moreover obtain more where "walk_symbols uat_symbols draws now_us scs (tid + int n_trades) = Inr more"
    "length more = length scs * n_trades" "\<forall>r \<in> set more. qr_table r = ''trades''"
    using Cons.IH [of "tid + int n_trades"] Cons.prems by auto
  ultimately show ?case by auto
qed simp

section \<open>Seed and clean up\<close>

lemma ingest_trades:
  assumes "\<forall>r \<in> set rows. qr_table r = ''trades''"
    and "case qs_tables q ''trades'' of None \<Rightarrow> n = 0 | Some t \<Rightarrow> qt_dedup t = [] \<and> length (qt_rows t) = n"
    and "rows \<noteq> []"
  shows "\<exists>t. qs_tables (fold ingest_row rows q) ''trades'' = Some t \<and> length (qt_rows t) = n + length rows"
  using assms
proof (induction rows arbitrary: q n)
  case (Cons r rows)
  let ?q = "ingest_row r q"
  have q: "\<exists>t. qs_tables ?q ''trades'' = Some t \<and> qt_dedup t = [] \<and> length (qt_rows t) = Suc n"
    using Cons.prems(1,2) by (auto simp: ingest_row_def add_row_def Let_def split: option.splits)
  show ?case
  proof (cases "rows = []")
    case False
    then show ?thesis using Cons.IH [of "Suc n" ?q] q Cons.prems(1) by auto
  qed (use q in auto)
qed simp

lemma truncate_other_table:
  assumes "''trades'' \<noteq> table"
  shows "qs_tables (snd (truncate_table pg prefix table server_name q)) ''trades'' = qs_tables q ''trades''"
  using assms
  by (auto simp: truncate_table_def create_quest_tables_def run_quest_def create_table_def Let_def
      split: list.splits bool.splits option.splits if_splits)

lemma cleanup_keeps_trades: "qs_tables (ua_quest (cleanup pg SERVER_NAME s)) ''trades'' = qs_tables (ua_quest s) ''trades''"
  by (simp add: cleanup_def truncate_orders_def truncate_trades_def truncate_other_table)

lemma seed_effect:
  assumes "db_ok (ua_core s)" "db_faults (ua_core s) = []" "uat_names_free (ua_core s)" "arrays_agree pg uat_symbols"
    and "ua_user_ids s = []" "seed_trades opened flushed now_us draws uat_symbols (ua_quest s) = Inr q"
  shows "seed pg opened flushed now_us draws s =
    Inr (True, s\<lparr>ua_core := seeded (ua_core s), ua_quest := q, ua_user_ids := new_uids (ua_core s),
      ua_server_ids := ua_server_ids s @ [db_next_server_id (ua_core s)]\<rparr>)"
  unfolding seed_def by (simp add: seed_users_effect seed_server_effect seed_all_balances assms)

lemma seed_trades_returns:
  assumes "draws_fit draws" "clock_fits now_us"
  shows "\<exists>q'. seed_trades opened flushed now_us draws uat_symbols q = Inr q' \<and>
    (opened \<and> flushed \<and> qs_tables q ''trades'' = None \<longrightarrow>
      (\<exists>t. qs_tables q' ''trades'' = Some t \<and> length (qt_rows t) = 600))"
proof -
  obtain rows where r: "walk_symbols uat_symbols draws now_us sym_cfg 10000 = Inr rows"
    "length rows = length sym_cfg * n_trades" "\<forall>r \<in> set rows. qr_table r = ''trades''"
    using walk_symbols_returns [OF assms order_refl] by blast
  then have "length rows = 600" by (simp add: sym_cfg_def n_trades_def)
  then show ?thesis using r ingest_trades [of rows 0 q] by (cases rows) (auto simp: seed_trades_def simp del: fold.simps)
qed

lemma uat_users_can_log_in:
  assumes "db_faults db = []" "uat_names_free db" "(name, password) \<in> set uat_users"
  shows "\<exists>u. fst (authenticate_user pg name password (seeded db)) = Inr (Some u)"
proof -
  have "\<exists>u \<in> set (db_users (seeded db)). pu_username u = name \<and> pu_password u = password"
    using assms(3) by (auto simp: seeded_def seeded_server_def seeded_users_def uat_users_def)
  then have "find (\<lambda>u. pu_username u = name \<and> pu_password u = password) (db_users (seeded db)) \<noteq> None"
    by (auto simp: find_None_iff)
  moreover have "db_faults (seeded db) = []" using assms(1) by (simp add: seeded_def seeded_server_def seeded_users_def)
  ultimately show ?thesis by (auto simp: authenticate_user_def run_txn_no_fault t_select_def)
qed

text \<open>C31 (roundtrip). Started on any database the client can reach in which its names are free, the seeder succeeds, whatever
  QuestDB does: its three users can log in. Cleaning up then brings every table of PostgreSQL back to what it
  was. It does not bring back QuestDB: the 600 trades were written to the table \<open>trades\<close>, the truncated
  one carries the name of the server, so they are still there.\<close>

theorem cleanup_undoes_seed_but_for_the_trades:
  assumes "db_reachable pg (ua_core s)" "db_faults (ua_core s) = []" "uat_names_free (ua_core s)" "arrays_agree pg uat_symbols"
    and "ua_user_ids s = []" "ua_server_ids s = []" "draws_fit draws" "clock_fits now_us"
  shows "\<exists>s'. seed pg opened flushed now_us draws s = Inr (True, s') \<and>
    (\<forall>(name, password) \<in> set uat_users. \<exists>u. fst (authenticate_user pg name password (ua_core s')) = Inr (Some u)) \<and>
    tables (ua_core (cleanup pg SERVER_NAME s')) = tables (ua_core s) \<and>
    ua_user_ids (cleanup pg SERVER_NAME s') = [] \<and> ua_server_ids (cleanup pg SERVER_NAME s') = [] \<and>
    (opened \<and> flushed \<and> qs_tables (ua_quest s) ''trades'' = None \<longrightarrow>
      (\<exists>t. qs_tables (ua_quest (cleanup pg SERVER_NAME s')) ''trades'' = Some t \<and> length (qt_rows t) = 600))"
proof -
  have ok: "db_ok (ua_core s)" using assms(1) by (rule reachable_db_ok)
  obtain q where q: "seed_trades opened flushed now_us draws uat_symbols (ua_quest s) = Inr q"
    "opened \<and> flushed \<and> qs_tables (ua_quest s) ''trades'' = None \<longrightarrow> (\<exists>t. qs_tables q ''trades'' = Some t \<and> length (qt_rows t) = 600)"
    using seed_trades_returns [OF assms(7,8)] by blast
  let ?s = "s\<lparr>ua_core := seeded (ua_core s), ua_quest := q, ua_user_ids := new_uids (ua_core s),
    ua_server_ids := [db_next_server_id (ua_core s)]\<rparr>"
  have "seed pg opened flushed now_us draws s = Inr (True, ?s)"
    using seed_effect [OF ok assms(2-5) q(1)] assms(6) by simp
  moreover have "tables (ua_core (cleanup pg SERVER_NAME ?s)) = tables (ua_core s)"
    by (simp add: cleanup_def delete_seeded [OF ok assms(2)] tables_def)
  moreover have "\<forall>(name, password) \<in> set uat_users. \<exists>u. fst (authenticate_user pg name password (ua_core ?s)) = Inr (Some u)"
    using uat_users_can_log_in [OF assms(2,3)] by auto
  moreover have "opened \<and> flushed \<and> qs_tables (ua_quest s) ''trades'' = None \<longrightarrow>
      (\<exists>t. qs_tables (ua_quest (cleanup pg SERVER_NAME ?s)) ''trades'' = Some t \<and> length (qt_rows t) = 600)"
    using q(2) by (simp add: cleanup_keeps_trades)
  ultimately show ?thesis by (intro exI [of _ ?s]) (simp add: cleanup_def)
qed

definition demo_uat :: uat_state where
  "demo_uat = \<lparr>ua_core = empty_db, ua_quest = \<lparr>qs_tables = Map.empty, qs_faults = []\<rparr>, ua_user_ids = [], ua_server_ids = []\<rparr>"

definition demo_uat_draws :: "symbol_config \<Rightarrow> nat \<Rightarrow> uat_draw" where
  "demo_uat_draws sc i = \<lparr>ud_step = 25, ud_jitter = 7, ud_quantity = 3\<rparr>"

theorem cleanup_undoes_seed_but_for_the_trades_witness:
  "\<exists>s'. seed demo_pg True True 1750000000000000 demo_uat_draws demo_uat = Inr (True, s') \<and>
     tables (ua_core (cleanup demo_pg ''demo'' s')) = tables empty_db \<and>
     (\<exists>t. qs_tables (ua_quest (cleanup demo_pg ''demo'' s')) ''trades'' = Some t \<and> length (qt_rows t) = 600)"
proof -
  have "db_reachable demo_pg empty_db" by (rule db_reachable.start) (simp_all add: empty_db_def)
  moreover have "arrays_agree demo_pg uat_symbols"
    by (simp add: arrays_agree_def demo_pg_def parse_build plain_def uat_symbols_def)
  moreover have "draws_fit demo_uat_draws" by (simp add: draws_fit_def demo_uat_draws_def step_us_def two_hours_us_def n_trades_def)
  ultimately show ?thesis
    using cleanup_undoes_seed_but_for_the_trades [of demo_pg demo_uat demo_uat_draws 1750000000000000 True True "''demo''"]
    by (auto simp: demo_uat_def uat_names_free_def clock_fits_def two_hours_us_def empty_db_def)
qed

end
