(* ===== verification/Spec2Isabelle.thy ===== *)
theory Spec2Isabelle
  imports Exchange Spinlock Uuid CoreText InformedTrader NoiseTrader OmDatabase BackendDemo UatSeeder
begin

text \<open>
  A verification library for the trading exchange in this repository, a set of C++ services.

  \<^bold>\<open>The program.\<close> A FIX gateway (\<open>services/gateway\<close>) turns the messages of the clients into containers
  (\<open>libs/core\<close>), which travel as protobuf messages (\<open>libs/transport/messaging.h\<close>) over websockets
  (\<open>libs/transport/websocket\<close>) to the order manager (\<open>services/order_manager\<close>). The order manager numbers and
  validates them against the balances of the clients, reserves what they may spend, and passes them to
  the matching engine (\<open>services/matching_engine\<close>), which keeps one limit order book per symbol. Trades and
  cancellations go back to the order manager, which settles them and reports to the clients through
  the gateway; trades and snapshots of the books also go through ring buffers in shared memory
  (\<open>libs/inter_process\<close>) to the market data processor (\<open>services/market_data_processor\<close>), which broadcasts
  them as JSON. Users, servers, balances and endpoints are kept in PostgreSQL, orders and trades in QuestDB,
  both behind one client (\<open>libs/database\<close>). The backend (\<open>services/backend_service\<close>) answers the HTTP
  requests of the frontend: it signs users up, creates a server with its members, balances and services,
  changes it and removes it. On the other side of the gateway stand the FIX client library
  (\<open>client_sdk\<close>) and the traders built on it (\<open>simulation/traders\<close>): market maker, informed trader, noise
  trader, and the oracle that tells the informed trader a price.

  \<^bold>\<open>How it is modelled.\<close> Structs are records, enumerations datatypes, methods functions from the old state
  to the new one. A call that returns is \<open>Inr\<close>; \<open>Inl e\<close> is a call that throws, fails a contract or an
  assertion, or has undefined behaviour, and \<open>e\<close> says which. Values of 32 and 64 bit integer types are
  integers whose every operation is checked for overflow (\<open>i32\<close>, \<open>i64\<close>), positions in the ring buffer are
  64 bit words, doubles are the rational numbers they stand for with the rounding written out.
  Libraries outside the repository (QuickFIX, protobuf, websocketpp, Boost's and nlohmann's JSON, the
  operating system, clocks, random numbers and UUIDs) are arguments of the definitions, and what a theorem
  needs of them is one of its hypotheses. An SQL statement is the function of the tables that its text
  denotes, with the keys, references and checks of the schema; a transaction commits or is rolled back,
  and connections may be lost at any of them.

  \<^bold>\<open>The theories\<close>, in the order in which they build on each other:

  \<^item> \<open>Prelude\<close>: results, checked integers, sorted maps, C strings. \<open>Text\<close>: decimal text, \<open>std::stoi\<close>, \<open>std::stoll\<close>.
    \<open>Double\<close>: IEEE rounding and the price conversions of \<open>orders.h\<close>, with the bound on what a conversion
    loses. \<open>FloatOps\<close>: double arithmetic as exact operations followed by that rounding, which is monotone.
  \<^item> \<open>CoreTypes\<close>, \<open>CoreText\<close>: \<open>libs/core\<close>, the data every service shares, its constructors, FIX conversions
    and text. \<open>Uuid\<close>: the text of a UUID, \<open>libs/uuid\<close>.
  \<^item> \<open>LimitOrderBook\<close>: \<open>limit_order_book.cpp\<close>, \<open>order.cpp\<close>, the whole class with its index of iterators into the
    price levels. \<open>LobMatching\<close>, \<open>LobInvariant\<close>, \<open>LobCancel\<close>, \<open>LobQueries\<close>: its lemmas. \<open>LobSpec\<close>: the
    abstract book, two lists of orders by price and time. \<open>LobProperties\<close>: the invariant, the refinement,
    priority, conservation, limits, cancelling and snapshots.
  \<^item> \<open>RingBuffer\<close>, \<open>RingConcurrent\<close>, \<open>RingProperties\<close>: the lock-free queue of many producers and one consumer,
    as atomic actions of any number of threads, with the proof that it is a bounded queue under every
    interleaving. \<open>SharedMemory\<close>: the handle that maps it, and the blocking push.
  \<^item> \<open>Fifo\<close>: the interface of a queue as locales, interpreted by \<open>ThreadSafeQueue\<close>
    (\<open>libs/core/thread_safe_queue.h\<close>) and by the ring buffer; \<open>TradeFeed\<close>: the feed of the book's trades.
    \<open>Spinlock\<close>: \<open>libs/core/spinlock_mutex.h\<close>, whose condition is inverted.
  \<^item> \<open>Messaging\<close>: serialising and deserialising containers. \<open>Channel\<close>: the interface of numbered connections
    as locales. \<open>Websocket\<close>, \<open>WsProperties\<close>: connection objects, manager, server and client, which implement
    it.
  \<^item> \<open>MatchingEngine\<close>, \<open>MeProperties\<close>: \<open>matching_engine.cpp\<close>, construction, the handlers of the three requests,
    the snapshot flush and one iteration of the loop.
  \<^item> \<open>BalanceChecker\<close>, \<open>OrderManager\<close>: \<open>balance_checker.cpp\<close> and \<open>order_manager.cpp\<close>, start-up, preprocessing,
    validation, forwarding, settlement, reports and persistence. \<open>OmLedger\<close>: what each operation does to
    the balances. \<open>OmRun\<close>: runs of the service with what its open orders hold. \<open>OmProperties\<close>: conservation
    of value, reservation, settlement, refunds, ids, rejections and start-up.
  \<^item> \<open>Exchange\<close>: order manager and matching engine together: what is quoted for a market order is what it
    costs, and an invalid market bid ends the engine before it is validated.
  \<^item> \<open>Gateway\<close>, \<open>GatewayProperties\<close>: \<open>gateway_application.cpp\<close>: what it passes on is what the order manager's
    accounting assumes of it (\<open>from_gateway\<close>).
  \<^item> \<open>MarketData\<close>: JSON of trades and snapshots and the market data processor, a client of the queue and
    the channel interfaces.
  \<^item> \<open>FixClient\<close>: \<open>client_sdk/src/fix_client.cpp\<close>, connecting, requests and callbacks, up to the round trip of an
    order through the gateway. \<open>MdHandler\<close>: the market data handler of the traders, which refines a plain
    log of the feed. \<open>MarketMaker\<close>, \<open>InformedTrader\<close>, \<open>NoiseTrader\<close>, \<open>Oracle\<close>: \<open>simulation/traders\<close>, quotes,
    limits, prices.
  \<^item> \<open>CoreDb\<close>, \<open>DbClient\<close>: the PostgreSQL tables and the member functions of \<open>database_client.h\<close> as transactions over
    them. \<open>DbProperties\<close>: the schema holds in every database they reach. \<open>DbServers\<close>: creating, reading back,
    changing and deleting a server. \<open>TimeSeries\<close>: the writer thread, the QuestDB tables and queries. QuestDB is
    taken as it is documented: rows that were sent become visible later and in any order, a table is kept by
    its timestamps, a query without \<open>ORDER BY\<close> promises no order; which calls of its line sender throw is
    an argument.
    \<open>OmDatabase\<close>: the order manager's persistence on this client.
  \<^item> \<open>Http\<close>: JSON values, requests, and handlers that may return early, with a locale for what every handler
    keeps. \<open>BackendQueries\<close>, \<open>BackendPlan\<close>, \<open>BackendCreate\<close>, \<open>Backend\<close>: \<open>request_handler.cpp\<close>, the \<open>GET\<close> routes,
    parsing and carrying out the creation of a server, the other \<open>POST\<close> routes and the routing.
    \<open>BackendInvariant\<close>, \<open>BackendRows\<close>, \<open>BackendProperties\<close>, \<open>BackendAccess\<close>: what every handler keeps of the
    database, which rows a created server has, who may change one, which ports it gets. \<open>BackendDemo\<close>: these theorems on a
    concrete backend. \<open>UatSeeder\<close>: \<open>uat_seeder.h\<close>, test data and its removal.

  \<^bold>\<open>Loops and bounds.\<close> Loops over lists, price levels and orders are structural recursions or functions with
  a termination measure, the search for a free port among them. The loops that may not end are \<open>try_push\<close> (whose weak compare-and-exchange may
  fail spuriously), \<open>push_blocking\<close>, the spin lock, the wait of the FIX client for its logon and the wait for a fill cost:
  they are partial functions into
  \<open>option\<close>, and the theorems that they return say under which condition. The services' endless loops
  are modelled as one iteration each and the properties are about every sequence of iterations. The ring
  buffer's theorems hold as long as fewer than \<open>2 ^ 63\<close> positions were claimed, the least number at which
  its signed difference could overflow.

  \<^bold>\<open>What is left out.\<close> Logging, reading configuration files, thread creation and destructors that only
  close connections; the memory order of the atomics (actions are sequentially consistent); the data races
  between the websocket thread and the services' own threads, which use the maps of the websocket manager
  and the order manager's list of gateways without a lock: each operation on them is one step here; the end
  of the range of \<open>SERIAL\<close> ids; texts that are not valid UTF-8, on which dumping JSON would throw; the
  delay until the rows of the UAT seeder are ingested; the sockets and session threads of the backend, whose requests are taken one after the other, and
  the pauses between its deployments; starting and joining the threads of the traders; the programs under
  \<open>simulation/deployment\<close> and \<open>deployment_server.py\<close>, which read a configuration and start processes; the
  generator behind the UUIDs.
\<close>

end
